(* ===== verification/Coil_Prelude.thy ===== *)
theory Coil_Prelude
  imports Main "HOL-Library.AList" "HOL-Library.Multiset" "HOL-Library.Code_Target_Nat"
begin

text \<open>
  What every component theory shares: the values of Go errors, the result of a call that may
  return an error or panic, the state monad in which the handlers are written, its weakest
  precondition calculus, and Go maps as association lists with an explicit iteration order.
\<close>

named_theorems wp_simps \<open>weakest preconditions of the combinators\<close>
named_theorems keeps_intros \<open>invariants of the combinators\<close>
named_theorems pk_intros \<open>invariants of the combinators, when they return\<close>

section \<open>Go errors\<close>

text \<open>
  An error value is a sentinel compared with \<open>errors.Is\<close>, a Kubernetes \<open>StatusError\<close>, a plain
  message, a wrapper built by \<open>fmt.Errorf\<close> with one or more \<open>%w\<close> verbs, or a gRPC status that
  carries one \<open>cnirpc.CNIError\<close>.
\<close>

datatype sentinel =
    ErrNoBlock
  | FouErrIPFamilyMismatch
  | NatErrIPFamilyMismatch
  | ErrPodNetConfNotReady
  | NodenetErrNotFound
  | DeadlineExceeded
  | Canceled
  | ErrDumpInterrupted
  | LinkNotFoundError
  | OsErrNotExist
  | ENODEV
  | EEXIST
  | ENOENT

datatype api_reason = ReasonNotFound | ReasonAlreadyExists | ReasonConflict | ReasonInvalid | ReasonOther

datatype grpc_code = CodeInternal | CodeInvalidArgument | CodeNotFound | CodeFailedPrecondition

datatype cni_code = CNI_INTERNAL | CNI_INVALID_ENVIRONMENT_VARIABLES | CNI_UNKNOWN_CONTAINER

datatype error =
    Sentinel sentinel
  | StatusError api_reason string
  | ErrorMsg string
  | Wrap string "error list"
  | RpcStatus grpc_code cni_code string string

fun errors_Is :: "error \<Rightarrow> sentinel \<Rightarrow> bool" where
  "errors_Is (Sentinel t) s = (t = s)"
| "errors_Is (Wrap _ es) s = list_ex (\<lambda>e. errors_Is e s) es"
| "errors_Is _ s = False"

text \<open>\<open>apierrors.ReasonForError\<close>: the reason of the first status error in the chain.\<close>

fun first_some :: "'a option list \<Rightarrow> 'a option" where
  "first_some [] = None"
| "first_some (Some x # _) = Some x"
| "first_some (None # xs) = first_some xs"

fun ReasonForError :: "error \<Rightarrow> api_reason option" where
  "ReasonForError (StatusError r _) = Some r"
| "ReasonForError (Wrap _ es) = first_some (map ReasonForError es)"
| "ReasonForError _ = None"

definition IsNotFound :: "error \<Rightarrow> bool" where
  "IsNotFound e \<longleftrightarrow> ReasonForError e = Some ReasonNotFound"

definition IsConflict :: "error \<Rightarrow> bool" where
  "IsConflict e \<longleftrightarrow> ReasonForError e = Some ReasonConflict"

definition sentinel_text :: "sentinel \<Rightarrow> string" where
  "sentinel_text s = (case s of
      ErrNoBlock \<Rightarrow> ''out of blocks''
    | FouErrIPFamilyMismatch \<Rightarrow> ''no matching IP family''
    | NatErrIPFamilyMismatch \<Rightarrow> ''no matching IP family''
    | ErrPodNetConfNotReady \<Rightarrow> ''pod network configuration not ready''
    | NodenetErrNotFound \<Rightarrow> ''not found''
    | DeadlineExceeded \<Rightarrow> ''context deadline exceeded''
    | Canceled \<Rightarrow> ''context canceled''
    | ErrDumpInterrupted \<Rightarrow> ''results may be incomplete or inconsistent''
    | LinkNotFoundError \<Rightarrow> ''Link not found''
    | OsErrNotExist \<Rightarrow> ''file does not exist''
    | ENODEV \<Rightarrow> ''no such device''
    | EEXIST \<Rightarrow> ''file exists''
    | ENOENT \<Rightarrow> ''no such file or directory'')"

definition code_text :: "grpc_code \<Rightarrow> string" where
  "code_text c = (case c of CodeInternal \<Rightarrow> ''Internal'' | CodeInvalidArgument \<Rightarrow> ''InvalidArgument''
    | CodeNotFound \<Rightarrow> ''NotFound'' | CodeFailedPrecondition \<Rightarrow> ''FailedPrecondition'')"

text \<open>The text of an error; a wrapper prints its prefix and the wrapped errors after colons.\<close>

fun Error :: "error \<Rightarrow> string" where
  "Error (Sentinel s) = sentinel_text s"
| "Error (StatusError _ m) = m"
| "Error (ErrorMsg m) = m"
| "Error (Wrap m es) = m @ concat (map (\<lambda>e. '': '' @ Error e) es)"
| "Error (RpcStatus c _ m _) = ''rpc error: code = '' @ code_text c @ '' desc = '' @ m"

lemma errors_Is_Wrap1 [simp]: "errors_Is (Wrap m [e]) s = errors_Is e s"
  by simp

lemma IsNotFound_simps [simp]:
  "IsNotFound (StatusError r m) \<longleftrightarrow> r = ReasonNotFound"
  "\<not> IsNotFound (Sentinel s)"
  "\<not> IsNotFound (ErrorMsg m)"
  "\<not> IsNotFound (RpcStatus c d m t)"
  "IsNotFound (Wrap m [e]) \<longleftrightarrow> IsNotFound e"
  by (auto simp: IsNotFound_def split: option.splits) (cases "ReasonForError e"; simp)+

section \<open>Results and the state monad\<close>

text \<open>
  A call returns a value, returns a non-nil error, or panics. A caller that ignores an error
  does not stop a panic.
\<close>

datatype 'a res = Ok 'a | Err error | Panic string

text \<open>
  An action on a state \<open>'s\<close>: the memory of the component together with the world outside it
  (the API server, the kernel).
\<close>

type_synonym ('s, 'a) act = "'s \<Rightarrow> 'a res \<times> 's"

definition returnA :: "'a \<Rightarrow> ('s, 'a) act" where
  "returnA x = (\<lambda>s. (Ok x, s))"

definition errA :: "error \<Rightarrow> ('s, 'a) act" where
  "errA e = (\<lambda>s. (Err e, s))"

definition panicA :: "string \<Rightarrow> ('s, 'a) act" where
  "panicA m = (\<lambda>s. (Panic m, s))"

definition bindA :: "('s, 'a) act \<Rightarrow> ('a \<Rightarrow> ('s, 'b) act) \<Rightarrow> ('s, 'b) act" where
  "bindA m k = (\<lambda>s. case m s of
      (Ok x, s') \<Rightarrow> k x s'
    | (Err e, s') \<Rightarrow> (Err e, s')
    | (Panic p, s') \<Rightarrow> (Panic p, s'))"

text \<open>\<open>x, err := m\<close>: the error becomes a value the caller inspects; a panic still propagates.\<close>

definition tryA :: "('s, 'a) act \<Rightarrow> ('s, error + 'a) act" where
  "tryA m = (\<lambda>s. case m s of
      (Ok x, s') \<Rightarrow> (Ok (Inr x), s')
    | (Err e, s') \<Rightarrow> (Ok (Inl e), s')
    | (Panic p, s') \<Rightarrow> (Panic p, s'))"

text \<open>\<open>if err != nil { return fmt.Errorf("msg: %w", err) }\<close>.\<close>

definition wrapA :: "string \<Rightarrow> ('s, 'a) act \<Rightarrow> ('s, 'a) act" where
  "wrapA msg m = (\<lambda>s. case m s of
      (Ok x, s') \<Rightarrow> (Ok x, s')
    | (Err e, s') \<Rightarrow> (Err (Wrap msg [e]), s')
    | (Panic p, s') \<Rightarrow> (Panic p, s'))"

definition getA :: "('s, 's) act" where
  "getA = (\<lambda>s. (Ok s, s))"

definition modifyA :: "('s \<Rightarrow> 's) \<Rightarrow> ('s, unit) act" where
  "modifyA f = (\<lambda>s. (Ok (), f s))"

definition resA :: "'a res \<Rightarrow> ('s, 'a) act" where
  "resA r = (\<lambda>s. (r, s))"

text \<open>An action of the outside world, run by a component with memory \<open>'m\<close>.\<close>

definition liftW :: "('w, 'a) act \<Rightarrow> ('m \<times> 'w, 'a) act" where
  "liftW f = (\<lambda>(m, w). case f w of (r, w') \<Rightarrow> (r, (m, w')))"

fun foreachA :: "('x \<Rightarrow> ('s, unit) act) \<Rightarrow> 'x list \<Rightarrow> ('s, unit) act" where
  "foreachA f [] = returnA ()"
| "foreachA f (x # xs) = bindA (f x) (\<lambda>_. foreachA f xs)"

text \<open>Pure results compose the same way.\<close>

fun bindR :: "'a res \<Rightarrow> ('a \<Rightarrow> 'b res) \<Rightarrow> 'b res" where
  "bindR (Ok x) k = k x"
| "bindR (Err e) k = Err e"
| "bindR (Panic p) k = Panic p"

section \<open>Weakest preconditions\<close>

text \<open>
  \<open>wp m Q E s\<close>: run from \<open>s\<close>, the action does not panic, a normal return satisfies \<open>Q\<close> and an
  error return satisfies \<open>E\<close>.
\<close>

definition wp :: "('s, 'a) act \<Rightarrow> ('a \<Rightarrow> 's \<Rightarrow> bool) \<Rightarrow> (error \<Rightarrow> 's \<Rightarrow> bool) \<Rightarrow> 's \<Rightarrow> bool" where
  "wp m Q E s = (case m s of
      (Ok x, s') \<Rightarrow> Q x s'
    | (Err e, s') \<Rightarrow> E e s'
    | (Panic p, s') \<Rightarrow> False)"

lemma wp_returnA [wp_simps]: "wp (returnA x) Q E s = Q x s"
  by (simp add: wp_def returnA_def)

lemma wp_errA [wp_simps]: "wp (errA e) Q E s = E e s"
  by (simp add: wp_def errA_def)

lemma wp_panicA [wp_simps]: "wp (panicA p) Q E s = False"
  by (simp add: wp_def panicA_def)

lemma wp_bindA [wp_simps]: "wp (bindA m k) Q E s = wp m (\<lambda>x. wp (k x) Q E) E s"
  by (auto simp: wp_def bindA_def split: prod.splits res.splits)

lemma wp_tryA [wp_simps]: "wp (tryA m) Q E s = wp m (\<lambda>x. Q (Inr x)) (\<lambda>e. Q (Inl e)) s"
  by (auto simp: wp_def tryA_def split: prod.splits res.splits)

lemma wp_wrapA [wp_simps]: "wp (wrapA msg m) Q E s = wp m Q (\<lambda>e. E (Wrap msg [e])) s"
  by (auto simp: wp_def wrapA_def split: prod.splits res.splits)

lemma wp_getA [wp_simps]: "wp getA Q E s = Q s s"
  by (simp add: wp_def getA_def)

lemma wp_modifyA [wp_simps]: "wp (modifyA f) Q E s = Q () (f s)"
  by (simp add: wp_def modifyA_def)

lemma wp_resA [wp_simps]:
  "wp (resA r) Q E s = (case r of Ok x \<Rightarrow> Q x s | Err e \<Rightarrow> E e s | Panic p \<Rightarrow> False)"
  by (simp add: wp_def resA_def)

lemma wp_liftW [wp_simps]:
  "wp (liftW f) Q E (m, w) = wp f (\<lambda>x w'. Q x (m, w')) (\<lambda>e w'. E e (m, w')) w"
  by (auto simp: wp_def liftW_def split: prod.splits res.splits)

lemma wp_mono:
  assumes "wp m Q E s"
    and "\<And>x s'. Q x s' \<Longrightarrow> Q' x s'"
    and "\<And>e s'. E e s' \<Longrightarrow> E' e s'"
  shows "wp m Q' E' s"
  using assms by (auto simp: wp_def split: prod.splits res.splits)

lemma wp_conj:
  assumes "wp m Q E s" and "wp m Q' E' s"
  shows "wp m (\<lambda>x s'. Q x s' \<and> Q' x s') (\<lambda>e s'. E e s' \<and> E' e s') s"
  using assms by (auto simp: wp_def split: prod.splits res.splits)

text \<open>The loop rule: an invariant of the body is an invariant of the loop.\<close>

lemma wp_foreachA:
  assumes "\<And>x s'. x \<in> set xs \<Longrightarrow> I s' \<Longrightarrow> wp (f x) (\<lambda>_. I) E s'"
    and "I s"
  shows "wp (foreachA f xs) (\<lambda>_. I) E s"
  using assms
proof (induction xs arbitrary: s)
  case Nil
  then show ?case by (simp add: wp_simps)
next
  case (Cons x xs)
  have "wp (f x) (\<lambda>_. I) E s" using Cons.prems by simp
  then have "wp (f x) (\<lambda>_ s'. wp (foreachA f xs) (\<lambda>_. I) E s') E s"
    by (rule wp_mono) (auto intro!: Cons.IH intro: Cons.prems(1))
  then show ?case by (simp add: wp_simps)
qed

lemma wp_OkD: "wp m Q E s \<Longrightarrow> m s = (Ok x, s') \<Longrightarrow> Q x s'"
  by (simp add: wp_def)

lemma wp_ErrD: "wp m Q E s \<Longrightarrow> m s = (Err e, s') \<Longrightarrow> E e s'"
  by (simp add: wp_def)

lemma wp_PanicD: "wp m Q E s \<Longrightarrow> m s \<noteq> (Panic p, s')"
  by (auto simp: wp_def)

lemmas act_defs = returnA_def errA_def panicA_def bindA_def tryA_def wrapA_def getA_def
  modifyA_def resA_def liftW_def

lemma bindA_Ok_iff:
  "bindA m k s = (Ok y, s') \<longleftrightarrow> (\<exists>x s''. m s = (Ok x, s'') \<and> k x s'' = (Ok y, s'))"
  by (auto simp: bindA_def split: prod.splits res.splits)

lemma wrapA_Ok_iff: "wrapA t m s = (Ok y, s') \<longleftrightarrow> m s = (Ok y, s')"
  by (auto simp: wrapA_def split: prod.splits res.splits)

lemma foreachA_filter: "foreachA (\<lambda>x. if P x then f x else returnA ()) xs = foreachA f (filter P xs)"
  by (induction xs) (auto simp: bindA_def returnA_def)

lemma foreachA_cong: "(\<And>x. x \<in> set xs \<Longrightarrow> f x = g x) \<Longrightarrow> foreachA f xs = foreachA g xs"
  by (induction xs) auto

lemma bindA_getA [simp]: "bindA getA k s = k s s"
  by (simp add: bindA_def getA_def)

lemma bindA_returnA [simp]: "bindA (returnA x) k = k x"
  by (simp add: bindA_def returnA_def)

section \<open>Invariants of actions\<close>

text \<open>\<open>keeps I m\<close>: however the action ends, by a return, an error or a panic, it leaves a state that
  satisfies \<open>I\<close> if it started in one.\<close>

definition keeps :: "('s \<Rightarrow> bool) \<Rightarrow> ('s, 'a) act \<Rightarrow> bool" where
  "keeps I m \<longleftrightarrow> (\<forall>s. I s \<longrightarrow> I (snd (m s)))"

lemma keepsI: "(\<And>s r s'. I s \<Longrightarrow> m s = (r, s') \<Longrightarrow> I s') \<Longrightarrow> keeps I m"
  by (metis keeps_def prod.collapse)

lemma keepsD: "keeps I m \<Longrightarrow> I s \<Longrightarrow> m s = (r, s') \<Longrightarrow> I s'"
  by (metis keeps_def snd_conv)

lemma keeps_returnA [keeps_intros]: "keeps I (returnA x)"
  by (simp add: keeps_def returnA_def)

lemma keeps_errA [keeps_intros]: "keeps I (errA e)"
  by (simp add: keeps_def errA_def)

lemma keeps_panicA [keeps_intros]: "keeps I (panicA e)"
  by (simp add: keeps_def panicA_def)

lemma keeps_resA [keeps_intros]: "keeps I (resA r)"
  by (simp add: keeps_def resA_def)

lemma keeps_getA [keeps_intros]: "keeps I getA"
  by (simp add: keeps_def getA_def)

lemma keeps_modifyA: "(\<And>s. I s \<Longrightarrow> I (f s)) \<Longrightarrow> keeps I (modifyA f)"
  by (simp add: keeps_def modifyA_def)

lemma keeps_bindA [keeps_intros]: "keeps I m \<Longrightarrow> (\<And>x. keeps I (k x)) \<Longrightarrow> keeps I (bindA m k)"
  by (auto simp: keeps_def bindA_def split: prod.splits res.splits)

lemma keeps_tryA [keeps_intros]: "keeps I m \<Longrightarrow> keeps I (tryA m)"
  by (auto simp: keeps_def tryA_def split: prod.splits res.splits)

lemma keeps_wrapA [keeps_intros]: "keeps I m \<Longrightarrow> keeps I (wrapA e m)"
  by (auto simp: keeps_def wrapA_def split: prod.splits res.splits)

lemma keeps_liftW: "(\<And>c. keeps (\<lambda>w. I (c, w)) f) \<Longrightarrow> keeps I (liftW f)"
  by (auto simp: keeps_def liftW_def split: prod.splits) (metis snd_conv)

lemma keeps_foreachA [keeps_intros]: "(\<And>x. x \<in> set xs \<Longrightarrow> keeps I (f x)) \<Longrightarrow> keeps I (foreachA f xs)"
  by (induction xs) (auto intro: keeps_intros)

lemma keeps_if [keeps_intros]: "(b \<Longrightarrow> keeps I m) \<Longrightarrow> (\<not> b \<Longrightarrow> keeps I n) \<Longrightarrow> keeps I (if b then m else n)"
  by simp

lemma keeps_option [keeps_intros]:
  "(x = None \<Longrightarrow> keeps I m) \<Longrightarrow> (\<And>y. x = Some y \<Longrightarrow> keeps I (f y)) \<Longrightarrow> keeps I (case x of None \<Rightarrow> m | Some y \<Rightarrow> f y)"
  by (cases x) auto

lemma keeps_sum [keeps_intros]:
  "(\<And>y. x = Inl y \<Longrightarrow> keeps I (f y)) \<Longrightarrow> (\<And>y. x = Inr y \<Longrightarrow> keeps I (g y)) \<Longrightarrow>
    keeps I (case x of Inl y \<Rightarrow> f y | Inr y \<Rightarrow> g y)"
  by (cases x) auto

lemma keeps_prod [keeps_intros]: "(\<And>a b. x = (a, b) \<Longrightarrow> keeps I (f a b)) \<Longrightarrow> keeps I (case x of (a, b) \<Rightarrow> f a b)"
  by (cases x) auto

lemma keeps_conj: "keeps I m \<Longrightarrow> keeps J m \<Longrightarrow> keeps (\<lambda>s. I s \<and> J s) m"
  by (simp add: keeps_def)

text \<open>\<open>outcome m Q E P s\<close>: a return satisfies \<open>Q\<close>, an error \<open>E\<close>, a panic \<open>P\<close>.\<close>

definition outcome :: "('s, 'a) act \<Rightarrow> ('a \<Rightarrow> 's \<Rightarrow> bool) \<Rightarrow> (error \<Rightarrow> 's \<Rightarrow> bool) \<Rightarrow> ('s \<Rightarrow> bool) \<Rightarrow> 's \<Rightarrow> bool" where
  "outcome m Q E P s = (case m s of (Ok x, s') \<Rightarrow> Q x s' | (Err e, s') \<Rightarrow> E e s' | (Panic p, s') \<Rightarrow> P s')"

lemma outcome_returnA [wp_simps]: "outcome (returnA x) Q E P s = Q x s"
  by (simp add: outcome_def returnA_def)

lemma outcome_errA [wp_simps]: "outcome (errA e) Q E P s = E e s"
  by (simp add: outcome_def errA_def)

lemma outcome_panicA [wp_simps]: "outcome (panicA p) Q E P s = P s"
  by (simp add: outcome_def panicA_def)

lemma outcome_getA [wp_simps]: "outcome getA Q E P s = Q s s"
  by (simp add: outcome_def getA_def)

lemma outcome_modifyA [wp_simps]: "outcome (modifyA f) Q E P s = Q () (f s)"
  by (simp add: outcome_def modifyA_def)

lemma outcome_resA [wp_simps]: "outcome (resA r) Q E P s = (case r of Ok x \<Rightarrow> Q x s | Err e \<Rightarrow> E e s | Panic p \<Rightarrow> P s)"
  by (simp add: outcome_def resA_def)

lemma outcome_bindA [wp_simps]: "outcome (bindA m k) Q E P s = outcome m (\<lambda>x. outcome (k x) Q E P) E P s"
  by (auto simp: outcome_def bindA_def split: prod.splits res.splits)

lemma outcome_tryA [wp_simps]: "outcome (tryA m) Q E P s = outcome m (\<lambda>x. Q (Inr x)) (\<lambda>e. Q (Inl e)) P s"
  by (auto simp: outcome_def tryA_def split: prod.splits res.splits)

lemma outcome_wrapA [wp_simps]: "outcome (wrapA t m) Q E P s = outcome m Q (\<lambda>e. E (Wrap t [e])) P s"
  by (auto simp: outcome_def wrapA_def split: prod.splits res.splits)

lemma outcome_liftW [wp_simps]:
  "outcome (liftW f) Q E P (c, w) = outcome f (\<lambda>x w'. Q x (c, w')) (\<lambda>e w'. E e (c, w')) (\<lambda>w'. P (c, w')) w"
  by (auto simp: outcome_def liftW_def split: prod.splits res.splits)

lemma liftW_bindA: "liftW (bindA m k) = bindA (liftW m) (\<lambda>x. liftW (k x))"
  by (auto simp: liftW_def bindA_def fun_eq_iff split: prod.splits res.splits)

lemma outcome_mono:
  assumes "outcome m Q E P s"
    and "\<And>x s'. Q x s' \<Longrightarrow> Q' x s'" and "\<And>e s'. E e s' \<Longrightarrow> E' e s'" and "\<And>s'. P s' \<Longrightarrow> P' s'"
  shows "outcome m Q' E' P' s"
  using assms by (auto simp: outcome_def split: prod.splits res.splits)

lemma outcome_foreachA:
  assumes "\<And>x s'. x \<in> set xs \<Longrightarrow> I s' \<Longrightarrow> outcome (f x) (\<lambda>_. I) E P s'"
    and "I s"
  shows "outcome (foreachA f xs) (\<lambda>_. I) E P s"
  using assms
proof (induction xs arbitrary: s)
  case (Cons x xs)
  have "outcome (f x) (\<lambda>_. I) E P s" using Cons.prems by simp
  then have "outcome (f x) (\<lambda>_ s'. outcome (foreachA f xs) (\<lambda>_. I) E P s') E P s"
    by (rule outcome_mono) (auto intro!: Cons.IH intro: Cons.prems(1))
  then show ?case by (simp add: wp_simps)
qed (simp add: wp_simps)

lemma outcome_call:
  assumes "\<And>r s'. m s = (r, s') \<Longrightarrow> (case r of Ok x \<Rightarrow> Q x s' | Err e \<Rightarrow> E e s' | Panic p \<Rightarrow> P s')"
  shows "outcome m Q E P s"
  using assms by (simp add: outcome_def split: prod.splits)

lemma keeps_outcome: "keeps I m \<longleftrightarrow> (\<forall>s. I s \<longrightarrow> outcome m (\<lambda>_. I) (\<lambda>_. I) I s)"
  by (auto simp: keeps_def outcome_def split: prod.splits res.splits) (metis res.exhaust snd_conv surj_pair)

lemma outcome_keeps: "keeps I m \<Longrightarrow> I s \<Longrightarrow> outcome m (\<lambda>_. I) (\<lambda>_. I) I s"
  by (simp add: keeps_outcome)

text \<open>What API calls promise of a view of the world: \<open>leaves v m\<close>, the call does not change the view;
  \<open>touches v n m\<close>, of the objects in the view it changes at most the one named \<open>n\<close>, and creates none;
  \<open>retries R\<close>, a retry helper runs its function some number of times.\<close>

definition leaves :: "('w \<Rightarrow> 'v) \<Rightarrow> ('w, 'a) act \<Rightarrow> bool" where
  "leaves v m \<longleftrightarrow> (\<forall>w r w'. m w = (r, w') \<longrightarrow> v w' = v w)"

definition touches :: "('w \<Rightarrow> 'k \<Rightarrow> 'v option) \<Rightarrow> 'k \<Rightarrow> ('w, 'a) act \<Rightarrow> bool" where
  "touches v n m \<longleftrightarrow> (\<forall>w r w' k. m w = (r, w') \<longrightarrow> k \<noteq> n \<or> v w k = None \<longrightarrow> v w' k = v w k)"

definition retries :: "(('s, 'a) act \<Rightarrow> ('s, 'a) act) \<Rightarrow> bool" where
  "retries R \<longleftrightarrow> (\<forall>I f. keeps I f \<longrightarrow> keeps I (R f))"

lemma leavesD: "leaves v m \<Longrightarrow> m w = (r, w') \<Longrightarrow> v w' = v w"
  unfolding leaves_def by blast

lemma leaves_keeps: "leaves v m \<Longrightarrow> keeps (\<lambda>w. I (v w)) m"
  by (rule keepsI) (drule (1) leavesD, simp)

lemma touches_keeps: "touches v n m \<Longrightarrow> k \<noteq> n \<or> x = None \<Longrightarrow> keeps (\<lambda>w. v w k = x) m"
  unfolding touches_def by (rule keepsI) metis

lemma retries_keeps: "retries R \<Longrightarrow> keeps I f \<Longrightarrow> keeps I (R f)"
  unfolding retries_def by blast

lemma retries_id [simp]: "retries (\<lambda>f. f)"
  by (simp add: retries_def)

section \<open>Partial correctness\<close>

text \<open>\<open>post m Q w\<close>: a return satisfies \<open>Q\<close>; nothing is said of errors and panics.\<close>

abbreviation post :: "('w, 'a) act \<Rightarrow> ('a \<Rightarrow> 'w \<Rightarrow> bool) \<Rightarrow> 'w \<Rightarrow> bool" where
  "post m Q w \<equiv> outcome m Q (\<lambda>_ _. True) (\<lambda>_. True) w"

lemma post_mono: "post m Q w \<Longrightarrow> (\<And>x w'. Q x w' \<Longrightarrow> Q' x w') \<Longrightarrow> post m Q' w"
  by (erule outcome_mono) simp_all

lemma post_bindA: "post m P w \<Longrightarrow> (\<And>x w'. P x w' \<Longrightarrow> post (k x) Q w') \<Longrightarrow> post (bindA m k) Q w"
  unfolding outcome_bindA by (rule outcome_mono)

lemma post_OkD: "post m Q w \<Longrightarrow> m w = (Ok x, w') \<Longrightarrow> Q x w'"
  by (simp add: outcome_def)

lemma post_OkI: "(\<And>x w'. m w = (Ok x, w') \<Longrightarrow> Q x w') \<Longrightarrow> post m Q w"
  by (simp add: outcome_def split: prod.splits res.splits)

text \<open>\<open>pk I R m\<close>: if the action returns, it keeps \<open>I\<close> and its value satisfies \<open>R\<close>.\<close>

definition pk :: "('w \<Rightarrow> bool) \<Rightarrow> ('a \<Rightarrow> bool) \<Rightarrow> ('w, 'a) act \<Rightarrow> bool" where
  "pk I R m \<longleftrightarrow> (\<forall>w. I w \<longrightarrow> post m (\<lambda>x w'. I w' \<and> R x) w)"

lemma pkD: "pk I R m \<Longrightarrow> I w \<Longrightarrow> post m (\<lambda>x w'. I w' \<and> R x) w"
  by (simp add: pk_def)

lemma pk_returnA [pk_intros]: "R x \<Longrightarrow> pk I R (returnA x)"
  by (simp add: pk_def wp_simps)

lemma pk_errA [pk_intros]: "pk I R (errA e)"
  by (simp add: pk_def wp_simps)

lemma pk_bindA [pk_intros]: "pk I (\<lambda>_. True) m \<Longrightarrow> (\<And>x. pk I R (k x)) \<Longrightarrow> pk I R (bindA m k)"
  unfolding pk_def by (blast intro: post_bindA)

lemma pk_wrapA [pk_intros]: "pk I R m \<Longrightarrow> pk I R (wrapA t m)"
  by (simp add: pk_def wp_simps)

lemma pk_if [pk_intros]: "(b \<Longrightarrow> pk I R m) \<Longrightarrow> (\<not> b \<Longrightarrow> pk I R m') \<Longrightarrow> pk I R (if b then m else m')"
  by simp

text \<open>\<open>viewed v I\<close>: the predicate depends on the view of the world only.\<close>

definition viewed :: "('w \<Rightarrow> 'v) \<Rightarrow> ('w \<Rightarrow> bool) \<Rightarrow> bool" where
  "viewed v I \<longleftrightarrow> (\<forall>w w'. v w' = v w \<longrightarrow> I w \<longrightarrow> I w')"

lemma pk_leaves: "leaves v m \<Longrightarrow> viewed v I \<Longrightarrow> pk I (\<lambda>_. True) m"
  unfolding pk_def viewed_def by (auto intro!: post_OkI dest: leavesD)

lemma post_pk_bindA: "pk I (\<lambda>_. True) m \<Longrightarrow> I w \<Longrightarrow> (\<And>x w'. I w' \<Longrightarrow> post (k x) Q w') \<Longrightarrow> post (bindA m k) Q w"
  by (rule post_bindA, erule (1) pkD) simp

section \<open>Invariants of step relations\<close>

text \<open>Components that run on and on are step relations on their states; an invariant of every step
  holds in every state that can be reached.\<close>

locale inductive_invariant =
  fixes step :: "'s \<Rightarrow> 's \<Rightarrow> bool"
    and inv :: "'s \<Rightarrow> bool"
  assumes step_inv: "inv s \<Longrightarrow> step s s' \<Longrightarrow> inv s'"
begin

lemma reach_inv: "step\<^sup>*\<^sup>* s s' \<Longrightarrow> inv s \<Longrightarrow> inv s'"
  by (induction rule: rtranclp_induct) (auto intro: step_inv)

end

section \<open>Go maps\<close>

text \<open>
  A Go map is an association list with distinct keys. \<open>range\<close> visits the keys in an order the
  runtime chooses: the operations that range over a map take that choice as an argument
  \<open>rng\<close>, of which the language promises only that it is a permutation.
\<close>

type_synonym 'v gomap = "(string \<times> 'v) list"

type_synonym range_order = "string list \<Rightarrow> string list"

definition go_range :: "range_order \<Rightarrow> bool" where
  "go_range rng \<longleftrightarrow> (\<forall>ks. mset (rng ks) = mset ks)"

definition gkeys :: "'v gomap \<Rightarrow> string list" where
  "gkeys m = map fst m"

abbreviation glookup :: "'v gomap \<Rightarrow> string \<Rightarrow> 'v option" where
  "glookup m k \<equiv> map_of m k"

definition gupdate :: "string \<Rightarrow> 'v \<Rightarrow> 'v gomap \<Rightarrow> 'v gomap" where
  "gupdate k v m = AList.update k v m"

definition gdelete :: "string \<Rightarrow> 'v gomap \<Rightarrow> 'v gomap" where
  "gdelete k m = AList.delete k m"

lemma glookup_gupdate [simp]: "map_of (gupdate k v m) k' = (if k' = k then Some v else map_of m k')"
  by (simp add: gupdate_def update_conv')

lemma glookup_gdelete [simp]: "map_of (gdelete k m) k' = (if k' = k then None else map_of m k')"
  by (simp add: gdelete_def delete_conv')

lemma set_gkeys [simp]: "set (gkeys m) = dom (map_of m)"
  by (simp add: gkeys_def dom_map_of_conv_image_fst)

lemma distinct_gupdate [simp]: "distinct (gkeys m) \<Longrightarrow> distinct (gkeys (gupdate k v m))"
  by (simp add: gkeys_def gupdate_def distinct_update)

lemma distinct_gdelete [simp]: "distinct (gkeys m) \<Longrightarrow> distinct (gkeys (gdelete k m))"
  by (simp add: gkeys_def gdelete_def distinct_delete)

lemma go_range_set [simp]: "go_range rng \<Longrightarrow> set (rng ks) = set ks"
  unfolding go_range_def by (metis set_mset_mset)

lemma go_range_distinct [simp]: "go_range rng \<Longrightarrow> distinct (rng ks) = distinct ks"
  unfolding go_range_def by (metis mset_eq_imp_distinct_iff)

lemma go_range_id [simp]: "go_range (\<lambda>ks. ks)"
  by (simp add: go_range_def)

lemma go_range_rev [simp]: "go_range rev"
  by (simp add: go_range_def)

end
