(* ===== verification/Go_Std.thy ===== *)
theory Go_Std
  imports Coil_Prelude "HOL-Library.Word"
begin

text \<open>
  The parts of Go and of its standard library the sources use: fixed-width integer
  conversions, \<open>strings\<close> and \<open>strconv\<close>, and \<open>net\<close> (\<open>IP\<close>, \<open>IPNet\<close>, \<open>ParseIP\<close>, \<open>ParseCIDR\<close>,
  \<open>Contains\<close>, \<open>Equal\<close>, \<open>String\<close>).
  A \<open>net.IP\<close> is its bytes, with the nil slice as the empty list; an \<open>IPMask\<close> is what its
  \<open>Size\<close> method returns (only prefix masks occur), with nil as \<open>None\<close>.
\<close>

section \<open>Integers\<close>

definition wrap_int64 :: "int \<Rightarrow> int" where
  "wrap_int64 x = (x + 2 ^ 63) mod 2 ^ 64 - 2 ^ 63"

definition wrap_int32 :: "int \<Rightarrow> int" where
  "wrap_int32 x = (x + 2 ^ 31) mod 2 ^ 32 - 2 ^ 31"

definition wrap_uint :: "int \<Rightarrow> nat" where
  "wrap_uint x = nat (x mod 2 ^ 64)"

text \<open>\<open>uint(1) << n\<close>: 0 once the shift count reaches the width.\<close>

definition uint_shl1 :: "nat \<Rightarrow> nat" where
  "uint_shl1 n = 2 ^ n mod 2 ^ 64"

lemma wrap_int64_id [simp]: "- (2 ^ 63) \<le> x \<Longrightarrow> x < 2 ^ 63 \<Longrightarrow> wrap_int64 x = x"
  by (simp add: wrap_int64_def)

lemma wrap_int64_nat: "m < 2 ^ 63 \<Longrightarrow> wrap_int64 (int m) = int m"
  by (rule wrap_int64_id) auto

lemma wrap_int32_id [simp]: "- (2 ^ 31) \<le> x \<Longrightarrow> x < 2 ^ 31 \<Longrightarrow> wrap_int32 x = x"
  by (simp add: wrap_int32_def)

lemma wrap_uint_id [simp]: "0 \<le> x \<Longrightarrow> x < 2 ^ 64 \<Longrightarrow> wrap_uint x = nat x"
  by (simp add: wrap_uint_def)

lemma uint_shl1_small [simp]: "n < 64 \<Longrightarrow> uint_shl1 n = 2 ^ n"
  unfolding uint_shl1_def by (rule mod_less) (simp only: power_strict_increasing_iff)

lemma uint_shl1_big [simp]: "64 \<le> n \<Longrightarrow> uint_shl1 n = 0"
  unfolding uint_shl1_def by (metis dvd_imp_mod_0 le_imp_power_dvd)

section \<open>Strings\<close>

fun splitc :: "char \<Rightarrow> string \<Rightarrow> string list" where
  "splitc c [] = [[]]"
| "splitc c (x # xs) =
     (if x = c then [] # splitc c xs
      else (case splitc c xs of [] \<Rightarrow> [[x]] | y # ys \<Rightarrow> (x # y) # ys))"

fun joinc :: "char \<Rightarrow> string list \<Rightarrow> string" where
  "joinc c [] = []"
| "joinc c [x] = x"
| "joinc c (x # y # ys) = x @ c # joinc c (y # ys)"

text \<open>\<open>strings.Cut(s, sep)\<close> for a one-character separator.\<close>

fun cutc :: "char \<Rightarrow> string \<Rightarrow> (string \<times> string) option" where
  "cutc c [] = None"
| "cutc c (x # xs) =
     (if x = c then Some ([], xs)
      else map_option (\<lambda>(a, b). (x # a, b)) (cutc c xs))"

definition HasPrefix :: "string \<Rightarrow> string \<Rightarrow> bool" where
  "HasPrefix s p \<longleftrightarrow> take (length p) s = p"

definition isdigit :: "char \<Rightarrow> bool" where
  "isdigit c \<longleftrightarrow> of_char c \<ge> (48::nat) \<and> of_char c \<le> (57::nat)"

definition digit_char :: "nat \<Rightarrow> char" where
  "digit_char d = char_of (48 + d)"

definition digit_val :: "char \<Rightarrow> nat" where
  "digit_val c = of_char c - 48"

fun itoa :: "nat \<Rightarrow> string" where
  "itoa n = (if n < 10 then [digit_char n] else itoa (n div 10) @ [digit_char (n mod 10)])"

declare itoa.simps [simp del]

definition dval :: "string \<Rightarrow> nat" where
  "dval s = foldl (\<lambda>a c. a * 10 + digit_val c) 0 s"

definition hexdigit :: "nat \<Rightarrow> char" where
  "hexdigit d = (if d < 10 then char_of (48 + d) else char_of (87 + d))"

fun hexs :: "nat \<Rightarrow> string" where
  "hexs n = (if n < 16 then [hexdigit n] else hexs (n div 16) @ [hexdigit (n mod 16)])"

declare hexs.simps [simp del]

text \<open>\<open>%x\<close> on a byte slice: two lower-case digits per byte.\<close>

definition hex_bytes :: "8 word list \<Rightarrow> string" where
  "hex_bytes bs = concat (map (\<lambda>b. [hexdigit (unat b div 16), hexdigit (unat b mod 16)]) bs)"

lemma splitc_noc: "c \<notin> set x \<Longrightarrow> splitc c x = [x]"
  by (induction x) auto

lemma splitc_append: "c \<notin> set x \<Longrightarrow> splitc c (x @ c # rest) = x # splitc c rest"
  by (induction x) auto

lemma splitc_joinc:
  "xs \<noteq> [] \<Longrightarrow> (\<And>x. x \<in> set xs \<Longrightarrow> c \<notin> set x) \<Longrightarrow> splitc c (joinc c xs) = xs"
  by (induction c xs rule: joinc.induct) (auto simp: splitc_noc splitc_append)

lemma splitc_nonempty [simp]: "splitc c s \<noteq> []"
  by (cases s) (auto split: list.splits)

lemma joinc_splitc: "joinc c (splitc c s) = s"
proof (induction s)
  case Nil
  then show ?case by simp
next
  case (Cons x s)
  obtain y ys where s: "splitc c s = y # ys"
    by (cases "splitc c s") auto
  show ?case using Cons s by (cases ys) auto
qed

lemma cutc_append: "c \<notin> set x \<Longrightarrow> cutc c (x @ c # rest) = Some (x, rest)"
  by (induction x) auto

lemma of_char_digit_char [simp]: "d < 10 \<Longrightarrow> of_char (digit_char d) = 48 + d"
  by (simp add: digit_char_def)

lemma isdigit_digit_char [simp]: "d < 10 \<Longrightarrow> isdigit (digit_char d)"
  by (simp add: isdigit_def)

lemma digit_val_digit_char [simp]: "d < 10 \<Longrightarrow> digit_val (digit_char d) = d"
  by (simp add: digit_val_def)

lemma itoa_nonempty [simp]: "itoa n \<noteq> []"
  by (subst itoa.simps) simp

lemma itoa_digits: "c \<in> set (itoa n) \<Longrightarrow> isdigit c"
proof (induction n arbitrary: c rule: itoa.induct)
  case (1 n)
  then show ?case by (cases "n < 10") (auto simp: itoa.simps [of n])
qed

lemma dval_snoc: "dval (s @ [c]) = dval s * 10 + digit_val c"
  by (simp add: dval_def)

lemma dval_itoa [simp]: "dval (itoa n) = n"
proof (induction n rule: itoa.induct)
  case (1 n)
  show ?case
  proof (cases "n < 10")
    case True
    then show ?thesis by (simp add: itoa.simps [of n] dval_def)
  next
    case False
    with 1 show ?thesis by (simp add: itoa.simps [of n] dval_snoc)
  qed
qed

lemma itoa_hd_zero: "hd (itoa n) = CHR ''0'' \<Longrightarrow> n = 0"
proof (induction n rule: itoa.induct)
  case (1 n)
  show ?case
  proof (cases "n < 10")
    case True
    with "1.prems" have "of_char (digit_char n) = (of_char (CHR ''0'') :: nat)"
      by (simp add: itoa.simps [of n])
    with True show ?thesis by simp
  next
    case False
    with "1.prems" have "hd (itoa (n div 10)) = CHR ''0''"
      by (simp add: itoa.simps [of n])
    with "1.IH" False show ?thesis by simp
  qed
qed

lemma itoa_inject: "itoa m = itoa n \<Longrightarrow> m = n"
  by (metis dval_itoa)

end
