(* ===== verification/Go_Net.thy ===== *)
theory Go_Net
  imports Go_Std
begin

text \<open>
  Go's \<open>net\<close> package as the sources use it: addresses, prefixes, parsing and printing, with the
  numeric value of an address and the lemmas that relate bytes and numbers.
\<close>

section \<open>Addresses and their values\<close>

type_synonym byte = "8 word"
type_synonym ip = "byte list"
type_synonym ipmask = "(nat \<times> nat) option"

record ipnet =
  net_IP :: ip
  net_Mask :: ipmask

abbreviation (input) nil_ip :: ip where
  "nil_ip \<equiv> []"

definition ip_val :: "ip \<Rightarrow> nat" where
  "ip_val bs = foldl (\<lambda>a b. a * 256 + unat b) 0 bs"

fun ip_of_nat :: "nat \<Rightarrow> nat \<Rightarrow> ip" where
  "ip_of_nat 0 v = []"
| "ip_of_nat (Suc n) v = ip_of_nat n (v div 256) @ [of_nat (v mod 256)]"

definition v4InV6Prefix :: "byte list" where
  "v4InV6Prefix = replicate 10 0 @ [255, 255]"

definition To4 :: "ip \<Rightarrow> ip" where
  "To4 b = (if length b = 4 then b
            else if length b = 16 \<and> take 12 b = v4InV6Prefix then drop 12 b
            else [])"

definition To16 :: "ip \<Rightarrow> ip" where
  "To16 b = (if length b = 4 then v4InV6Prefix @ b
             else if length b = 16 then b
             else [])"

definition IP_Equal :: "ip \<Rightarrow> ip \<Rightarrow> bool" where
  "IP_Equal a b =
     (if length a = length b then a = b
      else if length a = 4 \<and> length b = 16 then take 12 b = v4InV6Prefix \<and> a = drop 12 b
      else if length a = 16 \<and> length b = 4 then take 12 a = v4InV6Prefix \<and> drop 12 a = b
      else False)"

definition CIDRMask :: "int \<Rightarrow> int \<Rightarrow> ipmask" where
  "CIDRMask ones bits =
     (if (bits = 32 \<or> bits = 128) \<and> 0 \<le> ones \<and> ones \<le> bits then Some (nat ones, nat bits) else None)"

fun MaskSize :: "ipmask \<Rightarrow> nat \<times> nat" where
  "MaskSize (Some (ones, bits)) = (ones, bits)"
| "MaskSize None = (0, 0)"

text \<open>\<open>IP.Mask\<close>: a 4-byte mask applies to the last four bytes of a v4-mapped address and a
  16-byte mask with 96 leading ones to a 4-byte address; the result is nil when the widths
  still differ.\<close>

definition IP_Mask :: "ip \<Rightarrow> nat \<times> nat \<Rightarrow> ip" where
  "IP_Mask b0 m = (case m of (ones0, bits0) \<Rightarrow>
     (let (ones, bits) = (if bits0 = 128 \<and> length b0 = 4 \<and> 96 \<le> ones0 then (ones0 - 96, 32) else (ones0, bits0));
          b = (if bits = 32 \<and> length b0 = 16 \<and> take 12 b0 = v4InV6Prefix then drop 12 b0 else b0)
      in if length b * 8 \<noteq> bits then []
         else ip_of_nat (length b) (ip_val b - ip_val b mod 2 ^ (bits - ones))))"

text \<open>\<open>networkNumberAndMask\<close> of \<open>net\<close>: address bytes, number of leading ones, width in bits.\<close>

definition network_number_and_mask :: "ipnet \<Rightarrow> (ip \<times> nat \<times> nat) option" where
  "network_number_and_mask n =
     (let b = (if To4 (net_IP n) \<noteq> [] then To4 (net_IP n) else net_IP n)
      in if length b \<noteq> 4 \<and> length b \<noteq> 16 then None
         else (case net_Mask n of
             None \<Rightarrow> None
           | Some (ones, bits) \<Rightarrow>
               if bits = 32 then (if length b = 4 then Some (b, ones, 32) else None)
               else if bits = 128 then
                 (if length b = 4 then Some (b, ones - 96, 32) else Some (b, ones, 128))
               else None))"

definition Contains :: "ipnet \<Rightarrow> ip \<Rightarrow> bool" where
  "Contains n a =
     (let b = (if To4 a \<noteq> [] then To4 a else a)
      in case network_number_and_mask n of
           None \<Rightarrow> length b = 0
         | Some (nn, ones, bits) \<Rightarrow>
             length b = length nn \<and>
             ip_val nn div 2 ^ (bits - ones) = ip_val b div 2 ^ (bits - ones))"

section \<open>Parsing\<close>

definition octet :: "string \<Rightarrow> byte option" where
  "octet s =
     (if s = [] \<or> \<not> list_all isdigit s \<or> (1 < length s \<and> hd s = CHR ''0'') \<or> 255 < dval s then None
      else Some (of_nat (dval s)))"

definition parseIPv4 :: "string \<Rightarrow> ip option" where
  "parseIPv4 s = (case map octet (splitc (CHR ''.'') s) of
       [Some a, Some b, Some c, Some d] \<Rightarrow> Some [a, b, c, d]
     | _ \<Rightarrow> None)"

definition hexval :: "char \<Rightarrow> nat option" where
  "hexval c = (let n = of_char c :: nat in
     if 48 \<le> n \<and> n \<le> 57 then Some (n - 48)
     else if 97 \<le> n \<and> n \<le> 102 then Some (n - 87)
     else if 65 \<le> n \<and> n \<le> 70 then Some (n - 55)
     else None)"

definition ishex :: "char \<Rightarrow> bool" where
  "ishex c \<longleftrightarrow> hexval c \<noteq> None"

definition hval :: "string \<Rightarrow> nat" where
  "hval s = foldl (\<lambda>a c. a * 16 + the (hexval c)) 0 s"

text \<open>The loop of \<open>netip.parseIPv6\<close>: at most eight groups, the bytes so far, the position of
  the ellipsis and the rest of the text.\<close>

fun parse6_loop :: "nat \<Rightarrow> byte list \<Rightarrow> nat option \<Rightarrow> string \<Rightarrow> (byte list \<times> nat option \<times> string) option" where
  "parse6_loop 0 bs e s = Some (bs, e, s)"
| "parse6_loop (Suc n) bs e s =
     (let ds = takeWhile ishex s; r = dropWhile ishex s in
      if ds = [] \<or> 4 < length ds then None
      else (case r of
          [] \<Rightarrow> Some (bs @ ip_of_nat 2 (hval ds), e, [])
        | c # r' \<Rightarrow>
            if c = CHR ''.'' then
              (if (e = None \<and> length bs \<noteq> 12) \<or> 16 < length bs + 4 then None
               else (case parseIPv4 s of None \<Rightarrow> None | Some q \<Rightarrow> Some (bs @ q, e, [])))
            else if c \<noteq> CHR '':'' then None
            else (case r' of
                [] \<Rightarrow> None
              | c' # r'' \<Rightarrow>
                  let bs' = bs @ ip_of_nat 2 (hval ds) in
                  if c' = CHR '':'' then
                    (if e \<noteq> None then None
                     else if r'' = [] then Some (bs', Some (length bs'), [])
                     else parse6_loop n bs' (Some (length bs')) r'')
                  else parse6_loop n bs' e r')))"

definition parse6_finish :: "byte list \<times> nat option \<times> string \<Rightarrow> ip option" where
  "parse6_finish p = (case p of (bs, e, s) \<Rightarrow>
     if s \<noteq> [] then None
     else if length bs < 16 then
       (case e of None \<Rightarrow> None
        | Some k \<Rightarrow> Some (take k bs @ replicate (16 - length bs) 0 @ drop k bs))
     else (case e of None \<Rightarrow> Some bs | Some _ \<Rightarrow> None))"

definition parseIPv6 :: "string \<Rightarrow> ip option" where
  "parseIPv6 s =
     (if CHR ''%'' \<in> set s then None
      else if take 2 s = ''::'' then
        (if drop 2 s = [] then Some (replicate 16 0)
         else Option.bind (parse6_loop 8 [] (Some 0) (drop 2 s)) parse6_finish)
      else Option.bind (parse6_loop 8 [] None s) parse6_finish)"

text \<open>\<open>netip.ParseAddr\<close> without zones: 4 bytes for a dotted quad, 16 otherwise.\<close>

definition ParseAddr :: "string \<Rightarrow> ip option" where
  "ParseAddr s = (case dropWhile (\<lambda>c. c \<noteq> CHR ''.'' \<and> c \<noteq> CHR '':'' \<and> c \<noteq> CHR ''%'') s of
       [] \<Rightarrow> None
     | c # _ \<Rightarrow> if c = CHR ''.'' then parseIPv4 s else if c = CHR '':'' then parseIPv6 s else None)"

definition ParseIP :: "string \<Rightarrow> ip" where
  "ParseIP s = (case ParseAddr s of None \<Rightarrow> nil_ip | Some b \<Rightarrow> To16 b)"

text \<open>\<open>dtoi\<close> accepts leading zeros; a prefix length must be all digits and at most the width.\<close>

definition prefix_len :: "string \<Rightarrow> nat \<Rightarrow> nat option" where
  "prefix_len s w = (if s = [] \<or> \<not> list_all isdigit s \<or> w < dval s then None else Some (dval s))"

definition ParseCIDR :: "string \<Rightarrow> (ip \<times> ipnet) res" where
  "ParseCIDR s = (case cutc (CHR ''/'') s of
       None \<Rightarrow> Err (ErrorMsg (''invalid CIDR address: '' @ s))
     | Some (a, m) \<Rightarrow> (case ParseAddr a of
           None \<Rightarrow> Err (ErrorMsg (''invalid CIDR address: '' @ s))
         | Some b \<Rightarrow> (case prefix_len m (8 * length b) of
               None \<Rightarrow> Err (ErrorMsg (''invalid CIDR address: '' @ s))
             | Some n \<Rightarrow>
                 Ok (To16 b, \<lparr>net_IP = IP_Mask (To16 b) (n, 8 * length b),
                              net_Mask = Some (n, 8 * length b)\<rparr>))))"

section \<open>Printing\<close>

definition print4 :: "ip \<Rightarrow> string" where
  "print4 b = joinc (CHR ''.'') (map (\<lambda>x. itoa (unat x)) b)"

fun groups16 :: "byte list \<Rightarrow> nat list" where
  "groups16 (a # b # bs) = (unat a * 256 + unat b) # groups16 bs"
| "groups16 _ = []"

text \<open>The longest run of at least two zero groups, the first one on a tie: start and length.\<close>

definition zero_run :: "nat list \<Rightarrow> nat \<times> nat" where
  "zero_run gs = fold (\<lambda>i (st, ln).
      let l = length (takeWhile (\<lambda>g. g = 0) (drop i gs))
      in if 2 \<le> l \<and> ln < l then (i, l) else (st, ln)) [0..<length gs] (255, 0)"

function print6_from :: "nat list \<Rightarrow> nat \<times> nat \<Rightarrow> nat \<Rightarrow> string" where
  "print6_from gs z i =
     (if length gs \<le> i then []
      else if i = fst z then
        (if length gs \<le> fst z + snd z then ''::''
         else ''::'' @ hexs (gs ! (fst z + snd z)) @ print6_from gs z (fst z + snd z + 1))
      else (if 0 < i then '':'' else []) @ hexs (gs ! i) @ print6_from gs z (i + 1))"
  by pat_completeness auto
termination
  by (relation "measure (\<lambda>(gs, z, i). length gs - i)") auto

declare print6_from.simps [simp del]

definition print6 :: "ip \<Rightarrow> string" where
  "print6 b = print6_from (groups16 b) (zero_run (groups16 b)) 0"

definition IP_String :: "ip \<Rightarrow> string" where
  "IP_String b =
     (if b = [] then ''<nil>''
      else if length b \<noteq> 4 \<and> length b \<noteq> 16 then ''?'' @ hex_bytes b
      else if To4 b \<noteq> [] then print4 (To4 b)
      else print6 b)"

definition IPNet_String :: "ipnet \<Rightarrow> string" where
  "IPNet_String n = (case network_number_and_mask n of
       None \<Rightarrow> ''<nil>''
     | Some (b, ones, _) \<Rightarrow> IP_String b @ ''/'' @ itoa ones)"

section \<open>Bytes and numbers\<close>

lemma ip_val_Nil [simp]: "ip_val [] = 0"
  by (simp add: ip_val_def)

lemma ip_val_snoc: "ip_val (bs @ [b]) = ip_val bs * 256 + unat b"
  by (simp add: ip_val_def)

lemma unat_byte_lt [simp]: "unat (b :: byte) < 256"
  using unsigned_less [of b] by simp

lemma ip_val_bound: "ip_val bs < 256 ^ length bs"
proof (induction bs rule: rev_induct)
  case Nil
  then show ?case by simp
next
  case (snoc b bs)
  have "ip_val bs * 256 + unat b < ip_val bs * 256 + 256" by simp
  also have "\<dots> = (ip_val bs + 1) * 256" by simp
  also have "\<dots> \<le> 256 ^ length bs * 256" using snoc by (intro mult_le_mono1) simp
  finally show ?case by (simp add: ip_val_snoc mult.commute)
qed

lemma length_ip_of_nat [simp]: "length (ip_of_nat n v) = n"
  by (induction n arbitrary: v) auto

lemma ip_of_nat_Nil [simp]: "ip_of_nat n v = [] \<longleftrightarrow> n = 0"
  by (metis length_ip_of_nat length_0_conv)

lemma ip_val_ip_of_nat [simp]: "ip_val (ip_of_nat n v) = v mod 256 ^ n"
proof (induction n arbitrary: v)
  case 0
  then show ?case by simp
next
  case (Suc n)
  have "unat (of_nat (v mod 256) :: byte) = v mod 256"
    by (simp add: unat_of_nat)
  with Suc show ?case
    by (simp add: ip_val_snoc mod_mult2_eq [of v 256 "256 ^ n"] mult.commute)
qed

lemma ip_of_nat_ip_val [simp]: "ip_of_nat (length bs) (ip_val bs) = bs"
proof (induction bs rule: rev_induct)
  case Nil
  then show ?case by simp
next
  case (snoc b bs)
  have "(ip_val bs * 256 + unat b) div 256 = ip_val bs" by simp
  moreover have "of_nat ((ip_val bs * 256 + unat b) mod 256) = b" by simp
  ultimately show ?case using snoc by (simp add: ip_val_snoc)
qed

lemma ip_val_inject: "length a = length b \<Longrightarrow> ip_val a = ip_val b \<Longrightarrow> a = b"
  by (metis ip_of_nat_ip_val)

lemma ip_val4_lt: "length b = 4 \<Longrightarrow> ip_val b < 2 ^ 32"
  using ip_val_bound [of b] by (simp add: power_mult [of 2 8 4, symmetric] flip: power_mult)

lemma ip_val16_lt: "length b = 16 \<Longrightarrow> ip_val b < 2 ^ 128"
  using ip_val_bound [of b] by (simp add: power_mult [of 2 8 16, symmetric] flip: power_mult)

lemma To4_cases: "To4 b = [] \<or> length (To4 b) = 4"
  by (simp add: To4_def)

lemma length_To4 [simp]: "To4 b \<noteq> [] \<Longrightarrow> length (To4 b) = 4"
  using To4_cases by blast

lemma To4_4 [simp]: "length b = 4 \<Longrightarrow> To4 b = b"
  by (simp add: To4_def)

lemma To4_Nil [simp]: "To4 [] = []"
  by (simp add: To4_def)

lemma length_v4InV6Prefix [simp]: "length v4InV6Prefix = 12"
  by (simp add: v4InV6Prefix_def)

lemma To4_To16 [simp]: "length b = 4 \<Longrightarrow> To4 (To16 b) = b"
  by (simp add: To4_def To16_def)

lemma length_To16 [simp]: "length b = 4 \<or> length b = 16 \<Longrightarrow> length (To16 b) = 16"
  by (auto simp: To16_def)

lemma ip_val_append: "ip_val (xs @ ys) = ip_val xs * 256 ^ length ys + ip_val ys"
proof (induction ys rule: rev_induct)
  case Nil
  then show ?case by simp
next
  case (snoc y ys)
  have "ip_val (xs @ ys @ [y]) = ip_val (xs @ ys) * 256 + unat y"
    using ip_val_snoc [of "xs @ ys" y] by simp
  also have "\<dots> = ip_val xs * (256 ^ length ys * 256) + (ip_val ys * 256 + unat y)"
    by (simp add: snoc algebra_simps)
  finally show ?case by (simp add: ip_val_snoc)
qed

lemma take12_v4InV6Prefix:
  assumes "length b = 16"
  shows "take 12 b = v4InV6Prefix \<longleftrightarrow> ip_val (take 12 b) = 65535"
proof -
  have "ip_val v4InV6Prefix = 65535"
    by code_simp
  then show ?thesis using ip_val_inject [of "take 12 b" v4InV6Prefix] assms by auto
qed

lemma To4_16_iff:
  assumes "length b = 16"
  shows "To4 b = [] \<longleftrightarrow> ip_val b div 2 ^ 32 \<noteq> 65535"
proof -
  have len: "length (drop 12 b) = 4" using assms by simp
  have eq: "ip_val b = ip_val (take 12 b) * 2 ^ 32 + ip_val (drop 12 b)"
    using ip_val_append [of "take 12 b" "drop 12 b"] unfolding len append_take_drop_id by simp
  have top: "ip_val b div 2 ^ 32 = ip_val (take 12 b)"
    unfolding eq using ip_val4_lt [OF len] by simp
  have "drop 12 b \<noteq> []" using assms by simp
  then have "To4 b = [] \<longleftrightarrow> take 12 b \<noteq> v4InV6Prefix" using assms by (simp add: To4_def)
  then show ?thesis unfolding top take12_v4InV6Prefix [OF assms] .
qed

lemma aligned_add_div:
  assumes "(2::nat) ^ k dvd x" and "i < 2 ^ k" and "k \<le> m"
  shows "(x + i) div 2 ^ m = x div 2 ^ m"
proof -
  have "(x + i) div 2 ^ k = x div 2 ^ k" using assms(1,2) by auto
  moreover have "(2::nat) ^ m = 2 ^ k * 2 ^ (m - k)" using assms(3) by (simp flip: power_add)
  ultimately show ?thesis by (simp add: div_mult2_eq)
qed

lemma aligned_offset:
  assumes "(m::nat) dvd x" and "x div m = y div m"
  shows "y = x + y mod m"
proof -
  have "y = y div m * m + y mod m" by simp
  also have "y div m * m = x" using assms by (metis dvd_div_mult_self)
  finally show ?thesis .
qed

lemma aligned_add_bound:
  assumes "(2::nat) ^ k dvd x" and "x < 2 ^ m" and "i < 2 ^ k" and "k \<le> m"
  shows "x + i < 2 ^ m"
proof -
  have "(x + i) div 2 ^ m = 0" using aligned_add_div [OF assms(1,3,4)] assms(2) by simp
  then show ?thesis by (simp add: div_eq_0_iff)
qed

section \<open>Printing and parsing IPv4\<close>

lemma octet_itoa [simp]: "octet (itoa (unat b)) = Some b"
proof -
  have "\<not> (1 < length (itoa (unat b)) \<and> hd (itoa (unat b)) = CHR ''0'')"
    using itoa_hd_zero [of "unat b"] by (auto simp: itoa.simps [of 0])
  moreover have "list_all isdigit (itoa (unat b))"
    by (auto simp: list_all_iff itoa_digits)
  moreover have "unat b \<le> 255" using unat_byte_lt [of b] by linarith
  ultimately show ?thesis by (simp add: octet_def)
qed

lemma isdigit_sep [simp]: "\<not> isdigit (CHR ''.'')" "\<not> isdigit (CHR '':'')" "\<not> isdigit (CHR ''/'')"
  "\<not> isdigit (CHR ''%'')"
  by (simp_all add: isdigit_def)

lemma itoa_no_sep [simp]:
  "CHR ''.'' \<notin> set (itoa n)" "CHR '':'' \<notin> set (itoa n)" "CHR ''/'' \<notin> set (itoa n)" "CHR ''%'' \<notin> set (itoa n)"
  by (meson isdigit_sep itoa_digits)+

lemma length4_conv: "length b = 4 \<Longrightarrow> \<exists>p q r s. b = [p, q, r, s]"
  by (auto simp: numeral_eq_Suc length_Suc_conv)

lemma parseIPv4_print4 [simp]:
  assumes "length b = 4"
  shows "parseIPv4 (print4 b) = Some b"
proof -
  have "splitc (CHR ''.'') (print4 b) = map (\<lambda>x. itoa (unat x)) b"
    unfolding print4_def using assms by (intro splitc_joinc) auto
  then show ?thesis using length4_conv [OF assms] by (auto simp: parseIPv4_def)
qed

lemma print4_no_slash: "length b = 4 \<Longrightarrow> CHR ''/'' \<notin> set (print4 b)"
  using length4_conv [of b] by (auto simp: print4_def)

lemma dropWhile_digits:
  "(\<And>x. x \<in> set d \<Longrightarrow> P x) \<Longrightarrow> \<not> P c \<Longrightarrow> dropWhile P (d @ c # r) = c # r"
  by (induction d) auto

lemma ParseAddr_print4 [simp]:
  assumes "length b = 4"
  shows "ParseAddr (print4 b) = Some b"
proof -
  obtain p q r s where b: "b = [p, q, r, s]" using length4_conv [OF assms] by blast
  define d where "d = itoa (unat p)"
  define rest where "rest = joinc (CHR ''.'') (map (\<lambda>x. itoa (unat x)) [q, r, s])"
  have p4: "print4 b = d @ CHR ''.'' # rest" by (simp add: print4_def b d_def rest_def)
  have "dropWhile (\<lambda>c. c \<noteq> CHR ''.'' \<and> c \<noteq> CHR '':'' \<and> c \<noteq> CHR ''%'') (print4 b) = CHR ''.'' # rest"
    unfolding p4 by (rule dropWhile_digits) (auto simp: d_def)
  then show ?thesis using parseIPv4_print4 [OF assms] by (simp add: ParseAddr_def)
qed

lemma prefix_len_itoa [simp]: "n \<le> w \<Longrightarrow> prefix_len (itoa n) w = Some n"
  by (auto simp: prefix_len_def list_all_iff itoa_digits)

text \<open>A prefix whose address has no host bits, as \<open>ParseCIDR\<close> returns it for IPv4.\<close>

definition ipnet4 :: "ipnet \<Rightarrow> bool" where
  "ipnet4 n \<longleftrightarrow> length (net_IP n) = 4 \<and>
     (case net_Mask n of Some (ones, bits) \<Rightarrow> bits = 32 \<and> ones \<le> 32 \<and> ip_val (net_IP n) mod 2 ^ (32 - ones) = 0
      | None \<Rightarrow> False)"

lemma IPNet_String4:
  assumes "To4 (net_IP n) \<noteq> []" and "net_Mask n = Some (ones, 32)"
  shows "IPNet_String n = print4 (To4 (net_IP n)) @ ''/'' @ itoa ones"
  using assms by (auto simp: IPNet_String_def network_number_and_mask_def IP_String_def)

lemma ParseCIDR_print4:
  assumes "length b = 4" and "ones \<le> 32"
  shows "ParseCIDR (print4 b @ ''/'' @ itoa ones) =
    Ok (To16 b, \<lparr>net_IP = ip_of_nat 4 (ip_val b - ip_val b mod 2 ^ (32 - ones)), net_Mask = Some (ones, 32)\<rparr>)"
proof -
  have "take 12 (To16 b) = v4InV6Prefix" "drop 12 (To16 b) = b" "length (To16 b) = 16"
    using assms by (simp_all add: To16_def)
  then have "IP_Mask (To16 b) (ones, 32) = ip_of_nat 4 (ip_val b - ip_val b mod 2 ^ (32 - ones))"
    using assms by (simp add: IP_Mask_def)
  then show ?thesis
    using assms cutc_append [OF print4_no_slash [OF assms(1)], of "itoa ones"] by (simp add: ParseCIDR_def)
qed

section \<open>What ParseCIDR returns\<close>

lemma parseIPv4_length: "parseIPv4 s = Some b \<Longrightarrow> length b = 4"
  by (auto simp: parseIPv4_def split: list.splits option.splits)

lemma parse6_loop_length:
  "parse6_loop n bs e s = Some (bs', e', s') \<Longrightarrow> length bs + 2 * n \<le> 16 \<Longrightarrow> length bs' \<le> 16"
proof (induction n arbitrary: bs e s)
  case 0
  then show ?case by simp
next
  case (Suc n)
  then show ?case
    by (auto simp: Let_def split: if_splits list.splits option.splits dest!: Suc.IH parseIPv4_length)
qed

lemma parse6_finish_length:
  "parse6_finish (bs, e, s) = Some b \<Longrightarrow> length bs \<le> 16 \<Longrightarrow> length b = 16"
  by (auto simp: parse6_finish_def split: if_splits option.splits)

lemma parseIPv6_length: "parseIPv6 s = Some b \<Longrightarrow> length b = 16"
  by (auto simp: parseIPv6_def bind_eq_Some_conv split: if_splits
        dest!: parse6_loop_length intro: parse6_finish_length)

lemma ParseAddr_length: "ParseAddr s = Some b \<Longrightarrow> length b = 4 \<or> length b = 16"
  by (auto simp: ParseAddr_def split: list.splits if_splits dest: parseIPv4_length parseIPv6_length)

lemma ip_val_IP_Mask:
  assumes "length b * 8 = bits"
  shows "ip_val (ip_of_nat (length b) (ip_val b - ip_val b mod m)) = ip_val b - ip_val b mod m"
proof -
  have "ip_val b - ip_val b mod m < 256 ^ length b" using ip_val_bound [of b] by linarith
  then show ?thesis by simp
qed

lemma ParseCIDR_Ok:
  assumes "ParseCIDR s = Ok (ip, n)"
  obtains ones where "net_Mask n = Some (ones, 32)" "ones \<le> 32" "length (net_IP n) = 4" "length (To4 ip) = 4"
      "2 ^ (32 - ones) dvd ip_val (net_IP n)"
    | ones where "net_Mask n = Some (ones, 128)" "ones \<le> 128" "length (net_IP n) = 16"
      "2 ^ (128 - ones) dvd ip_val (net_IP n)"
proof -
  obtain a m b ones where p: "cutc (CHR ''/'') s = Some (a, m)" "ParseAddr a = Some b"
      "prefix_len m (8 * length b) = Some ones" "ip = To16 b"
      and n: "n = \<lparr>net_IP = IP_Mask (To16 b) (ones, 8 * length b), net_Mask = Some (ones, 8 * length b)\<rparr>"
    using assms by (auto simp: ParseCIDR_def split: option.splits prod.splits)
  have ones: "ones \<le> 8 * length b" using p(3) by (auto simp: prefix_len_def split: if_splits)
  have dvd: "x dvd v - v mod x" for x v :: nat by (simp add: dvd_minus_mod)
  from ParseAddr_length [OF p(2)] show thesis
  proof
    assume l: "length b = 4"
    then have "take 12 (To16 b) = v4InV6Prefix" "drop 12 (To16 b) = b" "length (To16 b) = 16"
      by (simp_all add: To16_def)
    then have "net_IP n = ip_of_nat 4 (ip_val b - ip_val b mod 2 ^ (32 - ones))"
      using l by (simp add: n IP_Mask_def)
    then show thesis
      using that(1) [of ones] l ones n p(4) ip_val_IP_Mask [of b 32] dvd by simp
  next
    assume l: "length b = 16"
    then have "net_IP n = ip_of_nat 16 (ip_val b - ip_val b mod 2 ^ (128 - ones))"
      by (simp add: n IP_Mask_def To16_def)
    then show thesis
      using that(2) [of ones] l ones n p(4) ip_val_IP_Mask [of b 128] dvd by simp
  qed
qed

lemma ParseCIDR_no_Panic [simp]: "ParseCIDR s \<noteq> Panic p"
  by (auto simp: ParseCIDR_def split: option.splits prod.splits)

end
