(* ===== verification/Netlink.thy ===== *)
theory Netlink
  imports Go_Net Coil_Prelude
begin

text \<open>
  The interface to the kernel: the objects of the package \<open>github.com/vishvananda/netlink\<close> that the
  sources build and read (links, addresses, routes, rules), and its calls as a record of actions
  that every definition takes as a parameter. \<open>route_laws\<close>, \<open>link_laws\<close> and \<open>rule_laws\<close> are what the
  properties rely on: what a successful call does to the kernel's tables. \<open>ref_netlink\<close> is a small kernel that
  satisfies them, used to evaluate examples.
\<close>

section \<open>Objects\<close>

datatype family = FAMILY_ALL | FAMILY_V4 | FAMILY_V6

datatype scope = SCOPE_UNIVERSE | SCOPE_LINK | SCOPE_HOST

record tunnel =
  tn_Ttl :: nat
  tn_EncapDport :: nat
  tn_EncapSport :: nat
  tn_Remote :: ip
  tn_Local :: ip
  tn_FlowBased :: bool

datatype link_kind = Dummy | Veth | Iptun tunnel | Ip6tnl tunnel | OtherLink

record link =
  lk_Index :: int
  lk_Name :: string
  lk_Alias :: string
  lk_HardwareAddr :: string
  lk_Up :: bool
  lk_Kind :: link_kind

text \<open>\<open>netlink.NewLinkAttrs()\<close> with a name.\<close>

definition new_link :: "string \<Rightarrow> link_kind \<Rightarrow> link" where
  "new_link name k = \<lparr>lk_Index = 0, lk_Name = name, lk_Alias = [], lk_HardwareAddr = [], lk_Up = False, lk_Kind = k\<rparr>"

record nl_addr =
  na_IPNet :: ipnet
  na_Scope :: scope

record route =
  rt_Dst :: "ipnet option"
  rt_Gw :: ip
  rt_Scope :: scope
  rt_Protocol :: int
  rt_Table :: int
  rt_LinkIndex :: int

definition new_route :: route where
  "new_route = \<lparr>rt_Dst = None, rt_Gw = nil_ip, rt_Scope = SCOPE_UNIVERSE, rt_Protocol = 0, rt_Table = 0, rt_LinkIndex = 0\<rparr>"

record rule =
  ru_Family :: family
  ru_Table :: int
  ru_Priority :: int
  ru_Dst :: "ipnet option"
  ru_IifName :: string
  ru_Mark :: nat

text \<open>\<open>netlink.NewRule()\<close>: priority and other numbers are \<open>-1\<close> until set.\<close>

definition NewRule :: rule where
  "NewRule = \<lparr>ru_Family = FAMILY_ALL, ru_Table = 0, ru_Priority = -1, ru_Dst = None, ru_IifName = [], ru_Mark = 0\<rparr>"

text \<open>\<open>(*net.IPNet).String()\<close> prints a nil pointer as well.\<close>

definition netp_String :: "ipnet option \<Rightarrow> string" where
  "netp_String n = (case n of None \<Rightarrow> ''<nil>'' | Some n \<Rightarrow> IPNet_String n)"

text \<open>\<open>netlink.NewIPNet(ip)\<close>: the address with a full mask.\<close>

definition NewIPNet :: "ip \<Rightarrow> ipnet" where
  "NewIPNet a = (if To4 a \<noteq> nil_ip then \<lparr>net_IP = a, net_Mask = CIDRMask 32 32\<rparr>
     else \<lparr>net_IP = a, net_Mask = CIDRMask 128 128\<rparr>)"

section \<open>Calls\<close>

datatype route_filter = FilterProtocol int | FilterTable int

datatype rule_filter = RuleFilterTable int | RuleFilterPriority int

record 'w netlink_ops =
  nl_LinkByName :: "string \<Rightarrow> ('w, link) act"
  nl_LinkByIndex :: "int \<Rightarrow> ('w, link) act"
  nl_LinkList :: "('w, link list) act"
  nl_LinkAdd :: "link \<Rightarrow> ('w, unit) act"
  nl_LinkDel :: "link \<Rightarrow> ('w, unit) act"
  nl_LinkSetUp :: "link \<Rightarrow> ('w, unit) act"
  nl_LinkSetName :: "link \<Rightarrow> string \<Rightarrow> ('w, unit) act"
  nl_LinkSetAlias :: "link \<Rightarrow> string \<Rightarrow> ('w, unit) act"
  nl_AddrAdd :: "link \<Rightarrow> nl_addr \<Rightarrow> ('w, unit) act"
  nl_AddrList :: "link \<Rightarrow> family \<Rightarrow> ('w, nl_addr list) act"
  nl_RouteListFiltered :: "family \<Rightarrow> route_filter \<Rightarrow> ('w, route list) act"
  nl_RouteList :: "link option \<Rightarrow> family \<Rightarrow> ('w, route list) act"
  nl_RouteAdd :: "route \<Rightarrow> ('w, unit) act"
  nl_RouteDel :: "route \<Rightarrow> ('w, unit) act"
  nl_RuleList :: "family \<Rightarrow> ('w, rule list) act"
  nl_RuleListFiltered :: "family \<Rightarrow> rule_filter \<Rightarrow> ('w, rule list) act"
  nl_RuleAdd :: "rule \<Rightarrow> ('w, unit) act"
  nl_RuleDel :: "rule \<Rightarrow> ('w, unit) act"
  nl_FouAdd :: "family \<Rightarrow> nat \<Rightarrow> int \<Rightarrow> ('w, unit) act"

section \<open>What the kernel promises\<close>

fun route_matches :: "route_filter \<Rightarrow> route \<Rightarrow> bool" where
  "route_matches (FilterProtocol p) r \<longleftrightarrow> rt_Protocol r = p"
| "route_matches (FilterTable t) r \<longleftrightarrow> rt_Table r = t"

text \<open>The address family of a route, from its destination or its gateway.\<close>

definition ip_family :: "ip \<Rightarrow> family" where
  "ip_family a = (if To4 a \<noteq> nil_ip then FAMILY_V4 else FAMILY_V6)"

definition route_family :: "route \<Rightarrow> family" where
  "route_family r = (case rt_Dst r of Some d \<Rightarrow> ip_family (net_IP d) | None \<Rightarrow> ip_family (rt_Gw r))"

definition in_family :: "family \<Rightarrow> route \<Rightarrow> bool" where
  "in_family f r \<longleftrightarrow> f = FAMILY_ALL \<or> route_family r = f"

text \<open>The route the kernel installs: table 0 is the main table; the link of a route through a gateway
  is chosen by the kernel when none is given.\<close>

definition installs :: "route \<Rightarrow> route \<Rightarrow> bool" where
  "installs v r \<longleftrightarrow> rt_Dst r = rt_Dst v \<and> rt_Gw r = rt_Gw v \<and> rt_Protocol r = rt_Protocol v \<and>
     rt_Table r = (if rt_Table v = 0 then 254 else rt_Table v) \<and> (rt_LinkIndex v \<noteq> 0 \<longrightarrow> rt_LinkIndex r = rt_LinkIndex v)"

text \<open>On a view \<open>rts\<close> of the routes: a list returns the routes that match, an add installs one route,
  a delete removes the given one; a call that fails changes nothing.\<close>

definition route_laws :: "('w \<Rightarrow> route set) \<Rightarrow> 'w netlink_ops \<Rightarrow> bool" where
  "route_laws rts N \<longleftrightarrow>
     (\<forall>f t w r w'. nl_RouteListFiltered N f t w = (r, w') \<longrightarrow> rts w' = rts w \<and>
        (\<forall>rs. r = Ok rs \<longrightarrow> set rs = {x \<in> rts w. in_family f x \<and> route_matches t x})) \<and>
     (\<forall>v w r w'. nl_RouteAdd N v w = (r, w') \<longrightarrow>
        (if r = Ok () then \<exists>x. installs v x \<and> rts w' = insert x (rts w) else rts w' = rts w)) \<and>
     (\<forall>v w r w'. nl_RouteDel N v w = (r, w') \<longrightarrow> rts w' = (if r = Ok () then rts w - {v} else rts w)) \<and>
     (\<forall>n. leaves rts (nl_LinkByName N n)) \<and> (\<forall>l. leaves rts (nl_LinkSetUp N l))"

lemma route_list:
  assumes "route_laws rts N" and "nl_RouteListFiltered N f t w = (r, w')"
  shows "rts w' = rts w" and "r = Ok rs \<Longrightarrow> set rs = {x \<in> rts w. in_family f x \<and> route_matches t x}"
  using assms by (auto simp: route_laws_def)

lemma route_add:
  assumes "route_laws rts N" and "nl_RouteAdd N v w = (r, w')"
  shows "r = Ok () \<Longrightarrow> \<exists>x. installs v x \<and> rts w' = insert x (rts w)" and "r \<noteq> Ok () \<Longrightarrow> rts w' = rts w"
  using assms unfolding route_laws_def by metis+

lemma route_del:
  assumes "route_laws rts N" and "nl_RouteDel N v w = (r, w')"
  shows "rts w' = (if r = Ok () then rts w - {v} else rts w)"
  using assms unfolding route_laws_def by blast

lemma route_leaves:
  assumes "route_laws rts N"
  shows "leaves rts (nl_LinkByName N n)" and "leaves rts (nl_LinkSetUp N l)"
  using assms by (simp_all add: route_laws_def)

text \<open>Loops of adds and deletes, successful or not.\<close>

lemma adds_spec:
  assumes "route_laws rts N" and "foreachA (\<lambda>v. wrapA (msg v) (nl_RouteAdd N (g v))) vs w = (r, w')"
  shows "rts w \<subseteq> rts w' \<and> (\<forall>x \<in> rts w'. x \<in> rts w \<or> (\<exists>v \<in> set vs. installs (g v) x)) \<and>
    (r = Ok () \<longrightarrow> (\<forall>v \<in> set vs. \<exists>x \<in> rts w'. installs (g v) x))"
  using assms(2)
proof (induction vs arbitrary: w)
  case (Cons v vs)
  obtain q w1 where add: "nl_RouteAdd N (g v) w = (q, w1)" by (metis prod.collapse)
  show ?case
  proof (cases "q = Ok ()")
    case True
    then have rest: "foreachA (\<lambda>v. wrapA (msg v) (nl_RouteAdd N (g v))) vs w1 = (r, w')"
      using Cons.prems add by (simp add: bindA_def wrapA_def)
    obtain x where x: "installs (g v) x" "rts w1 = insert x (rts w)" using route_add(1) [OF assms(1) add True] by blast
    from Cons.IH [OF rest] x show ?thesis by auto
  next
    case False
    then have "r \<noteq> Ok ()" "w' = w1" using Cons.prems add by (auto simp: bindA_def wrapA_def split: res.splits)
    then show ?thesis using route_add(2) [OF assms(1) add False] by simp
  qed
qed (simp add: returnA_def)

lemma dels_spec:
  assumes "route_laws rts N" and "foreachA (\<lambda>v. wrapA (msg v) (nl_RouteDel N v)) vs w = (r, w')"
  shows "rts w - set vs \<subseteq> rts w' \<and> rts w' \<subseteq> rts w \<and> (r = Ok () \<longrightarrow> rts w' = rts w - set vs)"
  using assms(2)
proof (induction vs arbitrary: w)
  case (Cons v vs)
  obtain q w1 where del: "nl_RouteDel N v w = (q, w1)" by (metis prod.collapse)
  note w1 = route_del [OF assms(1) del]
  show ?case
  proof (cases "q = Ok ()")
    case True
    then have "foreachA (\<lambda>v. wrapA (msg v) (nl_RouteDel N v)) vs w1 = (r, w')"
      using Cons.prems del by (simp add: bindA_def wrapA_def)
    from Cons.IH [OF this] w1 True show ?thesis by auto
  next
    case False
    then have "r \<noteq> Ok ()" "w' = w1" using Cons.prems del by (auto simp: bindA_def wrapA_def split: res.splits)
    then show ?thesis using w1 False by auto
  qed
qed (simp add: returnA_def)

text \<open>
  What the synchronisations of the sources come down to. Of the routes \<open>R\<close>, those that satisfy \<open>P\<close> are managed. Those whose key is not in
  \<open>W\<close> are removed, and for each key of \<open>W\<close> that no managed route has a route with the key is added.
\<close>

lemma synced_sets:
  assumes R': "R - {x \<in> R. P x \<and> key x \<notin> W} \<subseteq> R'"
    and new: "\<And>x. x \<in> R' \<Longrightarrow> x \<in> R - {x \<in> R. P x \<and> key x \<notin> W} \<or> (\<exists>k \<in> W. inst k x)"
    and added: "\<And>k. k \<in> W \<Longrightarrow> k \<notin> key ` {x \<in> R. P x} \<Longrightarrow> \<exists>x \<in> R'. inst k x"
    and inst: "\<And>k x. k \<in> W \<Longrightarrow> inst k x \<Longrightarrow> key x = k \<and> P x"
  shows "key ` {x \<in> R'. P x} = W" and "\<not> P x \<Longrightarrow> x \<in> R' \<longleftrightarrow> x \<in> R"
proof -
  show "key ` {x \<in> R'. P x} = W"
  proof (intro equalityI subsetI)
    fix k assume k: "k \<in> W"
    show "k \<in> key ` {x \<in> R'. P x}"
    proof (cases "k \<in> key ` {x \<in> R. P x}")
      case True
      then show ?thesis using R' k by blast
    next
      case False
      then show ?thesis using added [OF k False] inst k by blast
    qed
  next
    fix k assume "k \<in> key ` {x \<in> R'. P x}"
    then obtain x where "x \<in> R'" "P x" "k = key x" by blast
    then show "k \<in> W" using new [of x] inst by blast
  qed
  show "x \<in> R' \<longleftrightarrow> x \<in> R" if "\<not> P x" using R' new [of x] inst that by blast
qed

text \<open>On a view \<open>lks\<close> of the links by name: a lookup finds the link that is there, and otherwise fails
  with \<open>LinkNotFoundError\<close> or another error; add, delete and rename act on the named link.\<close>

definition link_laws :: "('w \<Rightarrow> string \<Rightarrow> link option) \<Rightarrow> 'w netlink_ops \<Rightarrow> bool" where
  "link_laws lks N \<longleftrightarrow>
     (\<forall>n w r w'. nl_LinkByName N n w = (r, w') \<longrightarrow> lks w' = lks w \<and>
        (\<forall>l. r = Ok l \<longrightarrow> lks w n = Some l \<and> lk_Name l = n) \<and> (r = Err (Sentinel LinkNotFoundError) \<longrightarrow> lks w n = None)) \<and>
     (\<forall>l w r w'. nl_LinkAdd N l w = (r, w') \<longrightarrow>
        (if r = Ok () then lks w (lk_Name l) = None \<and> (\<exists>l'. lk_Kind l' = lk_Kind l \<and> lk_Name l' = lk_Name l \<and>
           lks w' = (lks w)(lk_Name l \<mapsto> l')) else lks w' = lks w)) \<and>
     (\<forall>l w r w'. nl_LinkDel N l w = (r, w') \<longrightarrow> lks w' = (if r = Ok () then (lks w)(lk_Name l := None) else lks w)) \<and>
     (\<forall>l w r w'. nl_LinkSetUp N l w = (r, w') \<longrightarrow>
        lks w' = (if r = Ok () then (lks w)(lk_Name l := map_option (lk_Up_update (\<lambda>_. True)) (lks w (lk_Name l))) else lks w)) \<and>
     (\<forall>l n w r w'. nl_LinkSetName N l n w = (r, w') \<longrightarrow>
        lks w' = (if r = Ok () then (lks w)(lk_Name l := None, n := map_option (lk_Name_update (\<lambda>_. n)) (lks w (lk_Name l))) else lks w))"

lemma link_byname:
  assumes "link_laws lks N" and "nl_LinkByName N n w = (r, w')"
  shows "lks w' = lks w" and "r = Ok l \<Longrightarrow> lks w n = Some l \<and> lk_Name l = n"
    and "r = Err (Sentinel LinkNotFoundError) \<Longrightarrow> lks w n = None"
  using assms by (auto simp: link_laws_def)

lemma link_add:
  assumes "link_laws lks N" and "nl_LinkAdd N l w = (r, w')"
  shows "if r = Ok () then lks w (lk_Name l) = None \<and> (\<exists>l'. lk_Kind l' = lk_Kind l \<and> lk_Name l' = lk_Name l \<and>
      lks w' = (lks w)(lk_Name l \<mapsto> l')) else lks w' = lks w"
  using assms unfolding link_laws_def by blast

lemma link_del:
  assumes "link_laws lks N" and "nl_LinkDel N l w = (r, w')"
  shows "lks w' = (if r = Ok () then (lks w)(lk_Name l := None) else lks w)"
  using assms unfolding link_laws_def by blast

lemma link_setup:
  assumes "link_laws lks N" and "nl_LinkSetUp N l w = (r, w')"
  shows "lks w' = (if r = Ok () then (lks w)(lk_Name l := map_option (lk_Up_update (\<lambda>_. True)) (lks w (lk_Name l))) else lks w)"
  using assms unfolding link_laws_def by blast

lemma link_rename:
  assumes "link_laws lks N" and "nl_LinkSetName N l n w = (r, w')"
  shows "lks w' = (if r = Ok () then (lks w)(lk_Name l := None, n := map_option (lk_Name_update (\<lambda>_. n)) (lks w (lk_Name l))) else lks w)"
  using assms unfolding link_laws_def by blast

text \<open>Rules are told apart by what they say; a destination with the mask \<open>/0\<close> is no destination.\<close>

fun rule_matches :: "rule_filter \<Rightarrow> rule \<Rightarrow> bool" where
  "rule_matches (RuleFilterTable t) r \<longleftrightarrow> ru_Table r = t"
| "rule_matches (RuleFilterPriority p) r \<longleftrightarrow> ru_Priority r = p"

definition rule_in :: "family \<Rightarrow> rule \<Rightarrow> bool" where
  "rule_in f r \<longleftrightarrow> f = FAMILY_ALL \<or> ru_Family r = f"

definition dst_key :: "ipnet option \<Rightarrow> string" where
  "dst_key d = (case d of None \<Rightarrow> [] | Some n \<Rightarrow>
     (case net_Mask n of Some (ones, bits) \<Rightarrow> if ones = 0 then [] else IPNet_String n | None \<Rightarrow> IPNet_String n))"

definition rule_key :: "rule \<Rightarrow> family \<times> int \<times> int \<times> string \<times> string \<times> nat" where
  "rule_key r = (ru_Family r, ru_Table r, ru_Priority r, dst_key (ru_Dst r), ru_IifName r, ru_Mark r)"

text \<open>On a view \<open>rus\<close> of the rules: a list returns the rules that match, once each; an add makes a rule
  that is not there yet, and fails with \<open>EEXIST\<close> only for one that is; a delete removes the rule; a call that fails
  changes nothing.\<close>

definition rule_laws :: "('w \<Rightarrow> rule set) \<Rightarrow> 'w netlink_ops \<Rightarrow> bool" where
  "rule_laws rus N \<longleftrightarrow>
     (\<forall>f w r w'. nl_RuleList N f w = (r, w') \<longrightarrow> rus w' = rus w \<and>
        (\<forall>rs. r = Ok rs \<longrightarrow> distinct rs \<and> set rs = {x \<in> rus w. rule_in f x})) \<and>
     (\<forall>f t w r w'. nl_RuleListFiltered N f t w = (r, w') \<longrightarrow> rus w' = rus w \<and>
        (\<forall>rs. r = Ok rs \<longrightarrow> distinct rs \<and> set rs = {x \<in> rus w. rule_in f x \<and> rule_matches t x})) \<and>
     (\<forall>v w r w'. nl_RuleAdd N v w = (r, w') \<longrightarrow>
        (if r = Ok () then rule_key v \<notin> rule_key ` rus w \<and> (\<exists>x. rule_key x = rule_key v \<and> rus w' = insert x (rus w))
         else rus w' = rus w \<and> (\<forall>e. r = Err e \<and> errors_Is e EEXIST \<longrightarrow> rule_key v \<in> rule_key ` rus w))) \<and>
     (\<forall>v w r w'. nl_RuleDel N v w = (r, w') \<longrightarrow> rus w' = (if r = Ok () then {x \<in> rus w. rule_key x \<noteq> rule_key v} else rus w)) \<and>
     (\<forall>f t. leaves rus (nl_RouteListFiltered N f t)) \<and> (\<forall>r. leaves rus (nl_RouteDel N r))"

lemma rule_list:
  assumes "rule_laws rus N" and "nl_RuleList N f w = (r, w')"
  shows "rus w' = rus w" and "r = Ok rs \<Longrightarrow> distinct rs \<and> set rs = {x \<in> rus w. rule_in f x}"
  using assms by (auto simp: rule_laws_def)

lemma rule_list_filtered:
  assumes "rule_laws rus N" and "nl_RuleListFiltered N f t w = (r, w')"
  shows "rus w' = rus w" and "r = Ok rs \<Longrightarrow> distinct rs \<and> set rs = {x \<in> rus w. rule_in f x \<and> rule_matches t x}"
  using assms by (auto simp: rule_laws_def)

lemma rule_add:
  assumes "rule_laws rus N" and "nl_RuleAdd N v w = (r, w')"
  shows "if r = Ok () then rule_key v \<notin> rule_key ` rus w \<and> (\<exists>x. rule_key x = rule_key v \<and> rus w' = insert x (rus w))
    else rus w' = rus w \<and> (\<forall>e. r = Err e \<and> errors_Is e EEXIST \<longrightarrow> rule_key v \<in> rule_key ` rus w)"
  using assms unfolding rule_laws_def by blast

lemma rule_del:
  assumes "rule_laws rus N" and "nl_RuleDel N v w = (r, w')"
  shows "rus w' = (if r = Ok () then {x \<in> rus w. rule_key x \<noteq> rule_key v} else rus w)"
  using assms unfolding rule_laws_def by blast

lemma rule_leaves:
  assumes "rule_laws rus N"
  shows "leaves rus (nl_RouteListFiltered N f t)" and "leaves rus (nl_RouteDel N r)"
  using assms by (simp_all add: rule_laws_def)

section \<open>A reference kernel\<close>

record nl_world =
  nw_links :: "link list"
  nw_addrs :: "(int \<times> nl_addr) list"
  nw_routes :: "route list"
  nw_rules :: "rule list"

definition empty_world :: nl_world where
  "empty_world = \<lparr>nw_links = [], nw_addrs = [], nw_routes = [], nw_rules = []\<rparr>"

definition find_link :: "string \<Rightarrow> nl_world \<Rightarrow> link option" where
  "find_link n w = List.find (\<lambda>l. lk_Name l = n) (nw_links w)"

definition upd_link :: "string \<Rightarrow> (link \<Rightarrow> link) \<Rightarrow> nl_world \<Rightarrow> nl_world" where
  "upd_link n f w = w\<lparr>nw_links := map (\<lambda>l. if lk_Name l = n then f l else l) (nw_links w)\<rparr>"

definition del_link :: "string \<Rightarrow> nl_world \<Rightarrow> nl_world" where
  "del_link n w = w\<lparr>nw_links := filter (\<lambda>l. lk_Name l \<noteq> n) (nw_links w)\<rparr>"

definition install_route :: "route \<Rightarrow> route" where
  "install_route v = v\<lparr>rt_Table := if rt_Table v = 0 then 254 else rt_Table v,
     rt_LinkIndex := if rt_LinkIndex v = 0 then 1 else rt_LinkIndex v\<rparr>"

definition same_route_key :: "route \<Rightarrow> route \<Rightarrow> bool" where
  "same_route_key r v \<longleftrightarrow> rt_Dst r = rt_Dst v \<and> rt_Table r = rt_Table v"

definition okA :: "(nl_world \<Rightarrow> nl_world) \<Rightarrow> (nl_world, unit) act" where
  "okA f = (\<lambda>w. (Ok (), f w))"

definition ref_netlink :: "nl_world netlink_ops" where
  "ref_netlink = \<lparr>
     nl_LinkByName = (\<lambda>n w. (case find_link n w of Some l \<Rightarrow> Ok l | None \<Rightarrow> Err (Sentinel LinkNotFoundError), w)),
     nl_LinkByIndex = (\<lambda>i w. (case List.find (\<lambda>l. lk_Index l = i) (nw_links w) of Some l \<Rightarrow> Ok l | None \<Rightarrow> Err (Sentinel LinkNotFoundError), w)),
     nl_LinkList = (\<lambda>w. (Ok (filter (\<lambda>l. 0 < lk_Index l) (nw_links w)), w)),
     nl_LinkAdd = (\<lambda>l w. if find_link (lk_Name l) w \<noteq> None then (Err (Sentinel EEXIST), w)
        else (Ok (), w\<lparr>nw_links := nw_links w @ [l\<lparr>lk_Index := int (length (nw_links w)) + 1\<rparr>]\<rparr>)),
     nl_LinkDel = (\<lambda>l. okA (del_link (lk_Name l))),
     nl_LinkSetUp = (\<lambda>l. okA (upd_link (lk_Name l) (lk_Up_update (\<lambda>_. True)))),
     nl_LinkSetName = (\<lambda>l n w. if n \<noteq> lk_Name l \<and> find_link n w \<noteq> None \<or> find_link (lk_Name l) w = None then (Err (Sentinel EEXIST), w)
        else (Ok (), upd_link (lk_Name l) (lk_Name_update (\<lambda>_. n)) w)),
     nl_LinkSetAlias = (\<lambda>l a. okA (upd_link (lk_Name l) (lk_Alias_update (\<lambda>_. a)))),
     nl_AddrAdd = (\<lambda>l a. okA (\<lambda>w. w\<lparr>nw_addrs := nw_addrs w @ [(lk_Index l, a)]\<rparr>)),
     nl_AddrList = (\<lambda>l f w. (Ok (map snd (filter (\<lambda>(i, a). i = lk_Index l \<and> (f = FAMILY_ALL \<or> ip_family (net_IP (na_IPNet a)) = f)) (nw_addrs w))), w)),
     nl_RouteListFiltered = (\<lambda>f t w. (Ok (filter (\<lambda>r. in_family f r \<and> route_matches t r) (nw_routes w)), w)),
     nl_RouteList = (\<lambda>l f w. (Ok (filter (\<lambda>r. in_family f r \<and> rt_Table r = 254 \<and>
        (case l of None \<Rightarrow> True | Some l \<Rightarrow> rt_LinkIndex r = lk_Index l)) (nw_routes w)), w)),
     nl_RouteAdd = (\<lambda>v w. if list_ex (same_route_key (install_route v)) (nw_routes w) then (Err (Sentinel EEXIST), w)
        else (Ok (), w\<lparr>nw_routes := nw_routes w @ [install_route v]\<rparr>)),
     nl_RouteDel = (\<lambda>v w. if v \<in> set (nw_routes w) then (Ok (), w\<lparr>nw_routes := removeAll v (nw_routes w)\<rparr>)
        else (Err (ErrorMsg ''no such process''), w)),
     nl_RuleList = (\<lambda>f w. (Ok (remdups (filter (rule_in f) (nw_rules w))), w)),
     nl_RuleListFiltered = (\<lambda>f t w. (Ok (remdups (filter (\<lambda>r. rule_in f r \<and> rule_matches t r) (nw_rules w))), w)),
     nl_RuleAdd = (\<lambda>r w. if list_ex (\<lambda>x. rule_key x = rule_key r) (nw_rules w) then (Err (Sentinel EEXIST), w) else (Ok (), w\<lparr>nw_rules := nw_rules w @ [r]\<rparr>)),
     nl_RuleDel = (\<lambda>r w. if list_ex (\<lambda>x. rule_key x = rule_key r) (nw_rules w) then (Ok (), w\<lparr>nw_rules := filter (\<lambda>x. rule_key x \<noteq> rule_key r) (nw_rules w)\<rparr>)
        else (Err (Sentinel ENOENT), w)),
     nl_FouAdd = (\<lambda>f p port. okA (\<lambda>w. w))\<rparr>"

abbreviation ref_routes :: "nl_world \<Rightarrow> route set" where
  "ref_routes w \<equiv> set (nw_routes w)"

abbreviation ref_links :: "nl_world \<Rightarrow> string \<Rightarrow> link option" where
  "ref_links w \<equiv> (\<lambda>n. find_link n w)"

lemma ref_route_laws: "route_laws ref_routes ref_netlink"
  unfolding route_laws_def
proof (intro conjI allI impI)
  show "if r = Ok () then \<exists>x. installs v x \<and> ref_routes w' = insert x (ref_routes w) else ref_routes w' = ref_routes w"
    if "nl_RouteAdd ref_netlink v w = (r, w')" for v w r w'
  proof -
    have "installs v (install_route v)" by (simp add: installs_def install_route_def)
    then show ?thesis using that by (auto simp: ref_netlink_def split: if_splits)
  qed
qed (auto simp: ref_netlink_def leaves_def okA_def upd_link_def split: if_splits)

lemma find_map_name:
  "List.find (\<lambda>l. lk_Name l = n) (map (\<lambda>l. if lk_Name l = m then f l else l) ls) =
    (if n = m then map_option f (List.find (\<lambda>l. lk_Name l = n) ls) else List.find (\<lambda>l. lk_Name l = n) ls)"
  if "\<And>l. lk_Name (f l) = lk_Name l"
  using that by (induction ls) auto

lemma find_upd_link:
  assumes "\<And>l. lk_Name (f l) = lk_Name l"
  shows "find_link n (upd_link m f w) = (if n = m then map_option f (find_link n w) else find_link n w)"
  using find_map_name [OF assms] by (simp add: find_link_def upd_link_def)

lemma find_del_link: "find_link n (del_link m w) = (if n = m then None else find_link n w)"
proof -
  have "List.find (\<lambda>l. lk_Name l = n) (filter (\<lambda>l. lk_Name l \<noteq> m) ls) =
    (if n = m then None else List.find (\<lambda>l. lk_Name l = n) ls)" for ls by (induction ls) auto
  from this [of "nw_links w"] show ?thesis unfolding find_link_def del_link_def by simp
qed

lemma find_rename_link:
  assumes "n = m \<or> find_link n w = None"
  shows "find_link k (upd_link m (lk_Name_update (\<lambda>_. n)) w) =
    (if k = n then map_option (lk_Name_update (\<lambda>_. n)) (find_link m w) else if k = m then None else find_link k w)"
proof -
  have "List.find (\<lambda>l. lk_Name l = k) (map (\<lambda>l. if lk_Name l = m then l\<lparr>lk_Name := n\<rparr> else l) ls) =
    (if k = n then map_option (lk_Name_update (\<lambda>_. n)) (List.find (\<lambda>l. lk_Name l = m) ls) else if k = m then None
      else List.find (\<lambda>l. lk_Name l = k) ls)" if "n = m \<or> List.find (\<lambda>l. lk_Name l = n) ls = None" for ls
    using that by (induction ls) (auto split: if_splits)
  from this [of "nw_links w"] show ?thesis using assms unfolding find_link_def upd_link_def by simp
qed

lemma find_link_name: "find_link n w = Some l \<Longrightarrow> lk_Name l = n"
  by (auto simp: find_link_def find_Some_iff)

lemma find_append: "List.find P (xs @ ys) = (case List.find P xs of Some x \<Rightarrow> Some x | None \<Rightarrow> List.find P ys)"
  by (induction xs) auto

lemma ref_link_laws: "link_laws ref_links ref_netlink"
  unfolding link_laws_def
proof (intro conjI allI impI)
  show "if r = Ok () then find_link (lk_Name l) w = None \<and> (\<exists>l'. lk_Kind l' = lk_Kind l \<and> lk_Name l' = lk_Name l \<and>
           ref_links w' = (ref_links w)(lk_Name l \<mapsto> l')) else ref_links w' = ref_links w"
    if "nl_LinkAdd ref_netlink l w = (r, w')" for l w r w'
  proof (cases "find_link (lk_Name l) w")
    case None
    let ?l = "l\<lparr>lk_Index := int (length (nw_links w)) + 1\<rparr>"
    have "find_link k (w\<lparr>nw_links := nw_links w @ [?l]\<rparr>) = ((ref_links w)(lk_Name l \<mapsto> ?l)) k" for k
      using None by (auto simp: find_link_def find_append split: option.splits)
    then show ?thesis using that None by (auto simp: ref_netlink_def intro!: exI [of _ ?l])
  qed (use that in \<open>auto simp: ref_netlink_def\<close>)
qed (auto simp: ref_netlink_def okA_def find_upd_link find_del_link find_rename_link find_link_name fun_eq_iff split: if_splits option.splits)

abbreviation ref_rules :: "nl_world \<Rightarrow> rule set" where
  "ref_rules w \<equiv> set (nw_rules w)"

lemma ref_rule_laws: "rule_laws ref_rules ref_netlink"
  unfolding rule_laws_def ref_netlink_def leaves_def
  by (intro conjI allI impI) (auto simp: list_ex_iff split: if_splits intro: rev_image_eqI)

text \<open>A kernel in which every call succeeds, nothing is listed and nothing changes.\<close>

definition idle_netlink :: "'w netlink_ops" where
  "idle_netlink = \<lparr>nl_LinkByName = (\<lambda>n. returnA (new_link n Veth)), nl_LinkByIndex = (\<lambda>_. returnA (new_link ''eth0'' Veth)),
     nl_LinkList = returnA [], nl_LinkAdd = (\<lambda>_. returnA ()), nl_LinkDel = (\<lambda>_. returnA ()), nl_LinkSetUp = (\<lambda>_. returnA ()),
     nl_LinkSetName = (\<lambda>_ _. returnA ()), nl_LinkSetAlias = (\<lambda>_ _. returnA ()), nl_AddrAdd = (\<lambda>_ _. returnA ()),
     nl_AddrList = (\<lambda>_ _. returnA []), nl_RouteListFiltered = (\<lambda>_ _. returnA []), nl_RouteList = (\<lambda>_ _. returnA []),
     nl_RouteAdd = (\<lambda>_. returnA ()), nl_RouteDel = (\<lambda>_. returnA ()), nl_RuleList = (\<lambda>_. returnA []), nl_RuleListFiltered = (\<lambda>_ _. returnA []),
     nl_RuleAdd = (\<lambda>_. returnA ()), nl_RuleDel = (\<lambda>_. returnA ()), nl_FouAdd = (\<lambda>_ _ _. returnA ())\<rparr>"

end
