(* ===== verification/Ext_Lib.thy ===== *)
theory Ext_Lib
  imports Go_Net
begin

text \<open>
  Packages outside the repository the IPAM code calls, as parameters: \<open>bits-and-blooms/bitset\<close>
  and \<open>cybozu-go/netutil\<close>. A record holds the operations the sources call; a predicate states
  the documented behaviour the sources rely on; a concrete instance shows that it can hold.
\<close>

section \<open>bitset\<close>

record 'b bitset_ops =
  bs_Zero :: 'b
  bs_New :: "nat \<Rightarrow> 'b"
  bs_Test :: "'b \<Rightarrow> nat \<Rightarrow> bool"
  bs_Len :: "'b \<Rightarrow> nat"
  bs_Set :: "'b \<Rightarrow> nat \<Rightarrow> 'b"
  bs_Clear :: "'b \<Rightarrow> nat \<Rightarrow> 'b"
  bs_ClearAll :: "'b \<Rightarrow> 'b"
  bs_NextClear :: "'b \<Rightarrow> nat \<Rightarrow> nat option"
  bs_All :: "'b \<Rightarrow> bool"
  bs_None :: "'b \<Rightarrow> bool"

text \<open>
  \<open>Set\<close> grows the set to hold the index, \<open>Clear\<close> and \<open>ClearAll\<close> keep the length, and
  \<open>NextClear(i)\<close> is the first clear bit at or after \<open>i\<close> below the length, if any.
\<close>

definition bitset_len_laws :: "'b bitset_ops \<Rightarrow> bool" where
  "bitset_len_laws B \<longleftrightarrow>
     bs_Len B (bs_Zero B) = 0 \<and>
     (\<forall>n. bs_Len B (bs_New B n) = n) \<and>
     (\<forall>b i. bs_Len B (bs_Set B b i) = max (bs_Len B b) (Suc i)) \<and>
     (\<forall>b i. bs_Len B (bs_Clear B b i) = bs_Len B b) \<and>
     (\<forall>b. bs_Len B (bs_ClearAll B b) = bs_Len B b)"

definition bitset_test_laws :: "'b bitset_ops \<Rightarrow> bool" where
  "bitset_test_laws B \<longleftrightarrow>
     (\<forall>n i. \<not> bs_Test B (bs_New B n) i) \<and>
     (\<forall>b i j. bs_Test B (bs_Set B b i) j = (j = i \<or> bs_Test B b j)) \<and>
     (\<forall>b i j. bs_Test B (bs_Clear B b i) j = (j \<noteq> i \<and> bs_Test B b j)) \<and>
     (\<forall>b j. \<not> bs_Test B (bs_ClearAll B b) j)"

definition bitset_scan_laws :: "'b bitset_ops \<Rightarrow> bool" where
  "bitset_scan_laws B \<longleftrightarrow>
     (\<forall>b i. bs_Test B b i \<longrightarrow> i < bs_Len B b) \<and>
     (\<forall>b i j. bs_NextClear B b i = Some j \<longrightarrow>
        i \<le> j \<and> j < bs_Len B b \<and> \<not> bs_Test B b j \<and> (\<forall>k. i \<le> k \<and> k < j \<longrightarrow> bs_Test B b k)) \<and>
     (\<forall>b i. bs_NextClear B b i = None \<longrightarrow> (\<forall>k. i \<le> k \<and> k < bs_Len B b \<longrightarrow> bs_Test B b k)) \<and>
     (\<forall>b. bs_All B b = (\<forall>i < bs_Len B b. bs_Test B b i)) \<and>
     (\<forall>b. bs_None B b = (\<forall>i. \<not> bs_Test B b i))"

definition bitset_laws :: "'b bitset_ops \<Rightarrow> bool" where
  "bitset_laws B \<longleftrightarrow> bitset_len_laws B \<and> bitset_test_laws B \<and> bitset_scan_laws B"

lemma bitset_len_simps [simp]:
  assumes "bitset_laws B"
  shows "bs_Len B (bs_Zero B) = 0"
    and "bs_Len B (bs_New B n) = n"
    and "bs_Len B (bs_Set B b i) = max (bs_Len B b) (Suc i)"
    and "bs_Len B (bs_Clear B b i) = bs_Len B b"
    and "bs_Len B (bs_ClearAll B b) = bs_Len B b"
  using assms by (simp_all add: bitset_laws_def bitset_len_laws_def)

lemma bitset_test_simps [simp]:
  assumes "bitset_laws B"
  shows "\<not> bs_Test B (bs_New B n) i"
    and "bs_Test B (bs_Set B b i) j = (j = i \<or> bs_Test B b j)"
    and "bs_Test B (bs_Clear B b i) j = (j \<noteq> i \<and> bs_Test B b j)"
    and "\<not> bs_Test B (bs_ClearAll B b) j"
  using assms by (simp_all add: bitset_laws_def bitset_test_laws_def)

lemma bitset_scan: "bitset_laws B \<Longrightarrow> bitset_scan_laws B"
  by (simp add: bitset_laws_def)

lemma bitset_Test_Len: "bitset_laws B \<Longrightarrow> bs_Test B b i \<Longrightarrow> i < bs_Len B b"
  by (drule bitset_scan) (simp add: bitset_scan_laws_def)

lemma bitset_Zero_Test [simp]: "bitset_laws B \<Longrightarrow> \<not> bs_Test B (bs_Zero B) i"
  using bitset_Test_Len [of B "bs_Zero B" i] by auto

lemma bitset_NextClear_Some:
  assumes "bitset_laws B" and "bs_NextClear B b i = Some j"
  shows "i \<le> j" and "j < bs_Len B b" and "\<not> bs_Test B b j"
    and "i \<le> k \<Longrightarrow> k < j \<Longrightarrow> bs_Test B b k"
proof -
  have "\<forall>b i j. bs_NextClear B b i = Some j \<longrightarrow>
        i \<le> j \<and> j < bs_Len B b \<and> \<not> bs_Test B b j \<and> (\<forall>k. i \<le> k \<and> k < j \<longrightarrow> bs_Test B b k)"
    using bitset_scan [OF assms(1)] unfolding bitset_scan_laws_def by (elim conjE)
  with assms(2) show "i \<le> j" "j < bs_Len B b" "\<not> bs_Test B b j"
    "i \<le> k \<Longrightarrow> k < j \<Longrightarrow> bs_Test B b k"
    by blast+
qed

lemma bitset_NextClear_None:
  assumes "bitset_laws B" and "bs_NextClear B b i = None" and "i \<le> k" and "k < bs_Len B b"
  shows "bs_Test B b k"
proof -
  have "\<forall>b i. bs_NextClear B b i = None \<longrightarrow> (\<forall>k. i \<le> k \<and> k < bs_Len B b \<longrightarrow> bs_Test B b k)"
    using bitset_scan [OF assms(1)] unfolding bitset_scan_laws_def by (elim conjE)
  with assms(2-4) show ?thesis by blast
qed

lemma bitset_All: "bitset_laws B \<Longrightarrow> bs_All B b \<longleftrightarrow> (\<forall>i < bs_Len B b. bs_Test B b i)"
  by (drule bitset_scan) (simp add: bitset_scan_laws_def)

lemma bitset_None: "bitset_laws B \<Longrightarrow> bs_None B b \<longleftrightarrow> (\<forall>i. \<not> bs_Test B b i)"
  by (drule bitset_scan) (simp add: bitset_scan_laws_def)

text \<open>The set bits as a set.\<close>

definition bs_bits :: "'b bitset_ops \<Rightarrow> 'b \<Rightarrow> nat set" where
  "bs_bits B b = {i. bs_Test B b i}"

lemma bs_bits_simps [simp]:
  assumes "bitset_laws B"
  shows "bs_bits B (bs_Zero B) = {}"
    and "bs_bits B (bs_New B n) = {}"
    and "bs_bits B (bs_Set B b i) = insert i (bs_bits B b)"
    and "bs_bits B (bs_Clear B b i) = bs_bits B b - {i}"
    and "bs_bits B (bs_ClearAll B b) = {}"
  using assms by (auto simp: bs_bits_def)

lemma bs_bits_below: "bitset_laws B \<Longrightarrow> i \<in> bs_bits B b \<Longrightarrow> i < bs_Len B b"
  by (simp add: bs_bits_def bitset_Test_Len)

lemma finite_bs_bits [simp]: "bitset_laws B \<Longrightarrow> finite (bs_bits B b)"
  by (rule finite_subset [of _ "{..<bs_Len B b}"]) (auto simp: bs_bits_below)

lemma fold_Set_bits [simp]:
  "bitset_laws B \<Longrightarrow> bs_bits B (fold (\<lambda>i b. bs_Set B b i) is b) = set is \<union> bs_bits B b"
  by (induction "is" arbitrary: b) auto

lemma fold_Set_Len:
  "bitset_laws B \<Longrightarrow> bs_Len B b \<le> n \<Longrightarrow> (\<And>i. i \<in> set is \<Longrightarrow> i < n) \<Longrightarrow>
    bs_Len B (fold (\<lambda>i b. bs_Set B b i) is b) \<le> n \<and> bs_Len B b \<le> bs_Len B (fold (\<lambda>i b. bs_Set B b i) is b)"
proof (induction "is" arbitrary: b)
  case Nil
  then show ?case by simp
next
  case (Cons i "is")
  have "i < n" using Cons.prems by simp
  then have "bs_Len B (bs_Set B b i) \<le> n" using Cons.prems(1,2) by simp
  then have "bs_Len B (fold (\<lambda>i b. bs_Set B b i) is (bs_Set B b i)) \<le> n \<and>
      bs_Len B (bs_Set B b i) \<le> bs_Len B (fold (\<lambda>i b. bs_Set B b i) is (bs_Set B b i))"
    using Cons.IH [OF Cons.prems(1)] Cons.prems(3) by simp
  moreover have "bs_Len B b \<le> bs_Len B (bs_Set B b i)" using Cons.prems(1) by simp
  ultimately show ?case by (metis fold_simps(2) le_trans)
qed

text \<open>An instance: lists of bits.\<close>

fun list_next_clear :: "nat \<Rightarrow> bool list \<Rightarrow> nat \<Rightarrow> nat option" where
  "list_next_clear p [] i = None"
| "list_next_clear p (b # bs) i = (if i \<le> p \<and> \<not> b then Some p else list_next_clear (Suc p) bs i)"

definition list_bitset :: "bool list bitset_ops" where
  "list_bitset = \<lparr>
     bs_Zero = [],
     bs_New = (\<lambda>n. replicate n False),
     bs_Test = (\<lambda>b i. i < length b \<and> b ! i),
     bs_Len = length,
     bs_Set = (\<lambda>b i. (b @ replicate (Suc i - length b) False)[i := True]),
     bs_Clear = (\<lambda>b i. b[i := False]),
     bs_ClearAll = (\<lambda>b. replicate (length b) False),
     bs_NextClear = (\<lambda>b i. list_next_clear 0 b i),
     bs_All = (\<lambda>b. list_all (\<lambda>x. x) b),
     bs_None = (\<lambda>b. list_all Not b)\<rparr>"

lemma list_next_clear_Some:
  "list_next_clear p bs i = Some j \<Longrightarrow>
    i \<le> j \<and> p \<le> j \<and> j < p + length bs \<and> \<not> bs ! (j - p) \<and> (\<forall>k. i \<le> k \<and> p \<le> k \<and> k < j \<longrightarrow> bs ! (k - p))"
proof (induction p bs i rule: list_next_clear.induct)
  case (2 p b bs i)
  show ?case
  proof (cases "i \<le> p \<and> \<not> b")
    case True
    with "2.prems" show ?thesis by auto
  next
    case False
    then have IH: "i \<le> j \<and> Suc p \<le> j \<and> j < Suc p + length bs \<and> \<not> bs ! (j - Suc p) \<and>
        (\<forall>k. i \<le> k \<and> Suc p \<le> k \<and> k < j \<longrightarrow> bs ! (k - Suc p))"
      using 2 by auto
    have "(b # bs) ! (k - p)" if "i \<le> k" "p \<le> k" "k < j" for k
      using that False IH by (cases "k = p") (auto simp: nth_Cons' intro: Suc_leI)
    with IH show ?thesis by (auto simp: nth_Cons')
  qed
qed simp

lemma list_next_clear_None:
  "list_next_clear p bs i = None \<Longrightarrow> i \<le> k \<Longrightarrow> p \<le> k \<Longrightarrow> k < p + length bs \<Longrightarrow> bs ! (k - p)"
proof (induction p bs i rule: list_next_clear.induct)
  case (2 p b bs i)
  then show ?case by (cases "k = p") (auto simp: nth_Cons' split: if_splits)
qed simp

lemma list_bitset_laws: "bitset_laws list_bitset"
proof -
  have "bitset_len_laws list_bitset"
    by (auto simp: bitset_len_laws_def list_bitset_def)
  moreover have "bitset_test_laws list_bitset"
    by (auto simp: bitset_test_laws_def list_bitset_def nth_append nth_list_update)
      (metis nth_list_update_eq nth_list_update_neq)
  moreover have "bitset_scan_laws list_bitset"
    unfolding bitset_scan_laws_def
  proof (intro conjI)
    show "\<forall>b i j. bs_NextClear list_bitset b i = Some j \<longrightarrow>
          i \<le> j \<and> j < bs_Len list_bitset b \<and> \<not> bs_Test list_bitset b j \<and>
          (\<forall>k. i \<le> k \<and> k < j \<longrightarrow> bs_Test list_bitset b k)"
      using list_next_clear_Some [of 0] by (fastforce simp: list_bitset_def)
    show "\<forall>b i. bs_NextClear list_bitset b i = None \<longrightarrow>
          (\<forall>k. i \<le> k \<and> k < bs_Len list_bitset b \<longrightarrow> bs_Test list_bitset b k)"
      using list_next_clear_None [of 0] by (fastforce simp: list_bitset_def)
  qed (auto simp: list_bitset_def list_all_length)
  ultimately show ?thesis by (simp add: bitset_laws_def)
qed

section \<open>netutil\<close>

record netutil_ops =
  nu_IPAdd :: "ip \<Rightarrow> int \<Rightarrow> ip"
  nu_IPDiff :: "ip \<Rightarrow> ip \<Rightarrow> int"

text \<open>
  \<open>IPAdd\<close> adds to the value of an address of either family and returns nil on overflow;
  \<open>IPDiff(a, b)\<close> is \<open>b - a\<close> for two addresses of one family, where the difference fits an
  \<open>int64\<close>.
\<close>

definition netutil_laws :: "netutil_ops \<Rightarrow> bool" where
  "netutil_laws N \<longleftrightarrow>
     (\<forall>a v. To4 a \<noteq> [] \<longrightarrow>
        (let x = int (ip_val (To4 a)) + v in
         if 0 \<le> x \<and> x < 2 ^ 32 then To4 (nu_IPAdd N a v) = ip_of_nat 4 (nat x) else nu_IPAdd N a v = [])) \<and>
     (\<forall>a v. To4 a = [] \<and> length a = 16 \<longrightarrow>
        (let x = int (ip_val a) + v in
         if 0 \<le> x \<and> x < 2 ^ 128 then nu_IPAdd N a v = ip_of_nat 16 (nat x) else nu_IPAdd N a v = [])) \<and>
     (\<forall>a b. To4 a \<noteq> [] \<and> To4 b \<noteq> [] \<longrightarrow>
        nu_IPDiff N a b = int (ip_val (To4 b)) - int (ip_val (To4 a))) \<and>
     (\<forall>a b. To4 a = [] \<and> To4 b = [] \<and> length a = 16 \<and> length b = 16 \<and>
        \<bar>int (ip_val b) - int (ip_val a)\<bar> < 2 ^ 63 \<longrightarrow>
        nu_IPDiff N a b = int (ip_val b) - int (ip_val a))"

definition netutil_ref :: netutil_ops where
  "netutil_ref = \<lparr>
     nu_IPAdd = (\<lambda>a v.
       if To4 a \<noteq> [] then
         (let x = int (ip_val (To4 a)) + v in if 0 \<le> x \<and> x < 2 ^ 32 then ip_of_nat 4 (nat x) else [])
       else
         (let x = int (ip_val a) + v in if 0 \<le> x \<and> x < 2 ^ 128 then ip_of_nat 16 (nat x) else [])),
     nu_IPDiff = (\<lambda>a b.
       if To4 a \<noteq> [] \<and> To4 b \<noteq> [] then int (ip_val (To4 b)) - int (ip_val (To4 a))
       else int (ip_val b) - int (ip_val a))\<rparr>"

lemma netutil_ref_laws: "netutil_laws netutil_ref"
  unfolding netutil_laws_def by (auto simp: netutil_ref_def Let_def)

lemma IPAdd4:
  assumes "netutil_laws N" and "length b = 4" and "ip_val b + i < 2 ^ 32"
  shows "To4 (nu_IPAdd N b (int i)) = ip_of_nat 4 (ip_val b + i)"
proof -
  have "To4 b \<noteq> []" "To4 b = b" using assms(2) by auto
  moreover have "int (ip_val b) + int i < 2 ^ 32"
    using assms(3) by (simp flip: of_nat_add)
  moreover have "nat (int (ip_val b) + int i) = ip_val b + i" by simp
  ultimately show ?thesis using assms(1) unfolding netutil_laws_def Let_def by force
qed

lemma IPAdd16:
  assumes "netutil_laws N" and "length b = 16" and "To4 b = []" and "ip_val b + i < 2 ^ 128"
  shows "nu_IPAdd N b (int i) = ip_of_nat 16 (ip_val b + i)"
proof -
  have "int (ip_val b) + int i < 2 ^ 128"
    using assms(4) by (simp flip: of_nat_add)
  moreover have "nat (int (ip_val b) + int i) = ip_val b + i" by simp
  ultimately show ?thesis using assms(1-3) unfolding netutil_laws_def Let_def by force
qed

lemma IPDiff4:
  assumes "netutil_laws N" and "To4 a \<noteq> []" and "To4 b \<noteq> []"
  shows "nu_IPDiff N a b = int (ip_val (To4 b)) - int (ip_val (To4 a))"
  using assms unfolding netutil_laws_def by blast

lemma IPDiff16:
  assumes "netutil_laws N" and "length a = 16" "length b = 16" "To4 a = []" "To4 b = []"
    and "\<bar>int (ip_val b) - int (ip_val a)\<bar> < 2 ^ 63"
  shows "nu_IPDiff N a b = int (ip_val b) - int (ip_val a)"
  using assms unfolding netutil_laws_def by blast

end
