(* ===== verification/Kube_Api.thy ===== *)
theory Kube_Api
  imports Ext_Lib
begin

text \<open>
  What the components share of the Kubernetes API: object metadata, field errors, admission
  results, the constants of \<open>pkg/constants\<close>, and the functions of controller-runtime's
  \<open>controllerutil\<close> that the sources call, as a record of parameters with their documented
  behaviour.
\<close>

section \<open>Constants\<close>

definition AnnPool :: string where "AnnPool = ''coil.cybozu.com/pool''"
definition AnnEgressPrefix :: string where "AnnEgressPrefix = ''egress.coil.cybozu.com/''"
definition LabelPool :: string where "LabelPool = ''coil.cybozu.com/pool''"
definition LabelNode :: string where "LabelNode = ''coil.cybozu.com/node''"
definition LabelRequest :: string where "LabelRequest = ''coil.cybozu.com/request''"
definition LabelReserved :: string where "LabelReserved = ''coil.cybozu.com/reserved''"
definition FinCoil :: string where "FinCoil = ''coil.cybozu.com''"
definition DefaultPool :: string where "DefaultPool = ''default''"
definition SAEgress :: string where "SAEgress = ''coil-egress''"
definition CRBEgress :: string where "CRBEgress = ''coil-egress''"
definition CRBEgressPSP :: string where "CRBEgressPSP = ''psp-coil-egress''"
definition EnvNode :: string where "EnvNode = ''COIL_NODE_NAME''"
definition EnvAddresses :: string where "EnvAddresses = ''COIL_POD_ADDRESSES''"
definition EnvPodNamespace :: string where "EnvPodNamespace = ''COIL_POD_NAMESPACE''"
definition EnvPodName :: string where "EnvPodName = ''COIL_POD_NAME''"
definition EnvEgressName :: string where "EnvEgressName = ''COIL_EGRESS_NAME''"
definition MetricsNS :: string where "MetricsNS = ''coil''"
definition FamilyIPv4 :: string where "FamilyIPv4 = ''ipv4''"
definition FamilyIPv6 :: string where "FamilyIPv6 = ''ipv6''"

lemmas label_defs = LabelPool_def LabelNode_def LabelRequest_def LabelReserved_def

section \<open>Object metadata\<close>

record owner_ref =
  or_Kind :: string
  or_Name :: string
  or_UID :: string
  or_Controller :: bool

record object_meta =
  om_Name :: string
  om_Namespace :: string
  om_UID :: string
  om_Labels :: "string gomap"
  om_Annotations :: "string gomap"
  om_Finalizers :: "string list"
  om_DeletionTimestamp :: "nat option"
  om_OwnerReferences :: "owner_ref list"

text \<open>The zero value of \<open>metav1.ObjectMeta\<close>.\<close>

definition empty_meta :: object_meta where
  "empty_meta = \<lparr>om_Name = '''', om_Namespace = '''', om_UID = '''', om_Labels = [], om_Annotations = [],
     om_Finalizers = [], om_DeletionTimestamp = None, om_OwnerReferences = []\<rparr>"

text \<open>Reading a missing key of a \<open>map[string]string\<close> yields the empty string.\<close>

definition gget :: "string gomap \<Rightarrow> string \<Rightarrow> string" where
  "gget m k = (case glookup m k of Some v \<Rightarrow> v | None \<Rightarrow> [])"

section \<open>Field errors and admission\<close>

datatype path_elem = PChild string | PIndex nat

type_synonym field_path = "path_elem list"

datatype field_error =
    FInvalid field_path string string
  | FForbidden field_path string
  | FNotSupported field_path string "string list"

datatype admission = Admit | RejectInvalid string string "field_error list"

section \<open>controllerutil\<close>

record ctrlutil_ops =
  cu_AddFinalizer :: "object_meta \<Rightarrow> string \<Rightarrow> object_meta"
  cu_RemoveFinalizer :: "object_meta \<Rightarrow> string \<Rightarrow> object_meta"
  cu_SetControllerReference :: "string \<Rightarrow> object_meta \<Rightarrow> object_meta \<Rightarrow> object_meta res"
  cu_ContainsFinalizer :: "object_meta \<Rightarrow> string \<Rightarrow> bool"
  cu_SetOwnerReference :: "string \<Rightarrow> object_meta \<Rightarrow> object_meta \<Rightarrow> object_meta res"

text \<open>
  \<open>AddFinalizer\<close> and \<open>RemoveFinalizer\<close> change only the list of finalizers;
  \<open>SetControllerReference(owner, obj)\<close> changes only the owner references of the object, where it
  records the owner, or fails, and so does \<open>SetOwnerReference\<close>, for an owner that is not the
  controller.
\<close>

definition ctrlutil_laws :: "ctrlutil_ops \<Rightarrow> bool" where
  "ctrlutil_laws C \<longleftrightarrow>
     (\<forall>m f. \<exists>fs. cu_AddFinalizer C m f = m\<lparr>om_Finalizers := fs\<rparr> \<and> set fs = insert f (set (om_Finalizers m))) \<and>
     (\<forall>m f. \<exists>fs. cu_RemoveFinalizer C m f = m\<lparr>om_Finalizers := fs\<rparr> \<and> set fs = set (om_Finalizers m) - {f}) \<and>
     (\<forall>k ow m. case cu_SetControllerReference C k ow m of
        Ok m' \<Rightarrow> \<exists>rs. m' = m\<lparr>om_OwnerReferences := rs\<rparr> \<and>
          \<lparr>or_Kind = k, or_Name = om_Name ow, or_UID = om_UID ow, or_Controller = True\<rparr> \<in> set rs
      | Err _ \<Rightarrow> True
      | Panic _ \<Rightarrow> False) \<and>
     (\<forall>m f. cu_ContainsFinalizer C m f = (f \<in> set (om_Finalizers m))) \<and>
     (\<forall>k ow m. case cu_SetOwnerReference C k ow m of
        Ok m' \<Rightarrow> \<exists>rs. m' = m\<lparr>om_OwnerReferences := rs\<rparr> \<and>
          \<lparr>or_Kind = k, or_Name = om_Name ow, or_UID = om_UID ow, or_Controller = False\<rparr> \<in> set rs
      | Err _ \<Rightarrow> True
      | Panic _ \<Rightarrow> False)"

definition ctrlutil_ref :: ctrlutil_ops where
  "ctrlutil_ref = \<lparr>
     cu_AddFinalizer = (\<lambda>m f. m\<lparr>om_Finalizers := (if f \<in> set (om_Finalizers m) then om_Finalizers m else om_Finalizers m @ [f])\<rparr>),
     cu_RemoveFinalizer = (\<lambda>m f. m\<lparr>om_Finalizers := filter (\<lambda>g. g \<noteq> f) (om_Finalizers m)\<rparr>),
     cu_SetControllerReference = (\<lambda>k ow m. Ok (m\<lparr>om_OwnerReferences :=
       om_OwnerReferences m @ [\<lparr>or_Kind = k, or_Name = om_Name ow, or_UID = om_UID ow, or_Controller = True\<rparr>]\<rparr>)),
     cu_ContainsFinalizer = (\<lambda>m f. f \<in> set (om_Finalizers m)),
     cu_SetOwnerReference = (\<lambda>k ow m. Ok (m\<lparr>om_OwnerReferences :=
       om_OwnerReferences m @ [\<lparr>or_Kind = k, or_Name = om_Name ow, or_UID = om_UID ow, or_Controller = False\<rparr>]\<rparr>))\<rparr>"

lemma ctrlutil_ref_laws: "ctrlutil_laws ctrlutil_ref"
proof -
  have "m = m\<lparr>om_Finalizers := om_Finalizers m\<rparr>" for m :: object_meta by simp
  then show ?thesis
    unfolding ctrlutil_laws_def ctrlutil_ref_def by (force simp: insert_absorb)
qed

lemma AddFinalizer_upd:
  assumes "ctrlutil_laws C"
  obtains fs where "cu_AddFinalizer C m f = m\<lparr>om_Finalizers := fs\<rparr>" "set fs = insert f (set (om_Finalizers m))"
proof -
  have "\<forall>m f. \<exists>fs. cu_AddFinalizer C m f = m\<lparr>om_Finalizers := fs\<rparr> \<and> set fs = insert f (set (om_Finalizers m))"
    using assms unfolding ctrlutil_laws_def by (elim conjE)
  then show thesis using that by blast
qed

lemma RemoveFinalizer_upd:
  assumes "ctrlutil_laws C"
  obtains fs where "cu_RemoveFinalizer C m f = m\<lparr>om_Finalizers := fs\<rparr>" "set fs = set (om_Finalizers m) - {f}"
proof -
  have "\<forall>m f. \<exists>fs. cu_RemoveFinalizer C m f = m\<lparr>om_Finalizers := fs\<rparr> \<and> set fs = set (om_Finalizers m) - {f}"
    using assms unfolding ctrlutil_laws_def by (elim conjE)
  then show thesis using that by blast
qed

lemma SetControllerReference_cases:
  assumes "ctrlutil_laws C"
  obtains (Ok) rs where "cu_SetControllerReference C k ow m = Ok (m\<lparr>om_OwnerReferences := rs\<rparr>)"
      "\<lparr>or_Kind = k, or_Name = om_Name ow, or_UID = om_UID ow, or_Controller = True\<rparr> \<in> set rs"
    | (Err) e where "cu_SetControllerReference C k ow m = Err e"
proof -
  have "case cu_SetControllerReference C k ow m of
        Ok m' \<Rightarrow> \<exists>rs. m' = m\<lparr>om_OwnerReferences := rs\<rparr> \<and>
          \<lparr>or_Kind = k, or_Name = om_Name ow, or_UID = om_UID ow, or_Controller = True\<rparr> \<in> set rs
      | Err _ \<Rightarrow> True | Panic _ \<Rightarrow> False"
    using assms unfolding ctrlutil_laws_def by blast
  then show thesis using that by (cases "cu_SetControllerReference C k ow m") auto
qed

lemma ContainsFinalizer_iff: "ctrlutil_laws C \<Longrightarrow> cu_ContainsFinalizer C m f \<longleftrightarrow> f \<in> set (om_Finalizers m)"
  unfolding ctrlutil_laws_def by blast

section \<open>Errors of the API client\<close>

text \<open>\<open>client.IgnoreNotFound\<close> around a call without a result.\<close>

definition ignoreNotFound :: "('s, unit) act \<Rightarrow> ('s, unit) act" where
  "ignoreNotFound m = (\<lambda>s. case m s of
      (Err e, s') \<Rightarrow> if IsNotFound e then (Ok (), s') else (Err e, s')
    | r \<Rightarrow> r)"

lemma outcome_ignoreNotFound [wp_simps]:
  "outcome (ignoreNotFound m) Q E P s = outcome m Q (\<lambda>e s'. if IsNotFound e then Q () s' else E e s') P s"
  by (auto simp: outcome_def ignoreNotFound_def split: prod.splits res.splits)

lemma wp_ignoreNotFound [wp_simps]:
  "wp (ignoreNotFound m) Q E s = wp m Q (\<lambda>e s'. if IsNotFound e then Q () s' else E e s') s"
  by (auto simp: wp_def ignoreNotFound_def split: prod.splits res.splits)

lemma keeps_ignoreNotFound [keeps_intros]: "keeps I m \<Longrightarrow> keeps I (ignoreNotFound m)"
  unfolding keeps_outcome by (auto simp: wp_simps elim!: outcome_mono allE)

section \<open>Nodes\<close>

datatype node_address_type = NodeInternalIP | NodeExternalIP | NodeHostName | NodeOtherAddress

record Node =
  node_meta :: object_meta
  node_Addresses :: "(node_address_type \<times> string) list"

end
