(* ===== verification/Allocator.thy ===== *)
theory Allocator
  imports Ext_Lib
begin

text \<open>
  The address allocator of one block, \<open>pkg/ipam/allocator.go\<close>: the struct, its operations in the
  order of the file, the invariant of a well-formed allocator, and the contract a client may
  rely on as the locale \<open>index_allocator\<close>, interpreted on these operations.
\<close>

section \<open>The program\<close>

record 'b allocator =
  al_ipv4 :: "ipnet option"
  al_ipv6 :: "ipnet option"
  al_usage :: "'b option"
  al_lastAllocIdx :: int

text \<open>Method calls on a nil \<open>*bitset.BitSet\<close> dereference nil.\<close>

definition nil_deref :: string where
  "nil_deref = ''invalid memory address or nil pointer dereference''"

definition usage_of :: "'b allocator \<Rightarrow> 'b res" where
  "usage_of a = (case al_usage a of None \<Rightarrow> Panic nil_deref | Some u \<Rightarrow> Ok u)"

definition new_usage :: "'b bitset_ops \<Rightarrow> ipnet \<Rightarrow> 'b" where
  "new_usage B n = (case MaskSize (net_Mask n) of (ones, bits) \<Rightarrow> bs_New B (uint_shl1 (bits - ones)))"

definition newAllocator :: "'b bitset_ops \<Rightarrow> string option \<Rightarrow> string option \<Rightarrow> 'b allocator res" where
  "newAllocator B ipv4 ipv6 =
     (let a0 = \<lparr>al_ipv4 = None, al_ipv6 = None, al_usage = None, al_lastAllocIdx = -1\<rparr> in
      bindR
        (case ipv4 of
           None \<Rightarrow> Ok a0
         | Some s \<Rightarrow> (case ParseCIDR s of
               Ok (ip, n) \<Rightarrow>
                 if To4 ip = nil_ip then Panic ''ipv4 must be an IPv4 subnet''
                 else Ok (a0\<lparr>al_ipv4 := Some n, al_usage := Some (new_usage B n)\<rparr>)
             | _ \<Rightarrow> Panic ''ipv4 must be an IPv4 subnet''))
        (\<lambda>a. case ipv6 of
           None \<Rightarrow> Ok a
         | Some s \<Rightarrow> (case ParseCIDR s of
               Ok (_, n) \<Rightarrow>
                 Ok (a\<lparr>al_ipv6 := Some n,
                       al_usage := (case al_usage a of None \<Rightarrow> Some (new_usage B n) | Some u \<Rightarrow> Some u)\<rparr>)
             | _ \<Rightarrow> (case al_usage a of
                   None \<Rightarrow> Panic nil_deref
                 | Some u \<Rightarrow> Ok (a\<lparr>al_ipv6 := None\<rparr>)))))"

definition isFull :: "'b bitset_ops \<Rightarrow> 'b allocator \<Rightarrow> bool res" where
  "isFull B a = bindR (usage_of a) (\<lambda>u. Ok (bs_All B u))"

definition isEmpty :: "'b bitset_ops \<Rightarrow> 'b allocator \<Rightarrow> bool res" where
  "isEmpty B a = bindR (usage_of a) (\<lambda>u. Ok (bs_None B u))"

definition fill :: "'b bitset_ops \<Rightarrow> 'b allocator \<Rightarrow> 'b allocator res" where
  "fill B a = bindR (usage_of a) (\<lambda>u.
     let u' = fold (\<lambda>i b. bs_Set B b i) [0..<bs_Len B u] u
     in Ok (a\<lparr>al_usage := Some u', al_lastAllocIdx := wrap_int64 (int (bs_Len B u') - 1)\<rparr>))"

text \<open>The tail shared by the two branches of \<open>register\<close>: mark the offset of \<open>ip\<close>.\<close>

definition register_in :: "'b bitset_ops \<Rightarrow> netutil_ops \<Rightarrow> ipnet \<Rightarrow> ip \<Rightarrow> 'b allocator
    \<Rightarrow> ('b allocator \<times> nat option) res" where
  "register_in B N n ip a =
     (let offset = nu_IPDiff N (net_IP n) ip in
      if offset < 0 then Panic ''ip is below the base''
      else bindR (usage_of a) (\<lambda>u.
        Ok (a\<lparr>al_usage := Some (bs_Set B u (nat offset)), al_lastAllocIdx := offset\<rparr>, Some (nat offset))))"

definition register :: "'b bitset_ops \<Rightarrow> netutil_ops \<Rightarrow> ip \<Rightarrow> ip \<Rightarrow> 'b allocator
    \<Rightarrow> ('b allocator \<times> nat option) res" where
  "register B N ipv4 ipv6 a =
     (case al_ipv4 a of
        Some n \<Rightarrow> if Contains n ipv4 then register_in B N n ipv4 a
          else (case al_ipv6 a of
              Some n6 \<Rightarrow> if Contains n6 ipv6 then register_in B N n6 ipv6 a else Ok (a, None)
            | None \<Rightarrow> Ok (a, None))
      | None \<Rightarrow> (case al_ipv6 a of
              Some n6 \<Rightarrow> if Contains n6 ipv6 then register_in B N n6 ipv6 a else Ok (a, None)
            | None \<Rightarrow> Ok (a, None)))"

definition next_index :: "'b bitset_ops \<Rightarrow> 'b \<Rightarrow> int \<Rightarrow> nat option" where
  "next_index B u lst =
     (case bs_NextClear B u (wrap_uint (lst + 1)) of
        Some idx \<Rightarrow> Some idx
      | None \<Rightarrow> bs_NextClear B u 0)"

definition addr_at :: "netutil_ops \<Rightarrow> ipnet option \<Rightarrow> nat \<Rightarrow> ip" where
  "addr_at N no idx = (case no of None \<Rightarrow> nil_ip | Some n \<Rightarrow> nu_IPAdd N (net_IP n) (wrap_int64 (int idx)))"

definition allocate :: "'b bitset_ops \<Rightarrow> netutil_ops \<Rightarrow> 'b allocator
    \<Rightarrow> ('b allocator \<times> (ip \<times> ip \<times> nat) option) res" where
  "allocate B N a = bindR (usage_of a) (\<lambda>u.
     case next_index B u (al_lastAllocIdx a) of
       None \<Rightarrow> Ok (a, None)
     | Some idx \<Rightarrow>
         Ok (a\<lparr>al_usage := Some (bs_Set B u idx), al_lastAllocIdx := wrap_int64 (int idx)\<rparr>,
             Some (addr_at N (al_ipv4 a) idx, addr_at N (al_ipv6 a) idx, idx)))"

definition free :: "'b bitset_ops \<Rightarrow> nat \<Rightarrow> 'b allocator \<Rightarrow> 'b allocator res" where
  "free B idx a = bindR (usage_of a) (\<lambda>u. Ok (a\<lparr>al_usage := Some (bs_Clear B u idx)\<rparr>))"

section \<open>The invariant\<close>

text \<open>A subnet of \<open>2^k\<close> addresses with no host bits, of either family.\<close>

definition block4 :: "ipnet \<Rightarrow> nat \<Rightarrow> bool" where
  "block4 n k \<longleftrightarrow> length (net_IP n) = 4 \<and> k \<le> 32 \<and> net_Mask n = Some (32 - k, 32) \<and>
     2 ^ k dvd ip_val (net_IP n)"

definition block6 :: "ipnet \<Rightarrow> nat \<Rightarrow> bool" where
  "block6 n k \<longleftrightarrow> length (net_IP n) = 16 \<and> To4 (net_IP n) = [] \<and> k \<le> 32 \<and>
     net_Mask n = Some (128 - k, 128) \<and> 2 ^ k dvd ip_val (net_IP n)"

definition used :: "'b bitset_ops \<Rightarrow> 'b allocator \<Rightarrow> nat set" where
  "used B a = (case al_usage a of None \<Rightarrow> {} | Some u \<Rightarrow> bs_bits B u)"

definition capacity :: "'b bitset_ops \<Rightarrow> 'b allocator \<Rightarrow> nat" where
  "capacity B a = (case al_usage a of None \<Rightarrow> 0 | Some u \<Rightarrow> bs_Len B u)"

text \<open>
  A well-formed allocator of a block of \<open>2^k\<close> addresses. The first two conjuncts are the
  documented behaviour of the two packages it calls.
\<close>

definition alloc_inv :: "'b bitset_ops \<Rightarrow> netutil_ops \<Rightarrow> nat \<Rightarrow> 'b allocator \<Rightarrow> bool" where
  "alloc_inv B N k a \<longleftrightarrow> bitset_laws B \<and> netutil_laws N \<and> k \<le> 32 \<and>
     al_usage a \<noteq> None \<and> capacity B a = 2 ^ k \<and>
     -1 \<le> al_lastAllocIdx a \<and> al_lastAllocIdx a < 2 ^ k \<and>
     (al_ipv4 a \<noteq> None \<or> al_ipv6 a \<noteq> None) \<and>
     (\<forall>n. al_ipv4 a = Some n \<longrightarrow> block4 n k) \<and>
     (\<forall>n. al_ipv6 a = Some n \<longrightarrow> block6 n k)"

lemma alloc_inv_usage: "alloc_inv B N k a \<Longrightarrow> \<exists>u. al_usage a = Some u \<and> bs_Len B u = 2 ^ k"
  by (auto simp: alloc_inv_def capacity_def split: option.splits)

lemma alloc_inv_laws: "alloc_inv B N k a \<Longrightarrow> bitset_laws B" "alloc_inv B N k a \<Longrightarrow> netutil_laws N"
  by (simp_all add: alloc_inv_def)

lemma used_below:
  assumes "alloc_inv B N k a" and "i \<in> used B a"
  shows "i < 2 ^ k"
proof -
  obtain u where u: "al_usage a = Some u" "bs_Len B u = 2 ^ k"
    using alloc_inv_usage [OF assms(1)] by blast
  then have "i \<in> bs_bits B u" using assms(2) by (simp add: used_def)
  then show ?thesis using bs_bits_below [OF alloc_inv_laws(1) [OF assms(1)]] u(2) by metis
qed

lemma finite_used: "alloc_inv B N k a \<Longrightarrow> finite (used B a)"
  by (rule finite_subset [of _ "{..<2 ^ k}"]) (auto intro: used_below)

lemma usage_of_inv: "al_usage a = Some u \<Longrightarrow> usage_of a = Ok u"
  by (simp add: usage_of_def)

section \<open>Addresses of a block\<close>

lemma block4_network:
  "block4 n k \<Longrightarrow> network_number_and_mask n = Some (net_IP n, 32 - k, 32)"
  by (auto simp: block4_def network_number_and_mask_def)

lemma block6_network:
  "block6 n k \<Longrightarrow> network_number_and_mask n = Some (net_IP n, 128 - k, 128)"
  by (auto simp: block6_def network_number_and_mask_def)

lemma Contains4:
  assumes "block4 n k"
  shows "Contains n a \<longleftrightarrow> To4 a \<noteq> [] \<and> ip_val (net_IP n) div 2 ^ k = ip_val (To4 a) div 2 ^ k"
proof -
  have "k \<le> 32" "length (net_IP n) = 4" using assms by (auto simp: block4_def)
  then show ?thesis using block4_network [OF assms] by (auto simp: Contains_def Let_def To4_def)
qed

lemma Contains6:
  assumes "block6 n k"
  shows "Contains n a \<longleftrightarrow> To4 a = [] \<and> length a = 16 \<and> ip_val (net_IP n) div 2 ^ k = ip_val a div 2 ^ k"
proof -
  have "k \<le> 128" "length (net_IP n) = 16" using assms by (auto simp: block6_def)
  then show ?thesis using block6_network [OF assms] length_To4 [of a] by (auto simp: Contains_def Let_def)
qed

lemma wrap_idx [simp]: "k \<le> 32 \<Longrightarrow> i < 2 ^ k \<Longrightarrow> wrap_int64 (int i) = int i"
proof -
  assume "k \<le> 32" and "i < 2 ^ k"
  then have "i < 2 ^ 32" using power_increasing [of k 32 "2::nat"] by linarith
  then have "int i < 2 ^ 32" by (simp flip: of_nat_less_iff)
  then show ?thesis by (intro wrap_int64_id) auto
qed

lemma addr_at4:
  assumes "netutil_laws N" and "block4 n k" and "i < 2 ^ k"
  shows "To4 (addr_at N (Some n) i) = ip_of_nat 4 (ip_val (net_IP n) + i)"
    and "ip_val (net_IP n) + i < 2 ^ 32"
proof -
  have b: "length (net_IP n) = 4" "k \<le> 32" "2 ^ k dvd ip_val (net_IP n)"
    using assms(2) by (auto simp: block4_def)
  show lt: "ip_val (net_IP n) + i < 2 ^ 32"
    using aligned_add_bound [OF b(3) ip_val4_lt [OF b(1)] assms(3) b(2)] .
  show "To4 (addr_at N (Some n) i) = ip_of_nat 4 (ip_val (net_IP n) + i)"
    using IPAdd4 [OF assms(1) b(1) lt] wrap_idx [OF b(2) assms(3)] by (simp add: addr_at_def)
qed

lemma addr_at6:
  assumes "netutil_laws N" and "block6 n k" and "i < 2 ^ k"
  shows "addr_at N (Some n) i = ip_of_nat 16 (ip_val (net_IP n) + i)"
    and "ip_val (net_IP n) + i < 2 ^ 128"
    and "To4 (addr_at N (Some n) i) = []"
proof -
  have b: "length (net_IP n) = 16" "To4 (net_IP n) = []" "k \<le> 32" "k \<le> 128" "2 ^ k dvd ip_val (net_IP n)"
    using assms(2) by (auto simp: block6_def)
  show lt: "ip_val (net_IP n) + i < 2 ^ 128"
    using aligned_add_bound [OF b(5) ip_val16_lt [OF b(1)] assms(3) b(4)] .
  show eq: "addr_at N (Some n) i = ip_of_nat 16 (ip_val (net_IP n) + i)"
    using IPAdd16 [OF assms(1) b(1,2) lt] wrap_idx [OF b(3) assms(3)] by (simp add: addr_at_def)
  have "ip_val (ip_of_nat 16 (ip_val (net_IP n) + i)) = ip_val (net_IP n) + i"
    using lt by (simp add: power_mult [of 2 8 16, symmetric] flip: power_mult)
  moreover have "(ip_val (net_IP n) + i) div 2 ^ 32 = ip_val (net_IP n) div 2 ^ 32"
    by (rule aligned_add_div [OF b(5) assms(3) b(3)])
  ultimately show "To4 (addr_at N (Some n) i) = []"
    unfolding eq using To4_16_iff [OF b(1)] b(2) To4_16_iff [of "ip_of_nat 16 (ip_val (net_IP n) + i)"] by simp
qed

lemma addr_at4_val:
  assumes "netutil_laws N" and "block4 n k" and "i < 2 ^ k"
  shows "ip_val (To4 (addr_at N (Some n) i)) = ip_val (net_IP n) + i"
  using addr_at4 [OF assms] by (simp add: power_mult [of 2 8 4, symmetric] flip: power_mult)

lemma addr_at6_val:
  assumes "netutil_laws N" and "block6 n k" and "i < 2 ^ k"
  shows "ip_val (addr_at N (Some n) i) = ip_val (net_IP n) + i"
  using addr_at6 [OF assms] by (simp add: power_mult [of 2 8 16, symmetric] flip: power_mult)

lemma addr_at4_Contains:
  assumes "netutil_laws N" and "block4 n k" and "i < 2 ^ k"
  shows "Contains n (addr_at N (Some n) i)"
proof -
  have "2 ^ k dvd ip_val (net_IP n)" using assms(2) by (simp add: block4_def)
  moreover have "To4 (addr_at N (Some n) i) \<noteq> []"
    using addr_at4(1) [OF assms] by (metis length_ip_of_nat list.size(3) zero_neq_numeral)
  ultimately show ?thesis
    using assms(3) unfolding Contains4 [OF assms(2)] addr_at4_val [OF assms] by auto
qed

lemma addr_at6_Contains:
  assumes "netutil_laws N" and "block6 n k" and "i < 2 ^ k"
  shows "Contains n (addr_at N (Some n) i)"
proof -
  have "2 ^ k dvd ip_val (net_IP n)" using assms(2) by (simp add: block6_def)
  then show ?thesis
    using assms(3) addr_at6 [OF assms] unfolding Contains6 [OF assms(2)] addr_at6_val [OF assms] by auto
qed

lemma addr_at_block4:
  assumes "alloc_inv B N k a" and "i < 2 ^ k" and "al_ipv4 a = Some n"
  shows "Contains n (addr_at N (Some n) i)" and "ip_val (To4 (addr_at N (Some n) i)) = ip_val (net_IP n) + i"
proof -
  have "netutil_laws N" "block4 n k" using assms(1,3) by (simp_all add: alloc_inv_def)
  then show "Contains n (addr_at N (Some n) i)" "ip_val (To4 (addr_at N (Some n) i)) = ip_val (net_IP n) + i"
    using addr_at4_Contains addr_at4_val assms(2) by blast+
qed

lemma addr_at_block6:
  assumes "alloc_inv B N k a" and "i < 2 ^ k" and "al_ipv6 a = Some n"
  shows "Contains n (addr_at N (Some n) i)" and "ip_val (addr_at N (Some n) i) = ip_val (net_IP n) + i"
proof -
  have "netutil_laws N" "block6 n k" using assms(1,3) by (simp_all add: alloc_inv_def)
  then show "Contains n (addr_at N (Some n) i)" "ip_val (addr_at N (Some n) i) = ip_val (net_IP n) + i"
    using addr_at6_Contains addr_at6_val assms(2) by blast+
qed

section \<open>Every operation on a well-formed allocator\<close>

lemma alloc_inv_upd:
  assumes "alloc_inv B N k a" and "bs_Len B u = 2 ^ k" and "-1 \<le> l" and "l < 2 ^ k"
  shows "alloc_inv B N k (a\<lparr>al_usage := Some u, al_lastAllocIdx := l\<rparr>)"
  using assms by (simp add: alloc_inv_def capacity_def)

lemma alloc_inv_last: "alloc_inv B N k a \<Longrightarrow> -1 \<le> al_lastAllocIdx a \<and> al_lastAllocIdx a < 2 ^ k"
  by (simp add: alloc_inv_def)

lemma alloc_inv_k: "alloc_inv B N k a \<Longrightarrow> k \<le> 32"
  by (simp add: alloc_inv_def)

lemma two_pow_le_32: "k \<le> 32 \<Longrightarrow> (2::int) ^ k \<le> 2 ^ 32"
  by (rule power_increasing) auto

lemma minus_one_less_pow [simp]: "(-1::int) < 2 ^ k"
  by (rule less_trans [of _ 0]) auto

lemma capacity_inv: "alloc_inv B N k a \<Longrightarrow> capacity B a = 2 ^ k"
  by (simp add: alloc_inv_def)

lemma used_subset: "alloc_inv B N k a \<Longrightarrow> used B a \<subseteq> {..<2 ^ k}"
  by (auto intro: used_below)

text \<open>The reference for the search: the first free index after the last allocated one, wrapping
  around at the end of the block.\<close>

definition scan_order :: "nat \<Rightarrow> int \<Rightarrow> nat list" where
  "scan_order n lst = [nat (lst + 1)..<n] @ [0..<n]"

lemma find_append_option:
  "List.find P (xs @ ys) = (case List.find P xs of None \<Rightarrow> List.find P ys | Some x \<Rightarrow> Some x)"
  by (induction xs) auto

lemma find_upt_Some:
  assumes "i \<le> j" and "j < n" and "P j" and "\<And>x. i \<le> x \<Longrightarrow> x < j \<Longrightarrow> \<not> P x"
  shows "List.find P [i..<n] = Some j"
proof -
  have "[i..<n] = [i..<j] @ j # [Suc j..<n]"
    using assms(1,2) by (metis le_add_diff_inverse less_imp_le_nat upt_add_eq_append upt_conv_Cons)
  moreover have "List.find P [i..<j] = None"
    using assms(4) by (auto simp: find_None_iff)
  ultimately show ?thesis using assms(3) by (simp add: find_append_option)
qed

lemma NextClear_find:
  assumes "bitset_laws B"
  shows "bs_NextClear B u i = List.find (\<lambda>x. x \<notin> bs_bits B u) [i..<bs_Len B u]"
proof (cases "bs_NextClear B u i")
  case None
  have "List.find (\<lambda>x. x \<notin> bs_bits B u) [i..<bs_Len B u] = None"
    using bitset_NextClear_None [OF assms None] by (auto simp: bs_bits_def find_None_iff)
  then show ?thesis using None by simp
next
  case (Some j)
  then show ?thesis
    using bitset_NextClear_Some [OF assms Some] by (auto simp: bs_bits_def intro!: find_upt_Some [symmetric])
qed

lemma next_index_find:
  assumes "bitset_laws B" and "-1 \<le> lst" and "lst < 2 ^ 32"
  shows "next_index B u lst = List.find (\<lambda>x. x \<notin> bs_bits B u) (scan_order (bs_Len B u) lst)"
proof -
  have "wrap_uint (lst + 1) = nat (lst + 1)" using assms(2,3) by simp
  then show ?thesis
    by (simp add: next_index_def NextClear_find [OF assms(1)] scan_order_def find_append_option split: option.splits)
qed

lemma next_index_inv:
  assumes "alloc_inv B N k a" and "al_usage a = Some u"
  shows "next_index B u (al_lastAllocIdx a) =
    List.find (\<lambda>x. x \<notin> used B a) (scan_order (2 ^ k) (al_lastAllocIdx a))"
proof -
  have "bs_Len B u = 2 ^ k" using alloc_inv_usage [OF assms(1)] assms(2) by auto
  moreover have "al_lastAllocIdx a < 2 ^ 32"
    using alloc_inv_last [OF assms(1)] two_pow_le_32 [OF alloc_inv_k [OF assms(1)]] by linarith
  ultimately show ?thesis
    using next_index_find [OF alloc_inv_laws(1) [OF assms(1)]] alloc_inv_last [OF assms(1)] assms(2)
    by (simp add: used_def)
qed

lemma set_scan_order: "-1 \<le> lst \<Longrightarrow> set (scan_order n lst) = {..<n}"
  by (auto simp: scan_order_def)

lemma allocate_full:
  assumes "alloc_inv B N k a" and "used B a = {..<2 ^ k}"
  shows "allocate B N a = Ok (a, None)"
proof -
  obtain u where u: "al_usage a = Some u" using alloc_inv_usage [OF assms(1)] by blast
  have "next_index B u (al_lastAllocIdx a) = None"
    unfolding next_index_inv [OF assms(1) u] find_None_iff
    using assms(2) set_scan_order alloc_inv_last [OF assms(1)] by blast
  then show ?thesis by (simp add: allocate_def usage_of_def u)
qed

text \<open>The state after index \<open>i\<close> was handed out.\<close>

definition after_alloc :: "'b bitset_ops \<Rightarrow> nat \<Rightarrow> 'b allocator \<Rightarrow> 'b allocator" where
  "after_alloc B i a = a\<lparr>al_usage := map_option (\<lambda>u. bs_Set B u i) (al_usage a), al_lastAllocIdx := int i\<rparr>"

lemma after_alloc_inv:
  assumes "alloc_inv B N k a" and "i < 2 ^ k"
  shows "alloc_inv B N k (after_alloc B i a)"
    and "used B (after_alloc B i a) = insert i (used B a)"
proof -
  obtain u where u: "al_usage a = Some u" "bs_Len B u = 2 ^ k"
    using alloc_inv_usage [OF assms(1)] by blast
  have l: "bitset_laws B" using assms(1) by (rule alloc_inv_laws)
  have "int i < 2 ^ k" using assms(2) by (simp flip: of_nat_less_iff)
  then show "alloc_inv B N k (after_alloc B i a)"
    unfolding after_alloc_def using u l assms(2) by (auto intro!: alloc_inv_upd [OF assms(1)])
  show "used B (after_alloc B i a) = insert i (used B a)"
    using u l by (simp add: after_alloc_def used_def)
qed

lemma after_alloc_sel [simp]:
  "al_ipv4 (after_alloc B i a) = al_ipv4 a" "al_ipv6 (after_alloc B i a) = al_ipv6 a"
  "al_lastAllocIdx (after_alloc B i a) = int i"
  by (simp_all add: after_alloc_def)

lemma allocate_cases:
  assumes "alloc_inv B N k a"
  shows "allocate B N a =
    (case List.find (\<lambda>x. x \<notin> used B a) (scan_order (2 ^ k) (al_lastAllocIdx a)) of
       None \<Rightarrow> Ok (a, None)
     | Some i \<Rightarrow> Ok (after_alloc B i a, Some (addr_at N (al_ipv4 a) i, addr_at N (al_ipv6 a) i, i)))"
proof -
  obtain u where u: "al_usage a = Some u" using alloc_inv_usage [OF assms] by blast
  have "wrap_int64 (int i) = int i"
    if "List.find (\<lambda>x. x \<notin> used B a) (scan_order (2 ^ k) (al_lastAllocIdx a)) = Some i" for i
  proof (rule wrap_idx [OF alloc_inv_k [OF assms]])
    have "i \<in> set (scan_order (2 ^ k) (al_lastAllocIdx a))" using that by (auto simp: find_Some_iff)
    then show "i < 2 ^ k" using alloc_inv_last [OF assms] by (simp add: set_scan_order)
  qed
  then show ?thesis
    by (simp add: allocate_def usage_of_def u next_index_inv [OF assms u] after_alloc_def split: option.splits)
qed

lemma allocate_Some:
  assumes "alloc_inv B N k a" and "allocate B N a = Ok (a', Some (v4, v6, i))"
  shows "i < 2 ^ k" and "i \<notin> used B a" and "a' = after_alloc B i a"
    and "v4 = addr_at N (al_ipv4 a) i" and "v6 = addr_at N (al_ipv6 a) i"
proof -
  have f: "List.find (\<lambda>x. x \<notin> used B a) (scan_order (2 ^ k) (al_lastAllocIdx a)) = Some i"
    and eqs: "a' = after_alloc B i a" "v4 = addr_at N (al_ipv4 a) i" "v6 = addr_at N (al_ipv6 a) i"
    using assms(2) by (auto simp: allocate_cases [OF assms(1)] split: option.splits)
  show "a' = after_alloc B i a" "v4 = addr_at N (al_ipv4 a) i" "v6 = addr_at N (al_ipv6 a) i" by fact+
  have "i \<in> set (scan_order (2 ^ k) (al_lastAllocIdx a))" using f by (auto simp: find_Some_iff)
  then show "i < 2 ^ k" using alloc_inv_last [OF assms(1)] by (simp add: set_scan_order)
  show "i \<notin> used B a" using f by (auto simp: find_Some_iff)
qed

lemma allocate_nonfull:
  assumes "alloc_inv B N k a" and "used B a \<noteq> {..<2 ^ k}"
  shows "\<exists>i. i < 2 ^ k \<and> i \<notin> used B a \<and>
    allocate B N a = Ok (after_alloc B i a, Some (addr_at N (al_ipv4 a) i, addr_at N (al_ipv6 a) i, i))"
proof -
  obtain j where j: "j < 2 ^ k" "j \<notin> used B a" using assms(2) used_subset [OF assms(1)] by blast
  then have "j \<in> set (scan_order (2 ^ k) (al_lastAllocIdx a))"
    using alloc_inv_last [OF assms(1)] by (simp add: set_scan_order)
  then obtain i where "List.find (\<lambda>x. x \<notin> used B a) (scan_order (2 ^ k) (al_lastAllocIdx a)) = Some i"
    using j(2) by (metis find_None_iff not_None_eq)
  then have "allocate B N a = Ok (after_alloc B i a, Some (addr_at N (al_ipv4 a) i, addr_at N (al_ipv6 a) i, i))"
    by (simp add: allocate_cases [OF assms(1)])
  then show ?thesis using allocate_Some(1,2) [OF assms(1)] by blast
qed

lemma free_inv:
  assumes "alloc_inv B N k a"
  shows "\<exists>a'. free B i a = Ok a' \<and> alloc_inv B N k a' \<and> used B a' = used B a - {i} \<and>
    al_ipv4 a' = al_ipv4 a \<and> al_ipv6 a' = al_ipv6 a \<and> al_lastAllocIdx a' = al_lastAllocIdx a"
proof -
  obtain u where u: "al_usage a = Some u" "bs_Len B u = 2 ^ k"
    using alloc_inv_usage [OF assms] by blast
  have l: "bitset_laws B" using assms by (rule alloc_inv_laws)
  have "alloc_inv B N k (a\<lparr>al_usage := Some (bs_Clear B u i)\<rparr>)"
    using assms u l by (simp add: alloc_inv_def capacity_def)
  then show ?thesis using u l by (simp add: free_def usage_of_def used_def)
qed

lemma isFull_inv: "alloc_inv B N k a \<Longrightarrow> isFull B a = Ok (used B a = {..<2 ^ k})"
  using alloc_inv_usage [of B N k a] used_subset [of B N k a] alloc_inv_laws(1) [of B N k a]
  by (auto simp: isFull_def usage_of_def used_def bitset_All bs_bits_def)

lemma isEmpty_inv: "alloc_inv B N k a \<Longrightarrow> isEmpty B a = Ok (used B a = {})"
  using alloc_inv_usage [of B N k a] alloc_inv_laws(1) [of B N k a]
  by (auto simp: isEmpty_def usage_of_def used_def bitset_None bs_bits_def)

lemma fill_inv:
  assumes "alloc_inv B N k a"
  shows "\<exists>a'. fill B a = Ok a' \<and> alloc_inv B N k a' \<and> used B a' = {..<2 ^ k} \<and>
    al_lastAllocIdx a' = 2 ^ k - 1"
proof -
  obtain u where u: "al_usage a = Some u" "bs_Len B u = 2 ^ k"
    using alloc_inv_usage [OF assms] by blast
  have l: "bitset_laws B" using assms by (rule alloc_inv_laws)
  define u' where "u' = fold (\<lambda>i b. bs_Set B b i) [0..<bs_Len B u] u"
  have len: "bs_Len B u' = 2 ^ k"
    using fold_Set_Len [OF l, of u "2 ^ k" "[0..<2 ^ k]"] u(2) by (simp add: u'_def)
  have bits: "bs_bits B u' = {..<2 ^ k}"
    using l u(2) bs_bits_below [OF l, of _ u] by (auto simp: u'_def)
  have "- (2 ^ 63) \<le> (2::int) ^ k - 1"
    by (rule order_trans [of _ 0]) simp_all
  moreover have "(2::int) ^ k - 1 < 2 ^ 63"
    using two_pow_le_32 [OF alloc_inv_k [OF assms]] by simp
  ultimately have w: "wrap_int64 (int (bs_Len B u') - 1) = 2 ^ k - 1" by (simp add: len)
  show ?thesis
    using alloc_inv_upd [OF assms len, of "2 ^ k - 1"] bits w u(1)
    by (simp add: fill_def usage_of_def Let_def used_def flip: u'_def)
qed

lemma register_in4:
  assumes "alloc_inv B N k a" and "al_ipv4 a = Some n" and "Contains n v4"
  shows "\<exists>i<2 ^ k. register_in B N n v4 a = Ok (after_alloc B i a, Some i) \<and>
    ip_val (To4 v4) = ip_val (net_IP n) + i"
proof -
  obtain u where u: "al_usage a = Some u" using alloc_inv_usage [OF assms(1)] by blast
  have b: "block4 n k" using assms(1,2) by (simp add: alloc_inv_def)
  then have b': "length (net_IP n) = 4" "2 ^ k dvd ip_val (net_IP n)" by (simp_all add: block4_def)
  have c: "To4 v4 \<noteq> []" "ip_val (net_IP n) div 2 ^ k = ip_val (To4 v4) div 2 ^ k"
    using assms(3) Contains4 [OF b] by auto
  define i where "i = ip_val (To4 v4) mod 2 ^ k"
  have val: "ip_val (To4 v4) = ip_val (net_IP n) + i"
    unfolding i_def by (rule aligned_offset [OF b'(2) c(2)])
  have ne: "To4 (net_IP n) \<noteq> []" "To4 (net_IP n) = net_IP n" using b'(1) by auto
  have "nu_IPDiff N (net_IP n) v4 = int i"
    using IPDiff4 [OF alloc_inv_laws(2) [OF assms(1)] ne(1) c(1)] ne(2) val by simp
  then have "register_in B N n v4 a = Ok (after_alloc B i a, Some i)"
    by (simp add: register_in_def usage_of_def u after_alloc_def)
  moreover have "i < 2 ^ k" by (simp add: i_def)
  ultimately show ?thesis using val by blast
qed

lemma register_in6:
  assumes "alloc_inv B N k a" and "al_ipv6 a = Some n" and "Contains n v6"
  shows "\<exists>i<2 ^ k. register_in B N n v6 a = Ok (after_alloc B i a, Some i) \<and>
    ip_val v6 = ip_val (net_IP n) + i"
proof -
  obtain u where u: "al_usage a = Some u" using alloc_inv_usage [OF assms(1)] by blast
  have b: "block6 n k" using assms(1,2) by (simp add: alloc_inv_def)
  then have b': "length (net_IP n) = 16" "To4 (net_IP n) = []" "k \<le> 32" "2 ^ k dvd ip_val (net_IP n)"
    by (simp_all add: block6_def)
  have c: "To4 v6 = []" "length v6 = 16" "ip_val (net_IP n) div 2 ^ k = ip_val v6 div 2 ^ k"
    using assms(3) Contains6 [OF b] by auto
  define i where "i = ip_val v6 mod 2 ^ k"
  have val: "ip_val v6 = ip_val (net_IP n) + i"
    unfolding i_def by (rule aligned_offset [OF b'(4) c(3)])
  have lt: "i < 2 ^ k" by (simp add: i_def)
  then have "int i < 2 ^ 32"
    using two_pow_le_32 [OF b'(3)] by (metis of_nat_less_iff of_nat_numeral of_nat_power order_less_le_trans)
  then have "nu_IPDiff N (net_IP n) v6 = int i"
    using IPDiff16 [OF alloc_inv_laws(2) [OF assms(1)] b'(1) c(2) b'(2) c(1)] val by simp
  then have "register_in B N n v6 a = Ok (after_alloc B i a, Some i)"
    by (simp add: register_in_def usage_of_def u after_alloc_def)
  then show ?thesis using val lt by blast
qed

lemma register_cases:
  assumes "alloc_inv B N k a"
  shows "register B N v4 v6 a = Ok (a, None) \<or>
    (\<exists>i<2 ^ k. register B N v4 v6 a = Ok (after_alloc B i a, Some i))"
proof -
  have six: "(case al_ipv6 a of Some n6 \<Rightarrow> if Contains n6 v6 then register_in B N n6 v6 a else Ok (a, None)
        | None \<Rightarrow> Ok (a, None)) = Ok (a, None) \<or>
     (\<exists>i<2 ^ k. (case al_ipv6 a of Some n6 \<Rightarrow> if Contains n6 v6 then register_in B N n6 v6 a else Ok (a, None)
        | None \<Rightarrow> Ok (a, None)) = Ok (after_alloc B i a, Some i))"
    using register_in6 [OF assms] by (cases "al_ipv6 a") auto
  show ?thesis
  proof (cases "\<exists>n. al_ipv4 a = Some n \<and> Contains n v4")
    case True
    then obtain n i where "al_ipv4 a = Some n" "Contains n v4" "i < 2 ^ k"
        "register_in B N n v4 a = Ok (after_alloc B i a, Some i)"
      using register_in4 [OF assms] by blast
    then show ?thesis by (auto simp: register_def)
  next
    case False
    then show ?thesis using six by (auto simp: register_def split: option.splits)
  qed
qed

text \<open>Registering the addresses of index \<open>i\<close> marks index \<open>i\<close>.\<close>

lemma register_addr:
  assumes "alloc_inv B N k a" and "i < 2 ^ k"
  shows "register B N (addr_at N (al_ipv4 a) i) (addr_at N (al_ipv6 a) i) a = Ok (after_alloc B i a, Some i)"
proof (cases "al_ipv4 a")
  case None
  then obtain n where n: "al_ipv6 a = Some n" using assms(1) by (auto simp: alloc_inv_def)
  then have b: "block6 n k" using assms(1) by (simp add: alloc_inv_def)
  have c: "Contains n (addr_at N (al_ipv6 a) i)"
    unfolding n by (rule addr_at6_Contains [OF alloc_inv_laws(2) [OF assms(1)] b assms(2)])
  obtain j where "register_in B N n (addr_at N (al_ipv6 a) i) a = Ok (after_alloc B j a, Some j)"
      "ip_val (addr_at N (al_ipv6 a) i) = ip_val (net_IP n) + j"
    using register_in6 [OF assms(1) n c] by blast
  then show ?thesis
    using None n c addr_at6_val [OF alloc_inv_laws(2) [OF assms(1)] b assms(2)] by (simp add: register_def)
next
  case (Some n)
  then have b: "block4 n k" using assms(1) by (simp add: alloc_inv_def)
  have c: "Contains n (addr_at N (al_ipv4 a) i)"
    unfolding Some by (rule addr_at4_Contains [OF alloc_inv_laws(2) [OF assms(1)] b assms(2)])
  obtain j where "register_in B N n (addr_at N (al_ipv4 a) i) a = Ok (after_alloc B j a, Some j)"
      "ip_val (To4 (addr_at N (al_ipv4 a) i)) = ip_val (net_IP n) + j"
    using register_in4 [OF assms(1) Some c] by blast
  then show ?thesis
    using Some c addr_at4_val [OF alloc_inv_laws(2) [OF assms(1)] b assms(2)] by (simp add: register_def)
qed

section \<open>A new allocator\<close>

text \<open>The texts from which an allocator is built: what \<open>ParseCIDR\<close> makes of them are blocks of
  \<open>2^k\<close> addresses.\<close>

definition cidr4 :: "nat \<Rightarrow> string \<Rightarrow> bool" where
  "cidr4 k s = (case ParseCIDR s of Ok (ip, n) \<Rightarrow> To4 ip \<noteq> [] \<and> block4 n k | _ \<Rightarrow> False)"

definition cidr6 :: "nat \<Rightarrow> string \<Rightarrow> bool" where
  "cidr6 k s = (case ParseCIDR s of Ok (ip, n) \<Rightarrow> block6 n k | _ \<Rightarrow> False)"

lemma new_usage4: "block4 n k \<Longrightarrow> new_usage B n = bs_New B (2 ^ k)"
  by (simp add: new_usage_def block4_def)

lemma new_usage6: "block6 n k \<Longrightarrow> new_usage B n = bs_New B (2 ^ k)"
  by (simp add: new_usage_def block6_def)

lemma newAllocator_inv:
  assumes "bitset_laws B" and "netutil_laws N" and "k \<le> 32"
    and "v4 \<noteq> None \<or> v6 \<noteq> None"
    and "\<And>s. v4 = Some s \<Longrightarrow> cidr4 k s" and "\<And>s. v6 = Some s \<Longrightarrow> cidr6 k s"
  shows "\<exists>a. newAllocator B v4 v6 = Ok a \<and> alloc_inv B N k a \<and> used B a = {} \<and>
    al_lastAllocIdx a = -1 \<and>
    (al_ipv4 a = map_option (\<lambda>s. case ParseCIDR s of Ok (_, n) \<Rightarrow> n) v4) \<and>
    (al_ipv6 a = map_option (\<lambda>s. case ParseCIDR s of Ok (_, n) \<Rightarrow> n) v6)"
  using assms
  by (cases v4; cases v6)
    (auto simp: newAllocator_def alloc_inv_def capacity_def used_def cidr4_def cidr6_def new_usage4 new_usage6
       split: res.splits)

section \<open>The contract\<close>

text \<open>A client that allocates up to \<open>n\<close> times and collects the indices.\<close>

fun alloc_n :: "('s \<Rightarrow> ('s \<times> ('x \<times> 'y \<times> nat) option) res) \<Rightarrow> nat \<Rightarrow> 's \<Rightarrow> ('s \<times> nat list) res" where
  "alloc_n al 0 s = Ok (s, [])"
| "alloc_n al (Suc n) s = bindR (al s) (\<lambda>(s', r). case r of
      None \<Rightarrow> Ok (s', [])
    | Some (_, _, i) \<Rightarrow> bindR (alloc_n al n s') (\<lambda>(s'', is). Ok (s'', i # is)))"

text \<open>
  What a user of an allocator relies on: the indices handed out stay below the capacity, an
  allocation succeeds with an unused index unless all are in use, and freeing returns exactly
  the index freed.
\<close>

locale index_allocator =
  fixes invar :: "'s \<Rightarrow> bool"
    and alloc :: "'s \<Rightarrow> ('s \<times> ('x \<times> 'y \<times> nat) option) res"
    and release :: "nat \<Rightarrow> 's \<Rightarrow> 's res"
    and in_use :: "'s \<Rightarrow> nat set"
    and cap :: nat
  assumes in_use_below: "invar s \<Longrightarrow> in_use s \<subseteq> {..<cap}"
    and alloc_some: "invar s \<Longrightarrow> in_use s \<noteq> {..<cap} \<Longrightarrow>
      \<exists>s' x y i. alloc s = Ok (s', Some (x, y, i)) \<and> i < cap \<and> i \<notin> in_use s \<and>
        in_use s' = insert i (in_use s) \<and> invar s'"
    and alloc_none: "invar s \<Longrightarrow> in_use s = {..<cap} \<Longrightarrow> alloc s = Ok (s, None)"
    and release_ok: "invar s \<Longrightarrow> \<exists>s'. release i s = Ok s' \<and> in_use s' = in_use s - {i} \<and> invar s'"
begin

lemma in_use_finite: "invar s \<Longrightarrow> finite (in_use s)"
  using in_use_below finite_subset by blast

lemma alloc_n_ok:
  "invar s \<Longrightarrow> n + card (in_use s) \<le> cap \<Longrightarrow>
    \<exists>s' is. alloc_n alloc n s = Ok (s', is) \<and> length is = n \<and> distinct is \<and>
      set is \<inter> in_use s = {} \<and> in_use s' = set is \<union> in_use s \<and> invar s'"
proof (induction n arbitrary: s)
  case 0
  then show ?case by simp
next
  case (Suc n)
  have "card (in_use s) \<noteq> cap" using Suc.prems(2) by simp
  then have "in_use s \<noteq> {..<cap}" by (metis card_lessThan)
  then obtain s1 x y i where a: "alloc s = Ok (s1, Some (x, y, i))" "i \<notin> in_use s"
      "in_use s1 = insert i (in_use s)" "invar s1"
    using alloc_some [OF Suc.prems(1)] by blast
  have "n + card (in_use s1) \<le> cap"
    using Suc.prems a(2,3) in_use_finite [OF Suc.prems(1)] by simp
  from Suc.IH [OF a(4) this] obtain s' "is" where
    "alloc_n alloc n s1 = Ok (s', is)" "length is = n" "distinct is" "set is \<inter> in_use s1 = {}"
    "in_use s' = set is \<union> in_use s1" "invar s'" by blast
  then show ?case using a by auto
qed

text \<open>Exactly the free indices can be handed out: then the allocator is full.\<close>

lemma alloc_all:
  assumes "invar s"
  shows "\<exists>s' is. alloc_n alloc (cap - card (in_use s)) s = Ok (s', is) \<and> distinct is \<and>
    set is = {..<cap} - in_use s \<and> invar s' \<and> alloc s' = Ok (s', None)"
proof -
  have fin: "finite (in_use s)" by (rule in_use_finite [OF assms])
  have c: "card (in_use s) \<le> cap" using card_mono [OF _ in_use_below [OF assms]] by simp
  obtain s' "is" where r: "alloc_n alloc (cap - card (in_use s)) s = Ok (s', is)"
      "length is = cap - card (in_use s)" "distinct is" "set is \<inter> in_use s = {}"
      "in_use s' = set is \<union> in_use s" "invar s'"
    using alloc_n_ok [OF assms, of "cap - card (in_use s)"] c by auto
  have "card (in_use s') = cap"
    using r c fin by (simp add: card_Un_disjoint distinct_card)
  then have full: "in_use s' = {..<cap}"
    using card_subset_eq [OF _ in_use_below [OF r(6)]] by simp
  then have "set is = {..<cap} - in_use s" using r(4,5) by blast
  then show ?thesis using r full alloc_none [OF r(6) full] by blast
qed

lemma release_realloc:
  assumes "invar s" and "i < cap"
  shows "\<exists>s1 s2 x y j. release i s = Ok s1 \<and> alloc s1 = Ok (s2, Some (x, y, j)) \<and> j \<notin> in_use s1"
proof -
  obtain s1 where r: "release i s = Ok s1" "in_use s1 = in_use s - {i}" "invar s1"
    using release_ok [OF assms(1)] by blast
  then have "in_use s1 \<noteq> {..<cap}" using assms(2) by blast
  then obtain s2 x y j where "alloc s1 = Ok (s2, Some (x, y, j))" "j \<notin> in_use s1"
    using alloc_some [OF r(3)] by blast
  with r(1) show ?thesis by blast
qed

end

interpretation blk: index_allocator "alloc_inv B N k" "allocate B N" "free B" "used B" "2 ^ k"
  for B :: "'b bitset_ops" and N :: netutil_ops and k :: nat
proof unfold_locales
  fix s assume inv: "alloc_inv B N k s"
  show "used B s \<subseteq> {..<2 ^ k}" by (rule used_subset [OF inv])
  show "allocate B N s = Ok (s, None)" if "used B s = {..<2 ^ k}" by (rule allocate_full [OF inv that])
  show "\<exists>s'. free B i s = Ok s' \<and> used B s' = used B s - {i} \<and> alloc_inv B N k s'" for i
    using free_inv [OF inv] by blast
  show "\<exists>s' x y i. allocate B N s = Ok (s', Some (x, y, i)) \<and> i < 2 ^ k \<and> i \<notin> used B s \<and>
      used B s' = insert i (used B s) \<and> alloc_inv B N k s'" if "used B s \<noteq> {..<2 ^ k}"
    using allocate_nonfull [OF inv that] after_alloc_inv [OF inv] by blast
qed

section \<open>Properties\<close>

text \<open>
  C7. On a well-formed allocator of a block of \<open>2^k\<close> addresses, \<open>allocate\<close> hands out the first
  free index after the last allocated one, wrapping around once, with the addresses at that
  offset, and they lie in the block; it fails without changing the allocator only when
  every index is in use.
\<close>

theorem allocate_spec:
  assumes "alloc_inv B N k a"
  shows "(case List.find (\<lambda>x. x \<notin> used B a) (scan_order (2 ^ k) (al_lastAllocIdx a)) of
       None \<Rightarrow> used B a = {..<2 ^ k} \<and> allocate B N a = Ok (a, None)
     | Some i \<Rightarrow> \<exists>a' v4 v6. allocate B N a = Ok (a', Some (v4, v6, i)) \<and>
         alloc_inv B N k a' \<and> used B a' = insert i (used B a) \<and> i \<notin> used B a \<and>
         (\<forall>n. al_ipv4 a = Some n \<longrightarrow> Contains n v4 \<and> ip_val (To4 v4) = ip_val (net_IP n) + i) \<and>
         (\<forall>n. al_ipv6 a = Some n \<longrightarrow> Contains n v6 \<and> ip_val v6 = ip_val (net_IP n) + i))"
proof (cases "List.find (\<lambda>x. x \<notin> used B a) (scan_order (2 ^ k) (al_lastAllocIdx a))")
  case None
  then have "allocate B N a = Ok (a, None)" by (simp add: allocate_cases [OF assms])
  with None show ?thesis using allocate_nonfull [OF assms] by auto
next
  case (Some i)
  have al: "allocate B N a = Ok (after_alloc B i a, Some (addr_at N (al_ipv4 a) i, addr_at N (al_ipv6 a) i, i))"
    by (simp add: allocate_cases [OF assms] Some)
  note r = allocate_Some(1,2) [OF assms al]
  show ?thesis
    using Some al r after_alloc_inv [OF assms r(1)] addr_at_block4 [OF assms r(1)] addr_at_block6 [OF assms r(1)]
    by simp
qed

lemma example_cidr: "cidr4 2 ''10.2.0.0/30''" "cidr6 2 ''fd02::/126''"
  by code_simp+

lemma example_allocator:
  "\<exists>a. newAllocator list_bitset (Some ''10.2.0.0/30'') (Some ''fd02::/126'') = Ok a \<and>
    alloc_inv list_bitset netutil_ref 2 a \<and> used list_bitset a = {} \<and> al_lastAllocIdx a = -1"
  using newAllocator_inv [OF list_bitset_laws netutil_ref_laws, of 2 "Some ''10.2.0.0/30''" "Some ''fd02::/126''"]
    example_cidr by auto

lemma example_scan: "List.find (\<lambda>x. x \<notin> {}) (scan_order (2 ^ 2) (-1)) = Some 0"
  by code_simp

theorem allocate_spec_witness:
  "\<exists>a a' v4 v6. alloc_inv list_bitset netutil_ref 2 a \<and> used list_bitset a = {} \<and>
    allocate list_bitset netutil_ref a = Ok (a', Some (v4, v6, 0))"
proof -
  obtain a where a: "alloc_inv list_bitset netutil_ref 2 a" "used list_bitset a = {}" "al_lastAllocIdx a = -1"
    using example_allocator by blast
  then have "\<exists>a' v4 v6. allocate list_bitset netutil_ref a = Ok (a', Some (v4, v6, 0))"
    using allocate_spec [OF a(1)] example_scan unfolding a(2,3) by auto
  with a show ?thesis by blast
qed

text \<open>
  An index released right after it was handed out is not handed out by the next allocation
  while another index is free.
\<close>

lemma no_immediate_reuse:
  assumes "alloc_inv B N k a" and "allocate B N a = Ok (a1, Some (v4, v6, i))"
    and "free B i a1 = Ok a2" and "j < 2 ^ k" and "j \<notin> used B a" and "j \<noteq> i"
  shows "\<exists>a3 w4 w6 l. allocate B N a2 = Ok (a3, Some (w4, w6, l)) \<and> l \<noteq> i"
proof -
  note r = allocate_Some [OF assms(1,2)]
  note inv1 = after_alloc_inv [OF assms(1) r(1)]
  have a2: "alloc_inv B N k a2" "used B a2 = used B a" "al_lastAllocIdx a2 = int i"
    using free_inv [OF inv1(1), of i] assms(3) r(2,3) inv1(2) by auto
  define xs where "xs = [Suc i..<2 ^ k] @ [0..<i] @ [i..<2 ^ k]"
  have "scan_order (2 ^ k) (int i) = xs"
    using r(1) upt_add_eq_append [of 0 i "2 ^ k - i"] by (simp add: scan_order_def xs_def nat_add_distrib)
  then have al: "allocate B N a2 = (case List.find (\<lambda>x. x \<notin> used B a) xs of
       None \<Rightarrow> Ok (a2, None)
     | Some l \<Rightarrow> Ok (after_alloc B l a2, Some (addr_at N (al_ipv4 a2) l, addr_at N (al_ipv6 a2) l, l)))"
    using allocate_cases [OF a2(1)] a2(2,3) by simp
  have "j \<in> set ([Suc i..<2 ^ k] @ [0..<i])" using assms(4,6) by auto
  then obtain l where l: "List.find (\<lambda>x. x \<notin> used B a) ([Suc i..<2 ^ k] @ [0..<i]) = Some l"
    using assms(5) by (metis (mono_tags) find_None_iff not_None_eq)
  then have "List.find (\<lambda>x. x \<notin> used B a) xs = Some l"
    using find_append_option [of _ "[Suc i..<2 ^ k] @ [0..<i]" "[i..<2 ^ k]"] by (simp add: xs_def)
  moreover have "l \<in> set ([Suc i..<2 ^ k] @ [0..<i])" using l by (metis find_Some_iff nth_mem)
  ultimately show ?thesis using al by auto
qed

text \<open>
  C18. A dual-stack block of \<open>2^k\<close> addresses serves exactly \<open>2^k\<close> allocations: from a new
  allocator they hand out every index once, and the next one fails.
\<close>

theorem new_allocator_capacity:
  assumes "bitset_laws B" and "netutil_laws N" and "k \<le> 32" and "cidr4 k s4" and "cidr6 k s6"
  shows "\<exists>a a' is. newAllocator B (Some s4) (Some s6) = Ok a \<and>
    alloc_n (allocate B N) (2 ^ k) a = Ok (a', is) \<and> distinct is \<and> set is = {..<2 ^ k} \<and>
    allocate B N a' = Ok (a', None)"
proof -
  obtain a where a: "newAllocator B (Some s4) (Some s6) = Ok a" "alloc_inv B N k a" "used B a = {}"
    using newAllocator_inv [OF assms(1-3), of "Some s4" "Some s6"] assms(4,5) by auto
  then show ?thesis using blk.alloc_all [OF a(2)] by auto
qed

theorem new_allocator_capacity_witness:
  "\<exists>a a' is. newAllocator list_bitset (Some ''10.2.0.0/30'') (Some ''fd02::/126'') = Ok a \<and>
    alloc_n (allocate list_bitset netutil_ref) (2 ^ 2) a = Ok (a', is) \<and> set is = {..<2 ^ 2}"
  using new_allocator_capacity [OF list_bitset_laws netutil_ref_laws _ example_cidr] by auto

text \<open>Several registrations in a row, with what each reports.\<close>

fun register_all :: "'b bitset_ops \<Rightarrow> netutil_ops \<Rightarrow> (ip \<times> ip) list \<Rightarrow> 'b allocator
    \<Rightarrow> ('b allocator \<times> nat option list) res" where
  "register_all B N [] a = Ok (a, [])"
| "register_all B N ((v4, v6) # xs) a = bindR (register B N v4 v6 a) (\<lambda>(a', r).
     bindR (register_all B N xs a') (\<lambda>(a'', rs). Ok (a'', r # rs)))"

text \<open>
  C19. What a restarted node recovers: registering the addresses that were handed out for any list
  of indices, in any order and with repetitions, on an allocator with nothing in use marks
  exactly those indices, and reports each of them.
\<close>

theorem register_recovers:
  assumes "alloc_inv B N k a" and "\<And>i. i \<in> set is \<Longrightarrow> i < 2 ^ k"
  shows "\<exists>a'. register_all B N (map (\<lambda>i. (addr_at N (al_ipv4 a) i, addr_at N (al_ipv6 a) i)) is) a
      = Ok (a', map Some is) \<and> alloc_inv B N k a' \<and> used B a' = set is \<union> used B a"
  using assms
proof (induction "is" arbitrary: a)
  case Nil
  then show ?case by simp
next
  case (Cons i "is")
  have i: "i < 2 ^ k" using Cons.prems(2) by simp
  note inv = after_alloc_inv [OF Cons.prems(1) i]
  obtain a' where "register_all B N (map (\<lambda>i. (addr_at N (al_ipv4 a) i, addr_at N (al_ipv6 a) i)) is)
      (after_alloc B i a) = Ok (a', map Some is)" "alloc_inv B N k a'" "used B a' = set is \<union> insert i (used B a)"
    using Cons.IH [OF inv(1)] Cons.prems(2) inv(2) by auto
  then show ?case using register_addr [OF Cons.prems(1) i] by auto
qed

theorem register_recovers_witness:
  "\<exists>a a'. alloc_inv list_bitset netutil_ref 2 a \<and>
    register_all list_bitset netutil_ref
      (map (\<lambda>i. (addr_at netutil_ref (al_ipv4 a) i, addr_at netutil_ref (al_ipv6 a) i)) [3, 1]) a
      = Ok (a', [Some 3, Some 1]) \<and> used list_bitset a' = {3, 1}"
proof -
  obtain a where a: "alloc_inv list_bitset netutil_ref 2 a" "used list_bitset a = {}"
    using example_allocator by blast
  have "i < 2 ^ 2" if "i \<in> set [3, 1]" for i :: nat using that by auto
  from register_recovers [OF a(1) this] obtain a' where
    "register_all list_bitset netutil_ref
      (map (\<lambda>i. (addr_at netutil_ref (al_ipv4 a) i, addr_at netutil_ref (al_ipv6 a) i)) [3, 1]) a
      = Ok (a', map Some [3, 1])" "used list_bitset a' = set [3, 1] \<union> used list_bitset a" by blast
  then show ?thesis using a by (intro exI [of _ a] exI [of _ a']) (simp del: register_all.simps)
qed

end
