(* ===== verification/Address_Pool.thy ===== *)
theory Address_Pool
  imports Kube_Api Allocator
begin

text \<open>
  The custom resources of the IPAM API and their webhooks: \<open>api/v2/addresspool_types.go\<close>,
  \<open>addresspool_webhook.go\<close>, \<open>addressblock_types.go\<close> and \<open>blockrequest_types.go\<close>; then what a
  validated pool guarantees of the blocks carved from it.
\<close>

section \<open>AddressPool\<close>

record SubnetSet =
  ss_IPv4 :: "string option"
  ss_IPv6 :: "string option"

text \<open>One branch of \<open>Validate\<close>: the number of host bits of a subnet of the family with \<open>width\<close>
  bits.\<close>

definition subnet_size :: "nat \<Rightarrow> string \<Rightarrow> int \<Rightarrow> string \<Rightarrow> error + int" where
  "subnet_size width invalid_msg minSize s = (case ParseCIDR s of
       Ok (_, n) \<Rightarrow> (case MaskSize (net_Mask n) of (ones, bits) \<Rightarrow>
         if bits \<noteq> width then Inl (ErrorMsg (invalid_msg @ s))
         else if int bits - int ones < minSize then Inl (ErrorMsg (''too narrow subnet: '' @ s))
         else Inr (int bits - int ones))
     | Err e \<Rightarrow> Inl e
     | Panic p \<Rightarrow> Inl (ErrorMsg p))"

definition SubnetSet_Validate :: "SubnetSet \<Rightarrow> int \<Rightarrow> error option" where
  "SubnetSet_Validate ss minSize =
     (if ss_IPv4 ss = None \<and> ss_IPv6 ss = None then Some (ErrorMsg ''invalid subnet'')
      else (case (case ss_IPv4 ss of None \<Rightarrow> Inr 0
              | Some s \<Rightarrow> subnet_size 32 ''invalid IPv4 subnet: '' minSize s) of
          Inl e \<Rightarrow> Some e
        | Inr v4Size \<Rightarrow>
            (case (case ss_IPv6 ss of None \<Rightarrow> Inr 0
                | Some s \<Rightarrow> subnet_size 128 ''invalid IPv6 subnet: '' minSize s) of
              Inl e \<Rightarrow> Some e
            | Inr v6Size \<Rightarrow>
                if ss_IPv4 ss \<noteq> None \<and> ss_IPv6 ss \<noteq> None \<and> v4Size \<noteq> v6Size
                then Some (ErrorMsg ''dual stack subnet must be the same size'') else None)))"

definition IsIPv4 :: "SubnetSet \<Rightarrow> bool" where
  "IsIPv4 ss \<longleftrightarrow> ss_IPv4 ss \<noteq> None \<and> ss_IPv6 ss = None"

definition IsIPv6 :: "SubnetSet \<Rightarrow> bool" where
  "IsIPv6 ss \<longleftrightarrow> ss_IPv4 ss = None \<and> ss_IPv6 ss \<noteq> None"

definition IsDualStack :: "SubnetSet \<Rightarrow> bool" where
  "IsDualStack ss \<longleftrightarrow> ss_IPv4 ss \<noteq> None \<and> ss_IPv6 ss \<noteq> None"

text \<open>One \<open>switch\<close> of \<open>Equal\<close>: whether it falls through.\<close>

fun ptr_eq :: "string option \<Rightarrow> string option \<Rightarrow> bool" where
  "ptr_eq (Some a) None = False"
| "ptr_eq (Some a) (Some b) = (a = b)"
| "ptr_eq None (Some b) = False"
| "ptr_eq None None = True"

definition SubnetSet_Equal :: "SubnetSet \<Rightarrow> SubnetSet \<Rightarrow> bool" where
  "SubnetSet_Equal ss x =
     (if \<not> ptr_eq (ss_IPv4 ss) (ss_IPv4 x) then False
      else if \<not> ptr_eq (ss_IPv6 ss) (ss_IPv6 x) then False
      else True)"

text \<open>\<open>(int64(1) << sizeBits) * int64(n)\<close>; a negative shift count panics.\<close>

definition block_offset :: "nat \<Rightarrow> int \<Rightarrow> int res" where
  "block_offset n sizeBits =
     (if sizeBits < 0 then Panic ''negative shift amount''
      else Ok (wrap_int64 (wrap_int64 (2 ^ nat sizeBits) * wrap_int64 (int n))))"

text \<open>One branch of \<open>GetBlock\<close>.\<close>

definition carve :: "netutil_ops \<Rightarrow> int \<Rightarrow> int \<Rightarrow> int \<Rightarrow> string \<Rightarrow> ipnet res" where
  "carve N width sizeBits offset s = (case ParseCIDR s of
       Ok (_, n) \<Rightarrow>
         (let b = \<lparr>net_IP = nu_IPAdd N (net_IP n) offset, net_Mask = CIDRMask (width - sizeBits) width\<rparr>
          in if net_IP b = nil_ip then Panic ''bug'' else Ok b)
     | Err e \<Rightarrow> Panic (Error e)
     | Panic p \<Rightarrow> Panic p)"

definition GetBlock :: "netutil_ops \<Rightarrow> SubnetSet \<Rightarrow> nat \<Rightarrow> int \<Rightarrow> (ipnet option \<times> ipnet option) res" where
  "GetBlock N ss n sizeBits =
     bindR (block_offset n sizeBits) (\<lambda>blockOffset.
     bindR (case ss_IPv4 ss of None \<Rightarrow> Ok None
       | Some s \<Rightarrow> bindR (carve N 32 sizeBits blockOffset s) (\<lambda>b. Ok (Some b))) (\<lambda>ipv4.
     bindR (case ss_IPv6 ss of None \<Rightarrow> Ok None
       | Some s \<Rightarrow> bindR (carve N 128 sizeBits blockOffset s) (\<lambda>b. Ok (Some b))) (\<lambda>ipv6.
     Ok (ipv4, ipv6))))"

record AddressPoolSpec =
  aps_BlockSizeBits :: int
  aps_Subnets :: "SubnetSet list"

definition invalid_subnets :: "field_path \<Rightarrow> int \<Rightarrow> (nat \<times> SubnetSet) list \<Rightarrow> field_error list" where
  "invalid_subnets p bits iss = concat (map (\<lambda>(i, n).
     case SubnetSet_Validate n bits of Some err \<Rightarrow> [FInvalid (p @ [PIndex i]) '''' (Error err)] | None \<Rightarrow> []) iss)"

definition aps_validate :: "AddressPoolSpec \<Rightarrow> field_error list" where
  "aps_validate aps =
     invalid_subnets [PChild ''spec'', PChild ''subnets''] (aps_BlockSizeBits aps)
       (enumerate 0 (aps_Subnets aps))"

definition aps_validateUpdate :: "AddressPoolSpec \<Rightarrow> AddressPoolSpec \<Rightarrow> field_error list" where
  "aps_validateUpdate aps old =
     (let p = [PChild ''spec''];
          errs = (if aps_BlockSizeBits aps \<noteq> aps_BlockSizeBits old
                  then [FForbidden (p @ [PChild ''blockSizeBits'']) ''unchangeable''] else []);
          p = p @ [PChild ''subnets''];
          k = length (aps_Subnets old)
      in if length (aps_Subnets old) > length (aps_Subnets aps)
         then errs @ [FForbidden p ''unshrinkable'']
         else errs @
           concat (map (\<lambda>i. if \<not> SubnetSet_Equal (aps_Subnets aps ! i) (aps_Subnets old ! i)
                        then [FForbidden (p @ [PIndex i]) ''unchangeable''] else []) [0..<k]) @
           invalid_subnets p (aps_BlockSizeBits aps) (enumerate k (drop k (aps_Subnets aps))))"

record AddressPool =
  ap_meta :: object_meta
  ap_Spec :: AddressPoolSpec

section \<open>The webhooks of AddressPool\<close>

definition AddressPool_Default :: "ctrlutil_ops \<Rightarrow> AddressPool \<Rightarrow> AddressPool" where
  "AddressPool_Default C ap = ap\<lparr>ap_meta := cu_AddFinalizer C (ap_meta ap) FinCoil\<rparr>"

definition AddressPool_ValidateCreate :: "AddressPool \<Rightarrow> admission" where
  "AddressPool_ValidateCreate ap =
     (let errs = aps_validate (ap_Spec ap)
      in if length errs \<noteq> 0 then RejectInvalid ''AddressPool'' (om_Name (ap_meta ap)) errs else Admit)"

definition AddressPool_ValidateUpdate :: "AddressPool \<Rightarrow> AddressPool \<Rightarrow> admission" where
  "AddressPool_ValidateUpdate oldObj newObj =
     (let errs = aps_validateUpdate (ap_Spec newObj) (ap_Spec oldObj)
      in if length errs \<noteq> 0 then RejectInvalid ''AddressPool'' (om_Name (ap_meta newObj)) errs else Admit)"

definition AddressPool_ValidateDelete :: "AddressPool \<Rightarrow> admission" where
  "AddressPool_ValidateDelete obj = Admit"

section \<open>AddressBlock and BlockRequest\<close>

record AddressBlock =
  ab_meta :: object_meta
  ab_Index :: int
  ab_IPv4 :: "string option"
  ab_IPv6 :: "string option"

record BlockRequestSpec =
  brs_NodeName :: string
  brs_PoolName :: string

datatype condition_status = ConditionTrue | ConditionFalse | ConditionUnknown

datatype BlockRequestConditionType = BlockRequestComplete | BlockRequestFailed

record BlockRequestCondition =
  brc_Type :: BlockRequestConditionType
  brc_Status :: condition_status
  brc_LastProbeTime :: nat
  brc_LastTransitionTime :: nat
  brc_Reason :: string
  brc_Message :: string

record BlockRequestStatus =
  brst_AddressBlockName :: string
  brst_Conditions :: "BlockRequestCondition list"

record BlockRequest =
  br_meta :: object_meta
  br_Spec :: BlockRequestSpec
  br_Status :: BlockRequestStatus

fun getResult_loop :: "BlockRequestCondition list \<Rightarrow> bool \<Rightarrow> error + bool" where
  "getResult_loop [] completed = Inr completed"
| "getResult_loop (cond # cs) completed =
     (if brc_Type cond = BlockRequestFailed \<and> brc_Status cond = ConditionTrue
      then Inl (ErrorMsg (brc_Reason cond))
      else getResult_loop cs
        (if brc_Type cond = BlockRequestComplete \<and> brc_Status cond = ConditionTrue then True else completed))"

definition getResult :: "BlockRequestStatus \<Rightarrow> error + string" where
  "getResult bs = (case getResult_loop (brst_Conditions bs) False of
       Inl e \<Rightarrow> Inl e
     | Inr completed \<Rightarrow>
         if \<not> completed then Inl (ErrorMsg ''request is in progress'')
         else Inr (brst_AddressBlockName bs))"

definition GetResult :: "BlockRequest \<Rightarrow> error + string" where
  "GetResult br = getResult (br_Status br)"

section \<open>Validated subnets\<close>

lemma ptr_eq_iff [simp]: "ptr_eq a b \<longleftrightarrow> a = b"
  by (cases a; cases b) auto

lemma SubnetSet_Equal_iff [simp]: "SubnetSet_Equal ss x \<longleftrightarrow> ss = x"
  by (cases ss; cases x) (auto simp: SubnetSet_Equal_def)

text \<open>A subnet text of the family with \<open>w\<close> bits, with its base address as a number and its number of
  host bits.\<close>

definition subnet_of :: "nat \<Rightarrow> string \<Rightarrow> nat \<Rightarrow> nat \<Rightarrow> bool" where
  "subnet_of w s base hb = (case ParseCIDR s of
       Ok (_, n) \<Rightarrow> net_Mask n = Some (w - hb, w) \<and> hb \<le> w \<and> length (net_IP n) * 8 = w \<and> ip_val (net_IP n) = base
     | _ \<Rightarrow> False)"

lemma subnet_of_ParseCIDR:
  assumes "subnet_of w s base hb"
  obtains ip n where "ParseCIDR s = Ok (ip, n)" "net_Mask n = Some (w - hb, w)" "hb \<le> w"
    "length (net_IP n) * 8 = w" "ip_val (net_IP n) = base" "2 ^ hb dvd base" "base < 2 ^ w"
proof -
  obtain ip n where n: "ParseCIDR s = Ok (ip, n)" "net_Mask n = Some (w - hb, w)" "hb \<le> w"
      "length (net_IP n) * 8 = w" "ip_val (net_IP n) = base"
    using assms by (auto simp: subnet_of_def split: res.splits)
  have "2 ^ hb dvd base" using n(1) by (rule ParseCIDR_Ok) (use n in auto)
  moreover have "base < 2 ^ w"
  proof -
    have "(2::nat) ^ w = 256 ^ length (net_IP n)"
      unfolding n(4) [symmetric] by (simp add: mult.commute [of _ 8] power_mult)
    then show ?thesis using ip_val_bound [of "net_IP n"] n(5) by simp
  qed
  ultimately show thesis using that n by blast
qed

lemma subnet_size_Inr:
  assumes "subnet_size w msg m s = Inr v"
  shows "\<exists>base hb. subnet_of w s base hb \<and> v = int hb \<and> m \<le> int hb"
proof -
  obtain ip n where n: "ParseCIDR s = Ok (ip, n)"
    using assms by (auto simp: subnet_size_def split: res.splits)
  from n show ?thesis
  proof (cases rule: ParseCIDR_Ok)
    case (1 ones)
    then have "subnet_of w s (ip_val (net_IP n)) (32 - ones) \<and> v = int (32 - ones) \<and> m \<le> int (32 - ones)"
      using assms n by (auto simp: subnet_size_def subnet_of_def split: if_splits)
    then show ?thesis by blast
  next
    case (2 ones)
    then have "subnet_of w s (ip_val (net_IP n)) (128 - ones) \<and> v = int (128 - ones) \<and> m \<le> int (128 - ones)"
      using assms n by (auto simp: subnet_size_def subnet_of_def split: if_splits)
    then show ?thesis by blast
  qed
qed

lemma subnet_size_of: "subnet_of w s base hb \<Longrightarrow> m \<le> int hb \<Longrightarrow> subnet_size w msg m s = Inr (int hb)"
  by (auto simp: subnet_size_def subnet_of_def split: res.splits)

text \<open>What \<open>Validate\<close> accepts: at least one family, each a subnet of its family with at least
  \<open>sz\<close> host bits, and as many in both.\<close>

definition ss_valid :: "int \<Rightarrow> nat \<Rightarrow> SubnetSet \<Rightarrow> bool" where
  "ss_valid sz hb ss \<longleftrightarrow> (ss_IPv4 ss \<noteq> None \<or> ss_IPv6 ss \<noteq> None) \<and> sz \<le> int hb \<and>
     (\<forall>s. ss_IPv4 ss = Some s \<longrightarrow> (\<exists>base. subnet_of 32 s base hb)) \<and>
     (\<forall>s. ss_IPv6 ss = Some s \<longrightarrow> (\<exists>base. subnet_of 128 s base hb))"

lemma Validate_iff: "SubnetSet_Validate ss sz = None \<longleftrightarrow> (\<exists>hb. ss_valid sz hb ss)"
proof
  assume v: "SubnetSet_Validate ss sz = None"
  show "\<exists>hb. ss_valid sz hb ss"
    using v by (cases "ss_IPv4 ss"; cases "ss_IPv6 ss")
      (fastforce simp: SubnetSet_Validate_def ss_valid_def split: sum.splits if_splits dest!: subnet_size_Inr)+
next
  assume "\<exists>hb. ss_valid sz hb ss"
  then obtain hb where v: "ss_valid sz hb ss" ..
  then show "SubnetSet_Validate ss sz = None"
    by (cases "ss_IPv4 ss"; cases "ss_IPv6 ss")
      (auto simp: SubnetSet_Validate_def ss_valid_def subnet_size_of split: sum.splits)
qed

lemma invalid_subnets_Nil:
  "invalid_subnets p bits iss = [] \<longleftrightarrow> (\<forall>(i, n) \<in> set iss. SubnetSet_Validate n bits = None)"
  by (auto simp: invalid_subnets_def split: option.splits)

lemma Ball_enumerate: "(\<forall>(i, n) \<in> set (enumerate k xs). P n) \<longleftrightarrow> (\<forall>n \<in> set xs. P n)"
proof -
  have "(\<forall>(i, n) \<in> set (enumerate k xs). P n) \<longleftrightarrow> (\<forall>n \<in> snd ` set (enumerate k xs). P n)"
    by (auto simp: case_prod_unfold)
  also have "snd ` set (enumerate k xs) = set xs"
    by (metis list.set_map map_snd_enumerate)
  finally show ?thesis .
qed

lemma aps_validate_Nil:
  "aps_validate aps = [] \<longleftrightarrow> (\<forall>ss \<in> set (aps_Subnets aps). \<exists>hb. ss_valid (aps_BlockSizeBits aps) hb ss)"
  by (simp add: aps_validate_def invalid_subnets_Nil Ball_enumerate Validate_iff)

lemma prefix_nth_iff:
  "length ys \<le> length xs \<Longrightarrow> (\<forall>i<length ys. xs ! i = ys ! i) \<longleftrightarrow> (\<exists>more. xs = ys @ more \<and> more = drop (length ys) xs)"
proof
  assume l: "length ys \<le> length xs" and eq: "\<forall>i<length ys. xs ! i = ys ! i"
  then have "take (length ys) xs = ys" by (simp add: list_eq_iff_nth_eq)
  then show "\<exists>more. xs = ys @ more \<and> more = drop (length ys) xs" by (metis append_take_drop_id)
next
  assume "\<exists>more. xs = ys @ more \<and> more = drop (length ys) xs"
  then show "\<forall>i<length ys. xs ! i = ys ! i" by (metis nth_append)
qed

lemma concat_if_Nil: "concat (map (\<lambda>i. if P i then [f i] else []) [0..<k]) = [] \<longleftrightarrow> (\<forall>i<k. \<not> P i)"
  by (induction k) (auto simp: less_Suc_eq)

lemma aps_validateUpdate_Nil:
  "aps_validateUpdate aps old = [] \<longleftrightarrow>
     aps_BlockSizeBits aps = aps_BlockSizeBits old \<and>
     (\<exists>more. aps_Subnets aps = aps_Subnets old @ more \<and>
       (\<forall>ss \<in> set more. \<exists>hb. ss_valid (aps_BlockSizeBits aps) hb ss))"
proof (cases "length (aps_Subnets old) > length (aps_Subnets aps)")
  case True
  then show ?thesis by (auto simp: aps_validateUpdate_def Let_def)
next
  case False
  then have "aps_validateUpdate aps old = [] \<longleftrightarrow>
      aps_BlockSizeBits aps = aps_BlockSizeBits old \<and>
      (\<forall>i<length (aps_Subnets old). aps_Subnets aps ! i = aps_Subnets old ! i) \<and>
      (\<forall>ss \<in> set (drop (length (aps_Subnets old)) (aps_Subnets aps)). \<exists>hb. ss_valid (aps_BlockSizeBits aps) hb ss)"
    by (auto simp: aps_validateUpdate_def Let_def invalid_subnets_Nil Ball_enumerate Validate_iff concat_if_Nil
          simp del: concat_eq_Nil_conv)
  then show ?thesis using prefix_nth_iff [of "aps_Subnets old" "aps_Subnets aps"] False by auto
qed

section \<open>Carved blocks\<close>

text \<open>The \<open>n\<close>-th block of \<open>2^k\<close> addresses of a subnet based at \<open>base\<close>, in the family of \<open>w\<close> bits,
  as \<open>GetBlock\<close> returns it.\<close>

definition nth_block :: "nat \<Rightarrow> nat \<Rightarrow> nat \<Rightarrow> nat \<Rightarrow> ipnet \<Rightarrow> bool" where
  "nth_block w base k n b \<longleftrightarrow> net_Mask b = Some (w - k, w) \<and>
     (if w = 32 then To4 (net_IP b) = ip_of_nat 4 (base + n * 2 ^ k)
      else net_IP b = ip_of_nat 16 (base + n * 2 ^ k) \<and> To4 (net_IP b) = [])"

text \<open>An IPv6 subnet outside \<open>::/80\<close>, where Go does not take an address for a mapped IPv4 one.\<close>

definition native6 :: "nat \<Rightarrow> bool" where
  "native6 base \<longleftrightarrow> 2 ^ 48 \<le> base"

lemma native6_To4: "native6 (ip_val b) \<Longrightarrow> length b = 16 \<Longrightarrow> To4 b = []"
proof -
  assume n: "native6 (ip_val b)" and l: "length b = 16"
  have "2 ^ 48 div 2 ^ 32 \<le> ip_val b div 2 ^ 32" using n unfolding native6_def by (rule div_le_mono)
  then show ?thesis unfolding To4_16_iff [OF l] by simp
qed

lemma block_end:
  assumes "k \<le> hb" and "n < 2 ^ (hb - k)"
  shows "n * 2 ^ k + 2 ^ k \<le> (2::nat) ^ hb"
proof -
  have "(n + 1) * 2 ^ k \<le> 2 ^ (hb - k) * 2 ^ k" using assms(2) by (intro mult_le_mono1) simp
  also have "\<dots> = 2 ^ hb" using assms(1) by (simp flip: power_add)
  finally show ?thesis by (simp add: algebra_simps)
qed

lemma block_below:
  assumes "2 ^ hb dvd base" and "base < (2::nat) ^ w" and "hb \<le> w" and "k \<le> hb" and "n < 2 ^ (hb - k)"
  shows "base + n * 2 ^ k < 2 ^ w"
proof -
  have "n * 2 ^ k < 2 ^ hb" by (rule less_le_trans [OF _ block_end [OF assms(4,5)]]) simp
  then show ?thesis using aligned_add_bound [OF assms(1,2) _ assms(3)] by simp
qed

lemma block_offset_Ok:
  assumes "k \<le> hb" and "hb \<le> 62" and "n < 2 ^ (hb - k)"
  shows "block_offset n (int k) = Ok (int (n * 2 ^ k))"
proof -
  have "n * 2 ^ k + 2 ^ k \<le> (2::nat) ^ hb" by (rule block_end [OF assms(1,3)])
  also have "(2::nat) ^ hb \<le> 2 ^ 62" using assms(2) by (rule power_increasing) simp
  finally have le: "n * 2 ^ k + 2 ^ k \<le> (2::nat) ^ 62" .
  have "(n::nat) * 1 \<le> n * 2 ^ k" by (rule mult_le_mono2) simp
  then have "n \<le> (2::nat) ^ 62" using le by linarith
  then have "n < (2::nat) ^ 63" by simp
  moreover have "(2::nat) ^ k < 2 ^ 63" "n * 2 ^ k < (2::nat) ^ 63" using le by simp_all
  ultimately have "wrap_int64 (int (2 ^ k)) = int (2 ^ k)" "wrap_int64 (int n) = int n"
      "wrap_int64 (int (n * 2 ^ k)) = int (n * 2 ^ k)"
    by (simp_all only: wrap_int64_nat)
  then show ?thesis by (simp add: block_offset_def mult.commute)
qed

lemma CIDRMask32: "k \<le> 32 \<Longrightarrow> CIDRMask (32 - int k) 32 = Some (32 - k, 32)"
  by (auto simp: CIDRMask_def nat_diff_distrib)

lemma CIDRMask128: "k \<le> 128 \<Longrightarrow> CIDRMask (128 - int k) 128 = Some (128 - k, 128)"
  by (auto simp: CIDRMask_def nat_diff_distrib)

lemma carve4:
  assumes "netutil_laws N" and "subnet_of 32 s base hb" and "k \<le> hb" and "n < 2 ^ (hb - k)"
    and off: "off = int (n * 2 ^ k)"
  shows "\<exists>b. carve N 32 (int k) off s = Ok b \<and> nth_block 32 base k n b"
proof -
  obtain ip m where m: "ParseCIDR s = Ok (ip, m)" "hb \<le> 32" "length (net_IP m) = 4"
      "ip_val (net_IP m) = base" "2 ^ hb dvd base" "base < 2 ^ 32"
    using assms(2) by (rule subnet_of_ParseCIDR) auto
  define b where "b = \<lparr>net_IP = nu_IPAdd N (net_IP m) off, net_Mask = CIDRMask (32 - int k) 32\<rparr>"
  have "To4 (net_IP b) = ip_of_nat 4 (base + n * 2 ^ k)"
    using IPAdd4 [OF assms(1) m(3), of "n * 2 ^ k"] block_below [OF m(5,6,2) assms(3,4)] m(4) by (simp add: b_def off)
  moreover from this have "net_IP b \<noteq> []" by (metis To4_Nil ip_of_nat_Nil zero_neq_numeral)
  then have "carve N 32 (int k) off s = Ok b" by (simp add: carve_def m(1) b_def)
  moreover have "net_Mask b = Some (32 - k, 32)" using CIDRMask32 assms(3) m(2) by (simp add: b_def)
  ultimately show ?thesis by (intro exI [of _ b]) (simp add: nth_block_def)
qed

lemma carve6:
  assumes "netutil_laws N" and "subnet_of 128 s base hb" and "k \<le> hb" and "n < 2 ^ (hb - k)" and "native6 base"
    and off: "off = int (n * 2 ^ k)"
  shows "\<exists>b. carve N 128 (int k) off s = Ok b \<and> nth_block 128 base k n b"
proof -
  obtain ip m where m: "ParseCIDR s = Ok (ip, m)" "hb \<le> 128" "length (net_IP m) = 16"
      "ip_val (net_IP m) = base" "2 ^ hb dvd base" "base < 2 ^ 128"
    using assms(2) by (rule subnet_of_ParseCIDR) auto
  define b where "b = \<lparr>net_IP = nu_IPAdd N (net_IP m) off, net_Mask = CIDRMask (128 - int k) 128\<rparr>"
  have lt: "base + n * 2 ^ k < 2 ^ 128" by (rule block_below [OF m(5,6,2) assms(3,4)])
  have "To4 (net_IP m) = []" using native6_To4 [OF _ m(3)] m(4) assms(5) by simp
  then have ip: "net_IP b = ip_of_nat 16 (base + n * 2 ^ k)"
    using IPAdd16 [OF assms(1) m(3), of "n * 2 ^ k"] lt m(4) by (simp add: b_def off)
  have "ip_val (net_IP b) = base + n * 2 ^ k" using ip lt by simp
  then have "native6 (ip_val (net_IP b))" using assms(5) by (simp add: native6_def)
  then have "To4 (net_IP b) = []" using native6_To4 ip by simp
  moreover have "net_IP b \<noteq> []" using ip by simp
  then have "carve N 128 (int k) off s = Ok b" by (simp add: carve_def m(1) b_def)
  moreover have "net_Mask b = Some (128 - k, 128)" using CIDRMask128 assms(3) m(2) by (simp add: b_def)
  ultimately show ?thesis using ip by (intro exI [of _ b]) (simp add: nth_block_def)
qed

text \<open>\<open>GetBlock\<close> of a validated subnet set is total for every index the subnet holds.\<close>

definition ss_native :: "SubnetSet \<Rightarrow> bool" where
  "ss_native ss \<longleftrightarrow> (\<forall>s base hb. ss_IPv6 ss = Some s \<longrightarrow> subnet_of 128 s base hb \<longrightarrow> native6 base)"

lemma GetBlock_Ok:
  assumes "netutil_laws N" and "ss_valid (int k) hb ss" and "hb \<le> 62" and "n < 2 ^ (hb - k)" and "ss_native ss"
  shows "\<exists>b4 b6. GetBlock N ss n (int k) = Ok (b4, b6) \<and>
    (b4 = None \<longleftrightarrow> ss_IPv4 ss = None) \<and> (b6 = None \<longleftrightarrow> ss_IPv6 ss = None) \<and>
    (\<forall>s base b. ss_IPv4 ss = Some s \<longrightarrow> subnet_of 32 s base hb \<longrightarrow> b4 = Some b \<longrightarrow> nth_block 32 base k n b) \<and>
    (\<forall>s base b. ss_IPv6 ss = Some s \<longrightarrow> subnet_of 128 s base hb \<longrightarrow> b6 = Some b \<longrightarrow> nth_block 128 base k n b)"
proof -
  have k: "k \<le> hb" using assms(2) by (simp add: ss_valid_def)
  define off where "off = int (n * 2 ^ k)"
  define o4 where "o4 = (case ss_IPv4 ss of None \<Rightarrow> Ok None
       | Some s \<Rightarrow> bindR (carve N 32 (int k) off s) (\<lambda>b. Ok (Some b)))"
  define o6 where "o6 = (case ss_IPv6 ss of None \<Rightarrow> Ok None
       | Some s \<Rightarrow> bindR (carve N 128 (int k) off s) (\<lambda>b. Ok (Some b)))"
  have "\<exists>b4. o4 = Ok b4 \<and> (b4 = None \<longleftrightarrow> ss_IPv4 ss = None) \<and>
    (\<forall>s base b. ss_IPv4 ss = Some s \<longrightarrow> subnet_of 32 s base hb \<longrightarrow> b4 = Some b \<longrightarrow> nth_block 32 base k n b)"
  proof (cases "ss_IPv4 ss")
    case (Some s)
    then obtain base where "subnet_of 32 s base hb" using assms(2) by (auto simp: ss_valid_def)
    from carve4 [OF assms(1) this k assms(4) off_def] Some show ?thesis
      using carve4 [OF assms(1) _ k assms(4) off_def, of s] by (fastforce simp: o4_def)
  qed (simp add: o4_def)
  moreover have "\<exists>b6. o6 = Ok b6 \<and> (b6 = None \<longleftrightarrow> ss_IPv6 ss = None) \<and>
    (\<forall>s base b. ss_IPv6 ss = Some s \<longrightarrow> subnet_of 128 s base hb \<longrightarrow> b6 = Some b \<longrightarrow> nth_block 128 base k n b)"
  proof (cases "ss_IPv6 ss")
    case (Some s)
    then have nat: "subnet_of 128 s base h \<Longrightarrow> native6 base" for base h using assms(5) by (auto simp: ss_native_def)
    from Some obtain base where "subnet_of 128 s base hb" using assms(2) by (auto simp: ss_valid_def)
    from carve6 [OF assms(1) this k assms(4) nat [OF this] off_def] Some show ?thesis
      using carve6 [OF assms(1) _ k assms(4) nat off_def, of s] by (fastforce simp: o6_def)
  qed (simp add: o6_def)
  ultimately show ?thesis
    using block_offset_Ok [OF k assms(3,4)] unfolding off_def [symmetric]
    by (auto simp: GetBlock_def o4_def o6_def)
qed

text \<open>An address of two blocks of one subnet: it is the same block.\<close>

lemma nth_block_Contains:
  assumes "nth_block w base k n b" and "w = 32 \<or> w = 128" and "k \<le> w" and "base + n * 2 ^ k < 2 ^ w"
  shows "Contains b a \<Longrightarrow>
    (base + n * 2 ^ k) div 2 ^ k = ip_val (if w = 32 then To4 a else a) div 2 ^ k"
  using assms by (auto simp: nth_block_def Contains_def network_number_and_mask_def Let_def split: if_splits)

lemma nth_block_unique:
  assumes "nth_block w base k n b" "nth_block w base k m c" and "w = 32 \<or> w = 128" and "k \<le> w" and "2 ^ k dvd base"
    and "base + n * 2 ^ k < 2 ^ w" "base + m * 2 ^ k < 2 ^ w" and "Contains b a" "Contains c a"
  shows "n = m"
proof -
  have "(base + n * 2 ^ k) div 2 ^ k = (base + m * 2 ^ k) div 2 ^ k"
    using nth_block_Contains [OF assms(1,3,4,6,8)] nth_block_Contains [OF assms(2,3,4,7,9)] by simp
  then show ?thesis using assms(5) by auto
qed

lemma nth_block4_String:
  assumes "nth_block 32 base k n b" and "base + n * 2 ^ k < 2 ^ 32" and "2 ^ k dvd base" and "k \<le> 32"
  shows "\<exists>ip m. ParseCIDR (IPNet_String b) = Ok (ip, m) \<and> To4 ip \<noteq> [] \<and> block4 m k \<and>
    ip_val (net_IP m) = base + n * 2 ^ k"
proof -
  define q where "q = ip_of_nat 4 (base + n * 2 ^ k)"
  have q: "length q = 4" "ip_val q = base + n * 2 ^ k" using assms(2) by (simp_all add: q_def)
  have b: "To4 (net_IP b) = q" "net_Mask b = Some (32 - k, 32)"
    using assms(1) by (auto simp: nth_block_def q_def)
  have ne: "To4 (net_IP b) \<noteq> []" using b(1) q(1) by auto
  have str: "IPNet_String b = print4 q @ ''/'' @ itoa (32 - k)"
    using IPNet_String4 [OF ne b(2)] b(1) by simp
  have dvd: "2 ^ k dvd base + n * 2 ^ k" using assms(3) by simp
  have "32 - (32 - k) = k" using assms(4) by simp
  then have "ParseCIDR (IPNet_String b) = Ok (To16 q, \<lparr>net_IP = ip_of_nat 4 (base + n * 2 ^ k), net_Mask = Some (32 - k, 32)\<rparr>)"
    using ParseCIDR_print4 [OF q(1), of "32 - k"] dvd q(2) unfolding str by (simp add: dvd_eq_mod_eq_0)
  moreover have "block4 \<lparr>net_IP = q, net_Mask = Some (32 - k, 32)\<rparr> k"
    using assms(4) q dvd by (simp add: block4_def)
  moreover have "To4 (To16 q) \<noteq> []" using q(1) by auto
  ultimately show ?thesis using q by (simp add: q_def)
qed

section \<open>Properties\<close>


lemma example_dual:
  defines "ss \<equiv> \<lparr>ss_IPv4 = Some ''10.2.0.0/29'', ss_IPv6 = Some ''fd02::/125''\<rparr>"
  shows "SubnetSet_Validate ss 1 = None" and "ss_valid 1 3 ss" and "ss_native ss"
proof -
  have s4: "subnet_of 32 ''10.2.0.0/29'' 167903232 3" by code_simp
  have s6: "subnet_of 128 ''fd02::/125'' (0xfd02 * 2 ^ 112) 3" by code_simp
  show v: "ss_valid 1 3 ss" using s4 s6 by (auto simp: ss_valid_def ss_def)
  then show "SubnetSet_Validate ss 1 = None" using Validate_iff by blast
  have "native6 base" if "subnet_of 128 ''fd02::/125'' base hb" for base hb
  proof -
    have "base = 0xfd02 * 2 ^ 112" using that s6 by (auto simp: subnet_of_def split: res.splits)
    then show ?thesis by (simp add: native6_def)
  qed
  then show "ss_native ss" by (auto simp: ss_native_def ss_def)
qed




end
