(* ===== verification/Node_Ipam.thy ===== *)
theory Node_Ipam
  imports Address_Pool
begin

text \<open>
  The IPAM of a node, \<open>pkg/ipam/node.go\<close>: the pools of the node with an allocator per address
  block, and the map from containers to the addresses they hold. The API server, the wait for
  the completion of a block request, the retry helper of client-go and the route exporter
  are parameters, actions on an opaque world. An \<open>allocInfo\<close> holds the name of its pool in place of
  a pointer: pools are never removed from the map. Each method of a pool runs under its lock.
\<close>

section \<open>The program\<close>

record 'w node_kube =
  nk_ListAddressBlocks :: "string gomap \<Rightarrow> ('w, AddressBlock list) act"
  nk_GetNode :: "string \<Rightarrow> ('w, Node) act"
  nk_GetAddressBlock :: "string \<Rightarrow> ('w, AddressBlock) act"
  nk_UpdateAddressBlock :: "AddressBlock \<Rightarrow> ('w, unit) act"
  nk_DeleteAddressBlock :: "string \<Rightarrow> ('w, unit) act"
  nk_DeleteBlockRequest :: "string \<Rightarrow> ('w, unit) act"
  nk_CreateBlockRequest :: "BlockRequest \<Rightarrow> ('w, unit) act"
  nk_WaitRequest :: "('w, BlockRequest) act"
  nk_RetryOnConflict :: "('w, unit) act \<Rightarrow> ('w, unit) act"
  nk_ExporterSync :: "(ipnet option list \<Rightarrow> ('w, unit) act) option"

record ('b, 'w) node_env =
  ne_bitset :: "'b bitset_ops"
  ne_netutil :: netutil_ops
  ne_ctrlutil :: ctrlutil_ops
  ne_kube :: "'w node_kube"
  ne_range :: range_order

record allocInfo =
  ai_IPv4 :: ip
  ai_IPv6 :: ip
  ai_Pool :: string
  ai_BlockName :: string
  ai_Index :: nat

definition allocKey :: "string \<Rightarrow> string \<Rightarrow> string" where
  "allocKey containerID iface = containerID @ '':'' @ iface"

record 'b nodePool =
  np_poolName :: string
  np_nodeName :: string
  np_node :: Node
  np_blockAlloc :: "'b allocator gomap"

record 'b nodeIPAM =
  ni_nodeName :: string
  ni_pools :: "'b nodePool gomap"
  ni_node :: "Node option"
  ni_allocInfoMap :: "allocInfo gomap"

definition NewNodeIPAM :: "string \<Rightarrow> 'b nodeIPAM" where
  "NewNodeIPAM nodeName = \<lparr>ni_nodeName = nodeName, ni_pools = [], ni_node = None, ni_allocInfoMap = []\<rparr>"

subsection \<open>Pools of a node\<close>

text \<open>The body of the loop of \<open>syncBlock\<close>.\<close>

definition add_block :: "('b, 'w) node_env \<Rightarrow> AddressBlock \<Rightarrow> 'b nodePool \<Rightarrow> 'b nodePool res" where
  "add_block E b p =
     (case glookup (np_blockAlloc p) (om_Name (ab_meta b)) of
        Some _ \<Rightarrow> Ok p
      | None \<Rightarrow>
          bindR (newAllocator (ne_bitset E) (ab_IPv4 b) (ab_IPv6 b)) (\<lambda>a.
          bindR (if gget (om_Labels (ab_meta b)) LabelReserved = ''true'' then fill (ne_bitset E) a else Ok a) (\<lambda>a.
          Ok (p\<lparr>np_blockAlloc := gupdate (om_Name (ab_meta b)) a (np_blockAlloc p)\<rparr>))))"

definition updA :: "('m \<Rightarrow> 'm res) \<Rightarrow> ('m \<times> 'w, unit) act" where
  "updA f = (\<lambda>(m, w). case f m of
      Ok m' \<Rightarrow> (Ok (), (m', w))
    | Err e \<Rightarrow> (Err e, (m, w))
    | Panic q \<Rightarrow> (Panic q, (m, w)))"

definition syncBlock :: "('b, 'w) node_env \<Rightarrow> ('b nodePool \<times> 'w, unit) act" where
  "syncBlock E =
     bindA getA (\<lambda>(p, _).
     bindA (liftW (nk_ListAddressBlocks (ne_kube E) [(LabelPool, np_poolName p), (LabelNode, np_nodeName p)])) (\<lambda>blocks.
     foreachA (\<lambda>b. updA (add_block E b)) blocks))"

text \<open>The function given to \<open>RetryOnConflict\<close>.\<close>

definition remove_finalizer :: "('b, 'w) node_env \<Rightarrow> string \<Rightarrow> ('w, unit) act" where
  "remove_finalizer E name =
     bindA (tryA (nk_GetAddressBlock (ne_kube E) name)) (\<lambda>r. case r of
       Inl e \<Rightarrow> if IsNotFound e then returnA () else errA e
     | Inr b \<Rightarrow>
         if \<not> cu_ContainsFinalizer (ne_ctrlutil E) (ab_meta b) FinCoil then returnA ()
         else nk_UpdateAddressBlock (ne_kube E)
                (b\<lparr>ab_meta := cu_RemoveFinalizer (ne_ctrlutil E) (ab_meta b) FinCoil\<rparr>))"

definition deleteBlock :: "('b, 'w) node_env \<Rightarrow> string \<Rightarrow> ('w, unit) act" where
  "deleteBlock E name =
     bindA (wrapA (''failed to remove finalizer from '' @ name) (nk_RetryOnConflict (ne_kube E) (remove_finalizer E name))) (\<lambda>_.
     ignoreNotFound (nk_DeleteAddressBlock (ne_kube E) name))"

definition gc_block :: "('b, 'w) node_env \<Rightarrow> string \<Rightarrow> ('b nodePool \<times> 'w, unit) act" where
  "gc_block E name =
     bindA getA (\<lambda>(p, _).
     case glookup (np_blockAlloc p) name of
       None \<Rightarrow> returnA ()
     | Some a \<Rightarrow>
         bindA (resA (isEmpty (ne_bitset E) a)) (\<lambda>empty.
         if \<not> empty then returnA ()
         else bindA (liftW (deleteBlock E name)) (\<lambda>_.
              modifyA (\<lambda>(p, w). (p\<lparr>np_blockAlloc := gdelete name (np_blockAlloc p)\<rparr>, w)))))"

definition pool_gc :: "('b, 'w) node_env \<Rightarrow> ('b nodePool \<times> 'w, unit) act" where
  "pool_gc E =
     bindA (syncBlock E) (\<lambda>_.
     bindA getA (\<lambda>(p, _).
     foreachA (gc_block E) (ne_range E (gkeys (np_blockAlloc p)))))"

fun register_loop :: "('b, 'w) node_env \<Rightarrow> ip \<Rightarrow> ip \<Rightarrow> string list \<Rightarrow> 'b nodePool \<Rightarrow> ('b nodePool \<times> allocInfo option) res" where
  "register_loop E ipv4 ipv6 [] p = Ok (p, None)"
| "register_loop E ipv4 ipv6 (block # blocks) p =
     (case glookup (np_blockAlloc p) block of
        None \<Rightarrow> register_loop E ipv4 ipv6 blocks p
      | Some a \<Rightarrow> bindR (register (ne_bitset E) (ne_netutil E) ipv4 ipv6 a) (\<lambda>(a', r).
          case r of
            Some idx \<Rightarrow> Ok (p\<lparr>np_blockAlloc := gupdate block a' (np_blockAlloc p)\<rparr>,
                Some \<lparr>ai_IPv4 = ipv4, ai_IPv6 = ipv6, ai_Pool = np_poolName p, ai_BlockName = block, ai_Index = idx\<rparr>)
          | None \<Rightarrow> register_loop E ipv4 ipv6 blocks p))"

definition pool_register :: "('b, 'w) node_env \<Rightarrow> ip \<Rightarrow> ip \<Rightarrow> ('b nodePool \<times> 'w, allocInfo option) act" where
  "pool_register E ipv4 ipv6 = (\<lambda>(p, w).
     case register_loop E ipv4 ipv6 (ne_range E (gkeys (np_blockAlloc p))) p of
       Ok (p', r) \<Rightarrow> (Ok r, (p', w))
     | Err e \<Rightarrow> (Err e, (p, w))
     | Panic q \<Rightarrow> (Panic q, (p, w)))"

definition allocateFrom :: "('b, 'w) node_env \<Rightarrow> string \<Rightarrow> bool \<Rightarrow> ('b nodePool \<times> 'w, allocInfo \<times> bool) act" where
  "allocateFrom E block toSync = (\<lambda>(p, w).
     case glookup (np_blockAlloc p) block of
       None \<Rightarrow> (Panic (''bug: '' @ block), (p, w))
     | Some a \<Rightarrow> (case allocate (ne_bitset E) (ne_netutil E) a of
           Ok (a', Some (ipv4, ipv6, idx)) \<Rightarrow>
             (Ok (\<lparr>ai_IPv4 = ipv4, ai_IPv6 = ipv6, ai_Pool = np_poolName p, ai_BlockName = block, ai_Index = idx\<rparr>, toSync),
              (p\<lparr>np_blockAlloc := gupdate block a' (np_blockAlloc p)\<rparr>, w))
         | Ok (_, None) \<Rightarrow> (Panic ''bug'', (p, w))
         | Err e \<Rightarrow> (Err e, (p, w))
         | Panic q \<Rightarrow> (Panic q, (p, w))))"

text \<open>The first loop of \<open>allocate\<close>: the first block, in the order of the iteration, with a free
  index.\<close>

fun first_free :: "('b, 'w) node_env \<Rightarrow> 'b nodePool \<Rightarrow> string list \<Rightarrow> string option res" where
  "first_free E p [] = Ok None"
| "first_free E p (block # blocks) =
     (case glookup (np_blockAlloc p) block of
        None \<Rightarrow> first_free E p blocks
      | Some a \<Rightarrow> bindR (isFull (ne_bitset E) a) (\<lambda>full. if full then first_free E p blocks else Ok (Some block)))"

definition reqName :: "'b nodePool \<Rightarrow> string" where
  "reqName p = ''req-'' @ np_poolName p @ ''-'' @ np_nodeName p"

definition request_block :: "('b, 'w) node_env \<Rightarrow> 'b nodePool \<Rightarrow> ('w, string) act" where
  "request_block E p =
     bindA (wrapA ''failed to delete existing BlockRequest'' (ignoreNotFound (nk_DeleteBlockRequest (ne_kube E) (reqName p)))) (\<lambda>_.
     bindA (wrapA ''failed to set owner reference''
              (resA (cu_SetOwnerReference (ne_ctrlutil E) ''Node'' (node_meta (np_node p)) (empty_meta\<lparr>om_Name := reqName p\<rparr>)))) (\<lambda>m.
     bindA (wrapA ''failed to create BlockRequest'' (nk_CreateBlockRequest (ne_kube E)
              \<lparr>br_meta = m, br_Spec = \<lparr>brs_NodeName = np_nodeName p, brs_PoolName = np_poolName p\<rparr>,
               br_Status = \<lparr>brst_AddressBlockName = [], brst_Conditions = []\<rparr>\<rparr>)) (\<lambda>_.
     bindA (wrapA ''aborting new block request'' (nk_WaitRequest (ne_kube E))) (\<lambda>req.
     case GetResult req of Inl e \<Rightarrow> errA e | Inr block \<Rightarrow> returnA block))))"

definition pool_allocate :: "('b, 'w) node_env \<Rightarrow> ('b nodePool \<times> 'w, allocInfo \<times> bool) act" where
  "pool_allocate E =
     bindA getA (\<lambda>(p, _).
     bindA (resA (first_free E p (ne_range E (gkeys (np_blockAlloc p))))) (\<lambda>found.
     case found of
       Some block \<Rightarrow> allocateFrom E block False
     | None \<Rightarrow>
         bindA (liftW (request_block E p)) (\<lambda>block.
         bindA (wrapA ''failed to sync blocks'' (syncBlock E)) (\<lambda>_.
         allocateFrom E block True))))"

definition pool_free :: "('b, 'w) node_env \<Rightarrow> string \<Rightarrow> nat \<Rightarrow> ('b nodePool \<times> 'w, bool) act" where
  "pool_free E blockName idx =
     bindA getA (\<lambda>(p, _).
     case glookup (np_blockAlloc p) blockName of
       None \<Rightarrow> panicA (''bug: '' @ blockName)
     | Some a \<Rightarrow>
         bindA (resA (free (ne_bitset E) idx a)) (\<lambda>a'.
         bindA (modifyA (\<lambda>(p, w). (p\<lparr>np_blockAlloc := gupdate blockName a' (np_blockAlloc p)\<rparr>, w))) (\<lambda>_.
         bindA (resA (isEmpty (ne_bitset E) a')) (\<lambda>empty.
         if \<not> empty then returnA False
         else bindA (wrapA (''failed to free block '' @ blockName) (liftW (deleteBlock E blockName))) (\<lambda>_.
              bindA (modifyA (\<lambda>(p, w). (p\<lparr>np_blockAlloc := gdelete blockName (np_blockAlloc p)\<rparr>, w))) (\<lambda>_.
              returnA True))))))"

subsection \<open>The IPAM\<close>

definition ClearRoutes :: "('b, 'w) node_env \<Rightarrow> ('b nodeIPAM \<times> 'w, unit) act" where
  "ClearRoutes E = (case nk_ExporterSync (ne_kube E) of None \<Rightarrow> returnA () | Some sy \<Rightarrow> liftW (sy []))"

text \<open>\<open>_, n, _ := net.ParseCIDR(s)\<close>: nil when the text does not parse.\<close>

definition parse_net :: "string \<Rightarrow> ipnet option" where
  "parse_net s = (case ParseCIDR s of Ok (_, n) \<Rightarrow> Some n | _ \<Rightarrow> None)"

definition block_subnets :: "AddressBlock list \<Rightarrow> ipnet option list" where
  "block_subnets blocks = concat (map (\<lambda>b.
     (case ab_IPv4 b of None \<Rightarrow> [] | Some s \<Rightarrow> [parse_net s]) @
     (case ab_IPv6 b of None \<Rightarrow> [] | Some s \<Rightarrow> [parse_net s])) blocks)"

definition sync :: "('b, 'w) node_env \<Rightarrow> ('b nodeIPAM \<times> 'w, unit) act" where
  "sync E = (case nk_ExporterSync (ne_kube E) of
       None \<Rightarrow> returnA ()
     | Some sy \<Rightarrow>
         bindA getA (\<lambda>(n, _).
         bindA (liftW (nk_ListAddressBlocks (ne_kube E) [(LabelNode, ni_nodeName n)])) (\<lambda>blocks.
         liftW (sy (block_subnets blocks)))))"

definition getNode :: "('b, 'w) node_env \<Rightarrow> ('b nodeIPAM \<times> 'w, Node) act" where
  "getNode E =
     bindA getA (\<lambda>(n, _).
     case ni_node n of
       Some nd \<Rightarrow> returnA nd
     | None \<Rightarrow>
         bindA (wrapA ''failed to get Node resource'' (liftW (nk_GetNode (ne_kube E) (ni_nodeName n)))) (\<lambda>nd.
         bindA (modifyA (\<lambda>(n, w). (n\<lparr>ni_node := Some nd\<rparr>, w))) (\<lambda>_.
         returnA nd)))"

definition ni_getPool :: "('b, 'w) node_env \<Rightarrow> string \<Rightarrow> ('b nodeIPAM \<times> 'w, unit) act" where
  "ni_getPool E name =
     bindA (getNode E) (\<lambda>nd. \<lambda>(n, w).
     case glookup (ni_pools n) name of
       Some p \<Rightarrow> (Ok (), (n, w))
     | None \<Rightarrow> (case syncBlock E (\<lparr>np_poolName = name, np_nodeName = ni_nodeName n, np_node = nd, np_blockAlloc = []\<rparr>, w) of
           (Ok _, (p, w')) \<Rightarrow> (Ok (), (n\<lparr>ni_pools := gupdate name p (ni_pools n)\<rparr>, w'))
         | (Err e, (_, w')) \<Rightarrow> (Err e, (n, w'))
         | (Panic q, (_, w')) \<Rightarrow> (Panic q, (n, w'))))"

text \<open>Running a method of the pool a pointer refers to.\<close>

definition ni_on_pool :: "string \<Rightarrow> ('b nodePool \<times> 'w, 'a) act \<Rightarrow> ('b nodeIPAM \<times> 'w, 'a) act" where
  "ni_on_pool name m = (\<lambda>(n, w). case glookup (ni_pools n) name of
       None \<Rightarrow> (Panic nil_deref, (n, w))
     | Some p \<Rightarrow> (case m (p, w) of (r, (p', w')) \<Rightarrow> (r, (n\<lparr>ni_pools := gupdate name p' (ni_pools n)\<rparr>, w'))))"

definition Register :: "('b, 'w) node_env \<Rightarrow> string \<Rightarrow> string \<Rightarrow> string \<Rightarrow> ip \<Rightarrow> ip \<Rightarrow> ('b nodeIPAM \<times> 'w, unit) act" where
  "Register E poolName containerID iface ipv4 ipv6 =
     bindA (ni_getPool E poolName) (\<lambda>_.
     bindA (ni_on_pool poolName (pool_register E ipv4 ipv6)) (\<lambda>ai.
     case ai of
       None \<Rightarrow> returnA ()
     | Some ai \<Rightarrow> modifyA (\<lambda>(n, w). (n\<lparr>ni_allocInfoMap := gupdate (allocKey containerID iface) ai (ni_allocInfoMap n)\<rparr>, w))))"

definition ni_gc :: "('b, 'w) node_env \<Rightarrow> ('b nodeIPAM \<times> 'w, unit) act" where
  "ni_gc E =
     bindA getA (\<lambda>(n, _).
     bindA (foreachA (\<lambda>np. ni_on_pool np (pool_gc E)) (ne_range E (gkeys (ni_pools n)))) (\<lambda>_.
     sync E))"

definition syncUnregisteredPool :: "('b, 'w) node_env \<Rightarrow> ('b nodeIPAM \<times> 'w, unit) act" where
  "syncUnregisteredPool E =
     bindA getA (\<lambda>(n, _).
     bindA (liftW (nk_ListAddressBlocks (ne_kube E) [(LabelNode, ni_nodeName n)])) (\<lambda>blocks.
     foreachA (\<lambda>b. let pool = gget (om_Labels (ab_meta b)) LabelPool in
       bindA getA (\<lambda>(n, _). if glookup (ni_pools n) pool = None then ni_getPool E pool else returnA ())) blocks))"

definition GC :: "('b, 'w) node_env \<Rightarrow> ('b nodeIPAM \<times> 'w, unit) act" where
  "GC E = bindA (syncUnregisteredPool E) (\<lambda>_. ni_gc E)"

definition Allocate :: "('b, 'w) node_env \<Rightarrow> string \<Rightarrow> string \<Rightarrow> string \<Rightarrow> ('b nodeIPAM \<times> 'w, ip \<times> ip) act" where
  "Allocate E poolName containerID iface =
     bindA getA (\<lambda>(n, _).
     case glookup (ni_allocInfoMap n) (allocKey containerID iface) of
       Some ai \<Rightarrow> returnA (ai_IPv4 ai, ai_IPv6 ai)
     | None \<Rightarrow>
         bindA (ni_getPool E poolName) (\<lambda>_.
         bindA (ni_on_pool poolName (pool_allocate E)) (\<lambda>(ai, toSync).
         bindA (if toSync then sync E else returnA ()) (\<lambda>_.
         bindA (modifyA (\<lambda>(n, w). (n\<lparr>ni_allocInfoMap := gupdate (allocKey containerID iface) ai (ni_allocInfoMap n)\<rparr>, w))) (\<lambda>_.
         returnA (ai_IPv4 ai, ai_IPv6 ai))))))"

definition Free :: "('b, 'w) node_env \<Rightarrow> string \<Rightarrow> string \<Rightarrow> ('b nodeIPAM \<times> 'w, unit) act" where
  "Free E containerID iface =
     bindA getA (\<lambda>(n, _).
     case glookup (ni_allocInfoMap n) (allocKey containerID iface) of
       None \<Rightarrow> returnA ()
     | Some ai \<Rightarrow>
         bindA (ni_on_pool (ai_Pool ai) (pool_free E (ai_BlockName ai) (ai_Index ai))) (\<lambda>toSync.
         bindA (if toSync then sync E else returnA ()) (\<lambda>_.
         modifyA (\<lambda>(n, w). (n\<lparr>ni_allocInfoMap := gdelete (allocKey containerID iface) (ni_allocInfoMap n)\<rparr>, w)))))"

text \<open>The completion channel of a pool is unbuffered and the send does not block: the request reaches
  the pool only when an allocation is receiving from it, else it is dropped.\<close>

definition pool_notify :: "bool \<Rightarrow> BlockRequest \<Rightarrow> BlockRequest option" where
  "pool_notify receiving req = (if receiving then Some req else None)"

definition Notify :: "(string \<Rightarrow> bool) \<Rightarrow> BlockRequest \<Rightarrow> 'b nodeIPAM \<Rightarrow> (string \<times> BlockRequest) option" where
  "Notify receiving req n = (case glookup (ni_pools n) (brs_PoolName (br_Spec req)) of
       None \<Rightarrow> None
     | Some p \<Rightarrow> map_option (Pair (np_poolName p)) (pool_notify (receiving (np_poolName p)) req))"

fun internal_ips :: "(node_address_type \<times> string) list \<Rightarrow> ip \<Rightarrow> ip \<Rightarrow> ip \<times> ip" where
  "internal_ips [] ipv4 ipv6 = (ipv4, ipv6)"
| "internal_ips ((ty, addr) # as) ipv4 ipv6 =
     (if ty \<noteq> NodeInternalIP then internal_ips as ipv4 ipv6
      else let a = ParseIP addr in
        if To4 a \<noteq> nil_ip then internal_ips as (To4 a) ipv6
        else if To16 a \<noteq> nil_ip then internal_ips as ipv4 (To16 a)
        else internal_ips as ipv4 ipv6)"

definition NodeInternalIPs :: "('b, 'w) node_env \<Rightarrow> ('b nodeIPAM \<times> 'w, ip \<times> ip) act" where
  "NodeInternalIPs E = bindA (getNode E) (\<lambda>nd. returnA (internal_ips (node_Addresses nd) nil_ip nil_ip))"

section \<open>Well-formed environments and pools\<close>

text \<open>An AddressBlock as the controller writes it: a block of \<open>2^k\<close> addresses in each family it has.\<close>

definition block_wf :: "AddressBlock \<Rightarrow> bool" where
  "block_wf b \<longleftrightarrow> (\<exists>k \<le> 32. (ab_IPv4 b \<noteq> None \<or> ab_IPv6 b \<noteq> None) \<and>
     (\<forall>s. ab_IPv4 b = Some s \<longrightarrow> cidr4 k s) \<and> (\<forall>s. ab_IPv6 b = Some s \<longrightarrow> cidr6 k s))"

definition lists_wf :: "'w node_kube \<Rightarrow> bool" where
  "lists_wf K \<longleftrightarrow> (\<forall>sel w bs w'. nk_ListAddressBlocks K sel w = (Ok bs, w') \<longrightarrow> (\<forall>b \<in> set bs. block_wf b))"

definition node_env_ok :: "('b, 'w) node_env \<Rightarrow> bool" where
  "node_env_ok E \<longleftrightarrow> bitset_laws (ne_bitset E) \<and> netutil_laws (ne_netutil E) \<and> lists_wf (ne_kube E) \<and> go_range (ne_range E)"

definition np_inv :: "('b, 'w) node_env \<Rightarrow> 'b nodePool \<Rightarrow> bool" where
  "np_inv E p \<longleftrightarrow> (\<forall>nm a. glookup (np_blockAlloc p) nm = Some a \<longrightarrow> (\<exists>k. alloc_inv (ne_bitset E) (ne_netutil E) k a))"

text \<open>The indices in use in a pool, with their blocks.\<close>

definition live :: "('b, 'w) node_env \<Rightarrow> 'b nodePool \<Rightarrow> (string \<times> nat) set" where
  "live E p = {(nm, i). \<exists>a. glookup (np_blockAlloc p) nm = Some a \<and> i \<in> used (ne_bitset E) a}"

text \<open>The invariant of a pool in which the indices \<open>H\<close> are held by containers.\<close>

definition PI :: "('b, 'w) node_env \<Rightarrow> string \<Rightarrow> (string \<times> nat) set \<Rightarrow> 'b nodePool \<times> 'w \<Rightarrow> bool" where
  "PI E name H s \<longleftrightarrow> node_env_ok E \<and> np_poolName (fst s) = name \<and> np_inv E (fst s) \<and> H \<subseteq> live E (fst s)"

lemma PI_D:
  assumes "PI E name H (p, w)"
  shows "node_env_ok E" "np_poolName p = name" "np_inv E p" "H \<subseteq> live E p"
  using assms by (auto simp: PI_def)

lemma PI_world: "PI E name H (p, w) \<Longrightarrow> PI E name H (p, w')"
  by (simp add: PI_def)

lemma node_env_okD:
  assumes "node_env_ok E"
  shows "bitset_laws (ne_bitset E)" "netutil_laws (ne_netutil E)" "lists_wf (ne_kube E)" "go_range (ne_range E)"
  using assms by (auto simp: node_env_ok_def)

lemma live_update:
  "live E (p\<lparr>np_blockAlloc := gupdate nm a (np_blockAlloc p)\<rparr>) =
    {(n, i) \<in> live E p. n \<noteq> nm} \<union> {nm} \<times> used (ne_bitset E) a"
  by (auto simp: live_def split: if_splits)

lemma live_delete:
  "live E (p\<lparr>np_blockAlloc := gdelete nm (np_blockAlloc p)\<rparr>) = {(n, i) \<in> live E p. n \<noteq> nm}"
  by (auto simp: live_def split: if_splits)

lemma np_inv_update:
  "np_inv E p \<Longrightarrow> alloc_inv (ne_bitset E) (ne_netutil E) k a \<Longrightarrow>
    np_inv E (p\<lparr>np_blockAlloc := gupdate nm a (np_blockAlloc p)\<rparr>)"
  by (auto simp: np_inv_def split: if_splits)

lemma np_inv_delete: "np_inv E p \<Longrightarrow> np_inv E (p\<lparr>np_blockAlloc := gdelete nm (np_blockAlloc p)\<rparr>)"
  by (auto simp: np_inv_def split: if_splits)

text \<open>An update of one block whose usage only grows.\<close>

lemma PI_update:
  assumes "PI E name H (p, w)" and "alloc_inv (ne_bitset E) (ne_netutil E) k a"
    and "\<And>i. (nm, i) \<in> H \<Longrightarrow> i \<in> used (ne_bitset E) a" and "J \<subseteq> used (ne_bitset E) a"
  shows "PI E name (H \<union> {nm} \<times> J) (p\<lparr>np_blockAlloc := gupdate nm a (np_blockAlloc p)\<rparr>, w')"
  using assms np_inv_update [OF PI_D(3) [OF assms(1)] assms(2), of nm] by (auto simp: PI_def live_update)

section \<open>Synchronising and collecting blocks\<close>

lemma new_block_allocator:
  assumes "node_env_ok E" and "block_wf b"
  shows "\<exists>k a. bindR (newAllocator (ne_bitset E) (ab_IPv4 b) (ab_IPv6 b))
      (\<lambda>a. if gget (om_Labels (ab_meta b)) LabelReserved = ''true'' then fill (ne_bitset E) a else Ok a) = Ok a \<and>
    alloc_inv (ne_bitset E) (ne_netutil E) k a"
proof -
  obtain k where k: "k \<le> 32" "ab_IPv4 b \<noteq> None \<or> ab_IPv6 b \<noteq> None"
      "\<And>s. ab_IPv4 b = Some s \<Longrightarrow> cidr4 k s" "\<And>s. ab_IPv6 b = Some s \<Longrightarrow> cidr6 k s"
    using assms(2) by (auto simp: block_wf_def)
  obtain a where a: "newAllocator (ne_bitset E) (ab_IPv4 b) (ab_IPv6 b) = Ok a" "alloc_inv (ne_bitset E) (ne_netutil E) k a"
    using newAllocator_inv [OF node_env_okD(1,2) [OF assms(1)] k] by blast
  obtain a' where "fill (ne_bitset E) a = Ok a'" "alloc_inv (ne_bitset E) (ne_netutil E) k a'" using fill_inv [OF a(2)] by blast
  with a show ?thesis by auto
qed

lemma add_block_PI:
  assumes "PI E name H (p, w)" and "block_wf b"
  shows "\<exists>p'. add_block E b p = Ok p' \<and> PI E name H (p', w) \<and> np_nodeName p' = np_nodeName p"
proof (cases "glookup (np_blockAlloc p) (om_Name (ab_meta b))")
  case None
  obtain k a where a: "bindR (newAllocator (ne_bitset E) (ab_IPv4 b) (ab_IPv6 b))
      (\<lambda>a. if gget (om_Labels (ab_meta b)) LabelReserved = ''true'' then fill (ne_bitset E) a else Ok a) = Ok a"
    "alloc_inv (ne_bitset E) (ne_netutil E) k a"
    using new_block_allocator [OF PI_D(1) [OF assms(1)] assms(2)] by blast
  then have "add_block E b p = Ok (p\<lparr>np_blockAlloc := gupdate (om_Name (ab_meta b)) a (np_blockAlloc p)\<rparr>)"
    using None by (cases "newAllocator (ne_bitset E) (ab_IPv4 b) (ab_IPv6 b)") (auto simp: add_block_def)
  moreover have "(om_Name (ab_meta b), i) \<notin> H" for i using PI_D(4) [OF assms(1)] None by (auto simp: live_def)
  then have "PI E name (H \<union> {om_Name (ab_meta b)} \<times> {}) (p\<lparr>np_blockAlloc := gupdate (om_Name (ab_meta b)) a (np_blockAlloc p)\<rparr>, w)"
    by (intro PI_update [OF assms(1) a(2)]) auto
  ultimately show ?thesis by simp
qed (use assms(1) in \<open>simp add: add_block_def\<close>)

lemma keeps_updA:
  "(\<And>m w m'. I (m, w) \<Longrightarrow> f m = Ok m' \<Longrightarrow> I (m', w)) \<Longrightarrow> keeps I (updA f)"
  by (auto simp: keeps_def updA_def split: res.splits)

lemma syncBlock_outcome:
  assumes "PI E name H (p, w)"
  shows "outcome (syncBlock E) (\<lambda>_. PI E name H) (\<lambda>_. PI E name H) (PI E name H) (p, w)"
proof -
  have loop: "outcome (foreachA (\<lambda>b. updA (add_block E b)) bs) (\<lambda>_. PI E name H) (\<lambda>_. PI E name H) (PI E name H) (p, w')"
    if "\<forall>b \<in> set bs. block_wf b" for bs w'
  proof (rule outcome_foreachA)
    fix b and s :: "'a nodePool \<times> 'b" assume "b \<in> set bs" "PI E name H s"
    moreover obtain q v where "s = (q, v)" by (cases s)
    ultimately show "outcome (updA (add_block E b)) (\<lambda>_. PI E name H) (\<lambda>_. PI E name H) (PI E name H) s"
      using add_block_PI [of E name H q v b] that by (auto simp: outcome_def updA_def)
  qed (rule PI_world [OF assms])
  have wf: "\<forall>b \<in> set bs. block_wf b" if "nk_ListAddressBlocks (ne_kube E) sel v = (Ok bs, v')" for sel v bs v'
    using node_env_okD(3) [OF PI_D(1) [OF assms]] that unfolding lists_wf_def by blast
  show ?thesis
    unfolding syncBlock_def
    by (simp add: wp_simps, rule outcome_call)
      (auto split: res.splits dest: wf intro: loop PI_world [OF assms])
qed

text \<open>Only an empty block is deleted.\<close>

lemma gc_block_outcome:
  assumes "PI E name H (p, w)"
  shows "outcome (gc_block E nm) (\<lambda>_. PI E name H) (\<lambda>_. PI E name H) (PI E name H) (p, w)"
proof (cases "glookup (np_blockAlloc p) nm")
  case None
  then show ?thesis using assms by (simp add: gc_block_def wp_simps)
next
  case (Some a)
  then obtain k where a: "alloc_inv (ne_bitset E) (ne_netutil E) k a" using PI_D(3) [OF assms] by (auto simp: np_inv_def)
  have del: "PI E name H (p\<lparr>np_blockAlloc := gdelete nm (np_blockAlloc p)\<rparr>, w')" if "used (ne_bitset E) a = {}" for w'
  proof -
    have "(nm, i) \<notin> live E p" for i using that Some by (simp add: live_def)
    then show ?thesis using assms np_inv_delete [of E p nm] by (auto simp: PI_def live_delete)
  qed
  show ?thesis
    using Some isEmpty_inv [OF a] assms del PI_world [OF assms]
    by (auto simp: gc_block_def wp_simps intro!: outcome_call split: res.splits)
qed

lemma pool_gc_outcome:
  assumes "PI E name H (p, w)"
  shows "outcome (pool_gc E) (\<lambda>_. PI E name H) (\<lambda>_. PI E name H) (PI E name H) (p, w)"
proof -
  have loop: "outcome (foreachA (gc_block E) xs) (\<lambda>_. PI E name H) (\<lambda>_. PI E name H) (PI E name H) s"
    if "PI E name H s" for xs s
  proof (rule outcome_foreachA)
    fix x and s' :: "'a nodePool \<times> 'b" assume "PI E name H s'"
    then show "outcome (gc_block E x) (\<lambda>_. PI E name H) (\<lambda>_. PI E name H) (PI E name H) s'"
      by (cases s') (simp add: gc_block_outcome)
  qed (rule that)
  show ?thesis
    unfolding pool_gc_def wp_simps
    by (rule outcome_mono [OF syncBlock_outcome [OF assms]]) (auto simp: wp_simps intro!: loop)
qed

section \<open>Registering, allocating and freeing\<close>

lemma PI_alloc:
  assumes "PI E name H (p, w)" and "glookup (np_blockAlloc p) nm = Some a"
    and "alloc_inv (ne_bitset E) (ne_netutil E) k a" and "i < 2 ^ k"
  shows "PI E name (insert (nm, i) H)
    (p\<lparr>np_blockAlloc := gupdate nm (after_alloc (ne_bitset E) i a) (np_blockAlloc p)\<rparr>, w')"
proof -
  note inv = after_alloc_inv [OF assms(3,4)]
  have "j \<in> used (ne_bitset E) (after_alloc (ne_bitset E) i a)" if "(nm, j) \<in> H" for j
    using that PI_D(4) [OF assms(1)] assms(2) inv(2) by (auto simp: live_def)
  then show ?thesis using PI_update [OF assms(1) inv(1), of nm "{i}"] inv(2) by simp
qed

lemma register_loop_PI:
  assumes "PI E name H (p, w)"
  shows "\<exists>p' r. register_loop E ipv4 ipv6 nms p = Ok (p', r) \<and>
    (case r of None \<Rightarrow> p' = p
     | Some ai \<Rightarrow> ai_Pool ai = name \<and> PI E name (insert (ai_BlockName ai, ai_Index ai) H) (p', w))"
proof (induction nms)
  case (Cons nm nms)
  show ?case
  proof (cases "glookup (np_blockAlloc p) nm")
    case (Some a)
    then obtain k where a: "alloc_inv (ne_bitset E) (ne_netutil E) k a" using PI_D(3) [OF assms] by (auto simp: np_inv_def)
    from register_cases [OF a, of ipv4 ipv6] show ?thesis
      using Cons.IH Some PI_alloc [OF assms Some a] PI_D(2) [OF assms] by auto
  qed (use Cons.IH in simp)
qed simp

lemma pool_register_outcome:
  assumes "PI E name H (p, w)"
  shows "outcome (pool_register E ipv4 ipv6)
    (\<lambda>r s'. case r of None \<Rightarrow> PI E name H s'
       | Some ai \<Rightarrow> ai_Pool ai = name \<and> PI E name (insert (ai_BlockName ai, ai_Index ai) H) s')
    (\<lambda>_. PI E name H) (PI E name H) (p, w)"
  using register_loop_PI [OF assms, of ipv4 ipv6 "ne_range E (gkeys (np_blockAlloc p))"] assms
  by (auto simp: outcome_def pool_register_def split: option.splits)

text \<open>What a successful allocation from a pool gives: an index of a block of the pool that no one
  holds, with its addresses.\<close>

definition grants :: "('b, 'w) node_env \<Rightarrow> string \<Rightarrow> (string \<times> nat) set \<Rightarrow> allocInfo \<Rightarrow> 'b nodePool \<Rightarrow> bool" where
  "grants E name H ai p \<longleftrightarrow> ai_Pool ai = name \<and> (ai_BlockName ai, ai_Index ai) \<notin> H \<and>
     (\<exists>a. glookup (np_blockAlloc p) (ai_BlockName ai) = Some a \<and>
       ai_IPv4 ai = addr_at (ne_netutil E) (al_ipv4 a) (ai_Index ai) \<and>
       ai_IPv6 ai = addr_at (ne_netutil E) (al_ipv6 a) (ai_Index ai))"

lemma allocateFrom_outcome:
  assumes "PI E name H (p, w)"
  shows "outcome (allocateFrom E nm b)
    (\<lambda>(ai, _) s'. grants E name H ai (fst s') \<and> PI E name (insert (ai_BlockName ai, ai_Index ai) H) s')
    (\<lambda>_. PI E name H) (PI E name H) (p, w)"
proof (cases "glookup (np_blockAlloc p) nm")
  case (Some a)
  then obtain k where a: "alloc_inv (ne_bitset E) (ne_netutil E) k a" using PI_D(3) [OF assms] by (auto simp: np_inv_def)
  show ?thesis
  proof (cases "used (ne_bitset E) a = {..<2 ^ k}")
    case True
    then show ?thesis using allocate_full [OF a] Some assms by (simp add: outcome_def allocateFrom_def)
  next
    case False
    then obtain i where i: "i < 2 ^ k" "i \<notin> used (ne_bitset E) a"
        "allocate (ne_bitset E) (ne_netutil E) a = Ok (after_alloc (ne_bitset E) i a,
          Some (addr_at (ne_netutil E) (al_ipv4 a) i, addr_at (ne_netutil E) (al_ipv6 a) i, i))"
      using allocate_nonfull [OF a] by blast
    have "(nm, i) \<notin> H" using i(2) Some PI_D(4) [OF assms] by (auto simp: live_def)
    then show ?thesis
      using Some i PI_alloc [OF assms Some a i(1)] PI_D(2) [OF assms] by (simp add: outcome_def allocateFrom_def grants_def)
  qed
qed (use assms in \<open>simp add: outcome_def allocateFrom_def\<close>)

lemma first_free_Ok:
  assumes "np_inv E p"
  shows "\<exists>r. first_free E p nms = Ok r"
proof (induction nms)
  case (Cons nm nms)
  show ?case
  proof (cases "glookup (np_blockAlloc p) nm")
    case (Some a)
    then obtain k where "alloc_inv (ne_bitset E) (ne_netutil E) k a" using assms by (auto simp: np_inv_def)
    then show ?thesis using Some Cons isFull_inv by fastforce
  qed (use Cons in simp)
qed simp

lemma pool_allocate_outcome:
  assumes "PI E name H (p, w)"
  shows "outcome (pool_allocate E)
    (\<lambda>(ai, _) s'. grants E name H ai (fst s') \<and> PI E name (insert (ai_BlockName ai, ai_Index ai) H) s')
    (\<lambda>_. PI E name H) (PI E name H) (p, w)" (is "outcome _ ?Q ?E ?P _")
proof -
  obtain r where r: "first_free E p (ne_range E (gkeys (np_blockAlloc p))) = Ok r"
    using first_free_Ok [OF PI_D(3) [OF assms]] by blast
  have alloc: "outcome (allocateFrom E nm b) ?Q ?E ?P s" if "PI E name H s" for nm b s
    using allocateFrom_outcome [of E name H "fst s" "snd s"] that by simp
  show ?thesis
  proof (cases r)
    case None
    have "outcome (bindA (wrapA t (syncBlock E)) (\<lambda>_. allocateFrom E nm True)) ?Q ?E ?P (p, w')" for t nm w'
      unfolding wp_simps by (rule outcome_mono [OF syncBlock_outcome [OF PI_world [OF assms]]]) (auto intro: alloc)
    then show ?thesis
      using r None PI_world [OF assms] unfolding pool_allocate_def
      by (simp add: wp_simps) (auto intro!: outcome_call split: res.splits simp: outcome_def)
  next
    case (Some nm)
    then show ?thesis using r alloc [OF assms] by (simp add: pool_allocate_def wp_simps)
  qed
qed

lemma pool_free_outcome:
  assumes "PI E name H (p, w)"
  shows "outcome (pool_free E nm i) (\<lambda>_. PI E name (H - {(nm, i)})) (\<lambda>_. PI E name (H - {(nm, i)})) (PI E name (H - {(nm, i)})) (p, w)"
proof (cases "glookup (np_blockAlloc p) nm")
  case None
  then show ?thesis using assms by (auto simp: pool_free_def wp_simps PI_def)
next
  case (Some a)
  then obtain k where a: "alloc_inv (ne_bitset E) (ne_netutil E) k a" using PI_D(3) [OF assms] by (auto simp: np_inv_def)
  obtain a' where a': "free (ne_bitset E) i a = Ok a'" "alloc_inv (ne_bitset E) (ne_netutil E) k a'"
      "used (ne_bitset E) a' = used (ne_bitset E) a - {i}"
    using free_inv [OF a] by blast
  define p' where "p' = p\<lparr>np_blockAlloc := gupdate nm a' (np_blockAlloc p)\<rparr>"
  have inv': "PI E name (H - {(nm, i)}) (p', w')" for w'
    using assms Some a'(3) np_inv_update [OF PI_D(3) [OF assms] a'(2), of nm]
    by (auto simp: PI_def p'_def live_update) (auto simp: live_def)
  have del: "PI E name (H - {(nm, i)}) (p'\<lparr>np_blockAlloc := gdelete nm (np_blockAlloc p')\<rparr>, w')"
    if "used (ne_bitset E) a' = {}" for w'
  proof -
    have "(nm, j) \<notin> live E p'" for j using that by (simp add: live_def p'_def)
    then show ?thesis using inv' [of w'] np_inv_delete [of E p' nm] by (auto simp: PI_def live_delete)
  qed
  show ?thesis
    using Some a'(1) isEmpty_inv [OF a'(2)] inv' del
    by (auto simp: pool_free_def wp_simps intro!: outcome_call split: res.splits simp flip: p'_def)
qed

section \<open>The invariant of the IPAM\<close>

text \<open>The indices of a pool that containers hold, by the map of the IPAM.\<close>

definition held :: "'b nodeIPAM \<Rightarrow> string \<Rightarrow> (string \<times> nat) set" where
  "held n name = {(ai_BlockName ai, ai_Index ai) | k ai. glookup (ni_allocInfoMap n) k = Some ai \<and> ai_Pool ai = name}"

text \<open>Every index a container holds is in use in its block, with the indices \<open>X\<close> of pool \<open>x\<close> besides.\<close>

definition NIX :: "('b, 'w) node_env \<Rightarrow> string \<Rightarrow> (string \<times> nat) set \<Rightarrow> 'b nodeIPAM \<times> 'w \<Rightarrow> bool" where
  "NIX E x X s \<longleftrightarrow> node_env_ok E \<and>
     (\<forall>name p. glookup (ni_pools (fst s)) name = Some p \<longrightarrow>
        PI E name (held (fst s) name \<union> (if name = x then X else {})) (p, snd s)) \<and>
     (\<forall>k ai. glookup (ni_allocInfoMap (fst s)) k = Some ai \<longrightarrow> glookup (ni_pools (fst s)) (ai_Pool ai) \<noteq> None)"

definition NI :: "('b, 'w) node_env \<Rightarrow> 'b nodeIPAM \<times> 'w \<Rightarrow> bool" where
  "NI E s \<longleftrightarrow> NIX E [] {} s"

text \<open>No index is held twice.\<close>

definition no_sharing :: "'b nodeIPAM \<Rightarrow> bool" where
  "no_sharing n \<longleftrightarrow> (\<forall>k k' ai ai'. glookup (ni_allocInfoMap n) k = Some ai \<and> glookup (ni_allocInfoMap n) k' = Some ai' \<and>
     ai_Pool ai = ai_Pool ai' \<and> ai_BlockName ai = ai_BlockName ai' \<and> ai_Index ai = ai_Index ai' \<longrightarrow> k = k')"

lemma heldI: "glookup (ni_allocInfoMap n) k = Some ai \<Longrightarrow> (ai_BlockName ai, ai_Index ai) \<in> held n (ai_Pool ai)"
  by (auto simp: held_def)

lemma held_upd [simp]:
  "held (n\<lparr>ni_pools := ps\<rparr>) = held n" "held (n\<lparr>ni_node := nd\<rparr>) = held n"
  by (simp_all add: held_def fun_eq_iff)

lemma PI_mono: "PI E name H s \<Longrightarrow> H' \<subseteq> H \<Longrightarrow> PI E name H' s"
  by (auto simp: PI_def)

lemma NIX_NI: "NIX E x X s \<Longrightarrow> NI E s"
  unfolding NI_def NIX_def by (auto elim!: PI_mono)

lemma NI_NIX: "NI E s \<Longrightarrow> NIX E x {} s"
  unfolding NI_def NIX_def by simp

lemma NIX_world: "NIX E x X (n, w) \<Longrightarrow> NIX E x X (n, w')"
  by (simp add: NIX_def PI_def)

lemma NIX_node: "NIX E x X (n, w) \<Longrightarrow> NIX E x X (n\<lparr>ni_node := nd\<rparr>, w')"
  by (simp add: NIX_def PI_def)

text \<open>Calls that reach only the world.\<close>

lemma keeps_world: "(\<And>n w w'. I (n, w) \<Longrightarrow> I (n, w')) \<Longrightarrow> keeps I (liftW f)"
  by (auto simp: keeps_def liftW_def split: prod.splits)

lemma sync_keeps: "(\<And>n w w'. I (n, w) \<Longrightarrow> I (n, w')) \<Longrightarrow> keeps I (sync E)"
  unfolding sync_def by (intro keeps_intros keeps_world) auto

lemma sync_memory: "sync E (n, w) = (r, (n', w')) \<Longrightarrow> n' = n"
  using keepsD [OF sync_keeps [of "\<lambda>s. fst s = n"], of "(n, w)"] by auto

lemma getNode_keeps:
  assumes "\<And>n w w'. I (n, w) \<Longrightarrow> I (n, w')" and "\<And>n w nd. I (n, w) \<Longrightarrow> I (n\<lparr>ni_node := Some nd\<rparr>, w)"
  shows "keeps I (getNode E)"
  unfolding getNode_def by (intro keeps_intros keeps_world keeps_modifyA) (use assms in auto)

lemma new_nodePool_PI:
  assumes "node_env_ok E"
  shows "PI E name {} (\<lparr>np_poolName = name, np_nodeName = x, np_node = nd, np_blockAlloc = []\<rparr>, w)"
  using assms by (simp add: PI_def np_inv_def live_def)

lemma NI_add_pool:
  assumes "NI E (n, w)" and "glookup (ni_pools n) name = None" and "PI E name {} (p, w')"
  shows "NI E (n\<lparr>ni_pools := gupdate name p (ni_pools n)\<rparr>, w')"
proof -
  have "ai_Pool ai \<noteq> name" if "glookup (ni_allocInfoMap n) k = Some ai" for k ai
    using assms(1,2) that unfolding NI_def NIX_def fst_conv by metis
  then have "held n name = {}" by (auto simp: held_def)
  then show ?thesis using assms by (auto simp: NI_def NIX_def PI_def split: if_splits)
qed

text \<open>\<open>getPool\<close> keeps the invariant and the map of containers, and the pool is there when it returns.\<close>

lemma ni_getPool_outcome:
  assumes "NI E s"
  shows "outcome (ni_getPool E name)
    (\<lambda>_ s'. NI E s' \<and> ni_allocInfoMap (fst s') = ni_allocInfoMap (fst s) \<and> glookup (ni_pools (fst s')) name \<noteq> None)
    (\<lambda>_. NI E) (NI E) s"
proof -
  let ?I = "\<lambda>s'. NI E s' \<and> ni_allocInfoMap (fst s') = ni_allocInfoMap (fst s)"
  have node: "keeps ?I (getNode E)"
    by (rule getNode_keeps) (auto simp: NI_def intro: NIX_world NIX_node)
  show ?thesis
    unfolding ni_getPool_def wp_simps
  proof (rule outcome_mono [OF outcome_keeps [OF node]])
    fix nd s' assume s': "?I s'"
    obtain n w where nw: "s' = (n, w)" by (cases s')
    let ?p0 = "\<lparr>np_poolName = name, np_nodeName = ni_nodeName n, np_node = nd, np_blockAlloc = []\<rparr>"
    obtain r p w' where y: "syncBlock E (?p0, w) = (r, (p, w'))" by (metis prod_cases3)
    have "node_env_ok E" using s' nw by (simp add: NI_def NIX_def)
    then have "PI E name {} (p, w')"
      using syncBlock_outcome [OF new_nodePool_PI, of E name "ni_nodeName n" nd w] y by (simp add: outcome_def split: res.splits)
    then show "outcome (\<lambda>(n, w). case glookup (ni_pools n) name of
        Some p \<Rightarrow> (Ok (), (n, w))
      | None \<Rightarrow> (case syncBlock E (\<lparr>np_poolName = name, np_nodeName = ni_nodeName n, np_node = nd, np_blockAlloc = []\<rparr>, w) of
            (Ok _, (p, w')) \<Rightarrow> (Ok (), (n\<lparr>ni_pools := gupdate name p (ni_pools n)\<rparr>, w'))
          | (Err e, (_, w')) \<Rightarrow> (Err e, (n, w'))
          | (Panic q, (_, w')) \<Rightarrow> (Panic q, (n, w'))))
      (\<lambda>_ s'. NI E s' \<and> ni_allocInfoMap (fst s') = ni_allocInfoMap (fst s) \<and> glookup (ni_pools (fst s')) name \<noteq> None)
      (\<lambda>_. NI E) (NI E) s'"
      using s' nw y NI_add_pool [of E n w name p w'] NIX_world [of E "[]" "{}" n w w']
      by (auto simp: outcome_def NI_def split: option.splits res.splits)
  qed (use assms in auto)
qed

lemma NIX_pool:
  assumes "NIX E x X s" and "glookup (ni_pools (fst s)) name = Some p"
  shows "PI E name (held (fst s) name \<union> (if name = x then X else {})) (p, snd s)"
proof -
  have "\<forall>name p. glookup (ni_pools (fst s)) name = Some p \<longrightarrow>
        PI E name (held (fst s) name \<union> (if name = x then X else {})) (p, snd s)"
    using assms(1) unfolding NIX_def by (elim conjE)
  with assms(2) show ?thesis by blast
qed

lemma NI_pool: "NI E (n, w) \<Longrightarrow> glookup (ni_pools n) name = Some p \<Longrightarrow> PI E name (held n name) (p, w)"
  by (simp add: NI_def NIX_def)

lemma NIX_pool_update:
  assumes "NI E (n, w)" and "PI E name (held n name \<union> X) (p', w')"
  shows "NIX E name X (n\<lparr>ni_pools := gupdate name p' (ni_pools n)\<rparr>, w')"
  using assms by (auto simp: NI_def NIX_def PI_def)

text \<open>A method of a pool that keeps the invariant of the pool keeps that of the IPAM.\<close>

lemma ni_on_pool_outcome:
  assumes "NI E s" and "glookup (ni_pools (fst s)) name \<noteq> None"
    and "\<And>p. outcome m (\<lambda>x s'. PI E name (held (fst s) name \<union> X x) s' \<and> Q x (fst s'))
      (\<lambda>_. PI E name (held (fst s) name)) (PI E name (held (fst s) name)) (p, snd s)
      \<or> \<not> PI E name (held (fst s) name) (p, snd s)"
  shows "outcome (ni_on_pool name m)
    (\<lambda>x s'. NIX E name (X x) s' \<and> ni_allocInfoMap (fst s') = ni_allocInfoMap (fst s) \<and>
       (\<exists>p. glookup (ni_pools (fst s')) name = Some p \<and> Q x p))
    (\<lambda>_. NI E) (NI E) s"
proof -
  obtain n w where s: "s = (n, w)" by (cases s)
  obtain p where p: "glookup (ni_pools n) name = Some p" using assms(2) s by auto
  have o: "outcome m (\<lambda>x s'. PI E name (held n name \<union> X x) s' \<and> Q x (fst s'))
      (\<lambda>_. PI E name (held n name)) (PI E name (held n name)) (p, w)"
    using assms(3) [of p] NI_pool [OF _ p, of E w] assms(1) s by auto
  obtain r p' w' where run: "m (p, w) = (r, (p', w'))" by (metis prod_cases3)
  have upd: "NIX E name Y (n\<lparr>ni_pools := gupdate name p' (ni_pools n)\<rparr>, w')"
    if "PI E name (held n name \<union> Y) (p', w')" for Y
    using NIX_pool_update [OF _ that] assms(1) s by blast
  have err: "NI E (n\<lparr>ni_pools := gupdate name p' (ni_pools n)\<rparr>, w')" if "PI E name (held n name) (p', w')"
    using upd [of "{}"] that NIX_NI by fastforce
  show ?thesis using o p run upd err by (auto simp: outcome_def ni_on_pool_def s split: res.splits)
qed

lemma NI_store:
  assumes "NIX E name {(ai_BlockName ai, ai_Index ai)} (n, w)" and "ai_Pool ai = name"
    and "glookup (ni_pools n) name \<noteq> None"
  shows "NI E (n\<lparr>ni_allocInfoMap := gupdate k ai (ni_allocInfoMap n)\<rparr>, w)"
proof -
  have "held (n\<lparr>ni_allocInfoMap := gupdate k ai (ni_allocInfoMap n)\<rparr>) nm \<subseteq>
      held n nm \<union> (if nm = name then {(ai_BlockName ai, ai_Index ai)} else {})" for nm
    using assms(2) by (auto simp: held_def split: if_splits)
  moreover have "PI E nm (held n nm \<union> (if nm = name then {(ai_BlockName ai, ai_Index ai)} else {})) (p, w)"
    if "glookup (ni_pools n) nm = Some p" for nm p
    using assms(1) that unfolding NIX_def by simp
  ultimately have "PI E nm (held (n\<lparr>ni_allocInfoMap := gupdate k ai (ni_allocInfoMap n)\<rparr>) nm) (p, w)"
    if "glookup (ni_pools n) nm = Some p" for nm p
    using that PI_mono by blast
  then show ?thesis using assms by (auto simp: NI_def NIX_def split: if_splits)
qed

lemma no_sharing_store:
  assumes "no_sharing n" and "(ai_BlockName ai, ai_Index ai) \<notin> held n (ai_Pool ai)"
  shows "no_sharing (n\<lparr>ni_allocInfoMap := gupdate k ai (ni_allocInfoMap n)\<rparr>)"
proof -
  have new: "\<not> (ai_Pool ai' = ai_Pool ai \<and> ai_BlockName ai' = ai_BlockName ai \<and> ai_Index ai' = ai_Index ai)"
    if "glookup (ni_allocInfoMap n) k' = Some ai'" for k' ai'
    using assms(2) heldI [OF that] by metis
  show ?thesis
    unfolding no_sharing_def
  proof (intro allI impI)
    fix k1 k2 ai1 ai2
    assume a: "glookup (ni_allocInfoMap (n\<lparr>ni_allocInfoMap := gupdate k ai (ni_allocInfoMap n)\<rparr>)) k1 = Some ai1 \<and>
      glookup (ni_allocInfoMap (n\<lparr>ni_allocInfoMap := gupdate k ai (ni_allocInfoMap n)\<rparr>)) k2 = Some ai2 \<and>
      ai_Pool ai1 = ai_Pool ai2 \<and> ai_BlockName ai1 = ai_BlockName ai2 \<and> ai_Index ai1 = ai_Index ai2"
    show "k1 = k2"
    proof (cases "k1 = k \<or> k2 = k")
      case True
      then show ?thesis using a new [of k1 ai1] new [of k2 ai2] by (auto split: if_splits)
    next
      case False
      then have "glookup (ni_allocInfoMap n) k1 = Some ai1" "glookup (ni_allocInfoMap n) k2 = Some ai2" using a by auto
      then show ?thesis using a assms(1) unfolding no_sharing_def by blast
    qed
  qed
qed

text \<open>The state after a container was given addresses.\<close>

definition gave :: "('b, 'w) node_env \<Rightarrow> string \<Rightarrow> string \<Rightarrow> 'b nodeIPAM \<Rightarrow> ip \<times> ip \<Rightarrow> 'b nodeIPAM \<Rightarrow> bool" where
  "gave E name key n0 v n \<longleftrightarrow> (\<exists>ai p a.
     ni_allocInfoMap n = gupdate key ai (ni_allocInfoMap n0) \<and> v = (ai_IPv4 ai, ai_IPv6 ai) \<and> ai_Pool ai = name \<and>
     (ai_BlockName ai, ai_Index ai) \<notin> held n0 name \<and>
     glookup (ni_pools n) name = Some p \<and> glookup (np_blockAlloc p) (ai_BlockName ai) = Some a \<and>
     ai_Index ai \<in> used (ne_bitset E) a \<and>
     v = (addr_at (ne_netutil E) (al_ipv4 a) (ai_Index ai), addr_at (ne_netutil E) (al_ipv6 a) (ai_Index ai)))"

lemma Allocate_hit:
  "glookup (ni_allocInfoMap n) (allocKey c i) = Some ai \<Longrightarrow> Allocate E pool c i (n, w) = (Ok (ai_IPv4 ai, ai_IPv6 ai), (n, w))"
  by (simp add: Allocate_def act_defs)

lemma no_sharing_cong: "ni_allocInfoMap n = ni_allocInfoMap n0 \<Longrightarrow> no_sharing n \<longleftrightarrow> no_sharing n0"
  by (simp add: no_sharing_def)

lemma held_cong: "ni_allocInfoMap n = ni_allocInfoMap n0 \<Longrightarrow> held n = held n0"
  by (simp add: held_def fun_eq_iff)

text \<open>The last two steps of \<open>Allocate\<close>: routes, then the map.\<close>

lemma store_outcome:
  assumes "NIX E pool {(ai_BlockName ai, ai_Index ai)} s" and "grants E pool (held n0 pool) ai p"
    and "ni_allocInfoMap (fst s) = ni_allocInfoMap n0" and "glookup (ni_pools (fst s)) pool = Some p" and "no_sharing n0"
  shows "outcome (bindA (if toSync then sync E else returnA ()) (\<lambda>_.
      bindA (modifyA (\<lambda>(n, w). (n\<lparr>ni_allocInfoMap := gupdate key ai (ni_allocInfoMap n)\<rparr>, w))) (\<lambda>_.
      returnA (ai_IPv4 ai, ai_IPv6 ai))))
    (\<lambda>v s'. NI E s' \<and> no_sharing (fst s') \<and> gave E pool key n0 v (fst s'))
    (\<lambda>_ s'. NI E s' \<and> ni_allocInfoMap (fst s') = ni_allocInfoMap n0)
    (\<lambda>s'. NI E s' \<and> ni_allocInfoMap (fst s') = ni_allocInfoMap n0) s"
proof -
  obtain n w where s: "s = (n, w)" by (cases s)
  have hd: "held n = held n0" using held_cong [of n n0] assms(3) s by simp
  have pl: "ai_Pool ai = pool" and fresh: "(ai_BlockName ai, ai_Index ai) \<notin> held n pool"
    using assms(2) hd by (auto simp: grants_def)
  have sh: "no_sharing n" using no_sharing_cong [of n n0] assms(3,5) s by simp
  have NIs: "NI E (n, w')" for w' by (rule NIX_NI [OF NIX_world]) (rule assms(1) [unfolded s])
  have st: "NI E (n\<lparr>ni_allocInfoMap := gupdate key ai (ni_allocInfoMap n)\<rparr>, w')" for w'
    using NI_store [OF NIX_world [OF assms(1) [unfolded s]] pl] assms(4) s by simp
  have live: "\<exists>a. glookup (np_blockAlloc p) (ai_BlockName ai) = Some a \<and> ai_Index ai \<in> used (ne_bitset E) a \<and>
      ai_IPv4 ai = addr_at (ne_netutil E) (al_ipv4 a) (ai_Index ai) \<and> ai_IPv6 ai = addr_at (ne_netutil E) (al_ipv6 a) (ai_Index ai)"
  proof -
    have "PI E pool (held (fst s) pool \<union> {(ai_BlockName ai, ai_Index ai)}) (p, snd s)"
      using NIX_pool [OF assms(1,4)] by simp
    then have "(ai_BlockName ai, ai_Index ai) \<in> live E p" by (simp add: PI_def)
    then show ?thesis using assms(2) by (auto simp: live_def grants_def)
  qed
  have gv: "gave E pool key n0 (ai_IPv4 ai, ai_IPv6 ai) (n\<lparr>ni_allocInfoMap := gupdate key ai (ni_allocInfoMap n)\<rparr>)"
    unfolding gave_def using live pl fresh hd assms(3,4) s by auto
  have ns: "no_sharing (n\<lparr>ni_allocInfoMap := gupdate key ai (ni_allocInfoMap n)\<rparr>)"
    using no_sharing_store [OF sh] fresh pl by simp
  have sy: "outcome (if toSync then sync E else returnA ()) (\<lambda>_ s'. fst s' = n) (\<lambda>_ s'. fst s' = n) (\<lambda>s'. fst s' = n) (n, w)"
    by (cases toSync) (auto simp: wp_simps intro!: outcome_keeps sync_keeps)
  show ?thesis
    unfolding s wp_simps
    by (rule outcome_mono [OF sy]) (use st gv ns NIs assms(3) s in \<open>auto simp: prod_eq_iff\<close>)
qed

lemma Allocate_outcome:
  assumes "NI E s" and "no_sharing (fst s)" and "glookup (ni_allocInfoMap (fst s)) (allocKey c i) = None"
  shows "outcome (Allocate E pool c i)
    (\<lambda>v s'. NI E s' \<and> no_sharing (fst s') \<and> gave E pool (allocKey c i) (fst s) v (fst s'))
    (\<lambda>_ s'. NI E s') (NI E) s"
proof -
  have get: "outcome (ni_getPool E pool)
      (\<lambda>_ s'. NI E s' \<and> ni_allocInfoMap (fst s') = ni_allocInfoMap (fst s) \<and> glookup (ni_pools (fst s')) pool \<noteq> None)
      (\<lambda>_. NI E) (NI E) s" by (rule ni_getPool_outcome [OF assms(1)])
  have al: "outcome (ni_on_pool pool (pool_allocate E))
      (\<lambda>x s'. NIX E pool {(ai_BlockName (fst x), ai_Index (fst x))} s' \<and> ni_allocInfoMap (fst s') = ni_allocInfoMap (fst s1) \<and>
         (\<exists>p. glookup (ni_pools (fst s')) pool = Some p \<and> grants E pool (held (fst s1) pool) (fst x) p))
      (\<lambda>_. NI E) (NI E) s1"
    if "NI E s1" "glookup (ni_pools (fst s1)) pool \<noteq> None" for s1
  proof (rule ni_on_pool_outcome [OF that], rule disjCI)
    fix p assume "\<not> \<not> PI E pool (held (fst s1) pool) (p, snd s1)"
    then have "PI E pool (held (fst s1) pool) (p, snd s1)" by simp
    from pool_allocate_outcome [OF this]
    show "outcome (pool_allocate E)
        (\<lambda>x s'. PI E pool (held (fst s1) pool \<union> {(ai_BlockName (fst x), ai_Index (fst x))}) s' \<and>
          grants E pool (held (fst s1) pool) (fst x) (fst s'))
        (\<lambda>_. PI E pool (held (fst s1) pool)) (PI E pool (held (fst s1) pool)) (p, snd s1)"
      by (rule outcome_mono) auto
  qed
  have "outcome (bindA (ni_getPool E pool) (\<lambda>_.
      bindA (ni_on_pool pool (pool_allocate E)) (\<lambda>(ai, toSync).
      bindA (if toSync then sync E else returnA ()) (\<lambda>_.
      bindA (modifyA (\<lambda>(n, w). (n\<lparr>ni_allocInfoMap := gupdate (allocKey c i) ai (ni_allocInfoMap n)\<rparr>, w))) (\<lambda>_.
      returnA (ai_IPv4 ai, ai_IPv6 ai))))))
    (\<lambda>v s'. NI E s' \<and> no_sharing (fst s') \<and> gave E pool (allocKey c i) (fst s) v (fst s')) (\<lambda>_. NI E) (NI E) s"
    unfolding outcome_bindA [of "ni_getPool E pool"]
  proof (rule outcome_mono [OF get])
    fix s1 assume s1: "NI E s1 \<and> ni_allocInfoMap (fst s1) = ni_allocInfoMap (fst s) \<and> glookup (ni_pools (fst s1)) pool \<noteq> None"
    show "outcome (bindA (ni_on_pool pool (pool_allocate E)) (\<lambda>(ai, toSync).
        bindA (if toSync then sync E else returnA ()) (\<lambda>_.
        bindA (modifyA (\<lambda>(n, w). (n\<lparr>ni_allocInfoMap := gupdate (allocKey c i) ai (ni_allocInfoMap n)\<rparr>, w))) (\<lambda>_.
        returnA (ai_IPv4 ai, ai_IPv6 ai)))))
      (\<lambda>v s'. NI E s' \<and> no_sharing (fst s') \<and> gave E pool (allocKey c i) (fst s) v (fst s')) (\<lambda>_. NI E) (NI E) s1"
      unfolding outcome_bindA [of "ni_on_pool pool (pool_allocate E)"]
    proof (rule outcome_mono [OF al])
      fix x :: "allocInfo \<times> bool" and s2
      assume s2: "NIX E pool {(ai_BlockName (fst x), ai_Index (fst x))} s2 \<and> ni_allocInfoMap (fst s2) = ni_allocInfoMap (fst s1) \<and>
         (\<exists>p. glookup (ni_pools (fst s2)) pool = Some p \<and> grants E pool (held (fst s1) pool) (fst x) p)"
      then obtain p where p: "glookup (ni_pools (fst s2)) pool = Some p" "grants E pool (held (fst s) pool) (fst x) p"
        using held_cong [of "fst s1" "fst s"] s1 by auto
      show "outcome (case x of (ai, toSync) \<Rightarrow> bindA (if toSync then sync E else returnA ()) (\<lambda>_.
          bindA (modifyA (\<lambda>(n, w). (n\<lparr>ni_allocInfoMap := gupdate (allocKey c i) ai (ni_allocInfoMap n)\<rparr>, w))) (\<lambda>_.
          returnA (ai_IPv4 ai, ai_IPv6 ai))))
        (\<lambda>v s'. NI E s' \<and> no_sharing (fst s') \<and> gave E pool (allocKey c i) (fst s) v (fst s')) (\<lambda>_. NI E) (NI E) s2"
      proof (cases x)
        case (Pair ai toSync)
        show ?thesis
          unfolding Pair prod.case
          by (rule outcome_mono [OF store_outcome [of E pool ai s2 "fst s" p]])
            (use s1 s2 p assms(2) Pair in auto)
      qed
    qed (use s1 in auto)
  qed auto
  then show ?thesis using assms(3) by (cases s) (simp add: Allocate_def outcome_def)
qed

lemma held_delete:
  assumes "no_sharing n" and "glookup (ni_allocInfoMap n) k = Some ai"
  shows "held (n\<lparr>ni_allocInfoMap := gdelete k (ni_allocInfoMap n)\<rparr>) name =
    (if name = ai_Pool ai then held n name - {(ai_BlockName ai, ai_Index ai)} else held n name)"
proof -
  have other: "k' = k" if "glookup (ni_allocInfoMap n) k' = Some ai'" "ai_Pool ai' = ai_Pool ai"
      "ai_BlockName ai' = ai_BlockName ai" "ai_Index ai' = ai_Index ai" for k' ai'
    using assms that unfolding no_sharing_def by blast
  have "x \<in> held (n\<lparr>ni_allocInfoMap := gdelete k (ni_allocInfoMap n)\<rparr>) name \<longleftrightarrow>
      x \<in> (if name = ai_Pool ai then held n name - {(ai_BlockName ai, ai_Index ai)} else held n name)" for x
  proof
    assume "x \<in> held (n\<lparr>ni_allocInfoMap := gdelete k (ni_allocInfoMap n)\<rparr>) name"
    then obtain k' ai' where k': "k' \<noteq> k" "glookup (ni_allocInfoMap n) k' = Some ai'" "ai_Pool ai' = name"
        "x = (ai_BlockName ai', ai_Index ai')"
      by (auto simp: held_def split: if_splits)
    then show "x \<in> (if name = ai_Pool ai then held n name - {(ai_BlockName ai, ai_Index ai)} else held n name)"
      using heldI [OF k'(2)] other [OF k'(2)] by auto
  next
    assume "x \<in> (if name = ai_Pool ai then held n name - {(ai_BlockName ai, ai_Index ai)} else held n name)"
    then obtain k' ai' where k': "glookup (ni_allocInfoMap n) k' = Some ai'" "ai_Pool ai' = name"
        "x = (ai_BlockName ai', ai_Index ai')" "name = ai_Pool ai \<longrightarrow> x \<noteq> (ai_BlockName ai, ai_Index ai)"
      by (auto simp: held_def split: if_splits)
    then have "k' \<noteq> k" using assms(2) by auto
    then have "glookup (ni_allocInfoMap (n\<lparr>ni_allocInfoMap := gdelete k (ni_allocInfoMap n)\<rparr>)) k' = Some ai'" using k'(1) by simp
    from heldI [OF this] show "x \<in> held (n\<lparr>ni_allocInfoMap := gdelete k (ni_allocInfoMap n)\<rparr>) name" using k'(2,3) by simp
  qed
  then show ?thesis by blast
qed

lemma no_sharing_delete: "no_sharing n \<Longrightarrow> no_sharing (n\<lparr>ni_allocInfoMap := gdelete k (ni_allocInfoMap n)\<rparr>)"
proof -
  assume ns: "no_sharing n"
  have sub: "glookup (ni_allocInfoMap n) k1 = Some ai"
    if "glookup (ni_allocInfoMap (n\<lparr>ni_allocInfoMap := gdelete k (ni_allocInfoMap n)\<rparr>)) k1 = Some ai" for k1 ai
    using that by (simp split: if_splits)
  show ?thesis using ns sub unfolding no_sharing_def by blast
qed

lemma NI_remove:
  assumes "NI E (n, w)" and "no_sharing n" and "glookup (ni_allocInfoMap n) k = Some ai"
    and "PI E (ai_Pool ai) (held n (ai_Pool ai) - {(ai_BlockName ai, ai_Index ai)}) (p', w')"
  shows "NI E (n\<lparr>ni_pools := gupdate (ai_Pool ai) p' (ni_pools n), ni_allocInfoMap := gdelete k (ni_allocInfoMap n)\<rparr>, w'')"
proof -
  let ?n = "n\<lparr>ni_pools := gupdate (ai_Pool ai) p' (ni_pools n), ni_allocInfoMap := gdelete k (ni_allocInfoMap n)\<rparr>"
  have hd: "held ?n name = (if name = ai_Pool ai then held n name - {(ai_BlockName ai, ai_Index ai)} else held n name)" for name
    using held_delete [OF assms(2,3), of name] held_cong [of ?n "n\<lparr>ni_allocInfoMap := gdelete k (ni_allocInfoMap n)\<rparr>"] by simp
  have "PI E name (held ?n name) (p, w'')" if "glookup (ni_pools ?n) name = Some p" for name p
    using that hd assms(4) NI_pool [OF assms(1), of name p] by (auto simp: PI_def split: if_splits)
  moreover have "glookup (ni_pools ?n) (ai_Pool ai') \<noteq> None" if "glookup (ni_allocInfoMap ?n) k' = Some ai'" for k' ai'
  proof -
    have "glookup (ni_allocInfoMap n) k' = Some ai'" using that by (auto split: if_splits)
    then have "glookup (ni_pools n) (ai_Pool ai') \<noteq> None" using assms(1) unfolding NI_def NIX_def fst_conv by blast
    then show ?thesis by simp
  qed
  ultimately show ?thesis using assms(1) unfolding NI_def NIX_def by simp
qed

lemma Free_outcome:
  assumes "NI E s" and "no_sharing (fst s)"
  shows "outcome (Free E c i)
    (\<lambda>_ s'. NI E s' \<and> no_sharing (fst s') \<and>
       ni_allocInfoMap (fst s') = (if glookup (ni_allocInfoMap (fst s)) (allocKey c i) = None then ni_allocInfoMap (fst s)
         else gdelete (allocKey c i) (ni_allocInfoMap (fst s))))
    (\<lambda>_ s'. ni_allocInfoMap (fst s') = ni_allocInfoMap (fst s)) (\<lambda>_. True) s"
proof -
  obtain n w where s: "s = (n, w)" by (cases s)
  show ?thesis
  proof (cases "glookup (ni_allocInfoMap n) (allocKey c i)")
    case None
    then show ?thesis using assms by (simp add: Free_def wp_simps s)
  next
    case (Some ai)
    let ?H = "held n (ai_Pool ai) - {(ai_BlockName ai, ai_Index ai)}"
    obtain p where p: "glookup (ni_pools n) (ai_Pool ai) = Some p"
      using assms(1) Some s unfolding NI_def NIX_def by fastforce
    obtain r p' w' where run: "pool_free E (ai_BlockName ai) (ai_Index ai) (p, w) = (r, (p', w'))" by (metis prod_cases3)
    have inv': "PI E (ai_Pool ai) ?H (p', w')"
      using pool_free_outcome [OF NI_pool [OF assms(1) [unfolded s] p], of "ai_BlockName ai" "ai_Index ai"] run
      by (simp add: outcome_def split: res.splits)
    define n1 where "n1 = n\<lparr>ni_pools := gupdate (ai_Pool ai) p' (ni_pools n)\<rparr>"
    have on: "ni_on_pool (ai_Pool ai) (pool_free E (ai_BlockName ai) (ai_Index ai)) (n, w) = (r, (n1, w'))"
      using p run by (simp add: ni_on_pool_def n1_def)
    have del: "NI E (n1\<lparr>ni_allocInfoMap := gdelete (allocKey c i) (ni_allocInfoMap n)\<rparr>, w'')" for w''
      using NI_remove [OF assms(1) [unfolded s] _ Some inv'] assms(2) s by (simp add: n1_def)
    have ns: "no_sharing (n1\<lparr>ni_allocInfoMap := gdelete (allocKey c i) (ni_allocInfoMap n)\<rparr>)"
      using no_sharing_delete [of n "allocKey c i"] assms(2) s
        no_sharing_cong [of "n1\<lparr>ni_allocInfoMap := gdelete (allocKey c i) (ni_allocInfoMap n)\<rparr>"
          "n\<lparr>ni_allocInfoMap := gdelete (allocKey c i) (ni_allocInfoMap n)\<rparr>"] by simp
    have sy: "outcome (if b then sync E else returnA ()) (\<lambda>_ s'. fst s' = n1) (\<lambda>_ s'. fst s' = n1) (\<lambda>s'. fst s' = n1) (n1, w')" for b
      by (cases b) (auto simp: wp_simps intro!: outcome_keeps sync_keeps)
    have m1: "ni_allocInfoMap n1 = ni_allocInfoMap n" by (simp add: n1_def)
    have tail: "outcome (bindA (if b then sync E else returnA ()) (\<lambda>_.
        modifyA (\<lambda>(n, w). (n\<lparr>ni_allocInfoMap := gdelete (allocKey c i) (ni_allocInfoMap n)\<rparr>, w))))
      (\<lambda>_ s'. NI E s' \<and> no_sharing (fst s') \<and> ni_allocInfoMap (fst s') = gdelete (allocKey c i) (ni_allocInfoMap n))
      (\<lambda>_ s'. ni_allocInfoMap (fst s') = ni_allocInfoMap n) (\<lambda>_. True) (n1, w')" for b
      unfolding wp_simps by (rule outcome_mono [OF sy]) (use del ns m1 in \<open>auto simp: prod_eq_iff\<close>)
    have "outcome (bindA (ni_on_pool (ai_Pool ai) (pool_free E (ai_BlockName ai) (ai_Index ai))) (\<lambda>toSync.
        bindA (if toSync then sync E else returnA ()) (\<lambda>_.
        modifyA (\<lambda>(n, w). (n\<lparr>ni_allocInfoMap := gdelete (allocKey c i) (ni_allocInfoMap n)\<rparr>, w)))))
      (\<lambda>_ s'. NI E s' \<and> no_sharing (fst s') \<and> ni_allocInfoMap (fst s') = gdelete (allocKey c i) (ni_allocInfoMap n))
      (\<lambda>_ s'. ni_allocInfoMap (fst s') = ni_allocInfoMap n) (\<lambda>_. True) (n, w)"
      unfolding outcome_bindA [of "ni_on_pool (ai_Pool ai) (pool_free E (ai_BlockName ai) (ai_Index ai))"]
    proof (rule outcome_call)
      fix r' s' assume "ni_on_pool (ai_Pool ai) (pool_free E (ai_BlockName ai) (ai_Index ai)) (n, w) = (r', s')"
      then have "r' = r" "s' = (n1, w')" using on by auto
      then show "case r' of Ok x \<Rightarrow> outcome (bindA (if x then sync E else returnA ()) (\<lambda>_.
          modifyA (\<lambda>(n, w). (n\<lparr>ni_allocInfoMap := gdelete (allocKey c i) (ni_allocInfoMap n)\<rparr>, w))))
          (\<lambda>_ s'. NI E s' \<and> no_sharing (fst s') \<and> ni_allocInfoMap (fst s') = gdelete (allocKey c i) (ni_allocInfoMap n))
          (\<lambda>_ s'. ni_allocInfoMap (fst s') = ni_allocInfoMap n) (\<lambda>_. True) s'
        | Err e \<Rightarrow> ni_allocInfoMap (fst s') = ni_allocInfoMap n | Panic q \<Rightarrow> True"
        using tail m1 by (cases r) simp_all
    qed
    then show ?thesis using Some by (simp add: Free_def outcome_def s)
  qed
qed

lemma Register_outcome:
  assumes "NI E s"
  shows "outcome (Register E pool c i ipv4 ipv6) (\<lambda>_. NI E) (\<lambda>_. NI E) (NI E) s"
proof -
  let ?X = "\<lambda>r. case r of None \<Rightarrow> {} | Some ai \<Rightarrow> {(ai_BlockName ai, ai_Index ai)}"
  let ?Q = "\<lambda>r (_ :: 'a nodePool). case r of None \<Rightarrow> True | Some ai \<Rightarrow> ai_Pool ai = pool"
  have reg: "outcome (ni_on_pool pool (pool_register E ipv4 ipv6))
      (\<lambda>x s'. NIX E pool (?X x) s' \<and> ni_allocInfoMap (fst s') = ni_allocInfoMap (fst s1) \<and>
         (\<exists>p. glookup (ni_pools (fst s')) pool = Some p \<and> ?Q x p))
      (\<lambda>_. NI E) (NI E) s1"
    if "NI E s1" "glookup (ni_pools (fst s1)) pool \<noteq> None" for s1
  proof (rule ni_on_pool_outcome [OF that], rule disjCI)
    fix p assume "\<not> \<not> PI E pool (held (fst s1) pool) (p, snd s1)"
    then have "PI E pool (held (fst s1) pool) (p, snd s1)" by simp
    from pool_register_outcome [OF this, of ipv4 ipv6]
    show "outcome (pool_register E ipv4 ipv6)
        (\<lambda>x s'. PI E pool (held (fst s1) pool \<union> ?X x) s' \<and> ?Q x (fst s'))
        (\<lambda>_. PI E pool (held (fst s1) pool)) (PI E pool (held (fst s1) pool)) (p, snd s1)"
      by (rule outcome_mono) (auto split: option.splits)
  qed
  show ?thesis
    unfolding Register_def outcome_bindA
  proof (rule outcome_mono [OF ni_getPool_outcome [OF assms, of pool]])
    fix s1 assume s1: "NI E s1 \<and> ni_allocInfoMap (fst s1) = ni_allocInfoMap (fst s) \<and> glookup (ni_pools (fst s1)) pool \<noteq> None"
    show "outcome (ni_on_pool pool (pool_register E ipv4 ipv6)) (\<lambda>x. outcome (case x of
         None \<Rightarrow> returnA ()
       | Some ai \<Rightarrow> modifyA (\<lambda>(n, w). (n\<lparr>ni_allocInfoMap := gupdate (allocKey c i) ai (ni_allocInfoMap n)\<rparr>, w)))
       (\<lambda>_. NI E) (\<lambda>_. NI E) (NI E)) (\<lambda>_. NI E) (NI E) s1"
    proof (rule outcome_mono [OF reg])
      fix x :: "allocInfo option" and s2
      assume "NIX E pool (?X x) s2 \<and> ni_allocInfoMap (fst s2) = ni_allocInfoMap (fst s1) \<and>
         (\<exists>p. glookup (ni_pools (fst s2)) pool = Some p \<and> ?Q x p)"
      then show "outcome (case x of None \<Rightarrow> returnA ()
         | Some ai \<Rightarrow> modifyA (\<lambda>(n, w). (n\<lparr>ni_allocInfoMap := gupdate (allocKey c i) ai (ni_allocInfoMap n)\<rparr>, w)))
         (\<lambda>_. NI E) (\<lambda>_. NI E) (NI E) s2"
        using NIX_NI [of E pool "{}" s2] NI_store [of E pool "the x" "fst s2" "snd s2" "allocKey c i"]
        by (cases x) (auto simp: wp_simps case_prod_unfold)
    qed (use s1 in auto)
  qed auto
qed

text \<open>The garbage collection at startup never takes a block away from a container.\<close>

lemma ni_on_pool_gc_keeps: "keeps (\<lambda>s. NI E s \<and> ni_allocInfoMap (fst s) = M) (ni_on_pool name (pool_gc E))"
proof (rule keepsI)
  fix s r s' assume s: "NI E s \<and> ni_allocInfoMap (fst s) = M" and run: "ni_on_pool name (pool_gc E) s = (r, s')"
  obtain n w where nw: "s = (n, w)" by (cases s)
  show "NI E s' \<and> ni_allocInfoMap (fst s') = M"
  proof (cases "glookup (ni_pools n) name")
    case (Some p)
    obtain q p' w' where g: "pool_gc E (p, w) = (q, (p', w'))" by (metis prod_cases3)
    have "PI E name (held n name \<union> {}) (p', w')"
      using pool_gc_outcome [OF NI_pool [OF _ Some, of E w]] s nw g by (simp add: outcome_def split: res.splits)
    then have "NI E (n\<lparr>ni_pools := gupdate name p' (ni_pools n)\<rparr>, w')"
      using NIX_pool_update [of E n w name "{}" p' w'] s nw NIX_NI by blast
    then show ?thesis using run Some g nw s by (auto simp: ni_on_pool_def)
  qed (use run s nw in \<open>auto simp: ni_on_pool_def\<close>)
qed

lemma ni_getPool_keeps: "keeps (\<lambda>s. NI E s \<and> ni_allocInfoMap (fst s) = M) (ni_getPool E name)"
proof -
  have node: "keeps (\<lambda>s. NI E s \<and> ni_allocInfoMap (fst s) = M) (getNode E)"
    by (rule getNode_keeps) (auto simp: NI_def intro: NIX_world NIX_node)
  show ?thesis
    unfolding ni_getPool_def
  proof (rule keeps_bindA [OF node], rule keepsI)
    fix nd s r s'
    assume s: "NI E s \<and> ni_allocInfoMap (fst s) = M"
      and run: "(case s of (n, w) \<Rightarrow> case glookup (ni_pools n) name of
         Some p \<Rightarrow> (Ok (), (n, w))
       | None \<Rightarrow> (case syncBlock E (\<lparr>np_poolName = name, np_nodeName = ni_nodeName n, np_node = nd, np_blockAlloc = []\<rparr>, w) of
             (Ok _, (p, w')) \<Rightarrow> (Ok (), (n\<lparr>ni_pools := gupdate name p (ni_pools n)\<rparr>, w'))
           | (Err e, (_, w')) \<Rightarrow> (Err e, (n, w'))
           | (Panic q, (_, w')) \<Rightarrow> (Panic q, (n, w')))) = (r, s')"
    obtain n w where nw: "s = (n, w)" by (cases s)
    have env: "node_env_ok E" using s by (simp add: NI_def NIX_def)
    obtain q p w' where y: "syncBlock E (\<lparr>np_poolName = name, np_nodeName = ni_nodeName n, np_node = nd, np_blockAlloc = []\<rparr>, w) = (q, (p, w'))"
      by (metis prod_cases3)
    have "PI E name {} (p, w')"
      using syncBlock_outcome [OF new_nodePool_PI [OF env], of name "ni_nodeName n" nd w] y by (simp add: outcome_def split: res.splits)
    then show "NI E s' \<and> ni_allocInfoMap (fst s') = M"
      using run s nw y NI_add_pool [of E n w name p w'] NIX_world [of E "[]" "{}" n w w']
      by (auto simp: NI_def split: option.splits res.splits)
  qed
qed

lemma GC_keeps: "keeps (\<lambda>s. NI E s \<and> ni_allocInfoMap (fst s) = M) (GC E)"
proof -
  have w: "NI E (n, w') \<and> ni_allocInfoMap (fst (n, w')) = M" if "NI E (n, w) \<and> ni_allocInfoMap (fst (n, w)) = M" for n w w'
    using that NIX_world unfolding NI_def by auto
  show ?thesis
    unfolding GC_def syncUnregisteredPool_def ni_gc_def Let_def
    by (intro keeps_intros keeps_world sync_keeps ni_on_pool_gc_keeps ni_getPool_keeps) (use w in auto)
qed

section \<open>Runs of the IPAM\<close>

lemma ni_on_pool_map: "keeps (\<lambda>s. ni_allocInfoMap (fst s) = M) (ni_on_pool name m)"
  by (rule keepsI) (auto simp: ni_on_pool_def split: prod.splits option.splits)

lemma ni_getPool_map: "keeps (\<lambda>s. ni_allocInfoMap (fst s) = M) (ni_getPool E name)"
  unfolding ni_getPool_def
proof (rule keeps_bindA)
  show "keeps (\<lambda>s. ni_allocInfoMap (fst s) = M) (getNode E)" by (rule getNode_keeps) auto
qed (rule keepsI, auto split: prod.splits option.splits res.splits)

text \<open>A failed \<open>Allocate\<close> leaves the map as it was.\<close>

lemma Allocate_error_map:
  assumes "Allocate E pool c i s = (r, s')" and "\<And>v. r \<noteq> Ok v"
  shows "ni_allocInfoMap (fst s') = ni_allocInfoMap (fst s)"
proof -
  let ?I = "\<lambda>s'. ni_allocInfoMap (fst s') = ni_allocInfoMap (fst s)"
  have tail: "outcome (bindA (if b then sync E else returnA ()) (\<lambda>_.
      bindA (modifyA (\<lambda>(n, w). (n\<lparr>ni_allocInfoMap := gupdate k ai (ni_allocInfoMap n)\<rparr>, w))) (\<lambda>_.
      returnA (ai_IPv4 ai, ai_IPv6 ai)))) (\<lambda>_ _. True) (\<lambda>_. ?I) ?I s2" if "?I s2" for b k ai s2
  proof -
    have "outcome (if b then sync E else returnA ()) (\<lambda>_. ?I) (\<lambda>_. ?I) ?I s2"
      using that by (cases b) (auto simp: wp_simps intro!: outcome_keeps sync_keeps)
    then show ?thesis unfolding wp_simps by (rule outcome_mono) auto
  qed
  have mid: "outcome (bindA (ni_on_pool pool (pool_allocate E)) (\<lambda>(ai, b).
      bindA (if b then sync E else returnA ()) (\<lambda>_.
      bindA (modifyA (\<lambda>(n, w). (n\<lparr>ni_allocInfoMap := gupdate k ai (ni_allocInfoMap n)\<rparr>, w))) (\<lambda>_.
      returnA (ai_IPv4 ai, ai_IPv6 ai))))) (\<lambda>_ _. True) (\<lambda>_. ?I) ?I s1" if "?I s1" for k s1
    unfolding outcome_bindA [of "ni_on_pool pool (pool_allocate E)"]
  proof (rule outcome_mono [OF outcome_keeps [OF ni_on_pool_map that]])
    fix x :: "allocInfo \<times> bool" and s2 :: "'a nodeIPAM \<times> 'b" assume "?I s2"
    then show "outcome (case x of (ai, b) \<Rightarrow> bindA (if b then sync E else returnA ()) (\<lambda>_.
        bindA (modifyA (\<lambda>(n, w). (n\<lparr>ni_allocInfoMap := gupdate k ai (ni_allocInfoMap n)\<rparr>, w))) (\<lambda>_.
        returnA (ai_IPv4 ai, ai_IPv6 ai)))) (\<lambda>_ _. True) (\<lambda>_. ?I) ?I s2"
      by (cases x) (simp only: prod.case tail)
  qed auto
  have "outcome (Allocate E pool c i) (\<lambda>_ _. True) (\<lambda>_. ?I) ?I s"
  proof (cases "glookup (ni_allocInfoMap (fst s)) (allocKey c i)")
    case None
    have "outcome (bindA (ni_getPool E pool) (\<lambda>_.
      bindA (ni_on_pool pool (pool_allocate E)) (\<lambda>(ai, b).
      bindA (if b then sync E else returnA ()) (\<lambda>_.
      bindA (modifyA (\<lambda>(n, w). (n\<lparr>ni_allocInfoMap := gupdate (allocKey c i) ai (ni_allocInfoMap n)\<rparr>, w))) (\<lambda>_.
      returnA (ai_IPv4 ai, ai_IPv6 ai)))))) (\<lambda>_ _. True) (\<lambda>_. ?I) ?I s"
      unfolding outcome_bindA [of "ni_getPool E pool"]
      by (rule outcome_mono [OF outcome_keeps [OF ni_getPool_map refl]]) (auto intro: mid)
    then show ?thesis using None by (cases s) (simp add: Allocate_def outcome_def)
  next
    case (Some ai)
    then show ?thesis by (cases s) (simp add: Allocate_def wp_simps)
  qed
  then show ?thesis using assms by (cases r) (auto simp: outcome_def)
qed

text \<open>The steps of a node after its startup: any allocation, however it ends, a release that
  succeeds, a garbage collection.\<close>

inductive ipam_step :: "('b, 'w) node_env \<Rightarrow> 'b nodeIPAM \<times> 'w \<Rightarrow> 'b nodeIPAM \<times> 'w \<Rightarrow> bool" for E where
  allocate_step: "Allocate E pool c i s = (r, s') \<Longrightarrow> ipam_step E s s'"
| free_step: "Free E c i s = (Ok (), s') \<Longrightarrow> ipam_step E s s'"
| gc_step: "GC E s = (r, s') \<Longrightarrow> ipam_step E s s'"

inductive_cases ipam_stepE: "ipam_step E s s'"

text \<open>The world may change between two steps.\<close>

definition ipam_inv :: "('b, 'w) node_env \<Rightarrow> 'b nodeIPAM \<times> 'w \<Rightarrow> bool" where
  "ipam_inv E s \<longleftrightarrow> NI E s \<and> no_sharing (fst s)"

lemma Allocate_ipam_inv:
  assumes "ipam_inv E s" and "Allocate E pool c i s = (r, s')"
  shows "ipam_inv E s'"
proof (cases "glookup (ni_allocInfoMap (fst s)) (allocKey c i)")
  case None
  note o = Allocate_outcome [OF _ _ None, of E pool] 
  show ?thesis
  proof (cases r)
    case (Ok v)
    then show ?thesis using o assms by (simp add: ipam_inv_def outcome_def)
  next
    case (Err e)
    then have "no_sharing (fst s')"
      using Allocate_error_map [OF assms(2)] no_sharing_cong [of "fst s'" "fst s"] assms(1) by (simp add: ipam_inv_def)
    then show ?thesis using Err o assms by (simp add: ipam_inv_def outcome_def)
  next
    case (Panic q)
    then have "no_sharing (fst s')"
      using Allocate_error_map [OF assms(2)] no_sharing_cong [of "fst s'" "fst s"] assms(1) by (simp add: ipam_inv_def)
    then show ?thesis using Panic o assms by (simp add: ipam_inv_def outcome_def)
  qed
next
  case (Some ai)
  then show ?thesis using Allocate_hit [of "fst s" c i ai E pool "snd s"] assms by simp
qed

interpretation ipam: inductive_invariant "ipam_step E" "ipam_inv E" for E :: "('b, 'w) node_env"
proof
  fix s s' assume inv: "ipam_inv E s" and step: "ipam_step E s s'"
  from step show "ipam_inv E s'"
  proof cases
    case (free_step c i)
    then show ?thesis using Free_outcome [of E s c i] inv by (simp add: ipam_inv_def outcome_def)
  next
    case (gc_step r)
    then show ?thesis
      using keepsD [OF GC_keeps _ gc_step, of "ni_allocInfoMap (fst s)"] inv no_sharing_cong [of "fst s'" "fst s"]
      by (simp add: ipam_inv_def)
  qed (rule Allocate_ipam_inv [OF inv])
qed

lemma NewNodeIPAM_inv: "node_env_ok E \<Longrightarrow> ipam_inv E (NewNodeIPAM nodeName, w)"
  by (simp add: ipam_inv_def NI_def NIX_def NewNodeIPAM_def no_sharing_def)

section \<open>A reference cluster\<close>

text \<open>Up to three blocks of one or two addresses for the node; a request is answered with the next
  block; deleting a block fails while the flag is set.\<close>

record ref_world =
  rw_blocks :: "nat list"
  rw_next :: nat
  rw_fail :: bool

definition ref_block :: "nat \<Rightarrow> AddressBlock" where
  "ref_block i = \<lparr>ab_meta = empty_meta\<lparr>om_Name := ''b'' @ itoa i, om_Labels := [(LabelPool, ''default''), (LabelNode, ''n1'')]\<rparr>,
     ab_Index = int i, ab_IPv4 = Some (if i = 0 then ''10.2.0.0/32'' else if i = 1 then ''10.2.0.2/31'' else ''10.2.0.4/31''),
     ab_IPv6 = None\<rparr>"

definition ref_request :: "string \<Rightarrow> BlockRequest" where
  "ref_request b = \<lparr>br_meta = empty_meta, br_Spec = \<lparr>brs_NodeName = ''n1'', brs_PoolName = ''default''\<rparr>,
     br_Status = \<lparr>brst_AddressBlockName = b, brst_Conditions =
       [\<lparr>brc_Type = BlockRequestComplete, brc_Status = ConditionTrue, brc_LastProbeTime = 0, brc_LastTransitionTime = 0,
         brc_Reason = [], brc_Message = []\<rparr>]\<rparr>\<rparr>"

definition ref_node_kube :: "ref_world node_kube" where
  "ref_node_kube = \<lparr>
     nk_ListAddressBlocks = (\<lambda>sel w. (Ok (map ref_block (rw_blocks w)), w)),
     nk_GetNode = (\<lambda>n w. (Ok \<lparr>node_meta = empty_meta\<lparr>om_Name := n\<rparr>, node_Addresses = [(NodeInternalIP, ''192.0.2.1'')]\<rparr>, w)),
     nk_GetAddressBlock = (\<lambda>n w. (Err (StatusError ReasonNotFound n), w)),
     nk_UpdateAddressBlock = (\<lambda>b w. (Ok (), w)),
     nk_DeleteAddressBlock = (\<lambda>n w. if rw_fail w then (Err (ErrorMsg ''timeout''), w)
        else (Ok (), w\<lparr>rw_blocks := filter (\<lambda>i. ''b'' @ itoa i \<noteq> n) (rw_blocks w)\<rparr>)),
     nk_DeleteBlockRequest = (\<lambda>n w. (Err (StatusError ReasonNotFound n), w)),
     nk_CreateBlockRequest = (\<lambda>r w. (Ok (), w)),
     nk_WaitRequest = (\<lambda>w. (Ok (ref_request (''b'' @ itoa (rw_next w))), w\<lparr>rw_blocks := rw_blocks w @ [rw_next w], rw_next := rw_next w + 1\<rparr>)),
     nk_RetryOnConflict = (\<lambda>f. f),
     nk_ExporterSync = None\<rparr>"

definition ref_node_env :: "(bool list, ref_world) node_env" where
  "ref_node_env = \<lparr>ne_bitset = list_bitset, ne_netutil = netutil_ref, ne_ctrlutil = ctrlutil_ref, ne_kube = ref_node_kube,
     ne_range = (\<lambda>ks. ks)\<rparr>"

definition ref_init :: "bool list nodeIPAM \<times> ref_world" where
  "ref_init = (NewNodeIPAM ''n1'', \<lparr>rw_blocks = [], rw_next = 0, rw_fail = False\<rparr>)"

lemma ref_block_wf: "block_wf (ref_block i)"
proof -
  have "cidr4 0 ''10.2.0.0/32''" "cidr4 1 ''10.2.0.2/31''" "cidr4 1 ''10.2.0.4/31''" by code_simp+
  then show ?thesis
    by (auto simp: block_wf_def ref_block_def intro: exI [of _ 0] exI [of _ 1])
qed

lemma ref_node_env_ok: "node_env_ok ref_node_env"
  by (auto simp: node_env_ok_def ref_node_env_def list_bitset_laws netutil_ref_laws lists_wf_def ref_node_kube_def ref_block_wf)

lemma ref_init_inv: "ipam_inv ref_node_env ref_init"
  unfolding ref_init_def by (rule NewNodeIPAM_inv [OF ref_node_env_ok])

definition ref_two :: "bool list nodeIPAM \<times> ref_world" where
  "ref_two = snd (Allocate ref_node_env ''default'' ''c2'' ''eth0'' (snd (Allocate ref_node_env ''default'' ''c1'' ''eth0'' ref_init)))"

lemma ref_two_map: "ni_allocInfoMap (fst ref_two) =
  [(''c1:eth0'', \<lparr>ai_IPv4 = [10, 2, 0, 0], ai_IPv6 = [], ai_Pool = ''default'', ai_BlockName = ''b0'', ai_Index = 0\<rparr>),
   (''c2:eth0'', \<lparr>ai_IPv4 = [10, 2, 0, 2], ai_IPv6 = [], ai_Pool = ''default'', ai_BlockName = ''b1'', ai_Index = 0\<rparr>)]"
  by code_simp

lemma ipam_step_Allocate: "ipam_step E s (snd (Allocate E pool c i s))"
  by (rule allocate_step) (rule prod.collapse [symmetric])

lemma ref_two_steps: "(ipam_step ref_node_env)\<^sup>*\<^sup>* ref_init ref_two"
  unfolding ref_two_def
  by (rule rtranclp_trans [OF r_into_rtranclp r_into_rtranclp]) (rule ipam_step_Allocate)+

section \<open>Properties\<close>

text \<open>
  C1. No address is given to two containers: in every state a node can reach by allocations
  (failed ones too), successful releases and garbage collections, with any API server that
  lists well-formed blocks and any map iteration order, two entries of the map for different
  containers never name the same index of the same block, and every entry's index is in use in
  its block.
\<close>

theorem no_address_shared:
  assumes "ipam_inv E s0" and "(ipam_step E)\<^sup>*\<^sup>* s0 s"
    and "glookup (ni_allocInfoMap (fst s)) k = Some ai" and "glookup (ni_allocInfoMap (fst s)) k' = Some ai'" and "k \<noteq> k'"
  shows "(ai_Pool ai, ai_BlockName ai, ai_Index ai) \<noteq> (ai_Pool ai', ai_BlockName ai', ai_Index ai') \<and>
    (\<exists>p a. glookup (ni_pools (fst s)) (ai_Pool ai) = Some p \<and> glookup (np_blockAlloc p) (ai_BlockName ai) = Some a \<and>
       ai_Index ai \<in> used (ne_bitset E) a)"
proof -
  have inv: "ipam_inv E s" by (rule ipam.reach_inv [OF assms(2,1)])
  have "glookup (ni_pools (fst s)) (ai_Pool ai) \<noteq> None"
    using inv assms(3) unfolding ipam_inv_def NI_def NIX_def by blast
  then obtain p where p: "glookup (ni_pools (fst s)) (ai_Pool ai) = Some p" by blast
  have "PI E (ai_Pool ai) (held (fst s) (ai_Pool ai)) (p, snd s)"
    using NI_pool [of E "fst s" "snd s", OF _ p] inv by (simp add: ipam_inv_def)
  then have "(ai_BlockName ai, ai_Index ai) \<in> live E p" using heldI [OF assms(3)] by (auto simp: PI_def)
  moreover have "\<not> (ai_Pool ai = ai_Pool ai' \<and> ai_BlockName ai = ai_BlockName ai' \<and> ai_Index ai = ai_Index ai')"
    using inv assms(3-5) unfolding ipam_inv_def no_sharing_def by blast
  ultimately show ?thesis using p by (auto simp: live_def)
qed

theorem no_address_shared_witness:
  "\<exists>ai ai'. (ipam_step ref_node_env)\<^sup>*\<^sup>* ref_init ref_two \<and>
    glookup (ni_allocInfoMap (fst ref_two)) ''c1:eth0'' = Some ai \<and> glookup (ni_allocInfoMap (fst ref_two)) ''c2:eth0'' = Some ai' \<and>
    (ai_Pool ai, ai_BlockName ai, ai_Index ai) \<noteq> (ai_Pool ai', ai_BlockName ai', ai_Index ai')"
proof -
  note steps = ref_two_steps
  obtain ai ai' where m: "glookup (ni_allocInfoMap (fst ref_two)) ''c1:eth0'' = Some ai"
      "glookup (ni_allocInfoMap (fst ref_two)) ''c2:eth0'' = Some ai'"
    unfolding ref_two_map by simp
  have "''c1:eth0'' \<noteq> ''c2:eth0''" by simp
  from no_address_shared [OF ref_init_inv steps m this] steps m show ?thesis by blast
qed

text \<open>
  C10. \<open>Allocate\<close> for a container without addresses, when it succeeds, gives it the addresses of an
  index of a block of the pool that no container held, marks the index, and stores the entry in
  the map, changing no other entry; calling it again returns the same addresses and changes
  nothing. When it fails, the map is as it was.
\<close>

theorem Allocate_gives_fresh:
  assumes "ipam_inv E s" and "glookup (ni_allocInfoMap (fst s)) (allocKey c i) = None"
    and "Allocate E pool c i s = (r, s')"
  shows "case r of
      Ok v \<Rightarrow> gave E pool (allocKey c i) (fst s) v (fst s') \<and> Allocate E pool' c i s' = (Ok v, s')
    | _ \<Rightarrow> ni_allocInfoMap (fst s') = ni_allocInfoMap (fst s)"
proof (cases r)
  case (Ok v)
  then have g: "gave E pool (allocKey c i) (fst s) v (fst s')"
    using Allocate_outcome [OF _ _ assms(2), of E pool] assms(1,3) by (simp add: ipam_inv_def outcome_def)
  then obtain ai where "glookup (ni_allocInfoMap (fst s')) (allocKey c i) = Some ai" "v = (ai_IPv4 ai, ai_IPv6 ai)"
    unfolding gave_def by force
  then have "Allocate E pool' c i s' = (Ok v, s')" using Allocate_hit [of "fst s'" c i ai E pool' "snd s'"] by simp
  with g Ok show ?thesis by simp
qed (use Allocate_error_map [OF assms(3)] in simp_all)

theorem Allocate_gives_fresh_witness:
  "\<exists>v s'. Allocate ref_node_env ''default'' ''c1'' ''eth0'' ref_init = (Ok v, s') \<and>
    gave ref_node_env ''default'' ''c1:eth0'' (fst ref_init) v (fst s') \<and> Allocate ref_node_env ''default'' ''c1'' ''eth0'' s' = (Ok v, s')"
proof -
  have ok: "fst (Allocate ref_node_env ''default'' ''c1'' ''eth0'' ref_init) = Ok ([10, 2, 0, 0], [])" by code_simp
  obtain s' where run: "Allocate ref_node_env ''default'' ''c1'' ''eth0'' ref_init = (Ok ([10, 2, 0, 0], []), s')"
    using ok by (metis prod.collapse)
  have none: "glookup (ni_allocInfoMap (fst ref_init)) (allocKey ''c1'' ''eth0'') = None"
    by (simp add: ref_init_def NewNodeIPAM_def)
  have "allocKey ''c1'' ''eth0'' = ''c1:eth0''" by (simp add: allocKey_def)
  then show ?thesis
    using Allocate_gives_fresh [OF ref_init_inv none run, of "''default''"] run by auto
qed

text \<open>
  C11. When \<open>Free\<close> succeeds, exactly the entry of its container is gone, the invariant holds, and
  freeing again does nothing.
\<close>

theorem Free_releases:
  assumes "ipam_inv E s" and "Free E c i s = (Ok (), s')"
  shows "ipam_inv E s' \<and>
    glookup (ni_allocInfoMap (fst s')) = (glookup (ni_allocInfoMap (fst s)))(allocKey c i := None) \<and>
    Free E c i s' = (Ok (), s')"
proof -
  have o: "NI E s' \<and> no_sharing (fst s') \<and>
       ni_allocInfoMap (fst s') = (if glookup (ni_allocInfoMap (fst s)) (allocKey c i) = None then ni_allocInfoMap (fst s)
         else gdelete (allocKey c i) (ni_allocInfoMap (fst s)))"
    using Free_outcome [of E s c i] assms by (simp add: ipam_inv_def outcome_def)
  then have m: "glookup (ni_allocInfoMap (fst s')) = (glookup (ni_allocInfoMap (fst s)))(allocKey c i := None)"
    by (auto simp: fun_eq_iff)
  then have "Free E c i s' = (Ok (), s')" by (cases s') (simp add: Free_def returnA_def)
  then show ?thesis unfolding ipam_inv_def using o m by blast
qed

theorem Free_releases_witness:
  "\<exists>s'. Free ref_node_env ''c1'' ''eth0'' ref_two = (Ok (), s') \<and> glookup (ni_allocInfoMap (fst s')) ''c1:eth0'' = None \<and>
    glookup (ni_allocInfoMap (fst s')) ''c2:eth0'' \<noteq> None"
proof -
  have inv: "ipam_inv ref_node_env ref_two" by (rule ipam.reach_inv [OF ref_two_steps ref_init_inv])
  have "fst (Free ref_node_env ''c1'' ''eth0'' ref_two) = Ok ()" by code_simp
  then obtain s' where run: "Free ref_node_env ''c1'' ''eth0'' ref_two = (Ok (), s')" by (metis prod.collapse)
  show ?thesis
    using Free_releases [OF inv run] run by (simp add: allocKey_def ref_two_map)
qed


end
