(* ===== verification/Routing.thy ===== *)
theory Routing
  imports Netlink Node_Ipam
begin

text \<open>
  The routes between nodes: \<open>pkg/nodenet/route_syncer.go\<close> and \<open>route_exporter.go\<close>, which make a routing
  table of the kernel equal to what they are given, and \<open>runners/router.go\<close>, which computes from the nodes and the
  AddressBlocks which subnets are reached through which node.
\<close>

section \<open>The program\<close>

subsection \<open>routeSyncer\<close>

record GatewayInfo =
  gi_Gateway :: ip
  gi_Networks :: "ipnet option list"

definition sync_key :: "ip \<Rightarrow> ipnet option \<Rightarrow> string" where
  "sync_key gw n = IP_String gw @ '' '' @ netp_String n"

definition sync_route :: "int \<Rightarrow> ip \<Rightarrow> ipnet option \<Rightarrow> route" where
  "sync_route protocolId gw n = new_route\<lparr>rt_Dst := n, rt_Gw := gw, rt_Scope := SCOPE_UNIVERSE, rt_Protocol := protocolId\<rparr>"

definition routeMap :: "int \<Rightarrow> GatewayInfo list \<Rightarrow> route gomap" where
  "routeMap protocolId gis = fold (\<lambda>gi m.
     fold (\<lambda>n. gupdate (sync_key (gi_Gateway gi) n) (sync_route protocolId (gi_Gateway gi) n)) (gi_Networks gi) m) gis []"

text \<open>The loop over the routes found in the kernel: it deletes the unwanted ones and returns the keys
  of the others, \<open>currentMap\<close>.\<close>

fun sync_current :: "'w netlink_ops \<Rightarrow> route gomap \<Rightarrow> route list \<Rightarrow> string list \<Rightarrow> ('w, string list) act" where
  "sync_current N rm [] currentMap = returnA currentMap"
| "sync_current N rm (r # rs) currentMap =
     (let key = sync_key (rt_Gw r) (rt_Dst r) in
      if glookup rm key = None
      then bindA (wrapA ''netlink: failed to delete route'' (nl_RouteDel N r)) (\<lambda>_. sync_current N rm rs currentMap)
      else sync_current N rm rs (key # currentMap))"

definition add_missing :: "'w netlink_ops \<Rightarrow> route gomap \<Rightarrow> string list \<Rightarrow> string \<Rightarrow> ('w, unit) act" where
  "add_missing N rm currentMap k = (case glookup rm k of
       None \<Rightarrow> returnA ()
     | Some v \<Rightarrow> if k \<notin> set currentMap then wrapA (''sync: netlink: failed to add route to '' @ k) (nl_RouteAdd N v) else returnA ())"

definition routeSyncer_Sync :: "'w netlink_ops \<Rightarrow> range_order \<Rightarrow> int \<Rightarrow> GatewayInfo list \<Rightarrow> ('w, unit) act" where
  "routeSyncer_Sync N rng protocolId gis =
     bindA (wrapA ''netlink: failed to list routes'' (nl_RouteListFiltered N FAMILY_ALL (FilterProtocol protocolId))) (\<lambda>routes.
     let rm = routeMap protocolId gis in
     bindA (sync_current N rm routes []) (\<lambda>currentMap.
     foreachA (add_missing N rm currentMap) (rng (gkeys rm))))"

subsection \<open>routeExporter\<close>

record 'w exporter_env =
  xe_NewHandle :: "('w, unit) act"
  xe_netlink :: "'w netlink_ops"

definition export_route :: "int \<Rightarrow> int \<Rightarrow> int \<Rightarrow> ipnet option \<Rightarrow> route" where
  "export_route tableId protocolId lo n = new_route\<lparr>rt_Scope := SCOPE_UNIVERSE, rt_Dst := n, rt_Table := tableId,
     rt_LinkIndex := lo, rt_Protocol := protocolId\<rparr>"

definition routeHash :: "route list \<Rightarrow> string list" where
  "routeHash routes = map (\<lambda>r. netp_String (rt_Dst r)) (filter (\<lambda>r. rt_Dst r \<noteq> None) routes)"

definition export_add :: "'w netlink_ops \<Rightarrow> int \<Rightarrow> int \<Rightarrow> int \<Rightarrow> string list \<Rightarrow> ipnet option \<Rightarrow> ('w, unit) act" where
  "export_add N tableId protocolId lo hash n =
     (if netp_String n \<in> set hash then returnA ()
      else wrapA (''exporter: netlink: failed to add route to '' @ netp_String n)
        (nl_RouteAdd N (export_route tableId protocolId lo n)))"

definition export_del :: "'w netlink_ops \<Rightarrow> string list \<Rightarrow> route \<Rightarrow> ('w, unit) act" where
  "export_del N netHash r =
     (if rt_Dst r = None then returnA ()
      else if netp_String (rt_Dst r) \<in> set netHash then returnA ()
      else wrapA (''netlink: failed to delete route to '' @ netp_String (rt_Dst r)) (nl_RouteDel N r))"

definition routeExporter_Sync :: "'w exporter_env \<Rightarrow> int \<Rightarrow> int \<Rightarrow> ipnet option list \<Rightarrow> ('w, unit) act" where
  "routeExporter_Sync X tableId protocolId nets =
     bindA (wrapA ''netlink: failed to open handle'' (xe_NewHandle X)) (\<lambda>_.
     let N = xe_netlink X in
     bindA (wrapA ''netlink: failed to get link lo'' (nl_LinkByName N ''lo'')) (\<lambda>lo.
     bindA (wrapA ''netlink: failed to list routes'' (nl_RouteListFiltered N FAMILY_ALL (FilterTable tableId))) (\<lambda>routes.
     bindA (foreachA (export_add N tableId protocolId (lk_Index lo) (routeHash routes)) nets) (\<lambda>_.
     foreachA (export_del N (map netp_String nets)) routes))))"

subsection \<open>router\<close>

record nodeIP =
  nip_IPv4 :: ip
  nip_IPv6 :: ip

text \<open>The addresses of a node are found by the loop that \<open>nodeIPAM.NodeInternalIP\<close> has too.\<close>

definition node_ip :: "Node \<Rightarrow> nodeIP" where
  "node_ip n = (case internal_ips (node_Addresses n) nil_ip nil_ip of (v4, v6) \<Rightarrow> \<lparr>nip_IPv4 = v4, nip_IPv6 = v6\<rparr>)"

definition nodeMap :: "string \<Rightarrow> Node list \<Rightarrow> nodeIP gomap" where
  "nodeMap self nodes = fold (\<lambda>n m. if om_Name (node_meta n) = self then m
     else gupdate (om_Name (node_meta n)) (node_ip n) m) nodes []"

definition add_gateway :: "ip \<Rightarrow> ipnet option \<Rightarrow> GatewayInfo gomap \<Rightarrow> GatewayInfo gomap" where
  "add_gateway gw n m = (let gwStr = IP_String gw in case glookup m gwStr of
       Some gi \<Rightarrow> gupdate gwStr (gi\<lparr>gi_Networks := gi_Networks gi @ [n]\<rparr>) m
     | None \<Rightarrow> gupdate gwStr \<lparr>gi_Gateway = gw, gi_Networks = [n]\<rparr> m)"

definition block_gateways :: "nodeIP gomap \<Rightarrow> AddressBlock \<Rightarrow> GatewayInfo gomap \<Rightarrow> GatewayInfo gomap" where
  "block_gateways nm b m = (case glookup nm (gget (om_Labels (ab_meta b)) LabelNode) of
       None \<Rightarrow> m
     | Some ips \<Rightarrow>
         let m = (case ab_IPv4 b of None \<Rightarrow> m
               | Some s \<Rightarrow> if nip_IPv4 ips = nil_ip then m else add_gateway (nip_IPv4 ips) (parse_net s) m)
         in case ab_IPv6 b of None \<Rightarrow> m
               | Some s \<Rightarrow> if nip_IPv6 ips = nil_ip then m else add_gateway (nip_IPv6 ips) (parse_net s) m)"

record 'w router_kube =
  rk_ListNodes :: "('w, Node list) act"
  rk_ListAddressBlocks :: "('w, AddressBlock list) act"

definition router_sync :: "'w router_kube \<Rightarrow> (GatewayInfo list \<Rightarrow> ('w, unit) act) \<Rightarrow> range_order \<Rightarrow> string \<Rightarrow> ('w, unit) act" where
  "router_sync K syncer rng nodeName =
     bindA (wrapA ''failed to list Nodes'' (rk_ListNodes K)) (\<lambda>nodes.
     let nm = nodeMap nodeName nodes in
     bindA (wrapA ''failed to list AddressBlocks'' (rk_ListAddressBlocks K)) (\<lambda>blocks.
     let gm = fold (block_gateways nm) blocks [] in
     syncer (List.map_filter (glookup gm) (rng (gkeys gm)))))"

text \<open>\<open>Start\<close>: one synchronisation for each notification or tick, until the context is done or one fails.\<close>

primrec router_Start :: "'w router_kube \<Rightarrow> (GatewayInfo list \<Rightarrow> ('w, unit) act) \<Rightarrow> range_order \<Rightarrow> string \<Rightarrow> nat \<Rightarrow> ('w, unit) act" where
  "router_Start K syncer rng nodeName 0 = returnA ()"
| "router_Start K syncer rng nodeName (Suc events) =
     bindA (router_sync K syncer rng nodeName) (\<lambda>_. router_Start K syncer rng nodeName events)"

section \<open>What routeSyncer does to the table\<close>

definition wanted_keys :: "GatewayInfo list \<Rightarrow> string set" where
  "wanted_keys gis = {sync_key (gi_Gateway gi) n | gi n. gi \<in> set gis \<and> n \<in> set (gi_Networks gi)}"

definition route_key :: "route \<Rightarrow> string" where
  "route_key r = sync_key (rt_Gw r) (rt_Dst r)"

definition keyed :: "int \<Rightarrow> route gomap \<Rightarrow> bool" where
  "keyed pid m \<longleftrightarrow> (\<forall>k v. glookup m k = Some v \<longrightarrow> route_key v = k \<and> rt_Protocol v = pid)"

lemma inner_fold:
  assumes "keyed pid m"
  shows "keyed pid (fold (\<lambda>n. gupdate (sync_key gw n) (sync_route pid gw n)) ns m) \<and>
    dom (glookup (fold (\<lambda>n. gupdate (sync_key gw n) (sync_route pid gw n)) ns m)) = dom (glookup m) \<union> sync_key gw ` set ns"
  using assms
proof (induction ns arbitrary: m)
  case (Cons n ns)
  have "keyed pid (gupdate (sync_key gw n) (sync_route pid gw n) m)"
    using Cons.prems by (simp add: keyed_def route_key_def sync_route_def)
  from Cons.IH [OF this] show ?case by (auto split: if_splits)
qed simp

lemma routeMap_fold:
  assumes "keyed pid m"
  shows "keyed pid (fold (\<lambda>gi m. fold (\<lambda>n. gupdate (sync_key (gi_Gateway gi) n) (sync_route pid (gi_Gateway gi) n)) (gi_Networks gi) m) gis m) \<and>
    dom (glookup (fold (\<lambda>gi m. fold (\<lambda>n. gupdate (sync_key (gi_Gateway gi) n) (sync_route pid (gi_Gateway gi) n)) (gi_Networks gi) m) gis m))
      = dom (glookup m) \<union> wanted_keys gis"
  using assms
proof (induction gis arbitrary: m)
  case (Cons gi gis)
  note f = inner_fold [OF Cons.prems, of "gi_Gateway gi" "gi_Networks gi"]
  show ?case using Cons.IH [OF conjunct1 [OF f]] f by (auto simp: wanted_keys_def)
qed (simp add: wanted_keys_def)

lemma routeMap_keys: "keyed pid (routeMap pid gis)" "dom (glookup (routeMap pid gis)) = wanted_keys gis"
  using routeMap_fold [of pid "[]" gis] by (simp_all add: routeMap_def keyed_def)

lemma sync_current_eq:
  "sync_current N rm rs cur w =
    bindA (foreachA (\<lambda>r. wrapA ''netlink: failed to delete route'' (nl_RouteDel N r)) (filter (\<lambda>r. glookup rm (route_key r) = None) rs))
      (\<lambda>_. returnA (rev (map route_key (filter (\<lambda>r. glookup rm (route_key r) \<noteq> None) rs)) @ cur)) w"
proof (induction rs arbitrary: cur w)
  case (Cons r rs)
  then show ?case
    by (auto simp: Let_def route_key_def [symmetric] bindA_def split: prod.splits res.splits)
qed simp

lemma add_missing_eq:
  assumes "dom (glookup rm) = set ks"
  shows "foreachA (add_missing N rm cur) ks =
    foreachA (\<lambda>k. wrapA (''sync: netlink: failed to add route to '' @ k) (nl_RouteAdd N (the (glookup rm k)))) (filter (\<lambda>k. k \<notin> set cur) ks)"
proof -
  have "add_missing N rm cur k = (if k \<notin> set cur then wrapA (''sync: netlink: failed to add route to '' @ k) (nl_RouteAdd N (the (glookup rm k)))
      else returnA ())" if "k \<in> set ks" for k
    using that assms by (auto simp: add_missing_def split: option.splits)
  then have "foreachA (add_missing N rm cur) ks = foreachA (\<lambda>k. if k \<notin> set cur
      then wrapA (''sync: netlink: failed to add route to '' @ k) (nl_RouteAdd N (the (glookup rm k))) else returnA ()) ks"
    by (rule foreachA_cong)
  then show ?thesis by (simp only: foreachA_filter)
qed

text \<open>The routes of the protocol end up with exactly the wanted keys; other routes are not touched,
  even by a synchronisation that fails.\<close>

lemma routeSyncer_steps:
  assumes "route_laws rts N" and "go_range rng"
    and "nl_RouteListFiltered N FAMILY_ALL (FilterProtocol pid) w = (Ok rs, w1)"
    and "routeSyncer_Sync N rng pid gis w = (r, w')"
  shows "(\<forall>x. rt_Protocol x \<noteq> pid \<longrightarrow> x \<in> rts w' \<longleftrightarrow> x \<in> rts w) \<and>
    (r = Ok () \<longrightarrow> route_key ` {x \<in> rts w'. rt_Protocol x = pid} = wanted_keys gis)"
proof -
  let ?rm = "routeMap pid gis"
  let ?dels = "filter (\<lambda>r. glookup ?rm (route_key r) = None) rs"
  let ?cur = "rev (map route_key (filter (\<lambda>r. glookup ?rm (route_key r) \<noteq> None) rs))"
  have rs: "set rs = {x \<in> rts w. rt_Protocol x = pid}" and w1: "rts w1 = rts w"
    using route_list [OF assms(1,3)] by (auto simp: in_family_def)
  have ks: "dom (glookup ?rm) = set (rng (gkeys ?rm))" using assms(2) by simp
  then have W: "wanted_keys gis = set (rng (gkeys ?rm))" using routeMap_keys(2) [of pid gis] by simp
  have dels: "set ?dels = {x \<in> rts w. rt_Protocol x = pid \<and> route_key x \<notin> wanted_keys gis}"
    using rs routeMap_keys(2) [of pid gis] by auto
  obtain q w2 where d: "foreachA (\<lambda>r. wrapA ''netlink: failed to delete route'' (nl_RouteDel N r)) ?dels w1 = (q, w2)" by (metis prod.collapse)
  note del = dels_spec [OF assms(1) d]
  show ?thesis
  proof (cases "q = Ok ()")
    case False
    then have "r \<noteq> Ok ()" "w' = w2"
      using assms(3,4) d by (auto simp: routeSyncer_Sync_def Let_def sync_current_eq bindA_def wrapA_def split: res.splits)
    then show ?thesis using del w1 dels by auto
  next
    case True
    then have "foreachA (add_missing N ?rm ?cur) (rng (gkeys ?rm)) w2 = (r, w')"
      using assms(3,4) d by (simp add: routeSyncer_Sync_def Let_def sync_current_eq bindA_def wrapA_def returnA_def)
    note add = adds_spec [OF assms(1) this [unfolded add_missing_eq [OF ks]]]
    have w2: "rts w2 = rts w - {x \<in> rts w. rt_Protocol x = pid \<and> route_key x \<notin> wanted_keys gis}" using del True w1 dels by simp
    have inst: "route_key x = k \<and> rt_Protocol x = pid" if i: "installs (the (glookup ?rm k)) x" and k: "k \<in> wanted_keys gis" for x k
    proof -
      obtain v where "glookup ?rm k = Some v" using k ks W by blast
      then show ?thesis using i routeMap_keys(1) [of pid gis] by (auto simp: keyed_def installs_def route_key_def)
    qed
    have cur: "set ?cur \<subseteq> route_key ` {x \<in> rts w. rt_Protocol x = pid}" using rs by auto
    have new: "x \<in> rts w2 \<or> (\<exists>k \<in> wanted_keys gis. installs (the (glookup ?rm k)) x)" if "x \<in> rts w'" for x
      using add that W by auto
    have "\<exists>x \<in> rts w'. installs (the (glookup ?rm k)) x" if "r = Ok ()" "k \<in> wanted_keys gis" "k \<notin> route_key ` {x \<in> rts w. rt_Protocol x = pid}" for k
    proof -
      have "k \<notin> set ?cur" using that(3) cur by blast
      then have "k \<in> set (filter (\<lambda>k. k \<notin> set ?cur) (rng (gkeys ?rm)))" using that(2) W by simp
      then show ?thesis using add that(1) by blast
    qed
    note exact = synced_sets(1) [where P = "\<lambda>x. rt_Protocol x = pid" and inst = "\<lambda>k x. installs (the (glookup ?rm k)) x",
        OF conjunct1 [OF add, unfolded w2] new [unfolded w2] this inst]
    have "x \<in> rts w' \<longleftrightarrow> x \<in> rts w" if "rt_Protocol x \<noteq> pid" for x
      using add w2 inst W that by auto
    with exact show ?thesis by blast
  qed
qed

lemma routeSyncer_list_fails:
  assumes "nl_RouteListFiltered N FAMILY_ALL (FilterProtocol pid) w = (q, w1)" and "\<And>rs. q \<noteq> Ok rs"
  shows "routeSyncer_Sync N rng pid gis w \<noteq> (Ok (), w') \<and> snd (routeSyncer_Sync N rng pid gis w) = w1"
  using assms by (cases q) (auto simp: routeSyncer_Sync_def bindA_def wrapA_def)

text \<open>The contract of a route syncer: routes of other protocols stay, and a synchronisation that succeeds
  leaves exactly the wanted routes of its own protocol. \<open>ok\<close> stands for what it needs of the kernel.\<close>

locale route_syncer =
  fixes ok :: bool
    and rts :: "'w \<Rightarrow> route set"
    and pid :: int
    and syncer :: "GatewayInfo list \<Rightarrow> ('w, unit) act"
  assumes sync_frame: "ok \<Longrightarrow> syncer gis w = (r, w') \<Longrightarrow> rt_Protocol x \<noteq> pid \<Longrightarrow> x \<in> rts w' \<longleftrightarrow> x \<in> rts w"
    and sync_exact: "ok \<Longrightarrow> syncer gis w = (Ok (), w') \<Longrightarrow> route_key ` {x \<in> rts w'. rt_Protocol x = pid} = wanted_keys gis"
begin

lemma router_exact:
  assumes ok and "rk_ListNodes K w = (Ok nodes, w1)" and "rk_ListAddressBlocks K w1 = (Ok blocks, w2)"
    and "router_sync K syncer rng self w = (Ok (), w')"
  shows "route_key ` {x \<in> rts w'. rt_Protocol x = pid} =
    wanted_keys (List.map_filter (glookup (fold (block_gateways (nodeMap self nodes)) blocks []))
      (rng (gkeys (fold (block_gateways (nodeMap self nodes)) blocks []))))"
  using assms(2-4) sync_exact [OF assms(1)] by (simp add: router_sync_def bindA_def wrapA_def Let_def)

end

interpretation rsync: route_syncer "route_laws rts N \<and> go_range rng" rts pid "routeSyncer_Sync N rng pid"
  for rts :: "'w \<Rightarrow> route set" and N rng pid
proof
  fix gis w r w' and x :: route
  assume ok: "route_laws rts N \<and> go_range rng" and run: "routeSyncer_Sync N rng pid gis w = (r, w')" and x: "rt_Protocol x \<noteq> pid"
  obtain q w1 where l: "nl_RouteListFiltered N FAMILY_ALL (FilterProtocol pid) w = (q, w1)" by (metis prod.collapse)
  show "x \<in> rts w' \<longleftrightarrow> x \<in> rts w"
  proof (cases "\<exists>rs. q = Ok rs")
    case True
    then show ?thesis using routeSyncer_steps [OF conjunct1 [OF ok] conjunct2 [OF ok] _ run] l x by blast
  next
    case False
    then show ?thesis using routeSyncer_list_fails [OF l] run route_list(1) [OF conjunct1 [OF ok] l] by (metis snd_conv)
  qed
next
  fix gis w w'
  assume ok: "route_laws rts N \<and> go_range rng" and run: "routeSyncer_Sync N rng pid gis w = (Ok (), w')"
  obtain q w1 where l: "nl_RouteListFiltered N FAMILY_ALL (FilterProtocol pid) w = (q, w1)" by (metis prod.collapse)
  then have "\<exists>rs. q = Ok rs" using routeSyncer_list_fails [OF l] run by metis
  then show "route_key ` {x \<in> rts w'. rt_Protocol x = pid} = wanted_keys gis"
    using routeSyncer_steps [OF conjunct1 [OF ok] conjunct2 [OF ok] _ run] l by blast
qed

section \<open>The gateways the router computes\<close>

definition gateway_keys :: "GatewayInfo gomap \<Rightarrow> string set" where
  "gateway_keys m = wanted_keys (List.map_filter (glookup m) (gkeys m))"

definition gateways_ok :: "GatewayInfo gomap \<Rightarrow> bool" where
  "gateways_ok m \<longleftrightarrow> (\<forall>k gi. glookup m k = Some gi \<longrightarrow> IP_String (gi_Gateway gi) = k)"

lemma gateway_keys_iff:
  "x \<in> gateway_keys m \<longleftrightarrow> (\<exists>k gi n. glookup m k = Some gi \<and> n \<in> set (gi_Networks gi) \<and> x = sync_key (gi_Gateway gi) n)"
  unfolding gateway_keys_def wanted_keys_def List.map_filter_def by force

lemma wanted_keys_range: "go_range rng \<Longrightarrow> wanted_keys (List.map_filter (glookup m) (rng (gkeys m))) = gateway_keys m"
  by (simp add: gateway_keys_def wanted_keys_def List.map_filter_def)

lemma sync_key_cong: "IP_String a = IP_String b \<Longrightarrow> sync_key a n = sync_key b n"
  by (simp add: sync_key_def)

lemma add_gateway_keys:
  assumes "gateways_ok m"
  shows "gateways_ok (add_gateway gw n m)" and "gateway_keys (add_gateway gw n m) = insert (sync_key gw n) (gateway_keys m)"
proof -
  show "gateways_ok (add_gateway gw n m)" using assms by (auto simp: gateways_ok_def add_gateway_def Let_def split: option.splits)
  show "gateway_keys (add_gateway gw n m) = insert (sync_key gw n) (gateway_keys m)"
  proof (cases "glookup m (IP_String gw)")
    case None
    then show ?thesis by (auto simp: set_eq_iff gateway_keys_iff add_gateway_def) (metis option.distinct(1))
  next
    case (Some gi)
    then have "sync_key (gi_Gateway gi) k = sync_key gw k" for k
      using assms by (intro sync_key_cong) (simp add: gateways_ok_def)
    then show ?thesis using Some by (auto simp: set_eq_iff gateway_keys_iff add_gateway_def) (metis option.inject)+
  qed
qed

text \<open>The routes for block \<open>b\<close> of node \<open>n\<close>: in each family the block has and the node has an address of.\<close>

definition reached :: "Node \<Rightarrow> AddressBlock \<Rightarrow> string set" where
  "reached n b = {sync_key (nip_IPv4 (node_ip n)) (parse_net s) | s. ab_IPv4 b = Some s \<and> nip_IPv4 (node_ip n) \<noteq> nil_ip} \<union>
     {sync_key (nip_IPv6 (node_ip n)) (parse_net s) | s. ab_IPv6 b = Some s \<and> nip_IPv6 (node_ip n) \<noteq> nil_ip}"

abbreviation node_name :: "Node \<Rightarrow> string" where
  "node_name n \<equiv> om_Name (node_meta n)"

lemma nodeMap_lookup:
  assumes "distinct (map node_name nodes)"
  shows "glookup (nodeMap self nodes) k = Some ips \<longleftrightarrow> (\<exists>n \<in> set nodes. node_name n \<noteq> self \<and> node_name n = k \<and> ips = node_ip n)"
proof -
  have "glookup (fold (\<lambda>n m. if node_name n = self then m else gupdate (node_name n) (node_ip n) m) ns m) k = Some ips \<longleftrightarrow>
      (\<exists>n \<in> set ns. node_name n \<noteq> self \<and> node_name n = k \<and> ips = node_ip n) \<or>
      glookup m k = Some ips \<and> (\<forall>n \<in> set ns. node_name n = self \<or> node_name n \<noteq> k)"
    if "distinct (map node_name ns)" for ns m
    using that
  proof (induction ns arbitrary: m)
    case (Cons n ns)
    have dist: "distinct (map node_name ns)" using Cons.prems by simp
    have new: "\<forall>n' \<in> set ns. node_name n' \<noteq> node_name n" using Cons.prems by (auto simp: image_iff)
    show ?case
    proof (cases "node_name n = self")
      case True
      then show ?thesis using Cons.IH [OF dist, of m] by simp
    next
      case False
      then show ?thesis using Cons.IH [OF dist, of "gupdate (node_name n) (node_ip n) m"] new by auto
    qed
  qed simp
  from this [OF assms, of "[]"] show ?thesis by (simp add: nodeMap_def)
qed

lemma block_gateways_keys:
  assumes "gateways_ok m" and "\<And>k ips. glookup nm k = Some ips \<longleftrightarrow> (\<exists>n \<in> ns. node_name n = k \<and> ips = node_ip n)"
    and "inj_on node_name ns"
  shows "gateways_ok (block_gateways nm b m) \<and>
    gateway_keys (block_gateways nm b m) = gateway_keys m \<union> (\<Union>n \<in> {n \<in> ns. node_name n = gget (om_Labels (ab_meta b)) LabelNode}. reached n b)"
proof (cases "glookup nm (gget (om_Labels (ab_meta b)) LabelNode)")
  case None
  then have "n \<notin> ns" if "node_name n = gget (om_Labels (ab_meta b)) LabelNode" for n
    using assms(2) [of "node_name n" "node_ip n"] that by auto
  then have "{n \<in> ns. node_name n = gget (om_Labels (ab_meta b)) LabelNode} = {}" by blast
  then show ?thesis using None assms(1) by (auto simp: block_gateways_def)
next
  case (Some ips)
  then obtain n where n: "n \<in> ns" "node_name n = gget (om_Labels (ab_meta b)) LabelNode" "ips = node_ip n" using assms(2) by blast
  then have one: "{n \<in> ns. node_name n = gget (om_Labels (ab_meta b)) LabelNode} = {n}" using assms(3) unfolding inj_on_def by force
  define m1 where "m1 = (case ab_IPv4 b of None \<Rightarrow> m | Some s \<Rightarrow> if nip_IPv4 ips = nil_ip then m else add_gateway (nip_IPv4 ips) (parse_net s) m)"
  have m1: "gateways_ok m1" "gateway_keys m1 = gateway_keys m \<union> {sync_key (nip_IPv4 ips) (parse_net s) | s. ab_IPv4 b = Some s \<and> nip_IPv4 ips \<noteq> nil_ip}"
    using assms(1) add_gateway_keys [OF assms(1)] by (auto simp: m1_def split: option.splits)
  have "gateways_ok (block_gateways nm b m)" "gateway_keys (block_gateways nm b m) = gateway_keys m1 \<union> {sync_key (nip_IPv6 ips) (parse_net s) | s. ab_IPv6 b = Some s \<and> nip_IPv6 ips \<noteq> nil_ip}"
    using m1(1) add_gateway_keys [OF m1(1)] Some by (auto simp: block_gateways_def Let_def m1_def [symmetric] split: option.splits)
  then show ?thesis using m1(2) one n(3) by (auto simp: reached_def)
qed

lemma fold_gateways_keys:
  assumes "\<And>k ips. glookup nm k = Some ips \<longleftrightarrow> (\<exists>n \<in> ns. node_name n = k \<and> ips = node_ip n)" and "inj_on node_name ns" and "gateways_ok m"
  shows "gateway_keys (fold (block_gateways nm) blocks m) =
    gateway_keys m \<union> (\<Union>b \<in> set blocks. \<Union>n \<in> {n \<in> ns. node_name n = gget (om_Labels (ab_meta b)) LabelNode}. reached n b)"
  using assms(3)
proof (induction blocks arbitrary: m)
  case (Cons b bs)
  note s = block_gateways_keys [OF Cons.prems assms(1,2), of b]
  show ?case using Cons.IH [OF conjunct1 [OF s]] conjunct2 [OF s] by auto
qed simp

section \<open>What routeExporter does to the table\<close>

lemma routeHash_set: "set (routeHash rs) = (\<lambda>r. netp_String (rt_Dst r)) ` {r \<in> set rs. rt_Dst r \<noteq> None}"
  by (auto simp: routeHash_def)

lemma export_loops:
  assumes "route_laws rts N" and "nl_RouteListFiltered N FAMILY_ALL (FilterTable t) w = (Ok rs, w1)" and "t \<noteq> 0" and "None \<notin> set nets"
    and "bindA (foreachA (export_add N t pid lo (routeHash rs)) nets) (\<lambda>_. foreachA (export_del N (map netp_String nets)) rs) w1 = (Ok (), w')"
  shows "(\<lambda>r. netp_String (rt_Dst r)) ` {x \<in> rts w'. rt_Table x = t \<and> rt_Dst x \<noteq> None} = netp_String ` set nets"
    and "\<not> (rt_Table x = t \<and> rt_Dst x \<noteq> None) \<Longrightarrow> x \<in> rts w' \<longleftrightarrow> x \<in> rts w"
proof -
  let ?P = "\<lambda>x. rt_Table x = t \<and> rt_Dst x \<noteq> None" and ?key = "\<lambda>r. netp_String (rt_Dst r)"
  let ?W = "netp_String ` set nets"
  let ?inst = "\<lambda>k x. \<exists>n \<in> set nets. netp_String n = k \<and> installs (export_route t pid lo n) x"
  have rs: "set rs = {x \<in> rts w. rt_Table x = t}" and w1: "rts w1 = rts w"
    using route_list [OF assms(1,2)] by (auto simp: in_family_def)
  obtain w2 where a: "foreachA (export_add N t pid lo (routeHash rs)) nets w1 = (Ok (), w2)"
      and d: "foreachA (export_del N (map netp_String nets)) rs w2 = (Ok (), w')" using assms(5) by (auto simp: bindA_Ok_iff)
  let ?adds = "filter (\<lambda>n. netp_String n \<notin> set (routeHash rs)) nets"
  have "foreachA (export_add N t pid lo (routeHash rs)) nets =
    foreachA (\<lambda>n. wrapA (''exporter: netlink: failed to add route to '' @ netp_String n) (nl_RouteAdd N (export_route t pid lo n))) ?adds"
    unfolding foreachA_filter [symmetric] by (rule foreachA_cong) (simp add: export_add_def)
  note add = adds_spec [OF assms(1) a [unfolded this]]
  let ?dels = "filter (\<lambda>r. ?P r \<and> ?key r \<notin> ?W) rs"
  have "foreachA (export_del N (map netp_String nets)) rs =
    foreachA (\<lambda>r. wrapA (''netlink: failed to delete route to '' @ netp_String (rt_Dst r)) (nl_RouteDel N r)) ?dels"
    unfolding foreachA_filter [symmetric] by (rule foreachA_cong) (use rs in \<open>auto simp: export_del_def\<close>)
  note del = dels_spec [OF assms(1) d [unfolded this]]
  have dels: "set ?dels = {x \<in> rts w. ?P x \<and> ?key x \<notin> ?W}" using rs by auto
  have inst: "?key x = k \<and> ?P x" if i: "?inst k x" for k x
    using i assms(3,4) by (cases "rt_Dst x") (auto simp: installs_def export_route_def new_route_def)
  have fresh: "x \<notin> set ?dels" if "n \<in> set nets" "installs (export_route t pid lo n) x" for n x
    using inst [of "netp_String n" x] that by auto
  have w': "rts w' = rts w2 - set ?dels" using del by simp
  have R': "rts w - {x \<in> rts w. ?P x \<and> ?key x \<notin> ?W} \<subseteq> rts w'" using w' add w1 dels by auto
  have new: "x \<in> rts w - {x \<in> rts w. ?P x \<and> ?key x \<notin> ?W} \<or> (\<exists>k \<in> ?W. ?inst k x)" if "x \<in> rts w'" for x
    using that w' add w1 dels by auto
  have added: "\<exists>x \<in> rts w'. ?inst k x" if k: "k \<in> ?W" and "k \<notin> ?key ` {x \<in> rts w. ?P x}" for k
  proof -
    obtain n where n: "n \<in> set nets" "netp_String n = k" using k by blast
    then have "n \<in> set ?adds" using that(2) rs by (auto simp: routeHash_set)
    then obtain x where "x \<in> rts w2" "installs (export_route t pid lo n) x" using add by blast
    then show ?thesis using w' fresh n by blast
  qed
  note sets = synced_sets [where P = ?P and key = ?key and inst = ?inst, OF R' new added inst]
  show "?key ` {x \<in> rts w'. ?P x} = ?W" by (rule sets(1))
  show "x \<in> rts w' \<longleftrightarrow> x \<in> rts w" if "\<not> ?P x" by (rule sets(2) [OF _ _ _ _ that])
qed

section \<open>Properties\<close>

definition example_nodes :: "Node list" where
  "example_nodes = map (\<lambda>(n, a). \<lparr>node_meta = empty_meta\<lparr>om_Name := n\<rparr>, node_Addresses = [(NodeInternalIP, a)]\<rparr>)
     [(''node1'', ''10.0.0.1''), (''node2'', ''10.0.0.2''), (''node3'', ''10.0.0.3'')]"

definition example_node_blocks :: "AddressBlock list" where
  "example_node_blocks = map (\<lambda>(n, s). \<lparr>ab_meta = empty_meta\<lparr>om_Labels := [(LabelNode, n)]\<rparr>, ab_Index = 0, ab_IPv4 = Some s, ab_IPv6 = None\<rparr>)
     [(''node1'', ''10.2.0.0/31''), (''node2'', ''10.2.0.2/31''), (''node2'', ''10.2.0.4/31''), (''gone'', ''10.2.0.6/31'')]"

definition example_router_kube :: "nl_world router_kube" where
  "example_router_kube = \<lparr>rk_ListNodes = returnA example_nodes, rk_ListAddressBlocks = returnA example_node_blocks\<rparr>"

text \<open>A kernel with a stale route of coil (protocol 30) and a route of another program.\<close>

definition example_kernel :: nl_world where
  "example_kernel = empty_world\<lparr>nw_links := [new_link ''lo'' OtherLink], nw_routes := map install_route
     [sync_route 30 [10, 0, 0, 9] (parse_net ''10.2.0.8/31''), sync_route 12 [10, 0, 0, 254] (parse_net ''10.9.0.0/16'')]\<rparr>"



text \<open>
  C23. When the exporter's synchronisation succeeds, the destinations of the routes in its table are
  exactly the given subnets, and every other route, the default routes of the table included, is as
  it was.
\<close>

theorem routeExporter_exact:
  assumes "route_laws rts (xe_netlink X)" and "leaves rts (xe_NewHandle X)" and "t \<noteq> 0" and "None \<notin> set nets"
    and "routeExporter_Sync X t pid nets w = (Ok (), w')"
  shows "(\<lambda>r. netp_String (rt_Dst r)) ` {x \<in> rts w'. rt_Table x = t \<and> rt_Dst x \<noteq> None} = netp_String ` set nets \<and>
    {x \<in> rts w'. rt_Table x \<noteq> t \<or> rt_Dst x = None} = {x \<in> rts w. rt_Table x \<noteq> t \<or> rt_Dst x = None}"
proof -
  let ?N = "xe_netlink X"
  obtain w1 lo w2 rs w3 where h: "xe_NewHandle X w = (Ok (), w1)" "nl_LinkByName ?N ''lo'' w1 = (Ok lo, w2)"
      "nl_RouteListFiltered ?N FAMILY_ALL (FilterTable t) w2 = (Ok rs, w3)"
    and loop: "bindA (foreachA (export_add ?N t pid (lk_Index lo) (routeHash rs)) nets) (\<lambda>_. foreachA (export_del ?N (map netp_String nets)) rs) w3 = (Ok (), w')"
    using assms(5) by (auto simp: routeExporter_Sync_def Let_def bindA_Ok_iff wrapA_Ok_iff)
  have "rts w2 = rts w" using leavesD [OF assms(2) h(1)] leavesD [OF route_leaves(1) [OF assms(1)] h(2)] by simp
  then show ?thesis using export_loops [OF assms(1) h(3) assms(3,4) loop] by auto
qed

theorem routeExporter_exact_witness:
  "\<exists>w'. routeExporter_Sync \<lparr>xe_NewHandle = returnA (), xe_netlink = ref_netlink\<rparr> 119 30 [parse_net ''10.2.0.0/31''] example_kernel = (Ok (), w') \<and>
    (\<lambda>r. netp_String (rt_Dst r)) ` {x \<in> ref_routes w'. rt_Table x = 119 \<and> rt_Dst x \<noteq> None} = {''10.2.0.0/31''}"
proof -
  let ?X = "\<lparr>xe_NewHandle = returnA (), xe_netlink = ref_netlink\<rparr>"
  obtain r w' where run: "routeExporter_Sync ?X 119 30 [parse_net ''10.2.0.0/31''] example_kernel = (r, w')" by (metis prod.collapse)
  have "fst (routeExporter_Sync ?X 119 30 [parse_net ''10.2.0.0/31''] example_kernel) = Ok ()" by code_simp
  then have r: "r = Ok ()" using run by simp
  have l: "route_laws ref_routes (xe_netlink ?X)" "leaves ref_routes (xe_NewHandle ?X)"
    using ref_route_laws by (simp_all add: leaves_def returnA_def)
  have n: "None \<notin> set [parse_net ''10.2.0.0/31'']" "netp_String (parse_net ''10.2.0.0/31'') = ''10.2.0.0/31''" by code_simp+
  show ?thesis using routeExporter_exact [OF l _ n(1) run [unfolded r]] run r n(2) by auto
qed

end
