(* ===== verification/Go_Sha1.thy ===== *)
theory Go_Sha1
  imports Go_Net
begin

text \<open>
  \<open>crypto/sha1\<close> of the standard library: the digest of FIPS 180-4 on byte lists, computed with 32-bit words.
  The sources use it to derive interface names.
\<close>

unbundle bit_operations_syntax

type_synonym word32 = "32 word"

definition word_of_bytes :: "byte list \<Rightarrow> word32" where
  "word_of_bytes bs = word_of_nat (ip_val bs)"

definition bytes_of_word :: "word32 \<Rightarrow> byte list" where
  "bytes_of_word w = ip_of_nat 4 (unat w)"

text \<open>The message, a one bit, zeros, and the length in bits in eight bytes: a multiple of 64 bytes.\<close>

definition sha1_pad :: "byte list \<Rightarrow> byte list" where
  "sha1_pad m = (let z = (119 - length m mod 64) mod 64 in m @ [0x80] @ replicate z 0 @ ip_of_nat 8 (8 * length m))"

fun chunks :: "nat \<Rightarrow> nat \<Rightarrow> 'a list \<Rightarrow> 'a list list" where
  "chunks 0 n xs = []"
| "chunks (Suc k) n xs = take n xs # chunks k n (drop n xs)"

text \<open>The message schedule, newest word first.\<close>

fun sha1_extend :: "nat \<Rightarrow> word32 list \<Rightarrow> word32 list" where
  "sha1_extend 0 ws = ws"
| "sha1_extend (Suc k) ws = sha1_extend k (word_rotl 1 (ws ! 2 XOR ws ! 7 XOR ws ! 13 XOR ws ! 15) # ws)"

definition sha1_schedule :: "byte list \<Rightarrow> word32 list" where
  "sha1_schedule block = rev (sha1_extend 64 (rev (map word_of_bytes (chunks 16 4 block))))"

type_synonym sha1_state = "word32 \<times> word32 \<times> word32 \<times> word32 \<times> word32"

definition sha1_round :: "nat \<times> word32 \<Rightarrow> sha1_state \<Rightarrow> sha1_state" where
  "sha1_round = (\<lambda>(t, w) (a, b, c, d, e).
     let (f, k) = (if t < 20 then ((b AND c) OR (NOT b AND d), 0x5A827999)
                   else if t < 40 then (b XOR c XOR d, 0x6ED9EBA1)
                   else if t < 60 then ((b AND c) OR (b AND d) OR (c AND d), 0x8F1BBCDC)
                   else (b XOR c XOR d, 0xCA62C1D6))
     in (word_rotl 5 a + f + e + k + w, a, word_rotl 30 b, c, d))"

definition sha1_block :: "byte list \<Rightarrow> sha1_state \<Rightarrow> sha1_state" where
  "sha1_block block s = (case (s, fold sha1_round (enumerate 0 (sha1_schedule block)) s) of
     ((a, b, c, d, e), (a', b', c', d', e')) \<Rightarrow> (a + a', b + b', c + c', d + d', e + e'))"

definition sha1_Sum :: "byte list \<Rightarrow> byte list" where
  "sha1_Sum m = (let p = sha1_pad m in
     case fold sha1_block (chunks (length p div 64) 64 p) (0x67452301, 0xEFCDAB89, 0x98BADCFE, 0x10325476, 0xC3D2E1F0) of
       (a, b, c, d, e) \<Rightarrow> concat (map bytes_of_word [a, b, c, d, e]))"

lemma length_sha1_Sum [simp]: "length (sha1_Sum m) = 20"
  by (simp add: sha1_Sum_def Let_def bytes_of_word_def split: prod.splits)

end
