(* ===== verification/Pod_Network.thy ===== *)
theory Pod_Network
  imports Netlink Go_Sha1
begin

text \<open>
  The network of pods on a node, \<open>pkg/nodenet/pod.go\<close>: \<open>SetupIPAM\<close> connects a container to the host by a
  veth pair whose host end carries an alias that identifies the container, \<open>Check\<close>, \<open>Destroy\<close> and \<open>List\<close> find
  it again by that alias, and \<open>Update\<close> runs a hook inside the container. A network namespace is a record of
  the calls made inside it; \<open>Do\<close> of the package \<open>ns\<close> enters the namespace, which may fail, and runs the function there.
  The locks are the atomicity of the methods; backoff sleeps change no state.
\<close>

section \<open>The program\<close>

definition defaultGWv4 :: ipnet where "defaultGWv4 = \<lparr>net_IP = ParseIP ''0.0.0.0'', net_Mask = CIDRMask 0 32\<rparr>"
definition defaultGWv6 :: ipnet where "defaultGWv6 = \<lparr>net_IP = ParseIP ''::'', net_Mask = CIDRMask 0 128\<rparr>"
definition dumpRetryLimit :: nat where "dumpRetryLimit = 5"

record PodNetConf =
  pc_PoolName :: string
  pc_ContainerId :: string
  pc_IFace :: string
  pc_IPv4 :: ip
  pc_IPv6 :: ip
  pc_HostVethName :: string

record podNetwork =
  pn_podTableId :: int
  pn_podRulePrio :: int
  pn_protocolId :: int
  pn_mtu :: int
  pn_hostIPv4 :: ip
  pn_hostIPv6 :: ip
  pn_compatCalico :: bool
  pn_registerFromMain :: bool
  pn_enableIPAM :: bool

definition NewPodNetwork :: "int \<Rightarrow> int \<Rightarrow> int \<Rightarrow> ip \<Rightarrow> ip \<Rightarrow> bool \<Rightarrow> bool \<Rightarrow> bool \<Rightarrow> podNetwork" where
  "NewPodNetwork podTableID podRulePrio protocolId hostIPv4 hostIPv6 compatCalico registerFromMain enableIPAM =
     \<lparr>pn_podTableId = podTableID, pn_podRulePrio = podRulePrio, pn_protocolId = protocolId, pn_mtu = 0, pn_hostIPv4 = hostIPv4,
      pn_hostIPv6 = hostIPv6, pn_compatCalico = compatCalico, pn_registerFromMain = registerFromMain, pn_enableIPAM = enableIPAM\<rparr>"

text \<open>A namespace that has been opened: entering it, the calls of netlink and of \<open>plugins/pkg/ip\<close> inside it, and whatever a
  hook needs there.\<close>

record ('w, 'n) netns =
  ns_Enter :: "('w, unit) act"
  ns_netlink :: "'w netlink_ops"
  ns_SetupVethWithName :: "string \<Rightarrow> string \<Rightarrow> int \<Rightarrow> ('w, link \<times> link) act"
  ns_SettleAddresses :: "string \<Rightarrow> ('w, unit) act"
  ns_inside :: 'n

record netNsData =
  nd_Nsid :: int
  nd_Name :: string

record ('w, 'n) pod_env =
  pe_netlink :: "'w netlink_ops"
  pe_GetNS :: "string \<Rightarrow> ('w, ('w, 'n) netns) act"
  pe_SettleAddresses :: "string \<Rightarrow> ('w, unit) act"
  pe_EnableIP4Forward :: "('w, unit) act"
  pe_EnableIP6Forward :: "('w, unit) act"
  pe_DetectMTU :: "('w, int) act"
  pe_ip :: "string list \<Rightarrow> ('w, string) act"
  pe_UnmarshalLinkData :: "string \<Rightarrow> int list res"
  pe_UnmarshalNetNsData :: "string \<Rightarrow> netNsData list res"
  pe_NsRunDir :: string

type_synonym ('w, 'n) setup_hook = "'n \<Rightarrow> ip \<Rightarrow> ip \<Rightarrow> ('w, unit) act"

definition GenAlias :: "PodNetConf \<Rightarrow> string \<Rightarrow> string" where
  "GenAlias conf i = ''COIL:'' @ pc_PoolName conf @ '':'' @ i @ '':'' @ pc_IFace conf"

text \<open>\<open>retryDump\<close>: an interrupted dump is run again, five times at most.\<close>

primrec retry_dump :: "nat \<Rightarrow> ('w, 'a) act \<Rightarrow> ('w, 'a) act" where
  "retry_dump 0 dump = dump"
| "retry_dump (Suc k) dump =
     bindA (tryA dump) (\<lambda>r. case r of
       Inr x \<Rightarrow> returnA x
     | Inl e \<Rightarrow> if errors_Is e ErrDumpInterrupted then retry_dump k dump else errA e)"

definition retryDump :: "('w, 'a) act \<Rightarrow> ('w, 'a) act" where
  "retryDump dump = retry_dump dumpRetryLimit dump"

definition parseLink :: "link \<Rightarrow> PodNetConf option" where
  "parseLink l = (case splitc (CHR '':'') (lk_Alias l) of
       [c0, c1, c2, c3] \<Rightarrow> if c0 \<noteq> ''COIL'' then None
         else Some \<lparr>pc_PoolName = c1, pc_ContainerId = c2, pc_IFace = c3, pc_IPv4 = nil_ip, pc_IPv6 = nil_ip, pc_HostVethName = []\<rparr>
     | _ \<Rightarrow> None)"

definition calicoVethName :: "string \<Rightarrow> string \<Rightarrow> string" where
  "calicoVethName podName podNS = ''veth'' @ take 11 (hex_bytes (sha1_Sum (map of_char (podNS @ ''.'' @ podName))))"

definition is_link_of :: "string \<Rightarrow> string \<Rightarrow> link \<Rightarrow> bool" where
  "is_link_of containerId iface l = (case parseLink l of None \<Rightarrow> False
     | Some c \<Rightarrow> pc_ContainerId c = containerId \<and> pc_IFace c = iface)"

definition pn_lookup :: "'w netlink_ops \<Rightarrow> string \<Rightarrow> string \<Rightarrow> ('w, link) act" where
  "pn_lookup N containerId iface =
     bindA (wrapA ''netlink: failed to list links'' (retryDump (nl_LinkList N))) (\<lambda>links.
     case List.find (is_link_of containerId iface) links of
       Some l \<Rightarrow> returnA l
     | None \<Rightarrow> errA (Sentinel NodenetErrNotFound))"

definition initRule :: "('w, 'n) pod_env \<Rightarrow> podNetwork \<Rightarrow> family \<Rightarrow> ('w, unit) act" where
  "initRule E pn f =
     bindA (wrapA ''netlink: rule list failed'' (nl_RuleList (pe_netlink E) f)) (\<lambda>rules.
     if list_ex (\<lambda>r. ru_Priority r = pn_podRulePrio pn) rules then returnA ()
     else wrapA ''netlink: failed to add pod table rule'' (nl_RuleAdd (pe_netlink E)
       (NewRule\<lparr>ru_Family := f, ru_Table := pn_podTableId pn, ru_Priority := pn_podRulePrio pn\<rparr>)))"

text \<open>\<open>Init\<close> logs its errors and goes on.\<close>

definition pn_Init :: "('w, 'n) pod_env \<Rightarrow> (podNetwork \<times> 'w, unit) act" where
  "pn_Init E =
     bindA getA (\<lambda>(pn, _).
     bindA (tryA (liftW (pe_EnableIP4Forward E))) (\<lambda>_.
     bindA (tryA (liftW (pe_EnableIP6Forward E))) (\<lambda>_.
     bindA (tryA (liftW (initRule E pn FAMILY_V4))) (\<lambda>_.
     bindA (tryA (liftW (initRule E pn FAMILY_V6))) (\<lambda>_.
     bindA (tryA (liftW (pe_DetectMTU E))) (\<lambda>r. case r of
       Inl e \<Rightarrow> returnA ()
     | Inr mtu \<Rightarrow> modifyA (\<lambda>(pn, w). (pn\<lparr>pn_mtu := mtu\<rparr>, w))))))))"

subsection \<open>SetupIPAM\<close>

record cni_interface =
  if_Name :: string
  if_Mac :: string
  if_Sandbox :: string

record cni_result =
  cr_IPs :: "(ipnet \<times> nat) list"
  cr_Interfaces :: "cni_interface list"

definition universe_addr :: "ip \<Rightarrow> nl_addr" where
  "universe_addr a = \<lparr>na_IPNet = NewIPNet a, na_Scope = SCOPE_UNIVERSE\<rparr>"

text \<open>Deletes the link of the container when the call fails.\<close>

definition or_unlink :: "'w netlink_ops \<Rightarrow> link \<Rightarrow> string \<Rightarrow> ('w, unit) act \<Rightarrow> ('w, unit) act" where
  "or_unlink N l msg m = bindA (tryA m) (\<lambda>r. case r of
       Inr x \<Rightarrow> returnA x
     | Inl e \<Rightarrow> bindA (tryA (nl_LinkDel N l)) (\<lambda>_. errA (Wrap msg [e])))"

definition remove_garbage :: "('w, 'n) pod_env \<Rightarrow> PodNetConf \<Rightarrow> ('w, unit) act" where
  "remove_garbage E conf =
     bindA (tryA (pn_lookup (pe_netlink E) (pc_ContainerId conf) (pc_IFace conf))) (\<lambda>r. case r of
       Inr l \<Rightarrow> wrapA ''netlink: failed to delete broken link'' (nl_LinkDel (pe_netlink E) l)
     | Inl e \<Rightarrow> if e = Sentinel NodenetErrNotFound then returnA () else errA e)"

definition remove_stale_calico :: "('w, 'n) pod_env \<Rightarrow> string \<Rightarrow> string \<Rightarrow> ('w, unit) act" where
  "remove_stale_calico E podName podNS =
     (let vethName = calicoVethName podName podNS in
      bindA (tryA (nl_LinkByName (pe_netlink E) vethName)) (\<lambda>r. case r of
        Inl e \<Rightarrow> returnA ()
      | Inr l \<Rightarrow> bindA (tryA (nl_LinkDel (pe_netlink E) l)) (\<lambda>r. case r of
          Inr _ \<Rightarrow> returnA ()
        | Inl e \<Rightarrow> if \<not> errors_Is e ENODEV then errA (Wrap (''netlink: failed to delete stale calico veth '' @ vethName) [e]) else returnA ())))"

text \<open>The first function run in the container.\<close>

definition setup_container :: "('w, 'n) netns \<Rightarrow> podNetwork \<Rightarrow> string \<Rightarrow> string \<Rightarrow> string \<Rightarrow> PodNetConf \<Rightarrow> ('w, cni_result) act" where
  "setup_container ns pn nsPath podName podNS conf =
     (let C = ns_netlink ns; vethName = (if pn_compatCalico pn then calicoVethName podName podNS else '''') in
      bindA (ns_Enter ns) (\<lambda>_.
      bindA (wrapA ''failed to setup veth'' (ns_SetupVethWithName ns (pc_IFace conf) vethName (pn_mtu pn))) (\<lambda>(hVeth, cVeth).
      bindA (wrapA ''netlink: failed to get veth link for container'' (nl_LinkByIndex C (lk_Index cVeth))) (\<lambda>cLink.
      bindA (or_unlink C cLink ''netlink: failed to up link for container'' (nl_LinkSetUp C cLink)) (\<lambda>_.
      bindA (if pc_IPv4 conf \<noteq> nil_ip
        then bindA (or_unlink C cLink ''netlink: failed to add an address'' (nl_AddrAdd C cLink (universe_addr (pc_IPv4 conf)))) (\<lambda>_.
             returnA [(NewIPNet (pc_IPv4 conf), 0)])
        else returnA []) (\<lambda>ips4.
      bindA (if pc_IPv6 conf \<noteq> nil_ip
        then bindA (or_unlink C cLink ''netlink: failed to add an address'' (nl_AddrAdd C cLink (universe_addr (pc_IPv6 conf)))) (\<lambda>_.
             bindA (wrapA ''netlink: failed to settle an address'' (ns_SettleAddresses ns (pc_IFace conf))) (\<lambda>_.
             returnA [(NewIPNet (pc_IPv6 conf), 0)]))
        else returnA []) (\<lambda>ips6.
      returnA \<lparr>cr_IPs = ips4 @ ips6,
        cr_Interfaces = [\<lparr>if_Name = lk_Name cVeth, if_Mac = lk_HardwareAddr cVeth, if_Sandbox = nsPath\<rparr>,
          \<lparr>if_Name = lk_Name hVeth, if_Mac = lk_HardwareAddr hVeth, if_Sandbox = ''''\<rparr>]\<rparr>)))))))"

definition pod_route :: "podNetwork \<Rightarrow> link \<Rightarrow> ip \<Rightarrow> route" where
  "pod_route pn hLink a = new_route\<lparr>rt_Dst := Some (NewIPNet a), rt_LinkIndex := lk_Index hLink, rt_Scope := SCOPE_LINK,
     rt_Protocol := pn_protocolId pn, rt_Table := pn_podTableId pn\<rparr>"

text \<open>The link-local address of the host end is the gateway of the container.\<close>

definition host_v6 :: "('w, 'n) pod_env \<Rightarrow> podNetwork \<Rightarrow> PodNetConf \<Rightarrow> link \<Rightarrow> ('w, ip) act" where
  "host_v6 E pn conf hLink =
     (let N = pe_netlink E in
      if pc_IPv6 conf = nil_ip then returnA nil_ip
      else
        bindA (wrapA ''netlink: failed to add a host IPv6 address'' (nl_AddrAdd N hLink (universe_addr (pn_hostIPv6 pn)))) (\<lambda>_.
        bindA (wrapA ''netlink: failed to settle a host IPv6 address'' (pe_SettleAddresses E (lk_Name hLink))) (\<lambda>_.
        bindA (wrapA ''failed to get v6 addresses'' (retryDump (nl_AddrList N hLink FAMILY_V6))) (\<lambda>v6Addrs.
        case List.find (\<lambda>a. na_Scope a = SCOPE_LINK) v6Addrs of
          None \<Rightarrow> errA (ErrorMsg (''failed to find link-local address of '' @ lk_Name hLink))
        | Some a \<Rightarrow>
            bindA (wrapA (''netlink: failed to add route to IPv6 '' @ IP_String (pc_IPv6 conf)) (nl_RouteAdd N (pod_route pn hLink (pc_IPv6 conf)))) (\<lambda>_.
            returnA (net_IP (na_IPNet a)))))))"

definition host_v4 :: "('w, 'n) pod_env \<Rightarrow> podNetwork \<Rightarrow> PodNetConf \<Rightarrow> link \<Rightarrow> ('w, unit) act" where
  "host_v4 E pn conf hLink =
     (let N = pe_netlink E in
      if pc_IPv4 conf = nil_ip then returnA ()
      else
        bindA (wrapA ''netlink: failed to add a hostIPv4 address'' (nl_AddrAdd N hLink (universe_addr (pn_hostIPv4 pn)))) (\<lambda>_.
        wrapA (''netlink: failed to add route to IPv4 '' @ IP_String (pc_IPv4 conf)) (nl_RouteAdd N (pod_route pn hLink (pc_IPv4 conf)))))"

text \<open>The second function run in the container.\<close>

definition container_routes :: "('w, 'n) netns \<Rightarrow> podNetwork \<Rightarrow> PodNetConf \<Rightarrow> ip \<Rightarrow> ('w, unit) act" where
  "container_routes ns pn conf hostIPv6 =
     (let C = ns_netlink ns in
      bindA (ns_Enter ns) (\<lambda>_.
      bindA (wrapA ''netlink: failed to find link'' (nl_LinkByName C (pc_IFace conf))) (\<lambda>l.
      bindA (if pc_IPv4 conf \<noteq> nil_ip
        then bindA (wrapA (''netlink: failed to add route to host '' @ IP_String (pn_hostIPv4 pn)) (nl_RouteAdd C
               (new_route\<lparr>rt_Dst := Some (NewIPNet (pn_hostIPv4 pn)), rt_LinkIndex := lk_Index l, rt_Scope := SCOPE_LINK\<rparr>))) (\<lambda>_.
             wrapA (''netlink: failed to add default gw '' @ IP_String (pn_hostIPv4 pn)) (nl_RouteAdd C
               (new_route\<lparr>rt_Dst := Some defaultGWv4, rt_Gw := pn_hostIPv4 pn, rt_Scope := SCOPE_UNIVERSE\<rparr>)))
        else returnA ()) (\<lambda>_.
      if pc_IPv6 conf \<noteq> nil_ip
      then wrapA (''netlink: failed to add default gw '' @ IP_String hostIPv6) (nl_RouteAdd C
             (new_route\<lparr>rt_Dst := Some defaultGWv6, rt_Gw := hostIPv6, rt_LinkIndex := lk_Index l, rt_Scope := SCOPE_UNIVERSE\<rparr>))
      else returnA ()))))"

text \<open>The deferred cleanup: whatever fails once the host end is known, the host end is deleted.\<close>

definition with_cleanup :: "'w netlink_ops \<Rightarrow> link \<Rightarrow> ('w, 'a) act \<Rightarrow> ('w, 'a) act" where
  "with_cleanup N hLink m = bindA (tryA m) (\<lambda>r. case r of
       Inr x \<Rightarrow> returnA x
     | Inl e \<Rightarrow> bindA (tryA (nl_LinkDel N hLink)) (\<lambda>_. errA e))"

definition SetupIPAM :: "('w, 'n) pod_env \<Rightarrow> podNetwork \<Rightarrow> string \<Rightarrow> string \<Rightarrow> string \<Rightarrow> PodNetConf \<Rightarrow> ('w, cni_result) act" where
  "SetupIPAM E pn nsPath podName podNS conf =
     (let N = pe_netlink E in
      bindA (wrapA (''failed to open netns path '' @ nsPath) (pe_GetNS E nsPath)) (\<lambda>ns.
      bindA (remove_garbage E conf) (\<lambda>_.
      bindA (if pn_compatCalico pn then remove_stale_calico E podName podNS else returnA ()) (\<lambda>_.
      bindA (setup_container ns pn nsPath podName podNS conf) (\<lambda>result.
      bindA (wrapA ''netlink: failed to look up the host-side veth'' (nl_LinkByName N (if_Name (cr_Interfaces result ! 1)))) (\<lambda>hLink.
      with_cleanup N hLink (
        bindA (wrapA ''netlink: failed to set alias'' (nl_LinkSetAlias N hLink (GenAlias conf (pc_ContainerId conf)))) (\<lambda>_.
        bindA (host_v6 E pn conf hLink) (\<lambda>hostIPv6.
        bindA (host_v4 E pn conf hLink) (\<lambda>_.
        bindA (container_routes ns pn conf hostIPv6) (\<lambda>_.
        returnA result)))))))))))"

definition SetupEgress :: "('w, 'n) pod_env \<Rightarrow> string \<Rightarrow> PodNetConf \<Rightarrow> ('w, 'n) setup_hook option \<Rightarrow> ('w, unit) act" where
  "SetupEgress E nsPath conf hook =
     bindA (wrapA (''failed to open netns path '' @ nsPath) (pe_GetNS E nsPath)) (\<lambda>ns.
     wrapA ''error executing hook'' (bindA (ns_Enter ns) (\<lambda>_. case hook of
       None \<Rightarrow> returnA ()
     | Some h \<Rightarrow> h (ns_inside ns) (pc_IPv4 conf) (pc_IPv6 conf))))"

subsection \<open>Finding pods again\<close>

text \<open>\<open>v4Map[r.LinkIndex] = r.Dst.IP.To4()\<close> for each route that passes the test; a route without a destination is a nil
  pointer.\<close>

fun dst_map :: "(ip \<Rightarrow> ip) \<Rightarrow> (route \<Rightarrow> (int \<times> ip) list \<Rightarrow> bool) \<Rightarrow> route list \<Rightarrow> (int \<times> ip) list \<Rightarrow> (int \<times> ip) list res" where
  "dst_map conv test [] m = Ok m"
| "dst_map conv test (r # rs) m =
     (if \<not> test r m then dst_map conv test rs m
      else case rt_Dst r of
        None \<Rightarrow> Panic ''nil pointer dereference''
      | Some d \<Rightarrow> dst_map conv test rs (AList.update (rt_LinkIndex r) (conv (net_IP d)) m))"

definition from_main :: "podNetwork \<Rightarrow> route \<Rightarrow> (int \<times> ip) list \<Rightarrow> bool" where
  "from_main pn r m \<longleftrightarrow> (rt_Protocol r = pn_protocolId pn \<or> rt_Protocol r = 3) \<and> map_of m (rt_LinkIndex r) = None"

definition link_ips :: "('w, 'n) pod_env \<Rightarrow> podNetwork \<Rightarrow> family \<Rightarrow> (ip \<Rightarrow> ip) \<Rightarrow> string \<Rightarrow> ('w, (int \<times> ip) list) act" where
  "link_ips E pn f conv v =
     bindA (wrapA (''netlink: failed to list '' @ v @ '' routes in table'') (retryDump (nl_RouteListFiltered (pe_netlink E) f (FilterTable (pn_podTableId pn))))) (\<lambda>routes.
     bindA (resA (dst_map conv (\<lambda>_ _. True) routes [])) (\<lambda>m.
     if pn_registerFromMain pn
     then bindA (wrapA (''netlink: failed to list '' @ v @ '' routes'') (retryDump (nl_RouteList (pe_netlink E) None f))) (\<lambda>routes.
          resA (dst_map conv (from_main pn) routes m))
     else returnA m))"

definition conf_of :: "(int \<times> ip) list \<Rightarrow> (int \<times> ip) list \<Rightarrow> link \<Rightarrow> PodNetConf option" where
  "conf_of v4Map v6Map l = map_option (\<lambda>conf. conf\<lparr>
     pc_IPv4 := (case map_of v4Map (lk_Index l) of Some a \<Rightarrow> a | None \<Rightarrow> nil_ip),
     pc_IPv6 := (case map_of v6Map (lk_Index l) of Some a \<Rightarrow> a | None \<Rightarrow> nil_ip), pc_HostVethName := lk_Name l\<rparr>) (parseLink l)"

definition pn_list :: "('w, 'n) pod_env \<Rightarrow> podNetwork \<Rightarrow> ('w, PodNetConf list) act" where
  "pn_list E pn =
     bindA (wrapA ''netlink: failed to list links'' (retryDump (nl_LinkList (pe_netlink E)))) (\<lambda>links.
     bindA (link_ips E pn FAMILY_V4 To4 ''IPv4'') (\<lambda>v4Map.
     bindA (link_ips E pn FAMILY_V6 To16 ''IPv6'') (\<lambda>v6Map.
     returnA (List.map_filter (conf_of v4Map v6Map) links))))"

definition matchesPod :: "podNetwork \<Rightarrow> PodNetConf \<Rightarrow> ip \<Rightarrow> ip \<Rightarrow> string \<Rightarrow> bool" where
  "matchesPod pn c podIPv4 podIPv6 uid =
     (if \<not> pn_enableIPAM pn then pc_ContainerId c = uid
      else (pc_IPv4 c \<noteq> nil_ip \<and> IP_Equal (pc_IPv4 c) podIPv4) \<or> (pc_IPv6 c \<noteq> nil_ip \<and> IP_Equal (pc_IPv6 c) podIPv6))"

definition findPodConf :: "('w, 'n) pod_env \<Rightarrow> podNetwork \<Rightarrow> ip \<Rightarrow> ip \<Rightarrow> string \<Rightarrow> string \<Rightarrow> ('w, PodNetConf) act" where
  "findPodConf E pn podIPv4 podIPv6 pod uid =
     bindA (tryA (pn_list E pn)) (\<lambda>r. case r of
       Inl e \<Rightarrow> errA (Wrap (''calling list for pod '' @ pod) [e, Sentinel ErrPodNetConfNotReady])
     | Inr podConfigs \<Rightarrow> (case List.find (\<lambda>c. matchesPod pn c podIPv4 podIPv6 uid) podConfigs of
         Some c \<Rightarrow> returnA c
       | None \<Rightarrow> errA (Wrap (''not found for pod '' @ pod) [Sentinel ErrPodNetConfNotReady])))"

definition getNetNsPath :: "('w, 'n) pod_env \<Rightarrow> string \<Rightarrow> ('w, string) act" where
  "getNetNsPath E hostVethName =
     bindA (wrapA ''failed to run ip'' (pe_ip E [''-j'', ''link'', ''show'', hostVethName])) (\<lambda>out.
     bindA (wrapA ''failed to unMarshal linkData'' (resA (pe_UnmarshalLinkData E out))) (\<lambda>linkData.
     case linkData of
       [] \<Rightarrow> errA (ErrorMsg (''failed to get link data for '' @ hostVethName))
     | d # _ \<Rightarrow>
         bindA (wrapA ''failed to run ip'' (pe_ip E [''-j'', ''netns'', ''list-id''])) (\<lambda>out.
         bindA (wrapA ''failed to unMarshal netNsData'' (resA (pe_UnmarshalNetNsData E out))) (\<lambda>netNsData.
         case List.find (\<lambda>n. nd_Nsid n = d) netNsData of
           Some n \<Rightarrow> returnA (pe_NsRunDir E @ ''/'' @ nd_Name n)
         | None \<Rightarrow> errA (ErrorMsg (''failed to get peer NetNS path for '' @ hostVethName))))))"

definition Update :: "('w, 'n) pod_env \<Rightarrow> podNetwork \<Rightarrow> ip \<Rightarrow> ip \<Rightarrow> ('w, 'n) setup_hook option \<Rightarrow> string \<Rightarrow> string \<Rightarrow> ('w, unit) act" where
  "Update E pn podIPv4 podIPv6 hook pod uid =
     bindA (findPodConf E pn podIPv4 podIPv6 pod uid) (\<lambda>conf.
     bindA (tryA (getNetNsPath E (pc_HostVethName conf))) (\<lambda>r. case r of
       Inl e \<Rightarrow> errA (Wrap (''failed to resolve netNsPath for veth '' @ pc_HostVethName conf) [e, Sentinel ErrPodNetConfNotReady])
     | Inr netNsPath \<Rightarrow> bindA (tryA (pe_GetNS E netNsPath)) (\<lambda>r. case r of
         Inl e \<Rightarrow> if errors_Is e OsErrNotExist \<or> errors_Is e ENOENT
           then errA (Wrap (''netns '' @ netNsPath @ '' no longer exists'') [e, Sentinel ErrPodNetConfNotReady])
           else errA (Wrap (''failed to open netns path '' @ netNsPath) [e])
       | Inr ns \<Rightarrow> (case hook of
           None \<Rightarrow> returnA ()
         | Some h \<Rightarrow> bindA (ns_Enter ns) (\<lambda>_. h (ns_inside ns) podIPv4 podIPv6)))))"

definition pn_Check :: "('w, 'n) pod_env \<Rightarrow> string \<Rightarrow> string \<Rightarrow> ('w, unit) act" where
  "pn_Check E containerId iface = bindA (pn_lookup (pe_netlink E) containerId iface) (\<lambda>_. returnA ())"

definition Destroy :: "('w, 'n) pod_env \<Rightarrow> string \<Rightarrow> string \<Rightarrow> ('w, unit) act" where
  "Destroy E containerId iface =
     bindA (tryA (pn_lookup (pe_netlink E) containerId iface)) (\<lambda>r. case r of
       Inl e \<Rightarrow> if e = Sentinel NodenetErrNotFound then returnA () else errA e
     | Inr l \<Rightarrow> wrapA ''netlink: failed to delete link'' (nl_LinkDel (pe_netlink E) l))"

end
