(* ===== verification/Pod_Network_Facts.thy ===== *)
theory Pod_Network_Facts
  imports Pod_Network
begin

text \<open>
  What the pod network guarantees: the alias of a link identifies its container, dumps of the kernel are retried a bounded
  number of times, and a pod whose set-up succeeded is found again with its addresses.
\<close>

section \<open>Aliases\<close>

lemma GenAlias_joinc: "GenAlias conf i = joinc (CHR '':'') [''COIL'', pc_PoolName conf, i, pc_IFace conf]"
  by (simp add: GenAlias_def)

lemma splitc_GenAlias:
  assumes "CHR '':'' \<notin> set (pc_PoolName conf)" and "CHR '':'' \<notin> set i" and "CHR '':'' \<notin> set (pc_IFace conf)"
  shows "splitc (CHR '':'') (GenAlias conf i) = [''COIL'', pc_PoolName conf, i, pc_IFace conf]"
  unfolding GenAlias_joinc by (rule splitc_joinc) (use assms in auto)

lemma parseLink_GenAlias:
  assumes "CHR '':'' \<notin> set (pc_PoolName conf)" and "CHR '':'' \<notin> set i" and "CHR '':'' \<notin> set (pc_IFace conf)"
    and "lk_Alias l = GenAlias conf i"
  shows "parseLink l = Some \<lparr>pc_PoolName = pc_PoolName conf, pc_ContainerId = i, pc_IFace = pc_IFace conf,
    pc_IPv4 = nil_ip, pc_IPv6 = nil_ip, pc_HostVethName = []\<rparr>"
  using splitc_GenAlias [OF assms(1-3)] by (simp add: parseLink_def assms(4))

text \<open>Only an alias of that form is read back: the parts joined again are the alias.\<close>

lemma parseLink_SomeD: "parseLink l = Some c \<Longrightarrow> lk_Alias l = GenAlias c (pc_ContainerId c)"
proof -
  assume p: "parseLink l = Some c"
  obtain c0 c1 c2 c3 where s: "splitc (CHR '':'') (lk_Alias l) = [c0, c1, c2, c3]"
    using p by (auto simp: parseLink_def split: list.splits)
  have c: "c0 = ''COIL''" "c = \<lparr>pc_PoolName = c1, pc_ContainerId = c2, pc_IFace = c3, pc_IPv4 = nil_ip, pc_IPv6 = nil_ip, pc_HostVethName = []\<rparr>"
    using p s by (auto simp: parseLink_def split: if_splits)
  have "lk_Alias l = joinc (CHR '':'') [c0, c1, c2, c3]"
    using joinc_splitc [of "CHR '':''" "lk_Alias l"] s by simp
  then show ?thesis using c by (simp add: GenAlias_joinc)
qed

text \<open>C28. The alias that \<open>SetupIPAM\<close> gives to the host end of a veth pair identifies the container: as long as no part of it
  contains a colon, \<open>parseLink\<close> reads back the pool, the container and the interface, so the link is found for this container and
  interface and for no other; and only aliases of this form are read as links of coil.\<close>

theorem alias_roundtrip:
  assumes "CHR '':'' \<notin> set (pc_PoolName conf)" and "CHR '':'' \<notin> set (pc_ContainerId conf)" and "CHR '':'' \<notin> set (pc_IFace conf)"
    and "lk_Alias l = GenAlias conf (pc_ContainerId conf)"
  shows "parseLink l = Some (conf\<lparr>pc_IPv4 := nil_ip, pc_IPv6 := nil_ip, pc_HostVethName := []\<rparr>) \<and>
    (is_link_of c i l \<longleftrightarrow> c = pc_ContainerId conf \<and> i = pc_IFace conf) \<and>
    (parseLink l' = Some conf' \<longrightarrow> lk_Alias l' = GenAlias conf' (pc_ContainerId conf'))"
  using parseLink_GenAlias [OF assms(1,2,3,4)] by (auto simp: is_link_of_def dest: parseLink_SomeD)

definition example_conf :: PodNetConf where
  "example_conf = \<lparr>pc_PoolName = ''default'', pc_ContainerId = ''c1'', pc_IFace = ''eth0'', pc_IPv4 = [10, 2, 0, 1], pc_IPv6 = nil_ip, pc_HostVethName = []\<rparr>"

theorem alias_roundtrip_witness:
  "parseLink ((new_link ''veth1'' Dummy)\<lparr>lk_Alias := ''COIL:default:c1:eth0''\<rparr>) =
     Some (example_conf\<lparr>pc_IPv4 := nil_ip, pc_IPv6 := nil_ip, pc_HostVethName := []\<rparr>)"
  by (rule alias_roundtrip [THEN conjunct1]) (simp_all add: example_conf_def GenAlias_def)

section \<open>Retried dumps\<close>

definition interrupted :: "'a res \<Rightarrow> bool" where
  "interrupted r = (case r of Err e \<Rightarrow> errors_Is e ErrDumpInterrupted | _ \<Rightarrow> False)"

text \<open>The state before the run number \<open>j\<close> of the dump.\<close>

definition before_run :: "('w, 'a) act \<Rightarrow> nat \<Rightarrow> 'w \<Rightarrow> 'w" where
  "before_run dump j w = ((\<lambda>w. snd (dump w)) ^^ j) w"

lemma before_run_simps [simp]:
  "before_run dump 0 w = w" "before_run dump (Suc j) w = before_run dump j (snd (dump w))"
  by (simp_all add: before_run_def funpow_Suc_right del: funpow.simps)

lemma retry_dump_Suc: "retry_dump (Suc k) dump w = (if interrupted (fst (dump w)) then retry_dump k dump (snd (dump w)) else dump w)"
proof (cases "dump w")
  case (Pair r w')
  then show ?thesis by (cases r) (simp_all add: interrupted_def bindA_def tryA_def returnA_def errA_def)
qed

lemma retry_dump_done: "\<not> interrupted (fst (dump w)) \<Longrightarrow> retry_dump k dump w = dump w"
  by (cases k) (simp, simp only: retry_dump_Suc if_False)

lemma retry_dump_runs:
  "\<exists>j \<le> k. retry_dump k dump w = dump (before_run dump j w) \<and>
     (\<forall>i < j. interrupted (fst (dump (before_run dump i w)))) \<and>
     (j < k \<longrightarrow> \<not> interrupted (fst (dump (before_run dump j w))))"
proof (induction k arbitrary: w)
  case 0
  show ?case by simp
next
  case (Suc k)
  show ?case
  proof (cases "interrupted (fst (dump w))")
    case False
    then show ?thesis by (intro exI [of _ 0]) (simp add: retry_dump_done del: retry_dump.simps)
  next
    case True
    from Suc [of "snd (dump w)"] obtain j where j: "j \<le> k"
      "retry_dump k dump (snd (dump w)) = dump (before_run dump j (snd (dump w)))"
      "\<forall>i < j. interrupted (fst (dump (before_run dump i (snd (dump w)))))"
      "j < k \<longrightarrow> \<not> interrupted (fst (dump (before_run dump j (snd (dump w)))))" by blast
    have "\<forall>i < Suc j. interrupted (fst (dump (before_run dump i w)))"
      using j(3) True by (auto simp: less_Suc_eq_0_disj)
    moreover have "retry_dump (Suc k) dump w = dump (before_run dump (Suc j) w)"
      using True j(2) by (simp only: retry_dump_Suc if_True before_run_simps)
    ultimately show ?thesis using j by (intro exI [of _ "Suc j"]) (simp del: retry_dump.simps)
  qed
qed

text \<open>C30. \<open>retryDump\<close> always returns, after at most six runs of the dump: its result is that of the first run that was not interrupted, or
  of the sixth, and every run before it was interrupted.\<close>

theorem retryDump_bounded:
  "\<exists>j \<le> dumpRetryLimit. retryDump dump w = dump (before_run dump j w) \<and>
     (\<forall>i < j. interrupted (fst (dump (before_run dump i w)))) \<and>
     (j < dumpRetryLimit \<longrightarrow> \<not> interrupted (fst (dump (before_run dump j w))))"
  unfolding retryDump_def by (rule retry_dump_runs)

text \<open>A dump that is interrupted while the counter is positive.\<close>

definition example_dump :: "(nat, nat) act" where
  "example_dump = (\<lambda>n. if n = 0 then (Ok 7, 0) else (Err (Sentinel ErrDumpInterrupted), n - 1))"

lemma example_before: "before_run example_dump j n = n - j"
  by (induction j arbitrary: n) (simp_all add: example_dump_def)

theorem retryDump_bounded_witness: "retryDump example_dump 5 = (Ok 7, 0)"
proof -
  obtain j where j: "j \<le> 5" "retryDump example_dump 5 = example_dump (5 - j)" "j < 5 \<longrightarrow> \<not> interrupted (fst (example_dump (5 - j)))"
    using retryDump_bounded [of example_dump 5] unfolding example_before dumpRetryLimit_def by blast
  then have "j = 5" by (cases "j < 5") (auto simp: example_dump_def interrupted_def)
  then show ?thesis using j(2) by (simp add: example_dump_def)
qed

section \<open>A pod is found again\<close>

lemma post_or_unlink: "post m Q w \<Longrightarrow> post (or_unlink N l t m) Q w"
  by (rule post_OkI) (auto simp: or_unlink_def bindA_def tryA_def returnA_def errA_def outcome_def split: prod.splits res.splits)

lemma post_with_cleanup: "post m Q w \<Longrightarrow> post (with_cleanup N l m) Q w"
  by (rule post_OkI) (auto simp: with_cleanup_def bindA_def tryA_def returnA_def errA_def outcome_def split: prod.splits res.splits)

lemma retry_dump_post:
  assumes "\<And>w. I w \<Longrightarrow> outcome dump Q (\<lambda>_. I) (\<lambda>_. True) w" and "I w"
  shows "post (retry_dump k dump) Q w"
  using assms(2)
proof (induction k arbitrary: w)
  case 0
  show ?case unfolding retry_dump.simps by (rule outcome_mono [OF assms(1) [OF 0]]) simp_all
next
  case (Suc k)
  show ?case unfolding retry_dump.simps wp_simps
    by (rule outcome_mono [OF assms(1) [OF Suc.prems]]) (auto simp: wp_simps intro: Suc.IH simp del: retry_dump.simps)
qed

lemma pk_or_unlink [pk_intros]: "pk I R m \<Longrightarrow> pk I R (or_unlink N l t m)"
  unfolding pk_def by (blast intro: post_or_unlink)

lemma pk_retryDump: "leaves v m \<Longrightarrow> viewed v I \<Longrightarrow> pk I (\<lambda>_. True) (retryDump m)"
  unfolding pk_def retryDump_def viewed_def
  by (intro allI impI retry_dump_post [where I = I]) (auto intro!: outcome_call split: res.splits dest: leavesD)

subsection \<open>What the kernel promises\<close>

text \<open>A container that has been opened: apart from the creation of the veth pair, calls made inside it change neither the links nor the routes of
  the host; no route uses the index of a new link.\<close>

definition unused :: "('w \<Rightarrow> string \<Rightarrow> link option) \<Rightarrow> ('w \<Rightarrow> route set) \<Rightarrow> string \<Rightarrow> 'w \<Rightarrow> bool" where
  "unused lks rts n w \<longleftrightarrow> (\<forall>l. lks w n = Some l \<longrightarrow> 0 < lk_Index l \<and> (\<forall>r \<in> rts w. rt_LinkIndex r \<noteq> lk_Index l))"

definition ns_laws :: "('w \<Rightarrow> string \<Rightarrow> link option) \<Rightarrow> ('w \<Rightarrow> route set) \<Rightarrow> ('w, 'n) netns \<Rightarrow> bool" where
  "ns_laws lks rts ns \<longleftrightarrow> (let V = (\<lambda>w. (lks w, rts w)); C = ns_netlink ns in
     leaves V (ns_Enter ns) \<and> (\<forall>i. leaves V (nl_LinkByIndex C i)) \<and> (\<forall>n. leaves V (nl_LinkByName C n)) \<and> (\<forall>l. leaves V (nl_LinkSetUp C l)) \<and>
     (\<forall>l a. leaves V (nl_AddrAdd C l a)) \<and> (\<forall>v. leaves V (nl_RouteAdd C v)) \<and> (\<forall>n. leaves V (ns_SettleAddresses ns n)) \<and>
     (\<forall>i n m w h c w'. ns_SetupVethWithName ns i n m w = (Ok (h, c), w') \<longrightarrow> unused lks rts (lk_Name h) w'))"

definition pod_laws :: "('w \<Rightarrow> string \<Rightarrow> link option) \<Rightarrow> ('w \<Rightarrow> route set) \<Rightarrow> ('w, 'n) pod_env \<Rightarrow> bool" where
  "pod_laws lks rts E \<longleftrightarrow> (let V = (\<lambda>w. (lks w, rts w)); N = pe_netlink E in
     link_laws lks N \<and> route_laws rts N \<and>
     (\<forall>w r w'. nl_LinkList N w = (r, w') \<longrightarrow> V w' = V w \<and> (\<forall>ls. r = Ok ls \<longrightarrow> set ls = {l. lks w (lk_Name l) = Some l \<and> 0 < lk_Index l})) \<and>
     (\<forall>l a w w'. nl_LinkSetAlias N l a w = (Ok (), w') \<longrightarrow> rts w' = rts w \<and>
        lks w' = (lks w)(lk_Name l := map_option (lk_Alias_update (\<lambda>_. a)) (lks w (lk_Name l)))) \<and>
     (\<forall>l a. leaves V (nl_AddrAdd N l a)) \<and> (\<forall>l f. leaves V (nl_AddrList N l f)) \<and> (\<forall>n. leaves V (pe_SettleAddresses E n)) \<and>
     (\<forall>v. leaves lks (nl_RouteAdd N v)) \<and> (\<forall>f t. leaves lks (nl_RouteListFiltered N f t)) \<and>
     (\<forall>p w ns w'. pe_GetNS E p w = (Ok ns, w') \<longrightarrow> ns_laws lks rts ns))"

subsection \<open>The steps of SetupIPAM\<close>

abbreviation host_view :: "('w \<Rightarrow> string \<Rightarrow> link option) \<Rightarrow> ('w \<Rightarrow> route set) \<Rightarrow> 'w \<Rightarrow> (string \<Rightarrow> link option) \<times> route set" where
  "host_view lks rts \<equiv> \<lambda>w. (lks w, rts w)"

lemma ns_keeps:
  assumes "ns_laws lks rts ns" and "viewed (host_view lks rts) I"
  shows "pk I (\<lambda>_. True) (ns_Enter ns)" "pk I (\<lambda>_. True) (nl_LinkByIndex (ns_netlink ns) i)"
    "pk I (\<lambda>_. True) (nl_LinkByName (ns_netlink ns) n)" "pk I (\<lambda>_. True) (nl_LinkSetUp (ns_netlink ns) l)"
    "pk I (\<lambda>_. True) (nl_AddrAdd (ns_netlink ns) l a)" "pk I (\<lambda>_. True) (nl_RouteAdd (ns_netlink ns) v)"
    "pk I (\<lambda>_. True) (ns_SettleAddresses ns n)"
  using assms(1) unfolding ns_laws_def Let_def by (auto intro: pk_leaves [OF _ assms(2)])

lemma unused_viewed: "viewed (host_view lks rts) (unused lks rts n)"
  by (auto simp: viewed_def unused_def)

lemma setup_container_post:
  assumes "ns_laws lks rts ns"
  shows "post (setup_container ns pn nsPath podName podNS conf) (\<lambda>res w'. unused lks rts (if_Name (cr_Interfaces res ! 1)) w') w"
proof -
  have veth: "post (wrapA t (ns_SetupVethWithName ns i n m)) (\<lambda>(h, c) w'. unused lks rts (lk_Name h) w') w" for t i n m w
    using assms unfolding outcome_wrapA by (intro post_OkI) (auto simp: ns_laws_def Let_def)
  show ?thesis
    unfolding setup_container_def Let_def
    apply (rule post_bindA [where P = "\<lambda>_ _. True"], simp add: outcome_def split: prod.splits res.splits)
    apply (rule post_bindA [OF veth], clarify)
    subgoal for w0 h c w1
      by (rule post_mono, rule pkD [where I = "unused lks rts (lk_Name h)" and R = "\<lambda>res. if_Name (cr_Interfaces res ! 1) = lk_Name h"])
        (intro pk_intros ns_keeps [OF assms unused_viewed], simp_all)
    done
qed

text \<open>The host end of a pod: its alias, and the routes of the host through it.\<close>

definition pod_at :: "('w \<Rightarrow> string \<Rightarrow> link option) \<Rightarrow> ('w \<Rightarrow> route set) \<Rightarrow> podNetwork \<Rightarrow> link \<Rightarrow> string \<Rightarrow> ip set \<Rightarrow> 'w \<Rightarrow> bool" where
  "pod_at lks rts pn l al A w \<longleftrightarrow> lks w (lk_Name l) = Some (l\<lparr>lk_Alias := al\<rparr>) \<and> 0 < lk_Index l \<and>
     (\<forall>r \<in> rts w. rt_LinkIndex r = lk_Index l \<longrightarrow> (\<exists>a \<in> A. installs (pod_route pn l a) r)) \<and> (\<forall>a \<in> A. \<exists>r \<in> rts w. installs (pod_route pn l a) r)"

lemma pod_at_viewed: "viewed (host_view lks rts) (pod_at lks rts pn l al A)"
  by (auto simp: viewed_def pod_at_def)

lemma pod_lawsD:
  assumes "pod_laws lks rts E"
  shows "link_laws lks (pe_netlink E)" "route_laws rts (pe_netlink E)" "leaves lks (nl_RouteAdd (pe_netlink E) v)"
    "leaves lks (nl_RouteListFiltered (pe_netlink E) f t)" "pe_GetNS E p w = (Ok ns, w') \<Longrightarrow> ns_laws lks rts ns"
  using assms unfolding pod_laws_def Let_def by blast+

lemma pod_keeps:
  assumes "pod_laws lks rts E" and "viewed (host_view lks rts) I"
  shows "pk I (\<lambda>_. True) (nl_AddrAdd (pe_netlink E) l a)" "pk I (\<lambda>_. True) (retryDump (nl_AddrList (pe_netlink E) l f))"
    "pk I (\<lambda>_. True) (pe_SettleAddresses E n)"
  using assms(1) unfolding pod_laws_def Let_def by (auto intro: pk_leaves [OF _ assms(2)] pk_retryDump [OF _ assms(2)])

lemma lookup_post:
  assumes "pod_laws lks rts E" and "unused lks rts n w"
  shows "post (nl_LinkByName (pe_netlink E) n) (\<lambda>l w'. pod_at lks rts pn l (lk_Alias l) {} w') w"
proof (rule post_OkI)
  fix l w' assume run: "nl_LinkByName (pe_netlink E) n w = (Ok l, w')"
  note v = link_byname(1) [OF pod_lawsD(1) [OF assms(1)] run] leavesD [OF route_leaves(1) [OF pod_lawsD(2) [OF assms(1)]] run]
  have "lks w n = Some l" "lk_Name l = n" using link_byname(2) [OF pod_lawsD(1) [OF assms(1)] run] by simp_all
  then show "pod_at lks rts pn l (lk_Alias l) {} w'" using assms(2) v by (auto simp: pod_at_def unused_def)
qed

lemma alias_post:
  assumes "pod_laws lks rts E" and "pod_at lks rts pn l al A w"
  shows "post (nl_LinkSetAlias (pe_netlink E) l al') (\<lambda>_. pod_at lks rts pn l al' A) w"
  using assms unfolding pod_laws_def Let_def by (intro post_OkI) (auto simp: pod_at_def)

lemma route_post:
  assumes "pod_laws lks rts E" and "pod_at lks rts pn l al A w"
  shows "post (nl_RouteAdd (pe_netlink E) (pod_route pn l a)) (\<lambda>_. pod_at lks rts pn l al (insert a A)) w"
proof (rule post_OkI)
  fix x w' assume run: "nl_RouteAdd (pe_netlink E) (pod_route pn l a) w = (Ok x, w')"
  then obtain r where "installs (pod_route pn l a) r" "rts w' = insert r (rts w)"
    using route_add(1) [OF pod_lawsD(2) [OF assms(1)], of "pod_route pn l a" w "Ok x" w'] by auto
  moreover have "lks w' = lks w" using leavesD [OF pod_lawsD(3) [OF assms(1)] run] .
  ultimately show "pod_at lks rts pn l al (insert a A) w'" using assms(2) by (auto simp: pod_at_def)
qed

lemma host_v6_post:
  assumes "pod_laws lks rts E" and "pod_at lks rts pn l al A w"
  shows "post (host_v6 E pn conf l) (\<lambda>_. pod_at lks rts pn l al (if pc_IPv6 conf = nil_ip then A else insert (pc_IPv6 conf) A)) w"
proof (cases "pc_IPv6 conf = nil_ip")
  case False
  note leaf = pk_wrapA [OF pod_keeps(1) [OF assms(1) pod_at_viewed]] pk_wrapA [OF pod_keeps(2) [OF assms(1) pod_at_viewed]]
    pk_wrapA [OF pod_keeps(3) [OF assms(1) pod_at_viewed]]
  have "post (bindA (wrapA t (nl_RouteAdd (pe_netlink E) (pod_route pn l (pc_IPv6 conf)))) (\<lambda>_. returnA x))
      (\<lambda>_. pod_at lks rts pn l al (insert (pc_IPv6 conf) A)) w'" if "pod_at lks rts pn l al A w'" for t x w'
    by (rule post_bindA, unfold outcome_wrapA, rule route_post [OF assms(1) that]) (simp add: outcome_returnA)
  then show ?thesis
    unfolding host_v6_def Let_def if_not_P [OF False]
    by (intro post_pk_bindA [OF leaf(1) assms(2)] post_pk_bindA [OF leaf(3)] post_pk_bindA [OF leaf(2)]) (auto simp: outcome_errA split: option.splits)
qed (simp add: host_v6_def wp_simps assms(2))

lemma host_v4_post:
  assumes "pod_laws lks rts E" and "pod_at lks rts pn l al A w"
  shows "post (host_v4 E pn conf l) (\<lambda>_. pod_at lks rts pn l al (if pc_IPv4 conf = nil_ip then A else insert (pc_IPv4 conf) A)) w"
proof (cases "pc_IPv4 conf = nil_ip")
  case False
  show ?thesis
    unfolding host_v4_def Let_def if_not_P [OF False]
    by (rule post_pk_bindA [OF pk_wrapA [OF pod_keeps(1) [OF assms(1) pod_at_viewed]] assms(2)], unfold outcome_wrapA, erule route_post [OF assms(1)])
qed (simp add: host_v4_def wp_simps assms(2))

definition pod_addrs :: "PodNetConf \<Rightarrow> ip set" where
  "pod_addrs conf = {pc_IPv4 conf, pc_IPv6 conf} - {nil_ip}"

lemma SetupIPAM_post:
  assumes "pod_laws lks rts E"
  shows "post (SetupIPAM E pn nsPath podName podNS conf) (\<lambda>_ w'. \<exists>l. pod_at lks rts pn l (GenAlias conf (pc_ContainerId conf)) (pod_addrs conf) w') w"
proof -
  let ?al = "GenAlias conf (pc_ContainerId conf)"
  let ?A = "if pc_IPv6 conf = nil_ip then {} else {pc_IPv6 conf}"
  let ?B = "if pc_IPv4 conf = nil_ip then ?A else insert (pc_IPv4 conf) ?A"
  have any: "post m (\<lambda>_ _. True) v" for m :: "('a, 'z) act" and v by (rule post_OkI) simp
  have B: "?B = pod_addrs conf" by (auto simp: pod_addrs_def)
  have routes: "pk (pod_at lks rts pn l ?al ?B) (\<lambda>_. True) (container_routes ns pn conf h)" if "ns_laws lks rts ns" for ns l h
    unfolding container_routes_def Let_def by (intro pk_intros ns_keeps [OF that pod_at_viewed] TrueI)
  have body: "post (with_cleanup N l (bindA (wrapA t (nl_LinkSetAlias (pe_netlink E) l ?al)) (\<lambda>_.
      bindA (host_v6 E pn conf l) (\<lambda>h. bindA (host_v4 E pn conf l) (\<lambda>_. bindA (container_routes ns pn conf h) (\<lambda>_. returnA x))))))
      (\<lambda>_ w'. \<exists>l. pod_at lks rts pn l ?al (pod_addrs conf) w') v"
    if "ns_laws lks rts ns" "pod_at lks rts pn l (lk_Alias l) {} v" for N t l ns x v
  proof (rule post_with_cleanup, rule post_bindA)
    show "post (wrapA t (nl_LinkSetAlias (pe_netlink E) l ?al)) (\<lambda>_. pod_at lks rts pn l ?al {}) v"
      unfolding outcome_wrapA by (rule alias_post [OF assms that(2)])
  qed (rule post_bindA, erule host_v6_post [OF assms], rule post_bindA, erule host_v4_post [OF assms], erule post_pk_bindA [OF routes [OF that(1)]],
    auto simp: outcome_returnA B)
  have ns: "post (wrapA t (pe_GetNS E p)) (\<lambda>ns _. ns_laws lks rts ns) v" for t p v
    unfolding outcome_wrapA by (rule post_OkI) (rule pod_lawsD(5) [OF assms])
  show ?thesis
    unfolding SetupIPAM_def Let_def
    apply (rule post_bindA [OF ns])
    apply (rule post_bindA [OF any], rule post_bindA [OF any])
    apply (rule post_bindA, erule setup_container_post)
    apply (rule post_bindA, unfold outcome_wrapA, erule lookup_post [OF assms, where pn = pn])
    by (erule (1) body)
qed

subsection \<open>List\<close>

lemma dst_map_lookup:
  assumes "dst_map conv (\<lambda>_ _. True) rs m = Ok m'" and "\<And>r d. r \<in> set rs \<Longrightarrow> rt_LinkIndex r = i \<Longrightarrow> rt_Dst r = Some d \<Longrightarrow> conv (net_IP d) = a"
  shows "map_of m' i = (if \<exists>r \<in> set rs. rt_LinkIndex r = i then Some a else map_of m i)"
  using assms
proof (induction rs arbitrary: m)
  case (Cons r rs)
  obtain d where d: "rt_Dst r = Some d" using Cons.prems(1) by (cases "rt_Dst r") auto
  have "map_of m' i = (if \<exists>r \<in> set rs. rt_LinkIndex r = i then Some a else map_of (AList.update (rt_LinkIndex r) (conv (net_IP d)) m) i)"
    by (rule Cons.IH) (use Cons.prems d in auto)
  then show ?case using Cons.prems(2) [of r d] d by (auto simp: update_conv')
qed simp

lemma installs_pod_route:
  assumes "installs (pod_route pn l a) r" and "pn_podTableId pn \<noteq> 0"
  shows "rt_Dst r = Some (NewIPNet a)" "in_family f r \<longleftrightarrow> f = FAMILY_ALL \<or> ip_family a = f" "route_matches (FilterTable (pn_podTableId pn)) r"
    "0 < lk_Index l \<Longrightarrow> rt_LinkIndex r = lk_Index l"
  using assms by (auto simp: installs_def pod_route_def in_family_def route_family_def NewIPNet_def)

text \<open>The addresses of the pod in one family, by the routes of that family: there is at most one.\<close>

lemma link_ips_post:
  assumes laws: "pod_laws lks rts E" and at: "pod_at lks rts pn l al A w" and table: "pn_podTableId pn \<noteq> 0" and main: "\<not> pn_registerFromMain pn"
    and one: "{a \<in> A. ip_family a = f} \<subseteq> {b}" and "f \<noteq> FAMILY_ALL"
  shows "post (link_ips E pn f conv t) (\<lambda>m w'. pod_at lks rts pn l al A w' \<and>
    map_of m (lk_Index l) = (if {a \<in> A. ip_family a = f} = {} then None else Some (conv b))) w"
proof -
  let ?N = "pe_netlink E" and ?F = "FilterTable (pn_podTableId pn)"
  let ?routes = "\<lambda>w. {x \<in> rts w. in_family f x \<and> route_matches ?F x}"
  have dump: "outcome (nl_RouteListFiltered ?N f ?F) (\<lambda>rs w'. pod_at lks rts pn l al A w' \<and> set rs = ?routes w')
      (\<lambda>_. pod_at lks rts pn l al A) (\<lambda>_. True) v" if "pod_at lks rts pn l al A v" for v
  proof (rule outcome_call)
    fix r w' assume run: "nl_RouteListFiltered ?N f ?F v = (r, w')"
    have v: "rts w' = rts v" "lks w' = lks v"
      using route_list(1) [OF pod_lawsD(2) [OF laws] run] leavesD [OF pod_lawsD(4) [OF laws] run] by simp_all
    have at: "pod_at lks rts pn l al A w'" using that v by (simp add: pod_at_def)
    show "case r of Ok rs \<Rightarrow> pod_at lks rts pn l al A w' \<and> set rs = ?routes w' | Err _ \<Rightarrow> pod_at lks rts pn l al A w' | Panic _ \<Rightarrow> True"
      using at v route_list(2) [OF pod_lawsD(2) [OF laws] run] by (cases r) auto
  qed
  have lookup: "map_of m (lk_Index l) = (if {a \<in> A. ip_family a = f} = {} then None else Some (conv b))"
    if "pod_at lks rts pn l al A v" "set rs = ?routes v" "dst_map conv (\<lambda>_ _. True) rs [] = Ok m" for v rs m
  proof -
    have r: "\<exists>a \<in> A. ip_family a = f \<and> rt_Dst r = Some (NewIPNet a)" if mem: "r \<in> set rs" and idx: "rt_LinkIndex r = lk_Index l" for r
    proof -
      have "r \<in> rts v" using mem \<open>set rs = ?routes v\<close> by simp
      then obtain a where a: "a \<in> A" "installs (pod_route pn l a) r"
        using idx \<open>pod_at lks rts pn l al A v\<close> unfolding pod_at_def by blast
      moreover have "in_family f r" using mem \<open>set rs = ?routes v\<close> by simp
      ultimately show ?thesis using installs_pod_route(1,2) [OF a(2) table] \<open>f \<noteq> FAMILY_ALL\<close> by blast
    qed
    have "conv (net_IP d) = conv b" if "r \<in> set rs" "rt_LinkIndex r = lk_Index l" "rt_Dst r = Some d" for r d
      using r [OF that(1,2)] that(3) one by (auto simp: NewIPNet_def)
    from dst_map_lookup [OF that(3) this]
    have "map_of m (lk_Index l) = (if \<exists>r \<in> set rs. rt_LinkIndex r = lk_Index l then Some (conv b) else None)" by simp
    moreover have "(\<exists>r \<in> set rs. rt_LinkIndex r = lk_Index l) \<longleftrightarrow> {a \<in> A. ip_family a = f} \<noteq> {}"
    proof
      assume "{a \<in> A. ip_family a = f} \<noteq> {}"
      then obtain a r where a: "a \<in> A" "ip_family a = f" "r \<in> rts v" "installs (pod_route pn l a) r" "0 < lk_Index l"
        using \<open>pod_at lks rts pn l al A v\<close> by (auto simp: pod_at_def)
      then show "\<exists>r \<in> set rs. rt_LinkIndex r = lk_Index l"
        using installs_pod_route [OF a(4) table] \<open>set rs = ?routes v\<close> by blast
    qed (use r in blast)
    ultimately show ?thesis by simp
  qed
  have "post (wrapA s (retryDump (nl_RouteListFiltered ?N f ?F))) (\<lambda>rs w'. pod_at lks rts pn l al A w' \<and> set rs = ?routes w') w" for s
    unfolding outcome_wrapA retryDump_def by (rule retry_dump_post [OF dump at])
  then show ?thesis
    unfolding link_ips_def if_not_P [OF main]
  proof (rule post_bindA, elim conjE)
    fix rs v assume v: "pod_at lks rts pn l al A v" "set rs = ?routes v"
    show "post (bindA (resA (dst_map conv (\<lambda>_ _. True) rs [])) returnA) (\<lambda>m w'. pod_at lks rts pn l al A w' \<and>
        map_of m (lk_Index l) = (if {a \<in> A. ip_family a = f} = {} then None else Some (conv b))) v"
      using v(1) lookup [OF v] by (cases "dst_map conv (\<lambda>_ _. True) rs []") (simp_all add: wp_simps)
  qed
qed

lemma pn_list_post:
  assumes laws: "pod_laws lks rts E" and at: "pod_at lks rts pn l al A w" and table: "pn_podTableId pn \<noteq> 0" and main: "\<not> pn_registerFromMain pn"
    and v4: "{a \<in> A. ip_family a = FAMILY_V4} \<subseteq> {b4}" and v6: "{a \<in> A. ip_family a = FAMILY_V6} \<subseteq> {b6}"
    and parse: "parseLink (l\<lparr>lk_Alias := al\<rparr>) = Some c"
  shows "post (pn_list E pn) (\<lambda>confs _. c\<lparr>
      pc_IPv4 := (if {a \<in> A. ip_family a = FAMILY_V4} = {} then nil_ip else To4 b4),
      pc_IPv6 := (if {a \<in> A. ip_family a = FAMILY_V6} = {} then nil_ip else To16 b6), pc_HostVethName := lk_Name l\<rparr> \<in> set confs) w"
proof -
  let ?l = "l\<lparr>lk_Alias := al\<rparr>"
  have dump: "outcome (nl_LinkList (pe_netlink E)) (\<lambda>ls w'. pod_at lks rts pn l al A w' \<and> ?l \<in> set ls) (\<lambda>_. pod_at lks rts pn l al A) (\<lambda>_. True) v"
    if "pod_at lks rts pn l al A v" for v
  proof (rule outcome_call)
    fix r w' assume run: "nl_LinkList (pe_netlink E) v = (r, w')"
    then have "lks w' = lks v" "rts w' = rts v" "\<And>ls. r = Ok ls \<Longrightarrow> set ls = {x. lks v (lk_Name x) = Some x \<and> 0 < lk_Index x}"
      using laws unfolding pod_laws_def Let_def by auto
    then show "case r of Ok ls \<Rightarrow> pod_at lks rts pn l al A w' \<and> ?l \<in> set ls | Err _ \<Rightarrow> pod_at lks rts pn l al A w' | Panic _ \<Rightarrow> True"
      using that by (cases r) (auto simp: pod_at_def)
  qed
  have links: "post (wrapA s (retryDump (nl_LinkList (pe_netlink E)))) (\<lambda>ls w'. pod_at lks rts pn l al A w' \<and> ?l \<in> set ls) w" for s
    unfolding outcome_wrapA retryDump_def by (rule retry_dump_post [OF dump at])
  note ips = link_ips_post [OF laws _ table main]
  show ?thesis
    unfolding pn_list_def
    apply (rule post_bindA [OF links], elim conjE)
    apply (rule post_bindA, erule ips [OF _ v4], simp, elim conjE)
    apply (rule post_bindA, erule ips [OF _ v6], simp, elim conjE)
    by (auto simp: outcome_returnA map_filter_def conf_of_def parse intro!: image_eqI [where x = ?l])
qed

text \<open>
  C29. What \<open>SetupIPAM\<close> has set up is found again: once it has succeeded, a list of the pods of the node, as \<open>coild\<close> makes it when it restarts, contains the pod with its pool, container,
  interface and addresses (IPv4 addresses in four bytes), so that they can be registered again.
\<close>

theorem SetupIPAM_listed:
  assumes "pod_laws lks rts E" and "CHR '':'' \<notin> set (pc_PoolName conf)" and "CHR '':'' \<notin> set (pc_ContainerId conf)" and "CHR '':'' \<notin> set (pc_IFace conf)"
    and "pc_IPv4 conf = nil_ip \<or> To4 (pc_IPv4 conf) \<noteq> nil_ip" and "To4 (pc_IPv6 conf) = nil_ip"
    and "pn_podTableId pn \<noteq> 0" and "\<not> pn_registerFromMain pn"
    and "SetupIPAM E pn nsPath podName podNS conf w = (Ok res, w1)" and "pn_list E pn w1 = (Ok confs, w2)"
  shows "\<exists>veth. conf\<lparr>pc_IPv4 := To4 (pc_IPv4 conf), pc_IPv6 := To16 (pc_IPv6 conf), pc_HostVethName := veth\<rparr> \<in> set confs"
proof -
  obtain l where at: "pod_at lks rts pn l (GenAlias conf (pc_ContainerId conf)) (pod_addrs conf) w1"
    using post_OkD [OF SetupIPAM_post [OF assms(1)] assms(9)] by blast
  have v4: "{a \<in> pod_addrs conf. ip_family a = FAMILY_V4} = {pc_IPv4 conf} - {nil_ip}"
    and v6: "{a \<in> pod_addrs conf. ip_family a = FAMILY_V6} = {pc_IPv6 conf} - {nil_ip}"
    using assms(5,6) by (auto simp: pod_addrs_def ip_family_def split: if_splits)
  have parse: "parseLink (l\<lparr>lk_Alias := GenAlias conf (pc_ContainerId conf)\<rparr>) = Some (conf\<lparr>pc_IPv4 := nil_ip, pc_IPv6 := nil_ip, pc_HostVethName := []\<rparr>)"
    using parseLink_GenAlias [OF assms(2-4), of "l\<lparr>lk_Alias := GenAlias conf (pc_ContainerId conf)\<rparr>"] by simp
  have "To4 nil_ip = nil_ip" "To16 nil_ip = nil_ip" by (simp_all add: To4_def To16_def)
  then show ?thesis
    using post_OkD [OF pn_list_post [OF assms(1) at assms(7,8) _ _ parse, of "pc_IPv4 conf" "pc_IPv6 conf"] assms(10)]
    by (auto simp: v4 v6 split: if_splits)
qed

subsection \<open>A reference node\<close>

text \<open>The reference kernel with containers: a new veth pair gets an index that no route uses, and what is done inside a container does not show outside.\<close>

definition fresh_index :: "nl_world \<Rightarrow> int" where
  "fresh_index w = fold max (map rt_LinkIndex (nw_routes w)) 0 + 1"

definition ref_veth :: "string \<Rightarrow> nl_world \<Rightarrow> (link \<times> link) res \<times> nl_world" where
  "ref_veth n w = (let name = (if n = [] then ''veth1'' else n); h = (new_link name Veth)\<lparr>lk_Index := fresh_index w\<rparr> in
     if find_link name w \<noteq> None then (Err (Sentinel EEXIST), w) else (Ok (h, new_link ''eth0'' Veth), w\<lparr>nw_links := nw_links w @ [h]\<rparr>))"

definition ref_pods :: "(nl_world, unit) pod_env" where
  "ref_pods = \<lparr>pe_netlink = ref_netlink\<lparr>nl_LinkList := (\<lambda>w. (Ok (filter (\<lambda>l. find_link (lk_Name l) w = Some l \<and> 0 < lk_Index l) (nw_links w)), w))\<rparr>,
     pe_GetNS = (\<lambda>_. returnA \<lparr>ns_Enter = returnA (), ns_netlink = idle_netlink, ns_SetupVethWithName = (\<lambda>_ n _. ref_veth n),
       ns_SettleAddresses = (\<lambda>_. returnA ()), ns_inside = ()\<rparr>),
     pe_SettleAddresses = (\<lambda>_. returnA ()), pe_EnableIP4Forward = returnA (), pe_EnableIP6Forward = returnA (), pe_DetectMTU = returnA 1500,
     pe_ip = (\<lambda>_. returnA []), pe_UnmarshalLinkData = (\<lambda>_. Ok []), pe_UnmarshalNetNsData = (\<lambda>_. Ok []), pe_NsRunDir = ''/var/run/netns''\<rparr>"

lemma fresh_index: "0 < fresh_index w" "r \<in> set (nw_routes w) \<Longrightarrow> rt_LinkIndex r \<noteq> fresh_index w"
proof -
  have "fold max (map rt_LinkIndex (nw_routes w)) 0 = Max (set (0 # map rt_LinkIndex (nw_routes w)))" by (rule Max.set_eq_fold [symmetric])
  moreover have "0 \<le> Max (set (0 # map rt_LinkIndex (nw_routes w)))" by (rule Max_ge) auto
  moreover have "rt_LinkIndex r \<le> Max (set (0 # map rt_LinkIndex (nw_routes w)))" if "r \<in> set (nw_routes w)" for r
    by (rule Max_ge) (use that in auto)
  ultimately show "0 < fresh_index w" "r \<in> set (nw_routes w) \<Longrightarrow> rt_LinkIndex r \<noteq> fresh_index w"
    unfolding fresh_index_def by fastforce+
qed

lemma ref_veth_unused:
  assumes "ref_veth n w = (Ok (h, c), w')"
  shows "unused ref_links ref_routes (lk_Name h) w'"
proof -
  have "w' = w\<lparr>nw_links := nw_links w @ [h]\<rparr>" "find_link (lk_Name h) w = None" "lk_Index h = fresh_index w"
    using assms by (auto simp: ref_veth_def Let_def new_link_def split: if_splits)
  then show ?thesis using fresh_index(1) [of w] fresh_index(2) [of _ w] by (auto simp: unused_def find_link_def find_append)
qed

lemma ref_pod_laws: "pod_laws ref_links ref_routes ref_pods"
proof -
  have "ns_laws ref_links ref_routes (\<lparr>ns_Enter = returnA (), ns_netlink = idle_netlink, ns_SetupVethWithName = (\<lambda>_ n _. ref_veth n),
       ns_SettleAddresses = (\<lambda>_. returnA ()), ns_inside = ()\<rparr> :: (nl_world, unit) netns)"
    by (auto simp: ns_laws_def Let_def idle_netlink_def leaves_def returnA_def intro: ref_veth_unused)
  moreover have "link_laws ref_links (pe_netlink ref_pods)" "route_laws ref_routes (pe_netlink ref_pods)"
    using ref_link_laws ref_route_laws by (simp_all add: ref_pods_def link_laws_def route_laws_def)
  moreover have "set (filter (\<lambda>l. find_link (lk_Name l) w = Some l \<and> 0 < lk_Index l) (nw_links w)) = {l. find_link (lk_Name l) w = Some l \<and> 0 < lk_Index l}" for w
    by (auto simp: find_link_def find_Some_iff)
  moreover have "ref_links (upd_link n (lk_Alias_update (\<lambda>_. a)) w) = (ref_links w)(n := map_option (lk_Alias_update (\<lambda>_. a)) (find_link n w))" for n a w
    by (auto simp: find_upd_link)
  moreover have "find_link n (w\<lparr>nw_addrs := as\<rparr>) = find_link n w" "find_link n (w\<lparr>nw_routes := rs\<rparr>) = find_link n w" for n w as rs
    by (simp_all add: find_link_def)
  moreover have "nw_routes (upd_link n f w) = nw_routes w" for n f w by (simp add: upd_link_def)
  ultimately show ?thesis
    unfolding pod_laws_def Let_def by (intro conjI) (simp_all add: ref_pods_def ref_netlink_def leaves_def returnA_def okA_def)
qed

theorem SetupIPAM_listed_witness:
  "\<exists>res w1 confs w2 veth. SetupIPAM ref_pods (NewPodNetwork 116 2000 30 [10, 0, 0, 1] nil_ip False False True) ''/ns'' ''p'' ''default'' example_conf empty_world = (Ok res, w1) \<and>
    pn_list ref_pods (NewPodNetwork 116 2000 30 [10, 0, 0, 1] nil_ip False False True) w1 = (Ok confs, w2) \<and>
    example_conf\<lparr>pc_IPv4 := To4 [10, 2, 0, 1], pc_IPv6 := To16 nil_ip, pc_HostVethName := veth\<rparr> \<in> set confs"
proof -
  let ?pn = "NewPodNetwork 116 2000 30 [10, 0, 0, 1] nil_ip False False True"
  let ?run = "SetupIPAM ref_pods ?pn ''/ns'' ''p'' ''default'' example_conf empty_world"
  have "case fst ?run of Ok _ \<Rightarrow> True | _ \<Rightarrow> False" "case fst (pn_list ref_pods ?pn (snd ?run)) of Ok _ \<Rightarrow> True | _ \<Rightarrow> False" by code_simp+
  then have "\<exists>res. fst ?run = Ok res" "\<exists>confs. fst (pn_list ref_pods ?pn (snd ?run)) = Ok confs" by (auto split: res.splits)
  then obtain res w1 confs w2 where run: "?run = (Ok res, w1)" "pn_list ref_pods ?pn w1 = (Ok confs, w2)"
    by (metis prod.collapse snd_conv)
  have "\<exists>veth. example_conf\<lparr>pc_IPv4 := To4 (pc_IPv4 example_conf), pc_IPv6 := To16 (pc_IPv6 example_conf), pc_HostVethName := veth\<rparr> \<in> set confs"
    by (rule SetupIPAM_listed [OF ref_pod_laws _ _ _ _ _ _ _ run]) (simp_all add: example_conf_def NewPodNetwork_def To4_def)
  then show ?thesis using run by (auto simp: example_conf_def)
qed

end
