(* ===== verification/Fou.thy ===== *)
theory Fou
  imports Netlink Go_Sha1
begin

text \<open>
  Foo-over-UDP tunnels, \<open>pkg/fou/fou.go\<close>: the tunnel device for a peer is named after its address;
  \<open>AddPeer\<close> finds it, recreates it when the source port setting changed, or adds it, and then makes
  sure of the shared device that decapsulates. The calls of netlink, sysctl and modprobe are parameters.
\<close>

section \<open>The program\<close>

definition FoU4LinkPrefix :: string where "FoU4LinkPrefix = ''fou4_''"
definition FoU6LinkPrefix :: string where "FoU6LinkPrefix = ''fou6_''"
definition fouDummy :: string where "fouDummy = ''fou-dummy''"

definition fouName :: "ip \<Rightarrow> string" where
  "fouName addr = (let v4 = To4 addr in
     if v4 \<noteq> nil_ip then FoU4LinkPrefix @ hex_bytes v4
     else FoU6LinkPrefix @ hex_bytes (take 4 (sha1_Sum addr)))"

record fouTunnel =
  ft_port :: int
  ft_local4 :: ip
  ft_local6 :: ip

record 'w fou_env =
  fe_netlink :: "'w netlink_ops"
  fe_modprobe :: "string \<Rightarrow> ('w, unit) act"
  fe_Sysctl :: "string \<Rightarrow> string \<Rightarrow> ('w, unit) act"
  fe_EnableIP4Forward :: "('w, unit) act"
  fe_EnableIP6Forward :: "('w, unit) act"

definition modProbe :: "'w fou_env \<Rightarrow> string \<Rightarrow> ('w, unit) act" where
  "modProbe E m = wrapA (''modprobe '' @ m @ '' failed with'') (fe_modprobe E m)"

definition NewFoUTunnel :: "int \<Rightarrow> ip \<Rightarrow> ip \<Rightarrow> fouTunnel res" where
  "NewFoUTunnel port localIPv4 localIPv6 =
     (if localIPv4 \<noteq> nil_ip \<and> To4 localIPv4 = nil_ip then Panic ''invalid IPv4 address''
      else if localIPv6 \<noteq> nil_ip \<and> To4 localIPv6 \<noteq> nil_ip then Panic ''invalid IPv6 address''
      else Ok \<lparr>ft_port = port, ft_local4 = localIPv4, ft_local6 = localIPv6\<rparr>)"

definition init4 :: "'w fou_env \<Rightarrow> fouTunnel \<Rightarrow> ('w, unit) act" where
  "init4 E t =
     bindA (wrapA ''failed to load fou module'' (modProbe E ''fou'')) (\<lambda>_.
     bindA (wrapA ''netlink: fou add failed'' (nl_FouAdd (fe_netlink E) FAMILY_V4 4 (ft_port t))) (\<lambda>_.
     bindA (wrapA ''setting net.ipv4.conf.default.rp_filter=0 failed'' (fe_Sysctl E ''net.ipv4.conf.default.rp_filter'' ''0'')) (\<lambda>_.
     bindA (wrapA ''setting net.ipv4.conf.all.rp_filter=0 failed'' (fe_Sysctl E ''net.ipv4.conf.all.rp_filter'' ''0'')) (\<lambda>_.
     wrapA ''failed to enable IPv4 forwarding'' (fe_EnableIP4Forward E)))))"

definition init6 :: "'w fou_env \<Rightarrow> fouTunnel \<Rightarrow> ('w, unit) act" where
  "init6 E t =
     bindA (wrapA ''failed to load fou6 module'' (modProbe E ''fou6'')) (\<lambda>_.
     bindA (wrapA ''netlink: fou add failed'' (nl_FouAdd (fe_netlink E) FAMILY_V6 41 (ft_port t))) (\<lambda>_.
     wrapA ''failed to enable IPv6 forwarding'' (fe_EnableIP6Forward E)))"

definition fou_Init :: "'w fou_env \<Rightarrow> fouTunnel \<Rightarrow> ('w, unit) act" where
  "fou_Init E t =
     bindA (tryA (nl_LinkByName (fe_netlink E) fouDummy)) (\<lambda>r. case r of
       Inr _ \<Rightarrow> returnA ()
     | Inl e \<Rightarrow>
         if e \<noteq> Sentinel LinkNotFoundError then errA e
         else bindA (if ft_local4 t \<noteq> nil_ip then init4 E t else returnA ()) (\<lambda>_.
              bindA (if ft_local6 t \<noteq> nil_ip then init6 E t else returnA ()) (\<lambda>_.
              nl_LinkAdd (fe_netlink E) (new_link fouDummy Dummy))))"

definition fou_IsInitialized :: "'w fou_env \<Rightarrow> ('w, bool) act" where
  "fou_IsInitialized E =
     bindA (tryA (nl_LinkByName (fe_netlink E) fouDummy)) (\<lambda>r. case r of Inr _ \<Rightarrow> returnA True | Inl _ \<Rightarrow> returnA False)"

definition encap_sport :: "fouTunnel \<Rightarrow> bool \<Rightarrow> nat" where
  "encap_sport t sportAuto = (if sportAuto then 0 else nat (ft_port t mod 2 ^ 16))"

definition peer_tunnel :: "fouTunnel \<Rightarrow> ip \<Rightarrow> ip \<Rightarrow> bool \<Rightarrow> tunnel" where
  "peer_tunnel t loc addr sportAuto = \<lparr>tn_Ttl = 225, tn_EncapDport = nat (ft_port t mod 2 ^ 16),
     tn_EncapSport = encap_sport t sportAuto, tn_Remote = addr, tn_Local = loc, tn_FlowBased = False\<rparr>"

definition addOrRecreatePeer4 :: "'w fou_env \<Rightarrow> fouTunnel \<Rightarrow> ip \<Rightarrow> bool \<Rightarrow> ('w, string) act" where
  "addOrRecreatePeer4 E t addr sportAuto =
     (let linkName = fouName addr;
          add = bindA (wrapA ''netlink: failed to add fou link''
                  (nl_LinkAdd (fe_netlink E) (new_link linkName (Iptun (peer_tunnel t (ft_local4 t) addr sportAuto)))))
                (\<lambda>_. returnA linkName)
      in bindA (tryA (nl_LinkByName (fe_netlink E) linkName)) (\<lambda>r. case r of
           Inr link \<Rightarrow>
             (case lk_Kind link of
                Iptun iptun \<Rightarrow>
                  if encap_sport t sportAuto \<noteq> tn_EncapSport iptun
                  then bindA (wrapA ''netlink: failed to delete fou link'' (nl_LinkDel (fe_netlink E) link)) (\<lambda>_. add)
                  else returnA linkName
              | _ \<Rightarrow> errA (ErrorMsg ''link is not IPTun''))
         | Inl e \<Rightarrow> if e \<noteq> Sentinel LinkNotFoundError then errA (Wrap ''netlink: failed to get link'' [e]) else add))"

definition addOrRecreatePeer6 :: "'w fou_env \<Rightarrow> fouTunnel \<Rightarrow> ip \<Rightarrow> bool \<Rightarrow> ('w, string) act" where
  "addOrRecreatePeer6 E t addr sportAuto =
     (let linkName = fouName addr;
          add = bindA (wrapA ''netlink: failed to add fou6 link''
                  (nl_LinkAdd (fe_netlink E) (new_link linkName (Ip6tnl (peer_tunnel t (ft_local6 t) addr sportAuto)))))
                (\<lambda>_. returnA linkName)
      in bindA (tryA (nl_LinkByName (fe_netlink E) linkName)) (\<lambda>r. case r of
           Inr link \<Rightarrow>
             (case lk_Kind link of
                Ip6tnl ip6tnl \<Rightarrow>
                  if encap_sport t sportAuto \<noteq> tn_EncapSport ip6tnl
                  then bindA (wrapA ''netlink: failed to delete fou6 link'' (nl_LinkDel (fe_netlink E) link)) (\<lambda>_. add)
                  else returnA linkName
              | _ \<Rightarrow> errA (ErrorMsg ''link is not Ip6tnl''))
         | Inl e \<Rightarrow> if e \<noteq> Sentinel LinkNotFoundError then errA (Wrap ''netlink: failed to get link'' [e]) else add))"

text \<open>The flow based device that decapsulates, and the fallback device of the kernel.\<close>

definition flow_based :: tunnel where
  "flow_based = \<lparr>tn_Ttl = 0, tn_EncapDport = 0, tn_EncapSport = 0, tn_Remote = nil_ip, tn_Local = nil_ip, tn_FlowBased = True\<rparr>"

definition configureDevice :: "'w fou_env \<Rightarrow> link \<Rightarrow> ('w, unit) act" where
  "configureDevice E link = wrapA (''netlink: failed to set link '' @ lk_Name link @ '' up'') (nl_LinkSetUp (fe_netlink E) link)"

definition setupDevice :: "'w fou_env \<Rightarrow> link \<Rightarrow> ('w, unit) act" where
  "setupDevice E link =
     bindA (bindA (tryA (nl_LinkByName (fe_netlink E) (lk_Name link))) (\<lambda>r. case r of
       Inr l \<Rightarrow> returnA l
     | Inl e \<Rightarrow>
         if \<not> errors_Is e LinkNotFoundError then errA e
         else bindA (wrapA (''netlink: failed to create device '' @ lk_Name link) (nl_LinkAdd (fe_netlink E) link)) (\<lambda>_.
              wrapA (''netlink: failed to retrieve created device '' @ lk_Name link) (nl_LinkByName (fe_netlink E) (lk_Name link))))) (\<lambda>l.
     wrapA (''failed to set up device '' @ lk_Name l) (configureDevice E l))"

definition renameDevice :: "'w fou_env \<Rightarrow> string \<Rightarrow> string \<Rightarrow> ('w, unit) act" where
  "renameDevice E frm to =
     bindA (tryA (nl_LinkByName (fe_netlink E) frm)) (\<lambda>r. case r of
       Inl e \<Rightarrow> returnA ()
     | Inr link \<Rightarrow> wrapA (''netlink: failed to rename device '' @ frm @ '' to '' @ to) (nl_LinkSetName (fe_netlink E) link to))"

definition setupFlowBasedIP4TunDevice :: "'w fou_env \<Rightarrow> ('w, unit) act" where
  "setupFlowBasedIP4TunDevice E =
     bindA (wrapA ''creating coil_ipip4'' (setupDevice E (new_link ''coil_ipip4'' (Iptun flow_based)))) (\<lambda>_.
     wrapA ''renaming fallback device tunl0'' (renameDevice E ''tunl0'' ''coil_tunl''))"

definition setupFlowBasedIP6TunDevice :: "'w fou_env \<Rightarrow> ('w, unit) act" where
  "setupFlowBasedIP6TunDevice E =
     bindA (wrapA ''creating coil_ipip6'' (setupDevice E (new_link ''coil_ipip6'' (Ip6tnl flow_based)))) (\<lambda>_.
     wrapA ''renaming fallback device tunl0'' (renameDevice E ''ip6tnl0'' ''coil_ip6tnl''))"

definition addPeer4 :: "'w fou_env \<Rightarrow> fouTunnel \<Rightarrow> ip \<Rightarrow> bool \<Rightarrow> ('w, link) act" where
  "addPeer4 E t addr sportAuto =
     (if ft_local4 t = nil_ip then errA (Sentinel FouErrIPFamilyMismatch)
      else bindA (addOrRecreatePeer4 E t addr sportAuto) (\<lambda>linkName.
           bindA (wrapA ''netlink: failed to setup ipip device'' (setupFlowBasedIP4TunDevice E)) (\<lambda>_.
           nl_LinkByName (fe_netlink E) linkName)))"

definition addPeer6 :: "'w fou_env \<Rightarrow> fouTunnel \<Rightarrow> ip \<Rightarrow> bool \<Rightarrow> ('w, link) act" where
  "addPeer6 E t addr sportAuto =
     (if ft_local6 t = nil_ip then errA (Sentinel FouErrIPFamilyMismatch)
      else bindA (addOrRecreatePeer6 E t addr sportAuto) (\<lambda>linkName.
           bindA (wrapA ''netlink: failed to setup ipip device'' (setupFlowBasedIP6TunDevice E)) (\<lambda>_.
           nl_LinkByName (fe_netlink E) linkName)))"

definition AddPeer :: "'w fou_env \<Rightarrow> fouTunnel \<Rightarrow> ip \<Rightarrow> bool \<Rightarrow> ('w, link) act" where
  "AddPeer E t addr sportAuto =
     (let v4 = To4 addr in if v4 \<noteq> nil_ip then addPeer4 E t v4 sportAuto else addPeer6 E t addr sportAuto)"

definition DelPeer :: "'w fou_env \<Rightarrow> ip \<Rightarrow> ('w, unit) act" where
  "DelPeer E addr =
     bindA (tryA (nl_LinkByName (fe_netlink E) (fouName addr))) (\<lambda>r. case r of
       Inr link \<Rightarrow> nl_LinkDel (fe_netlink E) link
     | Inl e \<Rightarrow> if e = Sentinel LinkNotFoundError then returnA () else errA e)"

section \<open>Names of tunnel devices\<close>

lemma length_hex_bytes: "length (hex_bytes bs) = 2 * length bs"
  by (induction bs) (simp_all add: hex_bytes_def)

lemma fouName_length: "length (fouName addr) = 13"
  by (simp add: fouName_def Let_def FoU4LinkPrefix_def FoU6LinkPrefix_def length_hex_bytes)

lemma of_char_hexdigit: "d < 16 \<Longrightarrow> of_char (hexdigit d) = (if d < 10 then 48 + d else 87 + d)"
  by (simp add: hexdigit_def)

lemma hexdigit_inject:
  assumes "d < 16" and "e < 16" and "hexdigit d = hexdigit e"
  shows "d = e"
proof -
  have "of_char (hexdigit d) = (of_char (hexdigit e) :: nat)" using assms(3) by simp
  then show ?thesis using of_char_hexdigit [OF assms(1)] of_char_hexdigit [OF assms(2)] by (auto split: if_splits)
qed

lemma byte_digits: "unat (b :: byte) div 16 < 16" "unat b mod 16 < 16"
  using unat_byte_lt [of b] by (simp_all add: less_mult_imp_div_less)

lemma byte_digits_eq: "unat (a :: byte) div 16 = unat b div 16 \<Longrightarrow> unat a mod 16 = unat b mod 16 \<Longrightarrow> a = b"
  by (metis div_mult_mod_eq word_unat_eq_iff)

lemma hex_bytes_inject: "hex_bytes xs = hex_bytes ys \<Longrightarrow> xs = ys"
proof (induction xs arbitrary: ys)
  case Nil
  then show ?case using length_hex_bytes [of ys] by (simp add: hex_bytes_def)
next
  case (Cons x xs)
  then obtain y zs where ys: "ys = y # zs" by (cases ys) (auto simp: hex_bytes_def)
  have e: "hexdigit (unat x div 16) = hexdigit (unat y div 16)" "hexdigit (unat x mod 16) = hexdigit (unat y mod 16)"
      "hex_bytes xs = hex_bytes zs" using Cons.prems by (auto simp: ys hex_bytes_def)
  have "unat x div 16 = unat y div 16" by (rule hexdigit_inject [OF byte_digits(1) byte_digits(1) e(1)])
  moreover have "unat x mod 16 = unat y mod 16" by (rule hexdigit_inject [OF byte_digits(2) byte_digits(2) e(2)])
  ultimately show ?case using Cons.IH [OF e(3)] byte_digits_eq ys by blast
qed

lemma fouName4: "To4 a \<noteq> [] \<Longrightarrow> fouName a = FoU4LinkPrefix @ hex_bytes (To4 a)"
  by (simp add: fouName_def Let_def)

lemma fouName6: "To4 a = [] \<Longrightarrow> fouName a = FoU6LinkPrefix @ hex_bytes (take 4 (sha1_Sum a))"
  by (simp add: fouName_def Let_def)

lemma fouName4_inject: "To4 a \<noteq> [] \<Longrightarrow> To4 b \<noteq> [] \<Longrightarrow> fouName a = fouName b \<longleftrightarrow> To4 a = To4 b"
  by (auto simp: fouName4 dest: hex_bytes_inject)

lemma fouName46: "To4 a \<noteq> [] \<Longrightarrow> To4 b = [] \<Longrightarrow> fouName a \<noteq> fouName b"
  by (simp add: fouName4 fouName6 FoU4LinkPrefix_def FoU6LinkPrefix_def)

text \<open>The names of the other devices that \<open>AddPeer\<close> touches.\<close>

definition shared_devices :: "string set" where
  "shared_devices = {''coil_ipip4'', ''tunl0'', ''coil_tunl'', ''coil_ipip6'', ''ip6tnl0'', ''coil_ip6tnl'', fouDummy}"

lemma fouName_not_shared: "fouName a \<notin> shared_devices"
  using fouName_length [of a] by (auto simp: shared_devices_def fouDummy_def fouName_def Let_def FoU4LinkPrefix_def FoU6LinkPrefix_def)

section \<open>What the calls do to the links\<close>

text \<open>\<open>only lks S m\<close>: however the action ends, links with names outside \<open>S\<close> are as they were.\<close>

definition only :: "('w \<Rightarrow> string \<Rightarrow> link option) \<Rightarrow> string set \<Rightarrow> ('w, 'a) act \<Rightarrow> bool" where
  "only lks S m \<longleftrightarrow> (\<forall>k x. k \<notin> S \<longrightarrow> keeps (\<lambda>w. lks w k = x) m)"

lemma onlyI: "(\<And>k w r w'. k \<notin> S \<Longrightarrow> m w = (r, w') \<Longrightarrow> lks w' k = lks w k) \<Longrightarrow> only lks S m"
  unfolding only_def by (intro allI impI keepsI) simp

lemma onlyD: "only lks S m \<Longrightarrow> m w = (r, w') \<Longrightarrow> k \<notin> S \<Longrightarrow> lks w' k = lks w k"
  unfolding only_def using keepsD [of "\<lambda>w'. lks w' k = lks w k" m w r w'] by blast

named_theorems only_intros \<open>frames of the combinators\<close>

lemma only_combinators [only_intros]:
  "only lks S (returnA x)" "only lks S (errA e)"
  "only lks S m \<Longrightarrow> only lks S (wrapA t m)" "only lks S m \<Longrightarrow> only lks S (tryA m)"
  by (simp_all add: only_def keeps_intros)

lemma only_bindA [only_intros]: "only lks S m \<Longrightarrow> (\<And>x. only lks S (f x)) \<Longrightarrow> only lks S (bindA m f)"
  by (simp add: only_def keeps_bindA)

lemma only_cases [only_intros]:
  "(b \<Longrightarrow> only lks S m) \<Longrightarrow> (\<not> b \<Longrightarrow> only lks S m') \<Longrightarrow> only lks S (if b then m else m')"
  "(\<And>x. y = Inl x \<Longrightarrow> only lks S (f x)) \<Longrightarrow> (\<And>x. y = Inr x \<Longrightarrow> only lks S (g x)) \<Longrightarrow> only lks S (case y of Inl x \<Rightarrow> f x | Inr x \<Rightarrow> g x)"
  by (simp, cases y, simp_all)

lemma only_mono: "only lks S m \<Longrightarrow> S \<subseteq> T \<Longrightarrow> only lks T m"
  unfolding only_def by blast

lemma only_call:
  assumes "link_laws lks N"
  shows "only lks S (nl_LinkByName N n)" and "lk_Name l \<in> S \<Longrightarrow> only lks S (nl_LinkAdd N l)" and "lk_Name l \<in> S \<Longrightarrow> only lks S (nl_LinkDel N l)"
    and "lk_Name l \<in> S \<Longrightarrow> only lks S (nl_LinkSetUp N l)" and "lk_Name l \<in> S \<Longrightarrow> n \<in> S \<Longrightarrow> only lks S (nl_LinkSetName N l n)"
proof -
  show "only lks S (nl_LinkByName N n)" by (rule onlyI) (drule link_byname(1) [OF assms], simp)
  show "only lks S (nl_LinkAdd N l)" if "lk_Name l \<in> S"
  proof (rule onlyI)
    fix k w r w' assume "k \<notin> S" "nl_LinkAdd N l w = (r, w')"
    then show "lks w' k = lks w k" using link_add [OF assms] that by (fastforce split: if_splits)
  qed
  show "only lks S (nl_LinkDel N l)" if "lk_Name l \<in> S"
  proof (rule onlyI)
    fix k w r w' assume "k \<notin> S" "nl_LinkDel N l w = (r, w')"
    then show "lks w' k = lks w k" using link_del [OF assms] that by (fastforce split: if_splits)
  qed
  show "only lks S (nl_LinkSetUp N l)" if "lk_Name l \<in> S"
  proof (rule onlyI)
    fix k w r w' assume "k \<notin> S" "nl_LinkSetUp N l w = (r, w')"
    then show "lks w' k = lks w k" using link_setup [OF assms] that by (fastforce split: if_splits)
  qed
  show "only lks S (nl_LinkSetName N l n)" if "lk_Name l \<in> S" "n \<in> S"
  proof (rule onlyI)
    fix k w r w' assume "k \<notin> S" "nl_LinkSetName N l n w = (r, w')"
    then show "lks w' k = lks w k" using link_rename [OF assms] that by (fastforce split: if_splits)
  qed
qed

text \<open>A lookup followed by an action on the link found.\<close>

lemma only_found:
  assumes "link_laws lks N" and "\<And>l. lk_Name l = n \<Longrightarrow> only lks S (f (Inr l))" and "\<And>e. only lks S (f (Inl e))"
  shows "only lks S (bindA (tryA (nl_LinkByName N n)) f)"
proof (rule onlyI)
  fix k w r w' assume k: "k \<notin> S" and run: "bindA (tryA (nl_LinkByName N n)) f w = (r, w')"
  obtain q w1 where b: "nl_LinkByName N n w = (q, w1)" by (metis prod.collapse)
  note law = link_byname [OF assms(1) b]
  show "lks w' k = lks w k"
  proof (cases q)
    case (Ok l)
    then have "f (Inr l) w1 = (r, w')" using run b by (simp add: bindA_def tryA_def)
    then show ?thesis using onlyD [OF assms(2)] law(1,2) Ok k by metis
  next
    case (Err e)
    then have "f (Inl e) w1 = (r, w')" using run b by (simp add: bindA_def tryA_def)
    then show ?thesis using onlyD [OF assms(3)] law(1) k by metis
  next
    case (Panic p)
    then show ?thesis using run b law(1) by (simp add: bindA_def tryA_def)
  qed
qed

lemma renameDevice_only: "link_laws lks (fe_netlink E) \<Longrightarrow> only lks {a, b} (renameDevice E a b)"
  unfolding renameDevice_def by (rule only_found; simp add: only_intros only_call)

lemma setupDevice_only:
  assumes "link_laws lks (fe_netlink E)"
  shows "only lks {lk_Name l} (setupDevice E l)"
proof (rule onlyI)
  fix k w r w' assume k: "k \<notin> {lk_Name l}" and run: "setupDevice E l w = (r, w')"
  let ?get = "bindA (tryA (nl_LinkByName (fe_netlink E) (lk_Name l))) (\<lambda>r. case r of Inr l \<Rightarrow> returnA l
     | Inl e \<Rightarrow> if \<not> errors_Is e LinkNotFoundError then errA e
         else bindA (wrapA (''netlink: failed to create device '' @ lk_Name l) (nl_LinkAdd (fe_netlink E) l)) (\<lambda>_.
              wrapA (''netlink: failed to retrieve created device '' @ lk_Name l) (nl_LinkByName (fe_netlink E) (lk_Name l))))"
  obtain q w1 where g: "?get w = (q, w1)" by (cases "?get w")
  have "only lks {lk_Name l} ?get" 
    by (rule only_found [OF assms]; simp add: only_intros only_call [OF assms])
  from onlyD [OF this g k] have w1: "lks w1 k = lks w k" .
  have name: "lk_Name d = lk_Name l" if q: "q = Ok d" for d
  proof -
    obtain y w2 where y: "tryA (nl_LinkByName (fe_netlink E) (lk_Name l)) w = (Ok y, w2)"
        "(case y of Inr l \<Rightarrow> returnA l
     | Inl e \<Rightarrow> if \<not> errors_Is e LinkNotFoundError then errA e
         else bindA (wrapA (''netlink: failed to create device '' @ lk_Name l) (nl_LinkAdd (fe_netlink E) l)) (\<lambda>_.
              wrapA (''netlink: failed to retrieve created device '' @ lk_Name l) (nl_LinkByName (fe_netlink E) (lk_Name l)))) w2 = (Ok d, w1)"
      using g unfolding q bindA_Ok_iff by blast
    show ?thesis
    proof (cases y)
      case (Inr d')
      then have "nl_LinkByName (fe_netlink E) (lk_Name l) w = (Ok d, w2)"
        using y by (auto simp: tryA_def returnA_def split: prod.splits res.splits)
      then show ?thesis using link_byname(2) [OF assms] by blast
    next
      case (Inl e)
      then obtain w3 where "nl_LinkByName (fe_netlink E) (lk_Name l) w3 = (Ok d, w1)"
        using y(2) by (auto simp: bindA_Ok_iff wrapA_Ok_iff errA_def split: if_splits)
      then show ?thesis using link_byname(2) [OF assms] by blast
    qed
  qed
  show "lks w' k = lks w k"
  proof (cases q)
    case (Ok d)
    then have conf: "wrapA (''failed to set up device '' @ lk_Name d) (configureDevice E d) w1 = (r, w')"
      using run g by (simp add: setupDevice_def bindA_def)
    have "only lks {lk_Name l} (wrapA (''failed to set up device '' @ lk_Name d) (configureDevice E d))"
      unfolding configureDevice_def using name [OF Ok] by (intro only_intros only_call [OF assms]) simp
    from onlyD [OF this conf k] show ?thesis using w1 by simp
  qed (use run g w1 in \<open>auto simp: setupDevice_def bindA_def\<close>)
qed

lemma flow_device_only:
  assumes "link_laws lks (fe_netlink E)"
  shows "only lks shared_devices (setupFlowBasedIP4TunDevice E)" and "only lks shared_devices (setupFlowBasedIP6TunDevice E)"
  unfolding setupFlowBasedIP4TunDevice_def setupFlowBasedIP6TunDevice_def
  by (rule only_intros, rule only_intros, rule only_mono [OF setupDevice_only [OF assms]], simp add: shared_devices_def new_link_def,
      rule only_intros, rule only_mono [OF renameDevice_only [OF assms]], simp add: shared_devices_def)+

section \<open>Tunnels to IPv4 peers\<close>

text \<open>Every IPv4 tunnel device leads to the address it is named after, from the local address, to the port.\<close>

definition tunnel_ok :: "fouTunnel \<Rightarrow> ip \<Rightarrow> link \<Rightarrow> bool" where
  "tunnel_ok t a l \<longleftrightarrow> (\<forall>tn. lk_Kind l = Iptun tn \<longrightarrow> (\<exists>sportAuto. tn = peer_tunnel t (ft_local4 t) a sportAuto))"

definition peers_ok :: "('w \<Rightarrow> string \<Rightarrow> link option) \<Rightarrow> fouTunnel \<Rightarrow> 'w \<Rightarrow> bool" where
  "peers_ok lks t w \<longleftrightarrow> (\<forall>a l. length a = 4 \<longrightarrow> lks w (fouName a) = Some l \<longrightarrow> tunnel_ok t a l)"

lemma byname_outcome:
  assumes "link_laws lks N" and "lks w = m"
  shows "outcome (nl_LinkByName N n) (\<lambda>l w'. lks w' = m \<and> m n = Some l \<and> lk_Name l = n)
    (\<lambda>e w'. lks w' = m \<and> (e = Sentinel LinkNotFoundError \<longrightarrow> m n = None)) (\<lambda>w'. lks w' = m) w"
proof (rule outcome_call)
  fix r w' assume "nl_LinkByName N n w = (r, w')"
  note law = link_byname [OF assms(1) this]
  show "case r of Ok l \<Rightarrow> lks w' = m \<and> m n = Some l \<and> lk_Name l = n
      | Err e \<Rightarrow> lks w' = m \<and> (e = Sentinel LinkNotFoundError \<longrightarrow> m n = None) | Panic p \<Rightarrow> lks w' = m"
    using law assms(2) by (cases r) auto
qed

lemma add_outcome:
  assumes "link_laws lks N" and "lks w = m"
  shows "outcome (nl_LinkAdd N l) (\<lambda>_ w'. \<exists>l'. lk_Kind l' = lk_Kind l \<and> lks w' = m(lk_Name l \<mapsto> l'))
    (\<lambda>_ w'. lks w' = m) (\<lambda>w'. lks w' = m) w"
proof (rule outcome_call)
  fix r w' assume "nl_LinkAdd N l w = (r, w')"
  from link_add [OF assms(1) this] assms(2)
  show "case r of Ok x \<Rightarrow> \<exists>l'. lk_Kind l' = lk_Kind l \<and> lks w' = m(lk_Name l \<mapsto> l') | Err e \<Rightarrow> lks w' = m | Panic p \<Rightarrow> lks w' = m"
    by (cases r) auto
qed

lemma del_outcome:
  assumes "link_laws lks N" and "lks w = m"
  shows "outcome (nl_LinkDel N l) (\<lambda>_ w'. lks w' = m(lk_Name l := None)) (\<lambda>_ w'. lks w' = m) (\<lambda>w'. lks w' = m) w"
proof (rule outcome_call)
  fix r w' assume "nl_LinkDel N l w = (r, w')"
  from link_del [OF assms(1) this] assms(2)
  show "case r of Ok x \<Rightarrow> lks w' = m(lk_Name l := None) | Err e \<Rightarrow> lks w' = m | Panic p \<Rightarrow> lks w' = m"
    by (cases r) auto
qed

text \<open>What \<open>addOrRecreatePeer4\<close> leaves at the name of the device, however it ends: the old device, none, or a new one.\<close>

definition recreated :: "fouTunnel \<Rightarrow> ip \<Rightarrow> (string \<Rightarrow> link option) \<Rightarrow> (string \<Rightarrow> link option) \<Rightarrow> bool" where
  "recreated t a m m' \<longleftrightarrow> (\<forall>k. k \<noteq> fouName a \<longrightarrow> m' k = m k) \<and>
     (m' (fouName a) = m (fouName a) \<or> m' (fouName a) = None \<or>
      (\<exists>l sa. m' (fouName a) = Some l \<and> lk_Kind l = Iptun (peer_tunnel t (ft_local4 t) a sa)))"

definition has_tunnel :: "fouTunnel \<Rightarrow> ip \<Rightarrow> bool \<Rightarrow> (string \<Rightarrow> link option) \<Rightarrow> bool" where
  "has_tunnel t a sa m \<longleftrightarrow> (\<exists>l tn. m (fouName a) = Some l \<and> lk_Kind l = Iptun tn \<and> tn_EncapSport tn = encap_sport t sa)"

lemma new_tunnel:
  assumes "\<forall>k. k \<noteq> fouName a \<longrightarrow> m1 k = m k" and "lk_Kind l = Iptun (peer_tunnel t (ft_local4 t) a sa)"
  shows "recreated t a m (m1(fouName a \<mapsto> l))" and "has_tunnel t a sa (m1(fouName a \<mapsto> l))"
  using assms by (auto simp: recreated_def has_tunnel_def peer_tunnel_def)

lemma recreate4:
  assumes "link_laws lks (fe_netlink E)" and "lks w = m"
  shows "outcome (addOrRecreatePeer4 E t a sa) (\<lambda>nm w'. nm = fouName a \<and> has_tunnel t a sa (lks w') \<and> recreated t a m (lks w'))
    (\<lambda>_ w'. recreated t a m (lks w')) (\<lambda>w'. recreated t a m (lks w')) w"
proof -
  let ?N = "fe_netlink E" and ?n = "fouName a"
  let ?new = "new_link ?n (Iptun (peer_tunnel t (ft_local4 t) a sa))"
  let ?Q = "\<lambda>nm w'. nm = ?n \<and> has_tunnel t a sa (lks w') \<and> recreated t a m (lks w')"
  have new: "lk_Name ?new = ?n" "lk_Kind ?new = Iptun (peer_tunnel t (ft_local4 t) a sa)" by (simp_all add: new_link_def)
  have same: "recreated t a m m" and gone: "recreated t a m (m(?n := None))" by (simp_all add: recreated_def)
  have add: "outcome (bindA (wrapA ''netlink: failed to add fou link'' (nl_LinkAdd ?N ?new)) (\<lambda>_. returnA ?n)) ?Q
      (\<lambda>_ w'. recreated t a m (lks w')) (\<lambda>w'. recreated t a m (lks w')) w1"
    if "\<forall>k. k \<noteq> ?n \<longrightarrow> lks w1 k = m k" "recreated t a m (lks w1)" for w1
    unfolding wp_simps
    by (rule outcome_mono [OF add_outcome [OF assms(1) refl, of ?new]])
      (use that new_tunnel [OF that(1)] new in auto)
  have keep: "has_tunnel t a sa m" if "m ?n = Some l" "lk_Kind l = Iptun tn" "encap_sport t sa = tn_EncapSport tn" for l tn
    using that by (auto simp: has_tunnel_def)
  show ?thesis
    unfolding addOrRecreatePeer4_def Let_def outcome_bindA [of "tryA _"] outcome_tryA
  proof (rule outcome_mono [OF byname_outcome [OF assms, of ?n]], goal_cases)
    case (1 l w1)
    show ?case
    proof (cases "\<exists>tn. lk_Kind l = Iptun tn \<and> encap_sport t sa \<noteq> tn_EncapSport tn")
      case True
      then obtain tn where tn: "lk_Kind l = Iptun tn" "encap_sport t sa \<noteq> tn_EncapSport tn" by blast
      have "outcome (nl_LinkDel ?N l) (\<lambda>_ w'. lks w' = m(?n := None)) (\<lambda>_ w'. lks w' = m) (\<lambda>w'. lks w' = m) w1"
        using del_outcome [OF assms(1), of w1 m l] 1 by auto
      then have "outcome (bindA (wrapA ''netlink: failed to delete fou link'' (nl_LinkDel ?N l))
          (\<lambda>_. bindA (wrapA ''netlink: failed to add fou link'' (nl_LinkAdd ?N ?new)) (\<lambda>_. returnA ?n))) ?Q
          (\<lambda>_ w'. recreated t a m (lks w')) (\<lambda>w'. recreated t a m (lks w')) w1"
        unfolding outcome_bindA [of "wrapA ''netlink: failed to delete fou link'' _"] outcome_wrapA [of "''netlink: failed to delete fou link''"]
        by (rule outcome_mono) (auto simp: same gone intro!: add)
      then show ?thesis using tn by simp
    next
      case False
      then show ?thesis using 1 same keep by (cases "lk_Kind l") (auto simp: wp_simps)
    qed
  next
    case (2 e w1)
    then show ?case using add [of w1] same by (auto simp: wp_simps)
  next
    case (3 w1)
    then show ?case using same by simp
  qed
qed

lemma recreate6_only: "link_laws lks (fe_netlink E) \<Longrightarrow> only lks {fouName a} (addOrRecreatePeer6 E t a sa)"
  unfolding addOrRecreatePeer6_def Let_def
  by (rule only_found) (auto simp: new_link_def intro!: only_intros only_call split: link_kind.splits)

lemma addPeer6_only: "link_laws lks (fe_netlink E) \<Longrightarrow> only lks (insert (fouName a) shared_devices) (addPeer6 E t a sa)"
  unfolding addPeer6_def
  by (intro only_intros only_mono [OF recreate6_only] only_mono [OF flow_device_only(2)] only_call) auto

lemma init_only:
  assumes "link_laws lks (fe_netlink E)" and "\<And>f p q. leaves lks (nl_FouAdd (fe_netlink E) f p q)" and "\<And>m. leaves lks (fe_modprobe E m)"
    and "\<And>k v. leaves lks (fe_Sysctl E k v)" and "leaves lks (fe_EnableIP4Forward E)" and "leaves lks (fe_EnableIP6Forward E)"
  shows "only lks shared_devices (fou_Init E t)"
proof -
  have l: "only lks S m" if "leaves lks m" for S and m :: "('a, unit) act"
    using leavesD [OF that] by (intro onlyI) simp
  show ?thesis
    unfolding fou_Init_def init4_def init6_def modProbe_def
    by (intro only_intros only_call [OF assms(1)] l assms(2-6)) (simp add: new_link_def shared_devices_def)
qed

text \<open>The tunnels of a node: peers are added and deleted in any order.\<close>

definition fou_world_ok :: "('w \<Rightarrow> string \<Rightarrow> link option) \<Rightarrow> 'w fou_env \<Rightarrow> bool" where
  "fou_world_ok lks E \<longleftrightarrow> link_laws lks (fe_netlink E) \<and> (\<forall>f p q. leaves lks (nl_FouAdd (fe_netlink E) f p q)) \<and>
     (\<forall>m. leaves lks (fe_modprobe E m)) \<and> (\<forall>k v. leaves lks (fe_Sysctl E k v)) \<and>
     leaves lks (fe_EnableIP4Forward E) \<and> leaves lks (fe_EnableIP6Forward E)"

inductive fou_step :: "'w fou_env \<Rightarrow> fouTunnel \<Rightarrow> 'w \<Rightarrow> 'w \<Rightarrow> bool" for E t where
  init: "fou_Init E t w = (r, w') \<Longrightarrow> fou_step E t w w'"
| add: "AddPeer E t a sa w = (r', w') \<Longrightarrow> fou_step E t w w'"
| del: "DelPeer E a w = (r, w') \<Longrightarrow> fou_step E t w w'"

inductive_cases fou_stepE: "fou_step E t w w'"

lemma length4_fou: "length (a :: ip) = 4 \<Longrightarrow> To4 a \<noteq> []"
  by auto

lemma peers_ok_only:
  assumes "peers_ok lks t w" and "\<And>a. length a = 4 \<Longrightarrow> lks w' (fouName a) = lks w (fouName a) \<or> lks w' (fouName a) = None"
  shows "peers_ok lks t w'"
  using assms unfolding peers_ok_def by (metis option.distinct(1))

lemma peers_ok_recreated:
  assumes "peers_ok lks t w" and "recreated t a (lks w) (lks w')" and "length a = 4"
  shows "peers_ok lks t w'"
  unfolding peers_ok_def
proof (intro allI impI)
  fix b l assume b: "length b = 4" "lks w' (fouName b) = Some l"
  show "tunnel_ok t b l"
  proof (cases "b = a")
    case True
    consider "lks w (fouName a) = Some l" | sa where "lk_Kind l = Iptun (peer_tunnel t (ft_local4 t) a sa)"
      using assms(2) b(2) True by (auto simp: recreated_def)
    then show ?thesis using assms(1,3) True by cases (auto simp: peers_ok_def tunnel_ok_def)
  next
    case False
    then have "fouName b \<noteq> fouName a"
      using fouName4_inject [OF length4_fou [OF b(1)] length4_fou [OF assms(3)]] b(1) assms(3) by simp
    then show ?thesis using assms(1,2) b by (auto simp: recreated_def peers_ok_def)
  qed
qed

lemma DelPeer_only: "link_laws lks (fe_netlink E) \<Longrightarrow> only lks {fouName a} (DelPeer E a)"
  unfolding DelPeer_def by (rule only_found; simp add: only_intros only_call)

lemma DelPeer_outcome:
  assumes "link_laws lks (fe_netlink E)"
  shows "outcome (DelPeer E a) (\<lambda>_ w'. lks w' (fouName a) = None) (\<lambda>_ w'. lks w' = lks w) (\<lambda>w'. lks w' = lks w) w"
  unfolding DelPeer_def outcome_bindA outcome_tryA
proof (rule outcome_mono [OF byname_outcome [OF assms refl, of "fouName a"]], goal_cases)
  case (1 l w1)
  then have "lks w1 = lks w" by simp
  from del_outcome [OF assms this, of l] 1 show ?case by (auto elim!: outcome_mono)
qed (auto simp: wp_simps)

lemma addPeer4_outcome:
  assumes "link_laws lks (fe_netlink E)" and "length a = 4" and "peers_ok lks t w"
  shows "outcome (addPeer4 E t a sa) (\<lambda>l w'. peers_ok lks t w' \<and> lks w' (fouName a) = Some l \<and>
      lk_Kind l = Iptun (peer_tunnel t (ft_local4 t) a sa)) (\<lambda>_. peers_ok lks t) (peers_ok lks t) w"
proof (cases "ft_local4 t = []")
  case True
  then show ?thesis using assms(3) by (simp add: addPeer4_def wp_simps)
next
  case False
  let ?I = "\<lambda>w'. peers_ok lks t w' \<and> has_tunnel t a sa (lks w')"
  have "keeps ?I (setupFlowBasedIP4TunDevice E)"
  proof (rule keepsI)
    fix v r v' assume "?I v" and run: "setupFlowBasedIP4TunDevice E v = (r, v')"
    have "lks v' (fouName b) = lks v (fouName b)" for b
      using onlyD [OF flow_device_only(1) [OF assms(1)] run fouName_not_shared] .
    then show "?I v'" using \<open>?I v\<close> by (simp add: peers_ok_def has_tunnel_def)
  qed
  then have flow: "outcome (setupFlowBasedIP4TunDevice E) (\<lambda>_. ?I) (\<lambda>_. ?I) ?I v" if "?I v" for v
    using outcome_keeps [of ?I] that by blast
  have tun: "lk_Kind l = Iptun (peer_tunnel t (ft_local4 t) a sa)" if i: "?I v" and l: "lks v (fouName a) = Some l" for v l
  proof -
    obtain tn where tn: "lk_Kind l = Iptun tn" "tn_EncapSport tn = encap_sport t sa" using i l by (auto simp: has_tunnel_def)
    obtain sb where "tn = peer_tunnel t (ft_local4 t) a sb" using i l tn(1) assms(2) unfolding peers_ok_def tunnel_ok_def by blast
    then show ?thesis using tn by (simp add: peer_tunnel_def)
  qed
  have last: "outcome (nl_LinkByName (fe_netlink E) (fouName a)) (\<lambda>l w'. peers_ok lks t w' \<and> lks w' (fouName a) = Some l \<and>
      lk_Kind l = Iptun (peer_tunnel t (ft_local4 t) a sa)) (\<lambda>_. peers_ok lks t) (peers_ok lks t) v" if "?I v" for v
    by (rule outcome_mono [OF byname_outcome [OF assms(1) refl, where n = "fouName a"]])
      (use that tun [OF that] in \<open>auto simp: peers_ok_def\<close>)
  have rest: "outcome (bindA (wrapA ''netlink: failed to setup ipip device'' (setupFlowBasedIP4TunDevice E)) (\<lambda>_. nl_LinkByName (fe_netlink E) (fouName a)))
      (\<lambda>l w'. peers_ok lks t w' \<and> lks w' (fouName a) = Some l \<and> lk_Kind l = Iptun (peer_tunnel t (ft_local4 t) a sa))
      (\<lambda>_. peers_ok lks t) (peers_ok lks t) v" if "?I v" for v
    unfolding outcome_bindA outcome_wrapA by (rule outcome_mono [OF flow [OF that]]) (auto intro: last)
  show ?thesis
    unfolding addPeer4_def outcome_bindA [of "addOrRecreatePeer4 _ _ _ _"] if_not_P [OF False]
    by (rule outcome_mono [OF recreate4 [OF assms(1) refl]])
      (auto intro: peers_ok_recreated [OF assms(3) _ assms(2)] intro!: rest)
qed

interpretation foui: inductive_invariant "fou_step E t" "\<lambda>w. fou_world_ok lks E \<and> peers_ok lks t w" for lks E t
proof
  fix w w' assume inv: "fou_world_ok lks E \<and> peers_ok lks t w" and "fou_step E t w w'"
  have laws: "link_laws lks (fe_netlink E)" using inv by (simp add: fou_world_ok_def)
  from \<open>fou_step E t w w'\<close> have "peers_ok lks t w'"
  proof cases
    case (init r)
    have "only lks shared_devices (fou_Init E t)" by (rule init_only) (use inv in \<open>simp_all add: fou_world_ok_def\<close>)
    from onlyD [OF this init fouName_not_shared] show ?thesis using inv by (auto intro: peers_ok_only)
  next
    case (add a sa r)
    show ?thesis
    proof (cases "To4 a = []")
      case True
      have other: "fouName b \<notin> insert (fouName a) shared_devices" if "length b = 4" for b
        using fouName46 [OF length4_fou [OF that] True] fouName_not_shared by auto
      have run: "addPeer6 E t a sa w = (r, w')" using add True by (simp add: AddPeer_def)
      show ?thesis using onlyD [OF addPeer6_only [OF laws] run other] peers_ok_only [of lks t w w'] inv by simp
    next
      case False
      then have "addPeer4 E t (To4 a) sa w = (r, w')" "length (To4 a) = 4" using add by (simp_all add: AddPeer_def)
      then show ?thesis using addPeer4_outcome [OF laws, of "To4 a" t w sa] inv by (auto simp: outcome_def split: res.splits)
    qed
  next
    case (del a r)
    have "lks w' (fouName b) = lks w (fouName b) \<or> lks w' (fouName b) = None" for b
      using DelPeer_outcome [OF laws, of a w] del onlyD [OF DelPeer_only [OF laws] del, of "fouName b"]
      by (cases "fouName b = fouName a") (auto simp: outcome_def split: res.splits)
    then show ?thesis using peers_ok_only [of lks t w w'] inv by simp
  qed
  then show "fou_world_ok lks E \<and> peers_ok lks t w'" using inv by blast
qed

section \<open>Properties\<close>

text \<open>
  C33. Names of tunnel devices fit the kernel's limit of 15 characters; the names of two IPv4 peers
  are different unless the addresses are the same, and no IPv6 peer has the name of an IPv4 one.
\<close>

theorem fouName_unique:
  "length (fouName a) \<le> 15 \<and> (To4 a \<noteq> nil_ip \<longrightarrow> To4 b \<noteq> nil_ip \<longrightarrow> (fouName a = fouName b \<longleftrightarrow> To4 a = To4 b)) \<and>
    (To4 a \<noteq> nil_ip \<longrightarrow> To4 b = nil_ip \<longrightarrow> fouName a \<noteq> fouName b)"
  using fouName_length [of a] fouName4_inject [of a b] fouName46 [of a b] by simp

theorem fouName_unique_witness: "fouName [10, 0, 0, 1] = ''fou4_0a000001'' \<and> fouName [10, 0, 0, 1] \<noteq> fouName [10, 0, 0, 2]"
proof
  show "fouName [10, 0, 0, 1] = ''fou4_0a000001''" by (simp add: fouName4 FoU4LinkPrefix_def) code_simp
  show "fouName [10, 0, 0, 1] \<noteq> fouName [10, 0, 0, 2]" using fouName_unique [of "[10, 0, 0, 1]" "[10, 0, 0, 2]"] by simp
qed

definition ref_fou_env :: "nl_world fou_env" where
  "ref_fou_env = \<lparr>fe_netlink = ref_netlink, fe_modprobe = (\<lambda>_. returnA ()), fe_Sysctl = (\<lambda>_ _. returnA ()),
     fe_EnableIP4Forward = returnA (), fe_EnableIP6Forward = returnA ()\<rparr>"

lemma ref_fou_ok: "fou_world_ok ref_links ref_fou_env"
  using ref_link_laws by (simp add: fou_world_ok_def ref_fou_env_def leaves_def returnA_def) (simp add: ref_netlink_def okA_def)

definition example_tunnel :: fouTunnel where
  "example_tunnel = \<lparr>ft_port = 5555, ft_local4 = [10, 1, 1, 0], ft_local6 = nil_ip\<rparr>"

text \<open>
  C32. After any calls of \<open>Init\<close>, \<open>AddPeer\<close> and \<open>DelPeer\<close>, failing ones included, an \<open>AddPeer\<close> for an
  IPv4 address that succeeds returns the link with the name of the peer, and that link is a tunnel to this very peer
  with the configured ports, whether it was found, recreated for another source port, or added.
\<close>

theorem AddPeer_reaches_peer:
  assumes "fou_world_ok lks E" and "peers_ok lks t w0" and "(fou_step E t)\<^sup>*\<^sup>* w0 w" and "To4 addr \<noteq> nil_ip"
    and "AddPeer E t addr sportAuto w = (Ok l, w')"
  shows "lks w' (fouName addr) = Some l \<and> lk_Kind l = Iptun (peer_tunnel t (ft_local4 t) (To4 addr) sportAuto)"
proof -
  have inv: "fou_world_ok lks E \<and> peers_ok lks t w" using foui.reach_inv [OF assms(3)] assms(1,2) by blast
  have "addPeer4 E t (To4 addr) sportAuto w = (Ok l, w')" using assms(4,5) by (simp add: AddPeer_def)
  moreover have "fouName (To4 addr) = fouName addr" using assms(4) by (simp add: fouName4)
  ultimately show ?thesis
    using addPeer4_outcome [of lks E "To4 addr" t w sportAuto] inv assms(4) by (simp add: fou_world_ok_def outcome_def)
qed

theorem AddPeer_reaches_peer_witness:
  "\<exists>l w'. AddPeer ref_fou_env example_tunnel [10, 0, 0, 1] True empty_world = (Ok l, w') \<and>
    lk_Kind l = Iptun \<lparr>tn_Ttl = 225, tn_EncapDport = 5555, tn_EncapSport = 0, tn_Remote = [10, 0, 0, 1], tn_Local = [10, 1, 1, 0], tn_FlowBased = False\<rparr>"
proof -
  obtain r w' where run: "AddPeer ref_fou_env example_tunnel [10, 0, 0, 1] True empty_world = (r, w')" by (metis prod.collapse)
  have "case fst (AddPeer ref_fou_env example_tunnel [10, 0, 0, 1] True empty_world) of Ok l \<Rightarrow> True | _ \<Rightarrow> False" by code_simp
  then obtain l where l: "r = Ok l" using run by (cases r) auto
  have "peers_ok ref_links example_tunnel empty_world" by (simp add: peers_ok_def find_link_def empty_world_def)
  from AddPeer_reaches_peer [OF ref_fou_ok this rtranclp.rtrancl_refl _ run [unfolded l]]
  show ?thesis using run l by (simp add: peer_tunnel_def example_tunnel_def encap_sport_def)
qed

text \<open>
  \<open>DelPeer\<close> removes the device of its peer and no other: when it succeeds there is none under the name, when it
  fails everything is as it was, and the devices with other names stay in any case.
\<close>

lemma DelPeer_removes:
  assumes "link_laws lks (fe_netlink E)" and "DelPeer E addr w = (r, w')"
  shows "(r = Ok () \<longrightarrow> lks w' = (lks w)(fouName addr := None)) \<and> (r \<noteq> Ok () \<longrightarrow> lks w' = lks w)"
proof -
  have "lks w' k = lks w k" if "k \<noteq> fouName addr" for k
    using onlyD [OF DelPeer_only [OF assms(1)] assms(2), of k] that by simp
  moreover have "if r = Ok () then lks w' (fouName addr) = None else lks w' = lks w"
    using DelPeer_outcome [OF assms(1), of addr w] assms(2) by (cases r) (simp_all add: outcome_def)
  ultimately show ?thesis by (auto simp: fun_eq_iff)
qed

lemma DelPeer_removes_witness:
  "\<exists>w'. DelPeer ref_fou_env [10, 0, 0, 1] (empty_world\<lparr>nw_links := [new_link ''fou4_0a000001'' Dummy, new_link ''eth0'' Veth]\<rparr>) = (Ok (), w') \<and>
    find_link ''fou4_0a000001'' w' = None \<and> find_link ''eth0'' w' = Some (new_link ''eth0'' Veth)"
proof -
  let ?w = "empty_world\<lparr>nw_links := [new_link ''fou4_0a000001'' Dummy, new_link ''eth0'' Veth]\<rparr>"
  obtain r w' where run: "DelPeer ref_fou_env [10, 0, 0, 1] ?w = (r, w')" by (metis prod.collapse)
  have n: "fouName [10, 0, 0, 1] = ''fou4_0a000001''" by (simp add: fouName4 FoU4LinkPrefix_def) code_simp
  have "fst (DelPeer ref_fou_env [10, 0, 0, 1] ?w) = Ok ()" by code_simp
  then have r: "r = Ok ()" using run by simp
  have "link_laws ref_links (fe_netlink ref_fou_env)" using ref_link_laws by (simp add: ref_fou_env_def)
  from DelPeer_removes [OF this run] r n have "ref_links w' = (ref_links ?w)(''fou4_0a000001'' := None)" by simp
  then have "find_link k w' = ((ref_links ?w)(''fou4_0a000001'' := None)) k" for k by (rule fun_cong)
  then show ?thesis using run r by (auto simp: find_link_def new_link_def)
qed

end
