(* ===== verification/Packet_Filter.thy ===== *)
theory Packet_Filter
  imports Netlink
begin

text \<open>
  The packet filter rules of the egress feature: \<open>pkg/nat/netfilter/iptables.go\<close> and
  \<open>pkg/nat/netfilter/nftables.go\<close>. The packages \<open>go-iptables\<close> and \<open>google/nftables\<close> are parameters; the rules the
  sources build are data.
\<close>

section \<open>iptables\<close>

datatype ipt_proto = ProtocolIPv4 | ProtocolIPv6

record 'w iptables_ops =
  ipt_NewWithProtocol :: "ipt_proto \<Rightarrow> ('w, unit) act"
  ipt_AppendUnique :: "ipt_proto \<Rightarrow> string \<Rightarrow> string \<Rightarrow> string list \<Rightarrow> ('w, unit) act"
  ipt_DeleteIfExists :: "ipt_proto \<Rightarrow> string \<Rightarrow> string \<Rightarrow> string list \<Rightarrow> ('w, unit) act"

definition natTable :: string where "natTable = ''nat''"
definition natChain :: string where "natChain = ''POSTROUTING''"
definition filterTable :: string where "filterTable = ''filter''"
definition filterChain :: string where "filterChain = ''FORWARD''"
definition mangleTable :: string where "mangleTable = ''mangle''"
definition inputChain :: string where "inputChain = ''INPUT''"
definition outputChain :: string where "outputChain = ''OUTPUT''"

definition netlinkToIptablesFamily :: "family \<Rightarrow> ipt_proto res" where
  "netlinkToIptablesFamily f = (case f of FAMILY_V4 \<Rightarrow> Ok ProtocolIPv4 | FAMILY_V6 \<Rightarrow> Ok ProtocolIPv6
     | FAMILY_ALL \<Rightarrow> Err (ErrorMsg ''invalid IP family 0''))"

text \<open>\<open>strconv.Itoa\<close>.\<close>

definition Itoa :: "int \<Rightarrow> string" where
  "Itoa i = (if i < 0 then ''-'' @ itoa (nat (- i)) else itoa (nat i))"

definition setIPTablesMasqRules :: "'w iptables_ops \<Rightarrow> family \<Rightarrow> string \<Rightarrow> ip \<Rightarrow> ('w, unit) act" where
  "setIPTablesMasqRules T f iface a =
     (let ipn = NewIPNet a in
      bindA (resA (netlinkToIptablesFamily f)) (\<lambda>ipp.
      bindA (ipt_NewWithProtocol T ipp) (\<lambda>_.
      bindA (wrapA ''failed to setup masquerade rule''
        (ipt_AppendUnique T ipp natTable natChain [''!'', ''-s'', IPNet_String ipn, ''-o'', iface, ''-j'', ''MASQUERADE''])) (\<lambda>_.
      wrapA ''failed to setup drop rule for invalid packets''
        (ipt_AppendUnique T ipp filterTable filterChain [''-o'', iface, ''-m'', ''state'', ''--state'', ''INVALID'', ''-j'', ''DROP''])))))"

definition connmark_input :: "link \<Rightarrow> string list" where
  "connmark_input l = [''-i'', lk_Name l, ''-m'', ''conntrack'', ''--ctstate'', ''NEW,ESTABLISHED,RELATED'',
     ''-j'', ''CONNMARK'', ''--set-mark'', Itoa (lk_Index l)]"

definition connmark_output :: "link \<Rightarrow> string list" where
  "connmark_output l = [''-j'', ''CONNMARK'', ''-m'', ''connmark'', ''--mark'', Itoa (lk_Index l), ''--restore-mark'']"

definition setIPTablesConnmarkRules :: "'w iptables_ops \<Rightarrow> family \<Rightarrow> link \<Rightarrow> ('w, unit) act" where
  "setIPTablesConnmarkRules T f l =
     bindA (resA (netlinkToIptablesFamily f)) (\<lambda>ipp.
     bindA (ipt_NewWithProtocol T ipp) (\<lambda>_.
     bindA (wrapA ''failed to append rule in chain INPUT'' (ipt_AppendUnique T ipp mangleTable inputChain (connmark_input l))) (\<lambda>_.
     wrapA ''failed to append rule in chain OUTPUT'' (ipt_AppendUnique T ipp mangleTable outputChain (connmark_output l)))))"

definition removeIPTablesConnmarkRules :: "'w iptables_ops \<Rightarrow> family \<Rightarrow> link \<Rightarrow> ('w, unit) act" where
  "removeIPTablesConnmarkRules T f l =
     bindA (resA (netlinkToIptablesFamily f)) (\<lambda>ipp.
     bindA (ipt_NewWithProtocol T ipp) (\<lambda>_.
     bindA (wrapA ''failed to delete rule in chain INPUT'' (ipt_DeleteIfExists T ipp mangleTable inputChain (connmark_input l))) (\<lambda>_.
     wrapA ''failed to delete IPTables rule'' (ipt_DeleteIfExists T ipp mangleTable outputChain (connmark_output l)))))"

section \<open>nftables\<close>

datatype table_family = TableFamilyIPv4 | TableFamilyIPv6

datatype cmp_op = CmpOpEq | CmpOpNeq

datatype meta_key = MetaKeyOIFNAME | MetaKeyIIFNAME | MetaKeyMARK

datatype ct_key = CtKeySTATE | CtKeyMARK

text \<open>The expressions the sources use; the flag of \<open>Meta\<close> and \<open>Ct\<close> is \<open>SourceRegister\<close>, and a \<open>Counter\<close> has
  its packets and bytes.\<close>

datatype nft_expr =
    Payload nat nat nat
  | Bitwise nat nat nat "byte list" "byte list"
  | Cmp cmp_op nat "byte list"
  | Meta meta_key bool nat
  | Ct ct_key bool nat
  | Lookup string nat nat
  | Immediate nat "byte list"
  | Counter nat nat
  | Masq
  | VerdictDrop

record nft_table =
  nt_Family :: table_family
  nt_Name :: string

datatype chain_type = ChainTypeNAT | ChainTypeFilter | ChainTypeRoute

datatype chain_hook = HookPostrouting | HookForward | HookInput | HookOutput

datatype chain_priority = PriorityUnset | PriorityNATSource | PriorityFilter | PriorityMangle

record nft_chain =
  nch_Name :: string
  nch_Table :: nft_table
  nch_Type :: chain_type
  nch_Hook :: chain_hook
  nch_Priority :: chain_priority
  nch_Accept :: bool

record nft_set =
  ns_Table :: nft_table
  ns_Name :: string
  ns_ID :: nat

record nft_rule =
  nr_Table :: nft_table
  nr_Chain :: nft_chain
  nr_UserData :: "byte list"
  nr_Exprs :: "nft_expr list"

record 'w nft_ops =
  nft_New :: "('w, unit) act"
  nft_AddTable :: "nft_table \<Rightarrow> ('w, nft_table) act"
  nft_AddChain :: "nft_chain \<Rightarrow> ('w, nft_chain) act"
  nft_AddSet :: "nft_set \<Rightarrow> byte list list \<Rightarrow> ('w, nft_set) act"
  nft_GetRules :: "nft_table \<Rightarrow> nft_chain \<Rightarrow> ('w, nft_rule list) act"
  nft_AddRule :: "nft_rule \<Rightarrow> ('w, unit) act"
  nft_ListTables :: "('w, nft_table list) act"
  nft_DelTable :: "nft_table \<Rightarrow> ('w, unit) act"
  nft_Flush :: "('w, unit) act"
  nft_PutUint32 :: "nat \<Rightarrow> byte list"
  nft_CtStateBitINVALID :: nat
  nft_CtStateBits :: nat

definition netlinkToNFTablesFamily :: "family \<Rightarrow> table_family res" where
  "netlinkToNFTablesFamily f = (case f of FAMILY_V4 \<Rightarrow> Ok TableFamilyIPv4 | FAMILY_V6 \<Rightarrow> Ok TableFamilyIPv6
     | FAMILY_ALL \<Rightarrow> Err (ErrorMsg ''invalid IP family 0''))"

definition str_bytes :: "string \<Rightarrow> byte list" where
  "str_bytes s = map of_char s"

text \<open>A name in a field of 16 bytes: \<open>copy\<close> cuts what does not fit.\<close>

definition ifname :: "string \<Rightarrow> byte list" where
  "ifname n = (let b = take 16 (str_bytes n @ [0]) in b @ replicate (16 - length b) 0)"

definition mask_bytes :: "ipmask \<Rightarrow> byte list" where
  "mask_bytes m = (case m of None \<Rightarrow> [] | Some (ones, bits) \<Rightarrow> ip_of_nat (bits div 8) (2 ^ bits - 2 ^ (bits - ones)))"

definition nftRegister :: nat where "nftRegister = 1"

definition oif_is :: "string \<Rightarrow> nft_expr list" where
  "oif_is iface = [Meta MetaKeyOIFNAME False nftRegister, Cmp CmpOpEq nftRegister (str_bytes iface @ [0])]"

definition masq_exprs :: "'w nft_ops \<Rightarrow> table_family \<Rightarrow> string \<Rightarrow> ipnet \<Rightarrow> nft_expr list" where
  "masq_exprs T nf iface n =
     (let (offset, len, xr, ipData) = (case nf of
            TableFamilyIPv4 \<Rightarrow> (12, 4, nft_PutUint32 T 0, To4 (net_IP n))
          | TableFamilyIPv6 \<Rightarrow> (8, 16, replicate 16 0, To16 (net_IP n)))
      in [Payload nftRegister offset len, Bitwise nftRegister nftRegister len (mask_bytes (net_Mask n)) xr,
          Cmp CmpOpNeq nftRegister ipData] @ oif_is iface @ [Counter 0 0, Masq])"

definition drop_exprs :: "'w nft_ops \<Rightarrow> string \<Rightarrow> nft_expr list" where
  "drop_exprs T iface = oif_is iface @ [Ct CtKeySTATE False nftRegister,
     Bitwise nftRegister nftRegister 4 (nft_PutUint32 T (nft_CtStateBitINVALID T)) (nft_PutUint32 T 0),
     Cmp CmpOpNeq nftRegister (nft_PutUint32 T 0), Counter 0 0, VerdictDrop]"

definition setNFTablesMasqRules :: "'w nft_ops \<Rightarrow> family \<Rightarrow> string \<Rightarrow> ip \<Rightarrow> ('w, unit) act" where
  "setNFTablesMasqRules T f iface a =
     bindA (wrapA ''failed to create nftables connection'' (nft_New T)) (\<lambda>_.
     let ipn = NewIPNet a in
     bindA (wrapA (''failed to parse network '' @ IPNet_String ipn) (resA (ParseCIDR (IPNet_String ipn)))) (\<lambda>(_, n).
     bindA (resA (netlinkToNFTablesFamily f)) (\<lambda>nf.
     let t = \<lparr>nt_Family = nf, nt_Name = natTable\<rparr> in
     bindA (nft_AddTable T t) (\<lambda>_.
     let c = \<lparr>nch_Name = natChain, nch_Table = t, nch_Type = ChainTypeNAT, nch_Hook = HookPostrouting, nch_Priority = PriorityNATSource, nch_Accept = False\<rparr> in
     bindA (nft_AddChain T c) (\<lambda>_.
     bindA (nft_AddRule T \<lparr>nr_Table = t, nr_Chain = c, nr_UserData = [], nr_Exprs = masq_exprs T nf iface n\<rparr>) (\<lambda>_.
     let t = \<lparr>nt_Family = nf, nt_Name = filterTable\<rparr> in
     bindA (nft_AddTable T t) (\<lambda>_.
     let c = \<lparr>nch_Name = filterChain, nch_Table = t, nch_Type = ChainTypeFilter, nch_Hook = HookForward, nch_Priority = PriorityFilter, nch_Accept = False\<rparr> in
     bindA (nft_AddChain T c) (\<lambda>_.
     bindA (nft_AddRule T \<lparr>nr_Table = t, nr_Chain = c, nr_UserData = [], nr_Exprs = drop_exprs T iface\<rparr>) (\<lambda>_.
     wrapA ''failed to flush nftables rules'' (nft_Flush T))))))))))"

definition compareNFTRules :: "nft_rule \<Rightarrow> nft_rule \<Rightarrow> bool" where
  "compareNFTRules a b \<longleftrightarrow> nr_UserData a = nr_UserData b"

definition addNFTablesRuleIfNotExists :: "'w nft_ops \<Rightarrow> nft_rule \<Rightarrow> ('w, unit) act" where
  "addNFTablesRuleIfNotExists T target =
     bindA (tryA (nft_GetRules T (nr_Table target) (nr_Chain target))) (\<lambda>r. case r of
       Inl e \<Rightarrow> nft_AddRule T target
     | Inr rs \<Rightarrow> if list_ex (\<lambda>r. compareNFTRules r target) rs then returnA () else nft_AddRule T target)"

definition addNFTablesChainIfNotExists :: "'w nft_ops \<Rightarrow> nft_chain \<Rightarrow> ('w, nft_chain) act" where
  "addNFTablesChainIfNotExists T c = nft_AddChain T c"

definition addNFTablesSetIfNotExists :: "'w nft_ops \<Rightarrow> nft_set \<Rightarrow> byte list list \<Rightarrow> ('w, nft_set) act" where
  "addNFTablesSetIfNotExists T s elements = wrapA (''failed to add set '' @ ns_Name s @ '' '') (nft_AddSet T s elements)"

definition link_mark :: "link \<Rightarrow> nat" where
  "link_mark l = nat (lk_Index l mod 2 ^ 32)"

definition input_exprs :: "'w nft_ops \<Rightarrow> nft_set \<Rightarrow> link \<Rightarrow> nft_expr list" where
  "input_exprs T devices l = [Meta MetaKeyIIFNAME False 1, Lookup (ns_Name devices) (ns_ID devices) 1, Ct CtKeySTATE False 1,
     Bitwise 1 1 4 (nft_PutUint32 T (nft_CtStateBits T)) (nft_PutUint32 T 0), Cmp CmpOpNeq 1 [0, 0, 0, 0], Counter 0 0,
     Immediate 1 (nft_PutUint32 T (link_mark l)), Ct CtKeyMARK True 1]"

definition setNFTablesInputConnmarkRules :: "'w nft_ops \<Rightarrow> nft_table \<Rightarrow> link \<Rightarrow> ('w, unit) act" where
  "setNFTablesInputConnmarkRules T table l =
     bindA (wrapA ''failed to add chain'' (addNFTablesChainIfNotExists T \<lparr>nch_Name = ''input'', nch_Table = table, nch_Type = ChainTypeFilter,
       nch_Hook = HookInput, nch_Priority = PriorityMangle, nch_Accept = True\<rparr>)) (\<lambda>inp.
     bindA (wrapA ''failed to add set'' (addNFTablesSetIfNotExists T \<lparr>ns_Table = table, ns_Name = lk_Name l, ns_ID = 0\<rparr> [ifname (lk_Name l)])) (\<lambda>devices.
     wrapA ''failed to check input rule existence'' (addNFTablesRuleIfNotExists T
       \<lparr>nr_Table = table, nr_Chain = inp, nr_UserData = str_bytes (''coil-input-'' @ lk_Name l), nr_Exprs = input_exprs T devices l\<rparr>)))"

definition output_exprs :: "'w nft_ops \<Rightarrow> link \<Rightarrow> nft_expr list" where
  "output_exprs T l = [Ct CtKeyMARK False 1, Cmp CmpOpEq 1 (nft_PutUint32 T (link_mark l)), Counter 0 0, Ct CtKeyMARK False 1, Meta MetaKeyMARK True 1]"

definition setNFTablesOutputConnmarkRules :: "'w nft_ops \<Rightarrow> nft_table \<Rightarrow> link \<Rightarrow> ('w, unit) act" where
  "setNFTablesOutputConnmarkRules T table l =
     bindA (wrapA ''failed to add chain'' (addNFTablesChainIfNotExists T \<lparr>nch_Name = ''output'', nch_Table = table, nch_Type = ChainTypeRoute,
       nch_Hook = HookOutput, nch_Priority = PriorityMangle, nch_Accept = True\<rparr>)) (\<lambda>out.
     wrapA ''failed to check output rule existence'' (addNFTablesRuleIfNotExists T
       \<lparr>nr_Table = table, nr_Chain = out, nr_UserData = str_bytes (''coil-output-'' @ lk_Name l), nr_Exprs = output_exprs T l\<rparr>))"

definition setNFTablesConnmarkRules :: "'w nft_ops \<Rightarrow> family \<Rightarrow> link \<Rightarrow> ('w, unit) act" where
  "setNFTablesConnmarkRules T f l =
     bindA (wrapA ''failed to create nftables connection'' (nft_New T)) (\<lambda>_.
     bindA (resA (netlinkToNFTablesFamily f)) (\<lambda>nf.
     bindA (nft_AddTable T \<lparr>nt_Family = nf, nt_Name = mangleTable\<rparr>) (\<lambda>mangle.
     bindA (wrapA ''failed to configure NFT input rules'' (setNFTablesInputConnmarkRules T mangle l)) (\<lambda>_.
     bindA (wrapA ''failed to configure NFT output rules'' (setNFTablesOutputConnmarkRules T mangle l)) (\<lambda>_.
     wrapA ''failed to flush nftables rules'' (nft_Flush T))))))"

definition removeNFTablesConnmarkRules :: "'w nft_ops \<Rightarrow> family \<Rightarrow> ('w, unit) act" where
  "removeNFTablesConnmarkRules T f =
     bindA (wrapA ''failed to create nftables connection'' (nft_New T)) (\<lambda>_.
     bindA (resA (netlinkToNFTablesFamily f)) (\<lambda>nf.
     bindA (tryA (nft_ListTables T)) (\<lambda>r. case r of
       Inl e \<Rightarrow> returnA ()
     | Inr tables \<Rightarrow> (case List.find (\<lambda>t. nt_Name t = mangleTable \<and> nt_Family t = nf) tables of
         None \<Rightarrow> returnA ()
       | Some mangle \<Rightarrow> bindA (nft_DelTable T mangle) (\<lambda>_. wrapA ''failed to flush nft rules'' (nft_Flush T))))))"

end
