(* ===== verification/Nat_Netfilter.thy ===== *)
theory Nat_Netfilter
  imports Packet_Filter
begin

text \<open>
  The NAT client that runs in the network namespace of a pod (\<open>pkg/nat/netfilter/client.go\<close>) and the
  NAT server of an egress pod (\<open>pkg/nat/netfilter/server.go\<close>): policy routing rules, the narrow and wide routing
  tables, the tables and rules for connections that come from outside, and the routes back to the clients.
\<close>

section \<open>The NAT client\<close>

record 'w nat_env =
  nv_netlink :: "'w netlink_ops"
  nv_iptables :: "'w iptables_ops"
  nv_nft :: "'w nft_ops"

definition ncFWMarkPrio :: int where "ncFWMarkPrio = 1000"
definition ncLinkLocalPrio :: int where "ncLinkLocalPrio = 1800"
definition ncNarrowPrio :: int where "ncNarrowPrio = 1900"
definition ncLocalPrioBase :: int where "ncLocalPrioBase = 2000"
definition ncWidePrio :: int where "ncWidePrio = 2100"
definition ncProtocolID :: int where "ncProtocolID = 30"
definition ncNarrowTableID :: int where "ncNarrowTableID = 117"
definition ncWideTableID :: int where "ncWideTableID = 118"
definition mainTableID :: int where "mainTableID = 254"
definition nonEgressTableID :: int where "nonEgressTableID = 1000"
definition EgressBackendIPTables :: string where "EgressBackendIPTables = ''iptables''"
definition EgressBackendNFTables :: string where "EgressBackendNFTables = ''nftables''"

definition defaultIPv4GW :: ipnet where "defaultIPv4GW = \<lparr>net_IP = ParseIP ''0.0.0.0'', net_Mask = CIDRMask 0 32\<rparr>"
definition defaultIPv6GW :: ipnet where "defaultIPv6GW = \<lparr>net_IP = ParseIP ''::'', net_Mask = CIDRMask 0 128\<rparr>"

definition v4PrivateList :: "ipnet list" where
  "v4PrivateList = [\<lparr>net_IP = To4 (ParseIP ''10.0.0.0''), net_Mask = CIDRMask 8 32\<rparr>,
     \<lparr>net_IP = To4 (ParseIP ''172.16.0.0''), net_Mask = CIDRMask 12 32\<rparr>,
     \<lparr>net_IP = To4 (ParseIP ''192.168.0.0''), net_Mask = CIDRMask 16 32\<rparr>]"
definition v6PrivateList :: "ipnet list" where
  "v6PrivateList = [\<lparr>net_IP = ParseIP ''fc00::'', net_Mask = CIDRMask 7 128\<rparr>]"
definition v4LinkLocal :: ipnet where "v4LinkLocal = \<lparr>net_IP = ParseIP ''169.254.0.0'', net_Mask = CIDRMask 16 32\<rparr>"
definition v6LinkLocal :: ipnet where "v6LinkLocal = \<lparr>net_IP = ParseIP ''fe80::'', net_Mask = CIDRMask 10 128\<rparr>"

record NatClient =
  nc_ipv4 :: ip
  nc_ipv6 :: ip
  nc_v4InCluster :: "ipnet list"
  nc_v6InCluster :: "ipnet list"
  nc_backend :: string

definition NewNatClient :: "ip \<Rightarrow> ip \<Rightarrow> ipnet list \<Rightarrow> string \<Rightarrow> NatClient" where
  "NewNatClient ipv4 ipv6 podNodeNet backend =
     (let (v4, v6) = (if length podNodeNet > 0
        then (filter (\<lambda>n. To4 (net_IP n) \<noteq> nil_ip) podNodeNet, filter (\<lambda>n. To4 (net_IP n) = nil_ip) podNodeNet)
        else (v4PrivateList, v6PrivateList))
      in \<lparr>nc_ipv4 = ipv4, nc_ipv6 = ipv6, nc_v4InCluster = v4, nc_v6InCluster = v6, nc_backend = backend\<rparr>)"

definition newRule :: "family \<Rightarrow> int \<Rightarrow> int \<Rightarrow> rule" where
  "newRule f table prio = NewRule\<lparr>ru_Family := f, ru_Table := table, ru_Priority := prio\<rparr>"

text \<open>\<open>if err := m; err != nil && !errors.Is(err, syscall.EEXIST) { return fmt.Errorf(...) }\<close>\<close>

definition unless_exists :: "string \<Rightarrow> ('w, unit) act \<Rightarrow> ('w, unit) act" where
  "unless_exists msg m = bindA (tryA m) (\<lambda>r. case r of
       Inr _ \<Rightarrow> returnA ()
     | Inl e \<Rightarrow> if errors_Is e EEXIST then returnA () else errA (Wrap msg [e]))"

definition inCluster :: "NatClient \<Rightarrow> family \<Rightarrow> ipnet list" where
  "inCluster n f = (case f of FAMILY_V4 \<Rightarrow> nc_v4InCluster n | FAMILY_V6 \<Rightarrow> nc_v6InCluster n | FAMILY_ALL \<Rightarrow> [])"

definition linkLocal_of :: "family \<Rightarrow> ipnet option" where
  "linkLocal_of f = (case f of FAMILY_V4 \<Rightarrow> Some v4LinkLocal | FAMILY_V6 \<Rightarrow> Some v6LinkLocal | FAMILY_ALL \<Rightarrow> None)"

definition initRules :: "'w nat_env \<Rightarrow> NatClient \<Rightarrow> family \<Rightarrow> ('w, unit) act" where
  "initRules E n f =
     (let N = nv_netlink E in
      bindA (unless_exists ''netlink: failed to add link local rule''
        (nl_RuleAdd N ((newRule f mainTableID ncLinkLocalPrio)\<lparr>ru_Dst := linkLocal_of f\<rparr>))) (\<lambda>_.
      bindA (unless_exists ''netlink: failed to add narrow rule'' (nl_RuleAdd N (newRule f ncNarrowTableID ncNarrowPrio))) (\<lambda>_.
      bindA (unless_exists ''netlink: failed to add wide rule'' (nl_RuleAdd N (newRule f ncWideTableID ncWidePrio))) (\<lambda>_.
      foreachA (\<lambda>(i, ipn). unless_exists (''netlink: failed to add '' @ IPNet_String ipn @ '' to rule'')
        (nl_RuleAdd N ((newRule f mainTableID (ncLocalPrioBase + int i))\<lparr>ru_Dst := Some ipn\<rparr>))) (enumerate 0 (inCluster n f))))))"

definition clearRules :: "'w nat_env \<Rightarrow> family \<Rightarrow> ipnet \<Rightarrow> ('w, unit) act" where
  "clearRules E f gw =
     bindA (wrapA ''netlink: rule list failed'' (nl_RuleList (nv_netlink E) f)) (\<lambda>rules.
     foreachA (\<lambda>r. if ru_Priority r < ncLinkLocalPrio \<or> ru_Priority r > ncWidePrio then returnA ()
       else wrapA ''netlink: failed to delete a rule'' (nl_RuleDel (nv_netlink E)
         (if ru_Dst r = None then r\<lparr>ru_Dst := Some gw\<rparr> else r))) rules)"

definition clear_table :: "'w nat_env \<Rightarrow> family \<Rightarrow> ipnet \<Rightarrow> int \<Rightarrow> ('w, unit) act" where
  "clear_table E f gw t =
     bindA (wrapA ''netlink: route list failed'' (nl_RouteListFiltered (nv_netlink E) f (FilterTable t))) (\<lambda>routes.
     foreachA (\<lambda>r. wrapA ''netlink: failed to delete a route'' (nl_RouteDel (nv_netlink E)
         (if rt_Dst r = None then r\<lparr>rt_Dst := Some gw\<rparr> else r))) routes)"

definition clearRoutes :: "'w nat_env \<Rightarrow> family \<Rightarrow> ipnet \<Rightarrow> ('w, unit) act" where
  "clearRoutes E f gw = foreachA (clear_table E f gw) [ncNarrowTableID, ncWideTableID]"

definition clear :: "'w nat_env \<Rightarrow> family \<Rightarrow> ('w, unit) act" where
  "clear E f = (case f of
       FAMILY_V4 \<Rightarrow> bindA (clearRules E f defaultIPv4GW) (\<lambda>_. clearRoutes E f defaultIPv4GW)
     | FAMILY_V6 \<Rightarrow> bindA (clearRules E f defaultIPv6GW) (\<lambda>_. clearRoutes E f defaultIPv6GW)
     | FAMILY_ALL \<Rightarrow> errA (ErrorMsg ''invalid family: 0''))"

text \<open>\<open>fmt.Errorf("msg: %v", err)\<close> keeps the text only.\<close>

definition textA :: "string \<Rightarrow> ('w, 'a) act \<Rightarrow> ('w, 'a) act" where
  "textA msg m = bindA (tryA m) (\<lambda>r. case r of Inr x \<Rightarrow> returnA x | Inl e \<Rightarrow> errA (ErrorMsg (msg @ '': '' @ Error e)))"

definition nc_Init :: "'w nat_env \<Rightarrow> NatClient \<Rightarrow> ('w, unit) act" where
  "nc_Init E n =
     bindA (if nc_ipv4 n \<noteq> nil_ip
       then bindA (textA ''failed to clear IPv4 table'' (clear E FAMILY_V4)) (\<lambda>_.
            textA ''failed to Init IPv4 table'' (initRules E n FAMILY_V4))
       else returnA ()) (\<lambda>_.
     if nc_ipv6 n \<noteq> nil_ip
       then bindA (textA ''failed to clear IPv6 table'' (clear E FAMILY_V6)) (\<lambda>_.
            textA ''failed to Init IPv6 table'' (initRules E n FAMILY_V6))
       else returnA ())"

definition isRuleInitialized :: "'w nat_env \<Rightarrow> family \<Rightarrow> ipnet list \<Rightarrow> ('w, bool) act" where
  "isRuleInitialized E f cl =
     (let N = nv_netlink E in
      bindA (wrapA ''netlink: failed to list main rules'' (nl_RuleListFiltered N f (RuleFilterTable mainTableID))) (\<lambda>rules.
      if length rules < length cl + 1 then returnA False
      else bindA (wrapA ''netlink: failed to list narrow rules'' (nl_RuleListFiltered N f (RuleFilterTable ncNarrowTableID))) (\<lambda>rules.
      if length rules \<noteq> 1 then returnA False
      else bindA (wrapA ''netlink: failed to list wide rules'' (nl_RuleListFiltered N f (RuleFilterTable ncWideTableID))) (\<lambda>rules.
      if length rules \<noteq> 1 then returnA False else returnA True))))"

definition nc_IsInitialized :: "'w nat_env \<Rightarrow> NatClient \<Rightarrow> ('w, bool) act" where
  "nc_IsInitialized E n =
     bindA (if nc_ipv4 n \<noteq> nil_ip then wrapA ''failed to check IPv4 rule initialization'' (isRuleInitialized E FAMILY_V4 (nc_v4InCluster n))
            else returnA True) (\<lambda>ok.
     if \<not> ok then returnA False
     else bindA (if nc_ipv6 n \<noteq> nil_ip then wrapA ''failed to check IPv6 rule initialization'' (isRuleInitialized E FAMILY_V6 (nc_v6InCluster n))
            else returnA True) (\<lambda>ok.
     if \<not> ok then returnA False else returnA True))"

subsection \<open>Routes of a link\<close>

definition collectRoutesFromTable :: "'w nat_env \<Rightarrow> family \<Rightarrow> int \<Rightarrow> int \<Rightarrow> ('w, route gomap) act" where
  "collectRoutesFromTable E f table linkIndex =
     bindA (wrapA ''netlink: route list failed'' (nl_RouteListFiltered (nv_netlink E) f (FilterTable table))) (\<lambda>rs.
     returnA (fold (\<lambda>r m. if rt_LinkIndex r = linkIndex \<and> rt_Dst r \<noteq> None then gupdate (netp_String (rt_Dst r)) r m else m) rs []))"

text \<open>\<open>maps.Copy(routes, res)\<close>\<close>

definition maps_Copy :: "'v gomap \<Rightarrow> 'v gomap \<Rightarrow> 'v gomap" where
  "maps_Copy dst src = fold (\<lambda>(k, v). gupdate k v) src dst"

fun collect_tables :: "'w nat_env \<Rightarrow> int \<Rightarrow> (family \<times> int) list \<Rightarrow> route gomap \<Rightarrow> ('w, route gomap) act" where
  "collect_tables E linkIndex [] routes = returnA routes"
| "collect_tables E linkIndex ((f, t) # fts) routes =
     bindA (wrapA ''failed to collect route'' (collectRoutesFromTable E f t linkIndex)) (\<lambda>res.
     collect_tables E linkIndex fts (maps_Copy routes res))"

definition collectRoutesBySubnet :: "'w nat_env \<Rightarrow> int \<Rightarrow> ('w, route gomap) act" where
  "collectRoutesBySubnet E linkIndex = collect_tables E linkIndex
     [(FAMILY_V4, ncNarrowTableID), (FAMILY_V4, ncWideTableID), (FAMILY_V6, ncNarrowTableID), (FAMILY_V6, ncWideTableID)] []"

fun diff_loop :: "ipnet list \<Rightarrow> route gomap \<Rightarrow> ipnet list \<Rightarrow> ipnet list \<times> route gomap" where
  "diff_loop [] rs adds = (adds, rs)"
| "diff_loop (subnet # subnets) rs adds =
     (if glookup rs (IPNet_String subnet) = None then diff_loop subnets rs (adds @ [subnet])
      else diff_loop subnets (gdelete (IPNet_String subnet) rs) adds)"

definition diffRoutes :: "range_order \<Rightarrow> route gomap \<Rightarrow> ipnet list \<Rightarrow> ipnet list \<times> route list" where
  "diffRoutes rng routes subnets = (case diff_loop subnets (maps_Copy [] routes) [] of
     (adds, rs) \<Rightarrow> (adds, List.map_filter (glookup rs) (rng (gkeys rs))))"

definition addRoute :: "'w nat_env \<Rightarrow> NatClient \<Rightarrow> link \<Rightarrow> ipnet \<Rightarrow> ('w, unit) act" where
  "addRoute E n l ipn =
     (let v4 = To4 (net_IP ipn) \<noteq> nil_ip in
      if v4 \<and> nc_ipv4 n = nil_ip \<or> \<not> v4 \<and> nc_ipv6 n = nil_ip then returnA ()
      else let cl = (if v4 then nc_v4InCluster n else nc_v6InCluster n);
               t = (if list_ex (\<lambda>c. Contains c (net_IP ipn)) cl then ncNarrowTableID else ncWideTableID)
           in bindA (wrapA (''netlink: failed to link up '' @ lk_Name l) (nl_LinkSetUp (nv_netlink E) l)) (\<lambda>_.
              wrapA (''netlink: failed to add route(table '' @ Itoa t @ '') to '' @ IPNet_String ipn)
                (nl_RouteAdd (nv_netlink E) (new_route\<lparr>rt_Table := t, rt_Dst := Some ipn, rt_LinkIndex := lk_Index l, rt_Protocol := ncProtocolID\<rparr>))))"

definition deleteRoute :: "'w nat_env \<Rightarrow> route \<Rightarrow> ('w, unit) act" where
  "deleteRoute E r = wrapA ''netlink: failed to delete a route '' (nl_RouteDel (nv_netlink E) r)"

subsection \<open>Connections from outside\<close>

definition checkLinkForGlobalScopeIP :: "'w nat_env \<Rightarrow> link \<Rightarrow> family \<Rightarrow> ('w, bool) act" where
  "checkLinkForGlobalScopeIP E l f =
     bindA (wrapA (''netlink: failed to list addresses for link '' @ lk_Name l) (nl_AddrList (nv_netlink E) l f)) (\<lambda>addrs.
     returnA (list_ex (\<lambda>a. na_Scope a = SCOPE_UNIVERSE) addrs))"

definition checkFWMarkRule :: "'w nat_env \<Rightarrow> link \<Rightarrow> int \<Rightarrow> family \<Rightarrow> ('w, rule option) act" where
  "checkFWMarkRule E l table f =
     bindA (wrapA ''netlink: failed to list rules'' (nl_RuleListFiltered (nv_netlink E) f (RuleFilterPriority ncFWMarkPrio))) (\<lambda>rules.
     returnA (List.find (\<lambda>r. ru_Mark r = link_mark l \<and> ru_Table r = table) rules))"

definition addFWMarkRuleIfNotExists :: "'w nat_env \<Rightarrow> link \<Rightarrow> int \<Rightarrow> family \<Rightarrow> ('w, unit) act" where
  "addFWMarkRuleIfNotExists E l table f =
     bindA (wrapA ''failed to check FW mark rule existence'' (checkFWMarkRule E l table f)) (\<lambda>r.
     case r of
       Some _ \<Rightarrow> returnA ()
     | None \<Rightarrow> wrapA ''netlink: failed to add rule'' (nl_RuleAdd (nv_netlink E) ((newRule f table ncFWMarkPrio)\<lparr>ru_Mark := link_mark l\<rparr>)))"

definition delFWMarkRule :: "'w nat_env \<Rightarrow> link \<Rightarrow> int \<Rightarrow> family \<Rightarrow> ('w, unit) act" where
  "delFWMarkRule E l table f =
     bindA (wrapA ''failed to check FW mark rule existence'' (checkFWMarkRule E l table f)) (\<lambda>r.
     case r of
       None \<Rightarrow> returnA ()
     | Some r \<Rightarrow> wrapA ''failed to remove FW mark rule'' (nl_RuleDel (nv_netlink E) r))"

definition configure_link :: "'w nat_env \<Rightarrow> string \<Rightarrow> family \<Rightarrow> link \<Rightarrow> ('w, unit) act" where
  "configure_link E backend f l =
     bindA (wrapA (''netlink: failed to check interface '' @ lk_Name l @ '' for non-local IP address'') (checkLinkForGlobalScopeIP E l f)) (\<lambda>hasGlobalIP.
     if \<not> hasGlobalIP then returnA ()
     else bindA (wrapA (''netlink: failed to list routes for interface '' @ lk_Name l) (nl_RouteList (nv_netlink E) (Some l) f)) (\<lambda>routes.
       if length routes = 0 then returnA ()
       else let linkTable = nonEgressTableID + lk_Index l in
         bindA (foreachA (\<lambda>r. unless_exists ''netlink: failed to add route'' (nl_RouteAdd (nv_netlink E) (r\<lparr>rt_Table := linkTable\<rparr>))) routes) (\<lambda>_.
         bindA (wrapA ''failed to add FWMark rule'' (addFWMarkRuleIfNotExists E l linkTable f)) (\<lambda>_.
         if backend = EgressBackendIPTables then setIPTablesConnmarkRules (nv_iptables E) f l
         else if backend = EgressBackendNFTables then setNFTablesConnmarkRules (nv_nft E) f l
         else returnA ()))))"

definition configureOriginatingOnly :: "'w nat_env \<Rightarrow> family \<Rightarrow> string \<Rightarrow> ('w, unit) act" where
  "configureOriginatingOnly E f backend =
     bindA (wrapA ''netlink: failed to list links'' (nl_LinkList (nv_netlink E))) (\<lambda>links. foreachA (configure_link E backend f) links)"

definition remove_link :: "'w nat_env \<Rightarrow> string \<Rightarrow> family \<Rightarrow> link \<Rightarrow> ('w, unit) act" where
  "remove_link E backend f l =
     bindA (wrapA (''netlink: failed to check interface '' @ lk_Name l @ '' for non-local IP address'') (checkLinkForGlobalScopeIP E l f)) (\<lambda>hasGlobalIP.
     if \<not> hasGlobalIP then returnA ()
     else let linkTable = nonEgressTableID + lk_Index l in
       bindA (wrapA (''netlink: failed to list routes for interface '' @ lk_Name l) (nl_RouteListFiltered (nv_netlink E) f (FilterTable linkTable))) (\<lambda>routes.
       if length routes = 0 then returnA ()
       else
         bindA (foreachA (\<lambda>r. unless_exists ''netlink: failed to delete route'' (nl_RouteDel (nv_netlink E) r)) routes) (\<lambda>_.
         bindA (wrapA ''failed to delete FWMark rule'' (delFWMarkRule E l linkTable f)) (\<lambda>_.
         if backend = EgressBackendIPTables then removeIPTablesConnmarkRules (nv_iptables E) f l
         else if backend = EgressBackendNFTables then removeNFTablesConnmarkRules (nv_nft E) f
         else returnA ()))))"

definition removeOriginatingOnly :: "'w nat_env \<Rightarrow> family \<Rightarrow> string \<Rightarrow> ('w, unit) act" where
  "removeOriginatingOnly E f backend =
     bindA (wrapA ''netlink: failed to list links'' (nl_LinkList (nv_netlink E))) (\<lambda>links. foreachA (remove_link E backend f) links)"

text \<open>The families of the added subnets, in the order in which the map of them is ranged over.\<close>

definition configured_families :: "(family list \<Rightarrow> family list) \<Rightarrow> ipnet list \<Rightarrow> family list" where
  "configured_families rng adds = rng (remdups (map (\<lambda>n. ip_family (net_IP n)) adds))"

definition SyncNat :: "'w nat_env \<Rightarrow> range_order \<Rightarrow> (family list \<Rightarrow> family list) \<Rightarrow> NatClient \<Rightarrow> link \<Rightarrow> ipnet list \<Rightarrow> bool \<Rightarrow> ('w, unit) act" where
  "SyncNat E rng frng n l subnets originatingOnly =
     bindA (collectRoutesBySubnet E (lk_Index l)) (\<lambda>routesBySubnet.
     let (adds, dels) = diffRoutes rng routesBySubnet subnets in
     bindA (foreachA (deleteRoute E) dels) (\<lambda>_.
     bindA (foreachA (addRoute E n l) adds) (\<lambda>_.
     if originatingOnly
     then foreachA (\<lambda>f. configureOriginatingOnly E f (nc_backend n)) (configured_families frng adds)
     else foreachA (\<lambda>f. removeOriginatingOnly E f (nc_backend n)) [FAMILY_V4, FAMILY_V6])))"

section \<open>The NAT server\<close>

definition egress_link :: string where "egress_link = ''egress-dummy''"
definition nsTableID :: int where "nsTableID = 118"
definition nsProtocolID :: int where "nsProtocolID = 30"
definition nsRulePrio :: int where "nsRulePrio = 2000"

record NatServer =
  sv_iface :: string
  sv_ipv4 :: ip
  sv_ipv6 :: ip
  sv_backend :: string
  sv_clients :: "unit gomap"

definition isIPv4 :: "ip \<Rightarrow> bool" where
  "isIPv4 a \<longleftrightarrow> To4 a \<noteq> nil_ip"

definition setFibRules :: "'w nat_env \<Rightarrow> NatServer \<Rightarrow> family \<Rightarrow> ('w, unit) act" where
  "setFibRules E n f = wrapA ''failed to add fib rule to egress table'' (nl_RuleAdd (nv_netlink E)
     (NewRule\<lparr>ru_Family := f, ru_IifName := sv_iface n, ru_Table := nsTableID, ru_Priority := nsRulePrio\<rparr>))"

definition initIP :: "'w nat_env \<Rightarrow> NatServer \<Rightarrow> family \<Rightarrow> ip \<Rightarrow> ('w, unit) act" where
  "initIP E n f a =
     bindA (if sv_backend n = EgressBackendIPTables then setIPTablesMasqRules (nv_iptables E) f (sv_iface n) a
            else if sv_backend n = EgressBackendNFTables then setNFTablesMasqRules (nv_nft E) f (sv_iface n) a
            else errA (ErrorMsg (''invalid nat backend: '' @ sv_backend n))) (\<lambda>_.
     setFibRules E n f)"

definition initIPv4 :: "'w nat_env \<Rightarrow> NatServer \<Rightarrow> ('w, unit) act" where
  "initIPv4 E n = initIP E n FAMILY_V4 (sv_ipv4 n)"

definition initIPv6 :: "'w nat_env \<Rightarrow> NatServer \<Rightarrow> ('w, unit) act" where
  "initIPv6 E n = initIP E n FAMILY_V6 (sv_ipv6 n)"

definition sv_init :: "'w nat_env \<Rightarrow> NatServer \<Rightarrow> ('w, unit) act" where
  "sv_init E n =
     bindA (tryA (nl_LinkByName (nv_netlink E) egress_link)) (\<lambda>r. case r of
       Inr l \<Rightarrow> returnA ()
     | Inl e \<Rightarrow>
         if \<not> errors_Is e LinkNotFoundError then errA e
         else bindA (if sv_ipv4 n \<noteq> nil_ip then wrapA ''failed to Init IPv4'' (initIPv4 E n) else returnA ()) (\<lambda>_.
              bindA (if sv_ipv6 n \<noteq> nil_ip then wrapA ''failed to Init IPv6'' (initIPv6 E n) else returnA ()) (\<lambda>_.
              wrapA ''failed to add link'' (nl_LinkAdd (nv_netlink E) (new_link egress_link Dummy)))))"

definition NewNatServer :: "'w nat_env \<Rightarrow> string \<Rightarrow> ip \<Rightarrow> ip \<Rightarrow> string \<Rightarrow> ('w, NatServer) act" where
  "NewNatServer E iface ipv4 ipv6 backend =
     (let n = \<lparr>sv_iface = iface, sv_ipv4 = ipv4, sv_ipv6 = ipv6, sv_backend = backend, sv_clients = []\<rparr>
      in bindA (sv_init E n) (\<lambda>_. returnA n))"

definition AddClient :: "'w nat_env \<Rightarrow> ip \<Rightarrow> link \<Rightarrow> (NatServer \<times> 'w, unit) act" where
  "AddClient E a l =
     bindA getA (\<lambda>(n, _).
     if isIPv4 a \<and> sv_ipv4 n = nil_ip then errA (Sentinel NatErrIPFamilyMismatch)
     else if \<not> isIPv4 a \<and> sv_ipv6 n = nil_ip then errA (Sentinel NatErrIPFamilyMismatch)
     else
       bindA (wrapA ''netlink: failed to list routes in table 118'' (liftW (nl_RouteListFiltered (nv_netlink E) (ip_family a) (FilterTable nsTableID)))) (\<lambda>rs.
       if list_ex (\<lambda>r. case rt_Dst r of None \<Rightarrow> False | Some d \<Rightarrow> IP_Equal (net_IP d) a) rs then returnA ()
       else
         bindA (wrapA (''netlink: failed to link up '' @ lk_Name l) (liftW (nl_LinkSetUp (nv_netlink E) l))) (\<lambda>_.
         bindA (wrapA (''netlink: failed to add '' @ IP_String a @ '' to table 118'') (liftW (nl_RouteAdd (nv_netlink E)
           (new_route\<lparr>rt_Dst := Some (NewIPNet a), rt_LinkIndex := lk_Index l, rt_Table := nsTableID, rt_Protocol := nsProtocolID\<rparr>)))) (\<lambda>_.
         modifyA (\<lambda>(n, w). (n\<lparr>sv_clients := gupdate (IP_String a) () (sv_clients n)\<rparr>, w))))))"

definition GetClients :: "NatServer \<Rightarrow> unit gomap" where
  "GetClients n = sv_clients n"

section \<open>Policy routing rules of a client\<close>

definition client_rules :: "NatClient \<Rightarrow> family \<Rightarrow> rule list" where
  "client_rules n f =
     [(newRule f mainTableID ncLinkLocalPrio)\<lparr>ru_Dst := linkLocal_of f\<rparr>, newRule f ncNarrowTableID ncNarrowPrio,
      newRule f ncWideTableID ncWidePrio] @
     map (\<lambda>(i, ipn). (newRule f mainTableID (ncLocalPrioBase + int i))\<lparr>ru_Dst := Some ipn\<rparr>) (enumerate 0 (inCluster n f))"

text \<open>The rules between the two priorities belong to the client. Views and keys of the rules:\<close>

definition own_rule :: "rule \<Rightarrow> bool" where
  "own_rule r \<longleftrightarrow> ncLinkLocalPrio \<le> ru_Priority r \<and> ru_Priority r \<le> ncWidePrio"

definition family_enabled :: "NatClient \<Rightarrow> family \<Rightarrow> bool" where
  "family_enabled n f = (case f of FAMILY_V4 \<Rightarrow> nc_ipv4 n \<noteq> nil_ip | FAMILY_V6 \<Rightarrow> nc_ipv6 n \<noteq> nil_ip | FAMILY_ALL \<Rightarrow> False)"

definition keys_in :: "('w \<Rightarrow> rule set) \<Rightarrow> family \<Rightarrow> 'w \<Rightarrow> (family \<times> int \<times> int \<times> string \<times> string \<times> nat) set" where
  "keys_in rus f w = rule_key ` {x \<in> rus w. ru_Family x = f}"

lemma key_family: "rule_key x = rule_key y \<Longrightarrow> ru_Family x = ru_Family y \<and> ru_Table x = ru_Table y \<and> own_rule x = own_rule y"
  by (simp add: rule_key_def own_rule_def)

lemma keys_in_insert:
  assumes "rule_key x = rule_key v" and "rus w' = insert x (rus w)"
  shows "keys_in rus g w' = keys_in rus g w \<union> (if ru_Family v = g then {rule_key v} else {})"
proof -
  have "{y \<in> rus w'. ru_Family y = g} = {y \<in> rus w. ru_Family y = g} \<union> (if ru_Family v = g then {x} else {})"
    using assms key_family [of x v] by auto
  then show ?thesis using assms(1) by (simp add: keys_in_def image_Un)
qed

lemma keys_in_present:
  assumes "rule_key v \<in> rule_key ` rus w" and "ru_Family v = g"
  shows "rule_key v \<in> keys_in rus g w"
proof -
  obtain x where "x \<in> rus w" "rule_key x = rule_key v" using assms(1) by (metis imageE)
  then show ?thesis using assms(2) key_family [of x v] by (auto simp: keys_in_def intro: rev_image_eqI)
qed

definition add_keys :: "('w \<Rightarrow> rule set) \<Rightarrow> rule list \<Rightarrow> 'w \<Rightarrow> 'w \<Rightarrow> bool" where
  "add_keys rus vs w w' \<longleftrightarrow> (inj_on rule_key (rus w) \<longrightarrow> inj_on rule_key (rus w')) \<and>
     (\<forall>g. keys_in rus g w' = keys_in rus g w \<union> rule_key ` {v \<in> set vs. ru_Family v = g})"

lemma add_rule_outcome:
  assumes "rule_laws rus N"
  shows "outcome (unless_exists msg (nl_RuleAdd N v)) (\<lambda>_. add_keys rus [v] w) (\<lambda>_ _. True) (\<lambda>_. True) w"
  unfolding unless_exists_def outcome_bindA outcome_tryA
proof (rule outcome_call)
  fix r w'
  assume run: "nl_RuleAdd N v w = (r, w')"
  note law = rule_add [OF assms run]
  show "case r of Ok x \<Rightarrow> outcome (case Inr x of Inl e \<Rightarrow> if errors_Is e EEXIST then returnA () else errA (Wrap msg [e]) | Inr _ \<Rightarrow> returnA ()) (\<lambda>_. add_keys rus [v] w) (\<lambda>_ _. True) (\<lambda>_. True) w'
    | Err e \<Rightarrow> outcome (case Inl e of Inl e \<Rightarrow> if errors_Is e EEXIST then returnA () else errA (Wrap msg [e]) | Inr _ \<Rightarrow> returnA ()) (\<lambda>_. add_keys rus [v] w) (\<lambda>_ _. True) (\<lambda>_. True) w'
    | Panic p \<Rightarrow> True"
  proof (cases r)
    case (Ok u)
    then obtain x where x: "rule_key x = rule_key v" "rus w' = insert x (rus w)" and new: "rule_key v \<notin> rule_key ` rus w"
      using law by auto
    have "inj_on rule_key (rus w')" if "inj_on rule_key (rus w)" using that x new by (auto simp: inj_on_insert)
    then show ?thesis using Ok keys_in_insert [of x v rus w' w] x by (auto simp: wp_simps add_keys_def)
  next
    case (Err e)
    then show ?thesis using law keys_in_present [of v rus w] by (auto simp: wp_simps keys_in_def add_keys_def)
  qed simp
qed

lemma add_keys_trans:
  assumes "add_keys rus vs w w'" and "add_keys rus us w' w''"
  shows "add_keys rus (vs @ us) w w''"
proof -
  have "{v \<in> set (vs @ us). ru_Family v = g} = {v \<in> set vs. ru_Family v = g} \<union> {v \<in> set us. ru_Family v = g}" for g by auto
  then show ?thesis using assms unfolding add_keys_def by (simp only: image_Un) blast
qed

lemma add_rules_outcome:
  assumes "rule_laws rus N"
  shows "outcome (foreachA (\<lambda>x. unless_exists (msg x) (nl_RuleAdd N (rl x))) xs) (\<lambda>_. add_keys rus (map rl xs) w) (\<lambda>_ _. True) (\<lambda>_. True) w"
proof (induction xs arbitrary: w)
  case Nil
  then show ?case by (simp add: wp_simps add_keys_def)
next
  case (Cons x xs)
  show ?case
    unfolding foreachA.simps outcome_bindA
  proof (rule outcome_mono [OF add_rule_outcome [OF assms]], goal_cases)
    case (1 _ w1)
    show ?case
      by (rule outcome_mono [OF Cons.IH [of w1]]) (use add_keys_trans [OF 1] in simp_all)
  qed simp_all
qed

lemma initRules_outcome:
  assumes "rule_laws rus (nv_netlink E)"
  shows "outcome (initRules E n f) (\<lambda>_. add_keys rus (client_rules n f) w) (\<lambda>_ _. True) (\<lambda>_. True) w"
proof -
  let ?rl = "\<lambda>(i, ipn). (newRule f mainTableID (ncLocalPrioBase + int i))\<lparr>ru_Dst := Some ipn\<rparr>"
  have loop: "(\<lambda>x. unless_exists (case x of (i, ipn) \<Rightarrow> ''netlink: failed to add '' @ IPNet_String ipn @ '' to rule'') (nl_RuleAdd (nv_netlink E) (?rl x))) =
     (\<lambda>(i, ipn). unless_exists (''netlink: failed to add '' @ IPNet_String ipn @ '' to rule'')
        (nl_RuleAdd (nv_netlink E) ((newRule f mainTableID (ncLocalPrioBase + int i))\<lparr>ru_Dst := Some ipn\<rparr>)))"
    by (simp add: fun_eq_iff)
  note add = add_rule_outcome [OF assms] and adds = add_rules_outcome [OF assms, where rl = ?rl and msg = "\<lambda>(i, ipn). ''netlink: failed to add '' @ IPNet_String ipn @ '' to rule''", unfolded loop]
  show ?thesis
    unfolding initRules_def Let_def outcome_bindA
  proof (rule outcome_mono [OF add], goal_cases)
    case (1 _ w1)
    show ?case
    proof (rule outcome_mono [OF add], goal_cases)
      case (1 _ w2)
      show ?case
      proof (rule outcome_mono [OF add], goal_cases)
        case (1 _ w3)
        show ?case
          by (rule outcome_mono [OF adds])
            (use add_keys_trans [OF add_keys_trans [OF add_keys_trans [OF \<open>add_keys rus _ w w1\<close> \<open>add_keys rus _ w1 w2\<close>] 1]] in
              \<open>simp_all add: client_rules_def\<close>)
      qed simp_all
    qed simp_all
  qed simp_all
qed

text \<open>Clearing removes the rules of the client; the workaround for a rule without a destination names the same rule.\<close>

definition del_keys :: "('w \<Rightarrow> rule set) \<Rightarrow> (rule \<Rightarrow> bool) \<Rightarrow> 'w \<Rightarrow> 'w \<Rightarrow> bool" where
  "del_keys rus D w w' \<longleftrightarrow> rus w' = {x \<in> rus w. \<not> D x}"

lemma key_default:
  assumes "gw = defaultIPv4GW \<or> gw = defaultIPv6GW"
  shows "rule_key (if ru_Dst r = None then r\<lparr>ru_Dst := Some gw\<rparr> else r) = rule_key r"
proof -
  have "dst_key (Some gw) = []" using assms by (auto simp: dst_key_def defaultIPv4GW_def defaultIPv6GW_def CIDRMask_def)
  then show ?thesis by (simp add: rule_key_def dst_key_def)
qed

lemma clear_loop_outcome:
  assumes "rule_laws rus N" and "gw = defaultIPv4GW \<or> gw = defaultIPv6GW"
  shows "outcome (foreachA (\<lambda>r. if ru_Priority r < ncLinkLocalPrio \<or> ru_Priority r > ncWidePrio then returnA ()
       else wrapA msg (nl_RuleDel N (if ru_Dst r = None then r\<lparr>ru_Dst := Some gw\<rparr> else r))) rs)
     (\<lambda>_. del_keys rus (\<lambda>x. rule_key x \<in> rule_key ` {r \<in> set rs. own_rule r}) w) (\<lambda>_ _. True) (\<lambda>_. True) w"
proof (induction rs arbitrary: w)
  case Nil
  then show ?case by (simp add: wp_simps del_keys_def)
next
  case (Cons r rs)
  let ?f = "\<lambda>r. if ru_Priority r < ncLinkLocalPrio \<or> ru_Priority r > ncWidePrio then returnA ()
       else wrapA msg (nl_RuleDel N (if ru_Dst r = None then r\<lparr>ru_Dst := Some gw\<rparr> else r))"
  let ?D = "\<lambda>xs x. rule_key x \<in> rule_key ` {r \<in> set xs. own_rule r}"
  have step: "outcome (?f r) (\<lambda>_ w'. rus w' = {x \<in> rus w. \<not> ?D [r] x}) (\<lambda>_ _. True) (\<lambda>_. True) w"
  proof (cases "own_rule r")
    case False
    then have "?f r = returnA ()" by (auto simp: own_rule_def)
    moreover have "{x \<in> rus w. \<not> ?D [r] x} = rus w" using False by auto
    ultimately show ?thesis by (simp only: outcome_returnA)
  next
    case True
    let ?r = "if ru_Dst r = None then r\<lparr>ru_Dst := Some gw\<rparr> else r"
    have "?f r = wrapA msg (nl_RuleDel N ?r)" using True by (simp add: own_rule_def)
    moreover have "{x \<in> rus w. \<not> ?D [r] x} = {x \<in> rus w. rule_key x \<noteq> rule_key ?r}" using True key_default [OF assms(2), of r] by auto
    moreover have "outcome (wrapA msg (nl_RuleDel N ?r)) (\<lambda>_ w'. rus w' = {x \<in> rus w. rule_key x \<noteq> rule_key ?r}) (\<lambda>_ _. True) (\<lambda>_. True) w"
      unfolding outcome_wrapA
    proof (rule outcome_call)
      fix r' w'
      assume "nl_RuleDel N ?r w = (r', w')"
      from rule_del [OF assms(1) this]
      show "case r' of Ok x \<Rightarrow> rus w' = {x \<in> rus w. rule_key x \<noteq> rule_key ?r} | Err e \<Rightarrow> True | Panic p \<Rightarrow> True" by (cases r') simp_all
    qed
    ultimately show ?thesis by simp
  qed
  show ?case
    unfolding foreachA.simps outcome_bindA
  proof (rule outcome_mono [OF step], goal_cases)
    case (1 _ w1)
    have "{x \<in> {x \<in> rus w. \<not> ?D [r] x}. \<not> ?D rs x} = {x \<in> rus w. \<not> ?D (r # rs) x}" by auto
    then show ?case by (intro outcome_mono [OF Cons.IH [of w1]]) (simp_all add: del_keys_def 1)
  qed simp_all
qed

lemma clearRules_outcome:
  assumes "rule_laws rus (nv_netlink E)" and "gw = defaultIPv4GW \<or> gw = defaultIPv6GW" and "f \<noteq> FAMILY_ALL"
  shows "outcome (clearRules E f gw) (\<lambda>_. del_keys rus (\<lambda>x. ru_Family x = f \<and> own_rule x) w) (\<lambda>_ _. True) (\<lambda>_. True) w"
  unfolding clearRules_def outcome_bindA outcome_wrapA
proof (rule outcome_call)
  fix r w1
  assume run: "nl_RuleList (nv_netlink E) f w = (r, w1)"
  show "case r of Ok rs \<Rightarrow> outcome (foreachA (\<lambda>r. if ru_Priority r < ncLinkLocalPrio \<or> ru_Priority r > ncWidePrio then returnA ()
       else wrapA ''netlink: failed to delete a rule'' (nl_RuleDel (nv_netlink E) (if ru_Dst r = None then r\<lparr>ru_Dst := Some gw\<rparr> else r))) rs)
       (\<lambda>_. del_keys rus (\<lambda>x. ru_Family x = f \<and> own_rule x) w) (\<lambda>_ _. True) (\<lambda>_. True) w1 | Err e \<Rightarrow> True | Panic p \<Rightarrow> True"
  proof (cases r)
    case (Ok rs)
    have l: "rus w1 = rus w" "set rs = {x \<in> rus w. rule_in f x}" using rule_list [OF assms(1) run] Ok by auto
    have "{x \<in> rus w. rule_key x \<notin> rule_key ` {r \<in> set rs. own_rule r}} = {x \<in> rus w. \<not> (ru_Family x = f \<and> own_rule x)}"
      using assms(3) l(2) by (auto simp: rule_in_def dest!: key_family)
    then show ?thesis using Ok l(1)
      by (auto simp: del_keys_def intro!: outcome_mono [OF clear_loop_outcome [OF assms(1,2), where w = w1]])
  qed simp_all
qed

lemma outcome_textA [wp_simps]: "outcome (textA msg m) Q E P s = outcome m Q (\<lambda>e. E (ErrorMsg (msg @ '': '' @ Error e))) P s"
  by (auto simp: textA_def outcome_def bindA_def tryA_def returnA_def errA_def split: prod.splits res.splits)

lemma clearRoutes_keeps:
  assumes "rule_laws rus (nv_netlink E)"
  shows "keeps (\<lambda>w. I (rus w)) (clearRoutes E f gw)"
  unfolding clearRoutes_def clear_table_def
  by (intro keeps_intros leaves_keeps [OF rule_leaves(1) [OF assms]] leaves_keeps [OF rule_leaves(2) [OF assms]])

lemma clear_outcome:
  assumes "rule_laws rus (nv_netlink E)" and "f \<noteq> FAMILY_ALL"
  shows "outcome (clear E f) (\<lambda>_. del_keys rus (\<lambda>x. ru_Family x = f \<and> own_rule x) w) (\<lambda>_ _. True) (\<lambda>_. True) w"
proof -
  have "outcome (bindA (clearRules E f gw) (\<lambda>_. clearRoutes E f gw)) (\<lambda>_. del_keys rus (\<lambda>x. ru_Family x = f \<and> own_rule x) w) (\<lambda>_ _. True) (\<lambda>_. True) w"
    if "gw = defaultIPv4GW \<or> gw = defaultIPv6GW" for gw
    unfolding outcome_bindA
    by (rule outcome_mono [OF clearRules_outcome [OF assms(1) that assms(2)]])
      (auto simp: del_keys_def intro: outcome_mono [OF outcome_keeps [OF clearRoutes_keeps [OF assms(1)]]])
  then show ?thesis using assms(2) by (auto simp: clear_def split: family.splits)
qed

lemma client_rules_family: "v \<in> set (client_rules n f) \<Longrightarrow> ru_Family v = f"
  by (auto simp: client_rules_def newRule_def)

fun own_key :: "family \<times> int \<times> int \<times> string \<times> string \<times> nat \<Rightarrow> bool" where
  "own_key (_, _, p, _) \<longleftrightarrow> ncLinkLocalPrio \<le> p \<and> p \<le> ncWidePrio"

lemma own_key_iff: "own_key (rule_key r) = own_rule r"
  by (simp add: rule_key_def own_rule_def)

text \<open>The keys of a family after \<open>Init\<close>: those of others, and those of the client.\<close>

definition init_keys :: "('w \<Rightarrow> rule set) \<Rightarrow> NatClient \<Rightarrow> family \<Rightarrow> 'w \<Rightarrow> (family \<times> int \<times> int \<times> string \<times> string \<times> nat) set" where
  "init_keys rus n f w = (if family_enabled n f
     then {k \<in> keys_in rus f w. \<not> own_key k} \<union> rule_key ` set (client_rules n f) else keys_in rus f w)"

definition init_result :: "('w \<Rightarrow> rule set) \<Rightarrow> NatClient \<Rightarrow> family list \<Rightarrow> 'w \<Rightarrow> 'w \<Rightarrow> bool" where
  "init_result rus n fs w w' \<longleftrightarrow> (inj_on rule_key (rus w) \<longrightarrow> inj_on rule_key (rus w')) \<and>
     (\<forall>g. keys_in rus g w' = (if g \<in> set fs then init_keys rus n g w else keys_in rus g w))"

lemma init_result_trans:
  "init_result rus n [f] w w' \<Longrightarrow> init_result rus n [g] w' w'' \<Longrightarrow> f \<noteq> g \<Longrightarrow> init_result rus n [f, g] w w''"
  by (auto simp: init_result_def init_keys_def)

lemma init_family_outcome:
  assumes "rule_laws rus (nv_netlink E)" and "f \<noteq> FAMILY_ALL" and "family_enabled n f"
  shows "outcome (bindA (textA m1 (clear E f)) (\<lambda>_. textA m2 (initRules E n f))) (\<lambda>_. init_result rus n [f] w) (\<lambda>_ _. True) (\<lambda>_. True) w"
  unfolding outcome_bindA outcome_textA
proof (rule outcome_mono [OF clear_outcome [OF assms(1,2)]], goal_cases)
  case (1 _ w1)
  show ?case
  proof (rule outcome_mono [OF initRules_outcome [OF assms(1)]], goal_cases)
    case (1 _ w2)
    have rus1: "rus w1 = {x \<in> rus w. \<not> (ru_Family x = f \<and> own_rule x)}" using \<open>del_keys rus _ w w1\<close> by (simp add: del_keys_def)
    have "inj_on rule_key (rus w1)" if "inj_on rule_key (rus w)" using that rus1 by (auto intro: inj_on_subset)
    moreover have "keys_in rus g w1 = (if g = f then {k \<in> keys_in rus f w. \<not> own_key k} else keys_in rus g w)" for g
      using rus1 by (auto simp: keys_in_def own_key_iff)
    moreover have "{v \<in> set (client_rules n f). ru_Family v = g} = (if g = f then set (client_rules n f) else {})" for g
      using client_rules_family [of _ n f] by auto
    ultimately show ?case using 1 assms(3) by (simp add: add_keys_def init_result_def init_keys_def)
  qed simp_all
qed simp_all

lemma Init_outcome:
  assumes "rule_laws rus (nv_netlink E)"
  shows "outcome (nc_Init E n) (\<lambda>_. init_result rus n [FAMILY_V4, FAMILY_V6] w) (\<lambda>_ _. True) (\<lambda>_. True) w"
proof -
  have fam: "outcome (if family_enabled n f then bindA (textA m1 (clear E f)) (\<lambda>_. textA m2 (initRules E n f)) else returnA ())
      (\<lambda>_. init_result rus n [f] w) (\<lambda>_ _. True) (\<lambda>_. True) w" if "f \<noteq> FAMILY_ALL" for f m1 m2 w
    using init_family_outcome [OF assms that] by (simp add: outcome_returnA init_result_def init_keys_def)
  have en: "nc_ipv4 n \<noteq> nil_ip \<longleftrightarrow> family_enabled n FAMILY_V4" "nc_ipv6 n \<noteq> nil_ip \<longleftrightarrow> family_enabled n FAMILY_V6"
    by (simp_all add: family_enabled_def)
  show ?thesis
    unfolding nc_Init_def en outcome_bindA [of "if _ then _ else _"]
  proof (rule outcome_mono [OF fam], goal_cases)
    case (2 _ w1)
    then show ?case by (intro outcome_mono [OF fam [of FAMILY_V6]]) (auto intro: init_result_trans)
  qed simp_all
qed

fun key_table :: "family \<times> int \<times> int \<times> string \<times> string \<times> nat \<Rightarrow> int" where
  "key_table (_, t, _) = t"

lemma key_table_rule [simp]: "key_table (rule_key r) = ru_Table r"
  by (simp add: rule_key_def)

lemma rule_count_outcome:
  assumes "rule_laws rus N" and "inj_on rule_key (rus w)" and "f \<noteq> FAMILY_ALL"
  shows "outcome (nl_RuleListFiltered N f (RuleFilterTable t))
    (\<lambda>rs w'. rus w' = rus w \<and> finite {k \<in> keys_in rus f w. key_table k = t} \<and> length rs = card {k \<in> keys_in rus f w. key_table k = t})
    (\<lambda>_ w'. rus w' = rus w) (\<lambda>w'. rus w' = rus w) w"
proof (rule outcome_call)
  fix r w'
  assume run: "nl_RuleListFiltered N f (RuleFilterTable t) w = (r, w')"
  have keys: "{k \<in> keys_in rus f w. key_table k = t} = rule_key ` {x \<in> rus w. ru_Family x = f \<and> ru_Table x = t}"
    by (auto simp: keys_in_def)
  show "case r of Ok rs \<Rightarrow> rus w' = rus w \<and> finite {k \<in> keys_in rus f w. key_table k = t} \<and> length rs = card {k \<in> keys_in rus f w. key_table k = t}
    | Err e \<Rightarrow> rus w' = rus w | Panic p \<Rightarrow> rus w' = rus w"
  proof (cases r)
    case (Ok rs)
    have l: "distinct rs" "set rs = {x \<in> rus w. ru_Family x = f \<and> ru_Table x = t}" "rus w' = rus w"
      using rule_list_filtered [OF assms(1) run] Ok assms(3) by (auto simp: rule_in_def)
    have eq: "{k \<in> keys_in rus f w. key_table k = t} = rule_key ` set rs" unfolding keys l(2) ..
    have "inj_on rule_key (set rs)" by (rule inj_on_subset [OF assms(2)]) (use l(2) in blast)
    then have "card (rule_key ` set rs) = length rs" by (simp add: card_image distinct_card [OF l(1)])
    then show ?thesis unfolding eq Ok using l(3) by simp
  qed (use rule_list_filtered(1) [OF assms(1) run] in simp_all)
qed

text \<open>The rules of a client in the main table have different priorities.\<close>

lemma client_main_keys:
  "\<exists>L. set L \<subseteq> {v \<in> set (client_rules n f). ru_Table v = mainTableID} \<and> card (rule_key ` set L) = length (inCluster n f) + 1"
proof -
  let ?L = "(newRule f mainTableID ncLinkLocalPrio)\<lparr>ru_Dst := linkLocal_of f\<rparr> #
     map (\<lambda>(i, ipn). (newRule f mainTableID (ncLocalPrioBase + int i))\<lparr>ru_Dst := Some ipn\<rparr>) (enumerate 0 (inCluster n f))"
  have "map ru_Priority ?L = ncLinkLocalPrio # map (\<lambda>i. ncLocalPrioBase + int i) [0..<length (inCluster n f)]"
    by (simp add: newRule_def enumerate_eq_zip map_zip_map [symmetric] case_prod_unfold flip: map_map)
      (simp add: map_equality_iff)
  then have "distinct (map ru_Priority ?L)"
    by (auto simp: distinct_map inj_on_def ncLocalPrioBase_def ncLinkLocalPrio_def)
  moreover have "map ru_Priority ?L = map (\<lambda>(_, _, p, _). p) (map rule_key ?L)"
    by (simp add: rule_key_def)
  ultimately have "distinct (map (\<lambda>(_, _, p, _). p) (map rule_key ?L))" by (simp only:)
  then have "distinct (map rule_key ?L)" unfolding distinct_map [of _ "map rule_key ?L"] by (rule conjunct1)
  from distinct_card [OF this] have "card (rule_key ` set ?L) = length ?L" by (simp only: set_map length_map)
  moreover have "set ?L \<subseteq> {v \<in> set (client_rules n f). ru_Table v = mainTableID}"
    by (auto simp: client_rules_def newRule_def)
  ultimately show ?thesis by (intro exI [of _ ?L]) (simp add: length_enumerate)
qed

lemma client_rule_keys:
  assumes "f \<noteq> FAMILY_ALL" and "keys_in rus f w = K \<union> rule_key ` set (client_rules n f)"
    and "\<And>k. k \<in> K \<Longrightarrow> key_table k \<notin> {ncNarrowTableID, ncWideTableID}"
  shows "card {k \<in> keys_in rus f w. key_table k = ncNarrowTableID} = 1"
    and "card {k \<in> keys_in rus f w. key_table k = ncWideTableID} = 1"
    and "finite {k \<in> keys_in rus f w. key_table k = mainTableID} \<Longrightarrow>
      length (inCluster n f) + 1 \<le> card {k \<in> keys_in rus f w. key_table k = mainTableID}"
proof -
  let ?C = "\<lambda>t. {k \<in> keys_in rus f w. key_table k = t}"
  have C: "?C t = rule_key ` {v \<in> set (client_rules n f). ru_Table v = t}" if t: "t \<in> {ncNarrowTableID, ncWideTableID}" for t
  proof -
    have "{k \<in> K. key_table k = t} = {}" using assms(3) t by blast
    moreover have "{k \<in> rule_key ` set (client_rules n f). key_table k = t} = rule_key ` {v \<in> set (client_rules n f). ru_Table v = t}"
      by (simp add: Collect_conj_eq image_iff) force
    ultimately show ?thesis unfolding assms(2) by blast
  qed
  have "filter (\<lambda>v. ru_Table v = ncNarrowTableID) (client_rules n f) = [newRule f ncNarrowTableID ncNarrowPrio]"
    "filter (\<lambda>v. ru_Table v = ncWideTableID) (client_rules n f) = [newRule f ncWideTableID ncWidePrio]"
    by (simp_all add: client_rules_def newRule_def mainTableID_def ncNarrowTableID_def ncWideTableID_def filter_map o_def case_prod_unfold)
  from this [THEN arg_cong [where f = set]]
  have one: "{v \<in> set (client_rules n f). ru_Table v = ncNarrowTableID} = {newRule f ncNarrowTableID ncNarrowPrio}"
    "{v \<in> set (client_rules n f). ru_Table v = ncWideTableID} = {newRule f ncWideTableID ncWidePrio}"
    unfolding set_filter list.set by this+
  show "card (?C ncNarrowTableID) = 1" using C [of ncNarrowTableID] unfolding one by simp
  show "card (?C ncWideTableID) = 1" using C [of ncWideTableID] unfolding one by simp
  assume fin: "finite (?C mainTableID)"
  obtain L where L: "set L \<subseteq> {v \<in> set (client_rules n f). ru_Table v = mainTableID}"
      "card (rule_key ` set L) = length (inCluster n f) + 1" using client_main_keys by blast
  have "rule_key ` set L \<subseteq> ?C mainTableID" using L(1) assms(2) by auto
  from card_mono [OF fin this] show "length (inCluster n f) + 1 \<le> card (?C mainTableID)" unfolding L(2) .
qed

lemma isRuleInitialized_outcome:
  assumes "rule_laws rus (nv_netlink E)" and "inj_on rule_key (rus w)" and "f \<noteq> FAMILY_ALL"
    and "keys_in rus f w = K \<union> rule_key ` set (client_rules n f)"
    and "\<And>k. k \<in> K \<Longrightarrow> key_table k \<notin> {ncNarrowTableID, ncWideTableID}"
  shows "outcome (isRuleInitialized E f (inCluster n f)) (\<lambda>b w'. b \<and> rus w' = rus w) (\<lambda>_ _. True) (\<lambda>_. True) w"
proof -
  note keys = client_rule_keys [OF assms(3-5)]
  have count: "outcome (nl_RuleListFiltered (nv_netlink E) f (RuleFilterTable t))
    (\<lambda>rs w2. rus w2 = rus w \<and> finite {k \<in> keys_in rus f w. key_table k = t} \<and> length rs = card {k \<in> keys_in rus f w. key_table k = t})
    (\<lambda>_ _. True) (\<lambda>_. True) w1" if "rus w1 = rus w" for t w1
    using outcome_mono [OF rule_count_outcome [OF assms(1) _ assms(3), of w1 t]] assms(2) that by (simp add: keys_in_def)
  show ?thesis
    unfolding isRuleInitialized_def Let_def outcome_bindA outcome_wrapA
  proof (rule outcome_mono [OF count [OF refl]], goal_cases)
    case (1 rs w1)
    then have "\<not> length rs < length (inCluster n f) + 1" "rus w1 = rus w" using keys(3) by auto
    then show ?case
      by (simp only: if_False outcome_bindA outcome_wrapA)
        (rule outcome_mono [OF count]; auto simp: wp_simps keys intro!: outcome_mono [OF count])
  qed simp_all
qed

lemma initialized_after_outcome:
  assumes "rule_laws rus (nv_netlink E)" and "inj_on rule_key (rus w)"
    and "\<And>f. f \<noteq> FAMILY_ALL \<Longrightarrow> family_enabled n f \<Longrightarrow> keys_in rus f w = K f \<union> rule_key ` set (client_rules n f)"
    and "\<And>f k. k \<in> K f \<Longrightarrow> key_table k \<notin> {ncNarrowTableID, ncWideTableID}"
  shows "outcome (nc_IsInitialized E n) (\<lambda>b w'. b) (\<lambda>_ _. True) (\<lambda>_. True) w"
proof -
  have fam: "outcome (if family_enabled n f then wrapA m (isRuleInitialized E f (inCluster n f)) else returnA True)
     (\<lambda>b w2. b \<and> rus w2 = rus w) (\<lambda>_ _. True) (\<lambda>_. True) w1" if f: "f \<noteq> FAMILY_ALL" "rus w1 = rus w" for f m w1
  proof (cases "family_enabled n f")
    case True
    have inj: "inj_on rule_key (rus w1)" and "keys_in rus f w1 = keys_in rus f w" using f(2) assms(2) by (simp_all add: keys_in_def)
    then have keys: "keys_in rus f w1 = K f \<union> rule_key ` set (client_rules n f)" using assms(3) [OF f(1) True] by simp
    show ?thesis using isRuleInitialized_outcome [OF assms(1) inj f(1) keys assms(4)] f(2) True by (simp add: outcome_wrapA)
  qed (use f in \<open>simp add: outcome_returnA\<close>)
  have en: "nc_ipv4 n \<noteq> nil_ip \<longleftrightarrow> family_enabled n FAMILY_V4" "nc_ipv6 n \<noteq> nil_ip \<longleftrightarrow> family_enabled n FAMILY_V6"
      "nc_v4InCluster n = inCluster n FAMILY_V4" "nc_v6InCluster n = inCluster n FAMILY_V6"
    by (simp_all add: family_enabled_def inCluster_def)
  show ?thesis
    unfolding nc_IsInitialized_def en outcome_bindA [of "if _ then _ else _"]
  proof (rule outcome_mono [OF fam], goal_cases)
    case (3 b w1)
    then have "\<not> b \<longleftrightarrow> False" "rus w1 = rus w" by simp_all
    then show ?case
      by (simp only: if_False outcome_bindA) (rule outcome_mono [OF fam [of FAMILY_V6]]; simp add: wp_simps)
  qed simp_all
qed

lemma foreign_keys: "{k \<in> keys_in rus f w. \<not> own_key k} = rule_key ` {x \<in> rus w. ru_Family x = f \<and> \<not> own_rule x}"
  by (auto simp: keys_in_def own_key_iff simp del: own_key.simps)

text \<open>
  C35. After \<open>Init\<close> of the NAT client succeeds, the policy routing rules of each address family the pod has are
  exactly the rules of others, kept, and the rules of the client: link local, narrow, one per network inside
  the cluster, wide; whatever rules of an earlier setup were there before are gone. The rules of a family the pod
  does not have are as they were.
\<close>

theorem Init_rules_exact:
  assumes "rule_laws rus (nv_netlink E)" and "f \<noteq> FAMILY_ALL" and "nc_Init E n w = (Ok (), w')"
  shows "rule_key ` {x \<in> rus w'. ru_Family x = f} = (if family_enabled n f
    then rule_key ` {x \<in> rus w. ru_Family x = f \<and> \<not> own_rule x} \<union> rule_key ` set (client_rules n f)
    else rule_key ` {x \<in> rus w. ru_Family x = f})"
proof -
  have "init_result rus n [FAMILY_V4, FAMILY_V6] w w'" using Init_outcome [OF assms(1), of n w] assms(3) by (simp add: outcome_def)
  then have "keys_in rus f w' = init_keys rus n f w" using assms(2) by (cases f) (simp_all add: init_result_def)
  then show ?thesis using foreign_keys [of rus f w] by (simp add: init_keys_def keys_in_def)
qed

text \<open>
  A client that has been initialised is recognised: when no other software uses the two tables of the client,
  \<open>IsInitialized\<close> after a successful \<open>Init\<close> never answers no.
\<close>

lemma Init_then_IsInitialized:
  assumes "rule_laws rus (nv_netlink E)" and "inj_on rule_key (rus w)"
    and "\<forall>x \<in> rus w. ru_Table x \<in> {ncNarrowTableID, ncWideTableID} \<longrightarrow> own_rule x"
    and "nc_Init E n w = (Ok (), w')" and "nc_IsInitialized E n w' = (Ok b, w'')"
  shows "b"
proof -
  have res: "init_result rus n [FAMILY_V4, FAMILY_V6] w w'" using Init_outcome [OF assms(1), of n w] assms(4) by (simp add: outcome_def)
  have "keys_in rus f w' = {k \<in> keys_in rus f w. \<not> own_key k} \<union> rule_key ` set (client_rules n f)" if "f \<noteq> FAMILY_ALL" "family_enabled n f" for f
    using res that by (cases f) (simp_all add: init_result_def init_keys_def)
  note keys = this
  have foreign: "key_table k \<notin> {ncNarrowTableID, ncWideTableID}" if "k \<in> {k \<in> keys_in rus f w. \<not> own_key k}" for k f
    using that assms(3) unfolding foreign_keys by (auto simp del: key_table.simps)
  have "inj_on rule_key (rus w')" using res assms(2) by (simp add: init_result_def)
  then have "outcome (nc_IsInitialized E n) (\<lambda>b w'. b) (\<lambda>_ _. True) (\<lambda>_. True) w'"
    by (rule initialized_after_outcome [where K = "\<lambda>f. {k \<in> keys_in rus f w. \<not> own_key k}", OF assms(1)]) (erule keys foreign, assumption?)+
  then show ?thesis using assms(5) by (simp add: outcome_def)
qed

section \<open>Examples\<close>

definition ref_iptables :: "'w iptables_ops" where
  "ref_iptables = \<lparr>ipt_NewWithProtocol = (\<lambda>_. returnA ()), ipt_AppendUnique = (\<lambda>_ _ _ _. returnA ()), ipt_DeleteIfExists = (\<lambda>_ _ _ _. returnA ())\<rparr>"

definition ref_nft :: "'w nft_ops" where
  "ref_nft = \<lparr>nft_New = returnA (), nft_AddTable = returnA, nft_AddChain = returnA, nft_AddSet = (\<lambda>s _. returnA s),
     nft_GetRules = (\<lambda>_ _. returnA []), nft_AddRule = (\<lambda>_. returnA ()), nft_ListTables = returnA [], nft_DelTable = (\<lambda>_. returnA ()),
     nft_Flush = returnA (), nft_PutUint32 = (\<lambda>n. ip_of_nat 4 n), nft_CtStateBitINVALID = 1, nft_CtStateBits = 14\<rparr>"

definition ref_nat_env :: "nl_world nat_env" where
  "ref_nat_env = \<lparr>nv_netlink = ref_netlink, nv_iptables = ref_iptables, nv_nft = ref_nft\<rparr>"

definition example_client :: NatClient where
  "example_client = NewNatClient [10, 1, 1, 1] nil_ip [] EgressBackendIPTables"

definition kernel_default_rule :: rule where
  "kernel_default_rule = newRule FAMILY_V4 mainTableID 32766"

definition example_rules :: nl_world where
  "example_rules = empty_world\<lparr>nw_rules := [newRule FAMILY_V4 ncNarrowTableID 1950, kernel_default_rule]\<rparr>"

theorem Init_rules_exact_witness:
  "\<exists>w'. nc_Init ref_nat_env example_client example_rules = (Ok (), w') \<and>
    rule_key ` {x \<in> ref_rules w'. ru_Family x = FAMILY_V4} = insert (rule_key kernel_default_rule) (rule_key ` set (client_rules example_client FAMILY_V4))"
proof -
  obtain r w' where run: "nc_Init ref_nat_env example_client example_rules = (r, w')" by (cases "nc_Init ref_nat_env example_client example_rules")
  have "fst (nc_Init ref_nat_env example_client example_rules) = Ok ()" by code_simp
  then have ok: "r = Ok ()" using run by simp
  have laws: "rule_laws ref_rules (nv_netlink ref_nat_env)" using ref_rule_laws by (simp add: ref_nat_env_def)
  have "family_enabled example_client FAMILY_V4" by code_simp
  moreover have "{x \<in> ref_rules example_rules. ru_Family x = FAMILY_V4 \<and> \<not> own_rule x} = {kernel_default_rule}"
    by (auto simp: example_rules_def kernel_default_rule_def newRule_def own_rule_def ncLinkLocalPrio_def ncWidePrio_def)
  ultimately show ?thesis using Init_rules_exact [OF laws _ run [unfolded ok], of FAMILY_V4] run ok by auto
qed

lemma Init_then_IsInitialized_witness:
  "\<exists>w' w''. nc_Init ref_nat_env example_client example_rules = (Ok (), w') \<and> nc_IsInitialized ref_nat_env example_client w' = (Ok True, w'')"
proof -
  let ?E = ref_nat_env and ?n = example_client
  obtain r w' where run: "nc_Init ?E ?n example_rules = (r, w')" by (cases "nc_Init ?E ?n example_rules")
  obtain r' w'' where run': "nc_IsInitialized ?E ?n w' = (r', w'')" by (cases "nc_IsInitialized ?E ?n w'")
  have "fst (nc_Init ?E ?n example_rules) = Ok ()" by code_simp
  then have ok: "r = Ok ()" using run by simp
  have "case fst (nc_IsInitialized ?E ?n (snd (nc_Init ?E ?n example_rules))) of Ok b \<Rightarrow> True | _ \<Rightarrow> False" by code_simp
  then obtain b where b: "r' = Ok b" using run run' by (cases r') auto
  have laws: "rule_laws ref_rules (nv_netlink ?E)" using ref_rule_laws by (simp add: ref_nat_env_def)
  have inj: "inj_on rule_key (ref_rules example_rules)" by (auto simp: example_rules_def kernel_default_rule_def newRule_def rule_key_def)
  have own: "\<forall>x \<in> ref_rules example_rules. ru_Table x \<in> {ncNarrowTableID, ncWideTableID} \<longrightarrow> own_rule x"
    by (simp add: example_rules_def kernel_default_rule_def newRule_def own_rule_def ncLinkLocalPrio_def ncWidePrio_def ncNarrowTableID_def ncWideTableID_def mainTableID_def)
  show ?thesis using Init_then_IsInitialized [OF laws inj own run [unfolded ok] run' [unfolded b]] run run' ok b by auto
qed

text \<open>
  \<open>IsInitialized\<close> counts the rules that refer to the main table, and the default rule of the kernel is one of
  them: with one rule of the client missing it still answers that the client is initialised.
\<close>

lemma IsInitialized_misses_rule:
  "\<exists>v w. v \<in> set (client_rules example_client FAMILY_V4) \<and> rule_key v \<notin> rule_key ` ref_rules w \<and>
    fst (nc_IsInitialized ref_nat_env example_client w) = Ok True"
proof -
  let ?v = "hd (client_rules example_client FAMILY_V4)"
  let ?w = "empty_world\<lparr>nw_rules := kernel_default_rule # tl (client_rules example_client FAMILY_V4)\<rparr>"
  have "?v \<in> set (client_rules example_client FAMILY_V4)" by (simp add: client_rules_def)
  moreover have "\<not> list_ex (\<lambda>x. rule_key x = rule_key ?v) (nw_rules ?w)" by code_simp
  then have "rule_key ?v \<notin> rule_key ` ref_rules ?w" by (simp only: list_ex_iff) (metis imageE)
  moreover have "fst (nc_IsInitialized ref_nat_env example_client ?w) = Ok True" by code_simp
  ultimately show ?thesis by blast
qed

section \<open>Routes of a link after a synchronisation\<close>

text \<open>\<open>keyed_set key m A\<close>: the map holds exactly the elements of \<open>A\<close> under their keys.\<close>

definition keyed_set :: "('v \<Rightarrow> string) \<Rightarrow> 'v gomap \<Rightarrow> 'v set \<Rightarrow> bool" where
  "keyed_set key m A \<longleftrightarrow> distinct (gkeys m) \<and> (\<forall>k x. glookup m k = Some x \<longleftrightarrow> x \<in> A \<and> key x = k)"

lemma keyed_set_empty [simp]: "keyed_set key [] {}"
  by (simp add: keyed_set_def gkeys_def)

lemma keyed_set_update:
  assumes "keyed_set key m A" and "inj_on key (insert x A)"
  shows "keyed_set key (gupdate (key x) x m) (insert x A)"
  using assms by (auto simp: keyed_set_def inj_on_def)

lemma keyed_set_fold:
  assumes "keyed_set key m A" and "inj_on key (A \<union> {x \<in> set xs. P x})"
  shows "keyed_set key (fold (\<lambda>r m. if P r then gupdate (key r) r m else m) xs m) (A \<union> {x \<in> set xs. P x})"
  using assms
proof (induction xs arbitrary: m A)
  case (Cons x xs)
  show ?case
  proof (cases "P x")
    case True
    then have eq: "A \<union> {y \<in> set (x # xs). P y} = insert x A \<union> {y \<in> set xs. P y}" by auto
    have inj: "inj_on key (insert x A \<union> {y \<in> set xs. P y})" using Cons.prems(2) unfolding eq .
    then have "inj_on key (insert x A)" by (rule inj_on_subset) auto
    from Cons.IH [OF keyed_set_update [OF Cons.prems(1) this] inj] show ?thesis unfolding eq using True by simp
  next
    case False
    then have "{y \<in> set (x # xs). P y} = {y \<in> set xs. P y}" by auto
    then show ?thesis using Cons.IH [OF Cons.prems(1)] Cons.prems(2) False by simp
  qed
qed simp

lemma keyed_set_copy:
  assumes "keyed_set key dst A" and "keyed_set key src B" and "inj_on key (A \<union> B)"
  shows "keyed_set key (maps_Copy dst src) (A \<union> B)"
proof -
  have fold: "keyed_set key (fold (\<lambda>(k, v). gupdate k v) kvs m) (C \<union> snd ` set kvs)"
    if "keyed_set key m C" "\<And>k v. (k, v) \<in> set kvs \<Longrightarrow> k = key v" "inj_on key (C \<union> snd ` set kvs)" for kvs m C
    using that
  proof (induction kvs arbitrary: m C)
    case (Cons kv kvs)
    obtain v where v: "kv = (key v, v)" using Cons.prems(2) by (cases kv) auto
    have eq: "C \<union> snd ` set (kv # kvs) = insert v C \<union> snd ` set kvs" using v by auto
    have inj: "inj_on key (insert v C \<union> snd ` set kvs)" using Cons.prems(3) unfolding eq .
    then have "inj_on key (insert v C)" by (rule inj_on_subset) auto
    have "keyed_set key (fold (\<lambda>(k, v). gupdate k v) kvs (gupdate (key v) v m)) (insert v C \<union> snd ` set kvs)"
      by (rule Cons.IH [OF keyed_set_update [OF Cons.prems(1) \<open>inj_on key (insert v C)\<close>] Cons.prems(2) inj]) simp
    then show ?case unfolding eq v by simp
  qed simp
  have src: "(k, v) \<in> set src \<longleftrightarrow> v \<in> B \<and> key v = k" for k v
    using assms(2) map_of_eq_Some_iff [of src k v] by (simp add: keyed_set_def gkeys_def)
  have "snd ` set src = B"
  proof (intro equalityI subsetI)
    fix v assume "v \<in> B"
    then have "(key v, v) \<in> set src" using src by simp
    then show "v \<in> snd ` set src" by (rule rev_image_eqI) simp
  qed (use src in auto)
  then show ?thesis using fold [OF assms(1), of src] src assms(3) by (simp add: maps_Copy_def)
qed

definition dst_name :: "route \<Rightarrow> string" where
  "dst_name r = netp_String (rt_Dst r)"

definition link_route :: "link \<Rightarrow> route \<Rightarrow> bool" where
  "link_route l x \<longleftrightarrow> rt_Table x \<in> {ncNarrowTableID, ncWideTableID} \<and> rt_LinkIndex x = lk_Index l \<and> rt_Dst x \<noteq> None"

lemma collect_tables_outcome:
  assumes "route_laws rts (nv_netlink E)" and "keyed_set dst_name m A"
    and "inj_on dst_name (A \<union> {x \<in> rts w. rt_LinkIndex x = i \<and> rt_Dst x \<noteq> None \<and> (\<exists>(f, t) \<in> set fts. in_family f x \<and> rt_Table x = t)})"
  shows "outcome (collect_tables E i fts m) (\<lambda>m' w'. rts w' = rts w \<and>
      keyed_set dst_name m' (A \<union> {x \<in> rts w. rt_LinkIndex x = i \<and> rt_Dst x \<noteq> None \<and> (\<exists>(f, t) \<in> set fts. in_family f x \<and> rt_Table x = t)}))
    (\<lambda>_ _. True) (\<lambda>_. True) w"
  using assms(2,3)
proof (induction fts arbitrary: m A w)
  case Nil
  then show ?case by (simp add: wp_simps)
next
  case (Cons ft fts)
  obtain f t where ft: "ft = (f, t)" by (cases ft)
  let ?B = "{x \<in> rts w. rt_LinkIndex x = i \<and> rt_Dst x \<noteq> None \<and> in_family f x \<and> rt_Table x = t}"
  let ?C = "\<lambda>fts. {x \<in> rts w. rt_LinkIndex x = i \<and> rt_Dst x \<noteq> None \<and> (\<exists>(f, t) \<in> set fts. in_family f x \<and> rt_Table x = t)}"
  have eq: "A \<union> ?C (ft # fts) = (A \<union> ?B) \<union> ?C fts" unfolding ft by auto
  have injAB: "inj_on dst_name (A \<union> ?B)" and injB: "inj_on dst_name ?B"
    using Cons.prems(2) unfolding eq by (auto intro: inj_on_subset)
  have "outcome (collectRoutesFromTable E f t i) (\<lambda>res w'. rts w' = rts w \<and> keyed_set dst_name res ?B) (\<lambda>_ _. True) (\<lambda>_. True) w"
    unfolding collectRoutesFromTable_def dst_name_def [symmetric] outcome_bindA outcome_wrapA
  proof (rule outcome_call)
    fix r w'
    assume run: "nl_RouteListFiltered (nv_netlink E) f (FilterTable t) w = (r, w')"
    show "case r of Ok rs \<Rightarrow> outcome (returnA (fold (\<lambda>r m. if rt_LinkIndex r = i \<and> rt_Dst r \<noteq> None then gupdate (dst_name r) r m else m) rs []))
        (\<lambda>res w'. rts w' = rts w \<and> keyed_set dst_name res ?B) (\<lambda>_ _. True) (\<lambda>_. True) w' | Err e \<Rightarrow> True | Panic p \<Rightarrow> True"
    proof (cases r)
      case (Ok rs)
      have l: "rts w' = rts w" "set rs = {x \<in> rts w. in_family f x \<and> rt_Table x = t}" using route_list [OF assms(1) run] Ok by auto
      then have B: "{x \<in> set rs. rt_LinkIndex x = i \<and> rt_Dst x \<noteq> None} = ?B" by auto
      have "keyed_set dst_name (fold (\<lambda>r m. if rt_LinkIndex r = i \<and> rt_Dst r \<noteq> None then gupdate (dst_name r) r m else m) rs []) ({} \<union> {x \<in> set rs. rt_LinkIndex x = i \<and> rt_Dst x \<noteq> None})"
        by (rule keyed_set_fold) (use injB B in auto)
      then show ?thesis unfolding Ok using l(1) B by (simp add: wp_simps)
    qed simp_all
  qed
  then show ?case
    unfolding collect_tables.simps ft outcome_bindA outcome_wrapA
  proof (rule outcome_mono, goal_cases)
    case (1 res w1)
    have "keyed_set dst_name (maps_Copy m res) (A \<union> ?B)" using keyed_set_copy [OF Cons.prems(1)] 1 injAB by blast
    moreover have "rts w1 = rts w" using 1 by simp
    ultimately show ?case using Cons.IH [of "maps_Copy m res" "A \<union> ?B" w1] Cons.prems(2) [unfolded eq] unfolding eq [unfolded ft] by simp
  qed simp_all
qed

lemma collect_outcome:
  assumes "route_laws rts (nv_netlink E)" and "inj_on dst_name {x \<in> rts w. link_route l x}"
  shows "outcome (collectRoutesBySubnet E (lk_Index l)) (\<lambda>m w'. rts w' = rts w \<and> keyed_set dst_name m {x \<in> rts w. link_route l x})
    (\<lambda>_ _. True) (\<lambda>_. True) w"
proof -
  let ?fts = "[(FAMILY_V4, ncNarrowTableID), (FAMILY_V4, ncWideTableID), (FAMILY_V6, ncNarrowTableID), (FAMILY_V6, ncWideTableID)]"
  have "in_family FAMILY_V4 x \<or> in_family FAMILY_V6 x" for x by (simp add: in_family_def route_family_def ip_family_def split: option.splits)
  then have "{x \<in> rts w. rt_LinkIndex x = lk_Index l \<and> rt_Dst x \<noteq> None \<and> (\<exists>(f, t) \<in> set ?fts. in_family f x \<and> rt_Table x = t)} = {x \<in> rts w. link_route l x}"
    by (auto simp: link_route_def)
  then show ?thesis using collect_tables_outcome [OF assms(1) keyed_set_empty, of w "lk_Index l" ?fts] assms(2)
    unfolding collectRoutesBySubnet_def by simp
qed

lemma diff_loop_spec:
  assumes "diff_loop subnets rs adds = (adds', rs')"
  shows "glookup rs' k = (if k \<in> IPNet_String ` set subnets then None else glookup rs k)"
    and "set adds \<subseteq> set adds'" and "set adds' \<subseteq> set adds \<union> set subnets"
    and "s \<in> set subnets \<Longrightarrow> glookup rs (IPNet_String s) = None \<Longrightarrow> s \<in> set adds'"
  using assms by (induction subnets rs adds rule: diff_loop.induct) (auto split: if_splits)

text \<open>What is removed are the routes to other destinations; every subnet without a route is added.\<close>

lemma diffRoutes_spec:
  assumes "go_range rng" and "keyed_set dst_name routes A" and "inj_on dst_name A" and "diffRoutes rng routes subnets = (adds, dels)"
  shows "set dels = {x \<in> A. dst_name x \<notin> IPNet_String ` set subnets}" and "set adds \<subseteq> set subnets"
    and "s \<in> set subnets \<Longrightarrow> IPNet_String s \<notin> dst_name ` A \<Longrightarrow> s \<in> set adds"
proof -
  have keyed: "keyed_set dst_name (maps_Copy [] routes) A" using keyed_set_copy [OF keyed_set_empty assms(2)] assms(3) by simp
  obtain rs where d: "diff_loop subnets (maps_Copy [] routes) [] = (adds, rs)" and dels: "dels = List.map_filter (glookup rs) (rng (gkeys rs))"
    using assms(4) by (auto simp: diffRoutes_def split: prod.splits)
  have rs: "glookup rs k = Some x \<longleftrightarrow> x \<in> A \<and> dst_name x = k \<and> k \<notin> IPNet_String ` set subnets" for k x
    using diff_loop_spec(1) [OF d, of k] keyed by (auto simp: keyed_set_def)
  have "x \<in> set dels \<longleftrightarrow> (\<exists>k. glookup rs k = Some x)" for x
    using assms(1) by (auto simp: dels List.map_filter_def domI image_iff)
  then show "set dels = {x \<in> A. dst_name x \<notin> IPNet_String ` set subnets}" using rs by auto
  show "set adds \<subseteq> set subnets" using diff_loop_spec(3) [OF d] by simp
  show "s \<in> set adds" if "s \<in> set subnets" "IPNet_String s \<notin> dst_name ` A"
  proof (rule diff_loop_spec(4) [OF d that(1)])
    have "x \<in> A \<and> dst_name x = IPNet_String s" if "glookup (maps_Copy [] routes) (IPNet_String s) = Some x" for x
      using keyed that by (simp add: keyed_set_def)
    then show "glookup (maps_Copy [] routes) (IPNet_String s) = None" using that(2) by (metis imageI option.exhaust)
  qed
qed

definition subnet_enabled :: "NatClient \<Rightarrow> ipnet \<Rightarrow> bool" where
  "subnet_enabled n s \<longleftrightarrow> family_enabled n (ip_family (net_IP s))"

text \<open>The route for a subnet: through the narrow table when it lies inside the cluster, else through the wide one.\<close>

definition client_table :: "NatClient \<Rightarrow> ipnet \<Rightarrow> int" where
  "client_table n s = (if list_ex (\<lambda>c. Contains c (net_IP s)) (inCluster n (ip_family (net_IP s))) then ncNarrowTableID else ncWideTableID)"

definition client_route :: "NatClient \<Rightarrow> link \<Rightarrow> ipnet \<Rightarrow> route" where
  "client_route n l s = new_route\<lparr>rt_Table := client_table n s, rt_Dst := Some s, rt_LinkIndex := lk_Index l, rt_Protocol := ncProtocolID\<rparr>"

lemma addRoute_eq:
  "addRoute E n l s = (if \<not> subnet_enabled n s then returnA () else
     bindA (wrapA (''netlink: failed to link up '' @ lk_Name l) (nl_LinkSetUp (nv_netlink E) l)) (\<lambda>_.
     wrapA (''netlink: failed to add route(table '' @ Itoa (client_table n s) @ '') to '' @ IPNet_String s) (nl_RouteAdd (nv_netlink E) (client_route n l s))))"
  by (simp add: addRoute_def subnet_enabled_def family_enabled_def ip_family_def client_route_def client_table_def inCluster_def Let_def)

definition routes_added :: "('w \<Rightarrow> route set) \<Rightarrow> NatClient \<Rightarrow> link \<Rightarrow> ipnet list \<Rightarrow> 'w \<Rightarrow> 'w \<Rightarrow> bool" where
  "routes_added rts n l adds w w' \<longleftrightarrow> rts w \<subseteq> rts w' \<and>
     (\<forall>x \<in> rts w'. x \<in> rts w \<or> (\<exists>s \<in> set adds. subnet_enabled n s \<and> installs (client_route n l s) x)) \<and>
     (\<forall>s \<in> set adds. subnet_enabled n s \<longrightarrow> (\<exists>x \<in> rts w'. installs (client_route n l s) x))"

lemma addRoute_outcome:
  assumes "route_laws rts (nv_netlink E)"
  shows "outcome (addRoute E n l s) (\<lambda>_. routes_added rts n l [s] w) (\<lambda>_ _. True) (\<lambda>_. True) w"
proof (cases "subnet_enabled n s")
  case False
  then show ?thesis by (simp add: addRoute_eq wp_simps routes_added_def)
next
  case True
  have up: "outcome (nl_LinkSetUp (nv_netlink E) l) (\<lambda>_ w'. rts w' = rts w) (\<lambda>_ _. True) (\<lambda>_. True) w"
    by (rule outcome_call) (use leavesD [OF route_leaves(2) [OF assms]] in \<open>auto split: res.splits\<close>)
  have add: "outcome (nl_RouteAdd (nv_netlink E) v) (\<lambda>_ w'. \<exists>x. installs v x \<and> rts w' = insert x (rts w1)) (\<lambda>_ _. True) (\<lambda>_. True) w1" for v w1
    by (rule outcome_call) (use route_add(1) [OF assms, of v w1] in \<open>fastforce split: res.splits\<close>)
  show ?thesis using True
    by (auto simp: addRoute_eq outcome_bindA outcome_wrapA routes_added_def intro!: outcome_mono [OF up] outcome_mono [OF add])
qed

lemma routes_added_trans:
  "routes_added rts n l [s] w w' \<Longrightarrow> routes_added rts n l ss w' w'' \<Longrightarrow> routes_added rts n l (s # ss) w w''"
  unfolding routes_added_def by (auto; blast)

lemma addRoutes_outcome:
  assumes "route_laws rts (nv_netlink E)"
  shows "outcome (foreachA (addRoute E n l) adds) (\<lambda>_. routes_added rts n l adds w) (\<lambda>_ _. True) (\<lambda>_. True) w"
proof (induction adds arbitrary: w)
  case Nil
  then show ?case by (simp add: wp_simps routes_added_def)
next
  case (Cons s ss)
  show ?case
    unfolding foreachA.simps outcome_bindA
  proof (rule outcome_mono [OF addRoute_outcome [OF assms]], goal_cases)
    case (1 _ w1)
    show ?case by (rule outcome_mono [OF Cons.IH [of w1]]) (use routes_added_trans [OF 1] in simp_all)
  qed simp_all
qed

text \<open>Connections from outside use tables from 1000 on: configuring them keeps the routes of the other tables.\<close>

definition low_routes :: "('w \<Rightarrow> route set) \<Rightarrow> 'w \<Rightarrow> route set" where
  "low_routes rts w = {x \<in> rts w. rt_Table x < nonEgressTableID}"

definition filter_leaves :: "('w \<Rightarrow> 'v) \<Rightarrow> 'w nat_env \<Rightarrow> bool" where
  "filter_leaves v E \<longleftrightarrow>
     (\<forall>p. leaves v (ipt_NewWithProtocol (nv_iptables E) p)) \<and> (\<forall>p t c s. leaves v (ipt_AppendUnique (nv_iptables E) p t c s)) \<and>
     (\<forall>p t c s. leaves v (ipt_DeleteIfExists (nv_iptables E) p t c s)) \<and>
     leaves v (nft_New (nv_nft E)) \<and> (\<forall>t. leaves v (nft_AddTable (nv_nft E) t)) \<and> (\<forall>c. leaves v (nft_AddChain (nv_nft E) c)) \<and>
     (\<forall>s e. leaves v (nft_AddSet (nv_nft E) s e)) \<and> (\<forall>t c. leaves v (nft_GetRules (nv_nft E) t c)) \<and> (\<forall>r. leaves v (nft_AddRule (nv_nft E) r)) \<and>
     leaves v (nft_ListTables (nv_nft E)) \<and> (\<forall>t. leaves v (nft_DelTable (nv_nft E) t)) \<and> leaves v (nft_Flush (nv_nft E))"

text \<open>What the synchronisation relies on: the laws of routes; reading links, addresses and rules, changing rules and packet filters does
  not change routes; the indices of links are positive.\<close>

definition nat_laws :: "('w \<Rightarrow> route set) \<Rightarrow> 'w nat_env \<Rightarrow> bool" where
  "nat_laws rts E \<longleftrightarrow> route_laws rts (nv_netlink E) \<and> filter_leaves rts E \<and>
     leaves rts (nl_LinkList (nv_netlink E)) \<and> (\<forall>w ls w'. nl_LinkList (nv_netlink E) w = (Ok ls, w') \<longrightarrow> (\<forall>l \<in> set ls. 0 < lk_Index l)) \<and>
     (\<forall>l f. leaves rts (nl_AddrList (nv_netlink E) l f)) \<and> (\<forall>l f. leaves rts (nl_RouteList (nv_netlink E) l f)) \<and>
     (\<forall>f t. leaves rts (nl_RuleListFiltered (nv_netlink E) f t)) \<and> (\<forall>r. leaves rts (nl_RuleAdd (nv_netlink E) r)) \<and> (\<forall>r. leaves rts (nl_RuleDel (nv_netlink E) r))"

lemma nat_laws_routes: "nat_laws rts E \<Longrightarrow> route_laws rts (nv_netlink E)"
  by (simp add: nat_laws_def)

lemma low_keeps: "leaves rts m \<Longrightarrow> keeps (\<lambda>w. low_routes rts w = X) m"
  using leaves_keeps [of rts m "\<lambda>R. {x \<in> R. rt_Table x < nonEgressTableID} = X"] by (simp add: low_routes_def)

lemma filters_keep:
  assumes "filter_leaves rts E"
  shows "keeps (\<lambda>w. low_routes rts w = X) (setIPTablesConnmarkRules (nv_iptables E) f l)"
    and "keeps (\<lambda>w. low_routes rts w = X) (removeIPTablesConnmarkRules (nv_iptables E) f l)"
    and "keeps (\<lambda>w. low_routes rts w = X) (setNFTablesConnmarkRules (nv_nft E) f l)"
    and "keeps (\<lambda>w. low_routes rts w = X) (removeNFTablesConnmarkRules (nv_nft E) f)"
proof -
  note l = assms [unfolded filter_leaves_def]
  have ipt: "keeps (\<lambda>w. low_routes rts w = X) (ipt_NewWithProtocol (nv_iptables E) p)"
      "keeps (\<lambda>w. low_routes rts w = X) (ipt_AppendUnique (nv_iptables E) p t c s)"
      "keeps (\<lambda>w. low_routes rts w = X) (ipt_DeleteIfExists (nv_iptables E) p t c s)" for p t c s
    using l by (simp_all add: low_keeps)
  have nft: "keeps (\<lambda>w. low_routes rts w = X) (nft_New (nv_nft E))" "keeps (\<lambda>w. low_routes rts w = X) (nft_AddTable (nv_nft E) t)"
      "keeps (\<lambda>w. low_routes rts w = X) (nft_AddChain (nv_nft E) c)" "keeps (\<lambda>w. low_routes rts w = X) (nft_AddSet (nv_nft E) s e)"
      "keeps (\<lambda>w. low_routes rts w = X) (nft_GetRules (nv_nft E) t c)" "keeps (\<lambda>w. low_routes rts w = X) (nft_AddRule (nv_nft E) r)"
      "keeps (\<lambda>w. low_routes rts w = X) (nft_ListTables (nv_nft E))" "keeps (\<lambda>w. low_routes rts w = X) (nft_DelTable (nv_nft E) t)"
      "keeps (\<lambda>w. low_routes rts w = X) (nft_Flush (nv_nft E))" for t c s e r
    using l by (simp_all add: low_keeps)
  show "keeps (\<lambda>w. low_routes rts w = X) (setIPTablesConnmarkRules (nv_iptables E) f l)"
    "keeps (\<lambda>w. low_routes rts w = X) (removeIPTablesConnmarkRules (nv_iptables E) f l)"
    unfolding setIPTablesConnmarkRules_def removeIPTablesConnmarkRules_def by (intro keeps_intros ipt)+
  show "keeps (\<lambda>w. low_routes rts w = X) (setNFTablesConnmarkRules (nv_nft E) f l)"
    unfolding setNFTablesConnmarkRules_def setNFTablesInputConnmarkRules_def setNFTablesOutputConnmarkRules_def
      addNFTablesChainIfNotExists_def addNFTablesSetIfNotExists_def addNFTablesRuleIfNotExists_def by (intro keeps_intros nft)
  show "keeps (\<lambda>w. low_routes rts w = X) (removeNFTablesConnmarkRules (nv_nft E) f)"
    unfolding removeNFTablesConnmarkRules_def by (intro keeps_intros nft)
qed

lemma high_route_keeps:
  assumes "route_laws rts N" and "nonEgressTableID \<le> rt_Table v"
  shows "keeps (\<lambda>w. low_routes rts w = X) (nl_RouteAdd N v)" and "keeps (\<lambda>w. low_routes rts w = X) (nl_RouteDel N v)"
proof -
  have "low_routes rts w' = low_routes rts w" if run: "nl_RouteAdd N v w = (r, w')" for w r w'
    using route_add [OF assms(1) run] assms(2)
    by (cases "r = Ok ()") (auto simp: low_routes_def installs_def nonEgressTableID_def split: if_splits)
  then show "keeps (\<lambda>w. low_routes rts w = X) (nl_RouteAdd N v)" by (auto intro: keepsI)
  have "low_routes rts w' = low_routes rts w" if run: "nl_RouteDel N v w = (r, w')" for w r w'
    using route_del [OF assms(1) run] assms(2) by (auto simp: low_routes_def)
  then show "keeps (\<lambda>w. low_routes rts w = X) (nl_RouteDel N v)" by (auto intro: keepsI)
qed

lemma unless_exists_keeps: "keeps I m \<Longrightarrow> keeps I (unless_exists msg m)"
  unfolding unless_exists_def by (intro keeps_intros)

lemma configure_link_keeps:
  assumes "nat_laws rts E" and "0 < lk_Index l"
  shows "keeps (\<lambda>w. low_routes rts w = X) (configure_link E backend f l)"
proof -
  note laws = assms(1) [unfolded nat_laws_def]
  have t: "nonEgressTableID \<le> rt_Table (r\<lparr>rt_Table := nonEgressTableID + lk_Index l\<rparr>)" for r :: route using assms(2) by simp
  show ?thesis
    unfolding configure_link_def checkLinkForGlobalScopeIP_def addFWMarkRuleIfNotExists_def checkFWMarkRule_def Let_def
    using laws
    by (intro keeps_intros unless_exists_keeps high_route_keeps(1) [OF _ t] filters_keep low_keeps) simp_all
qed

lemma remove_link_keeps:
  assumes "nat_laws rts E" and "0 < lk_Index l"
  shows "keeps (\<lambda>w. low_routes rts w = X) (remove_link E backend f l)"
proof -
  note laws = assms(1) [unfolded nat_laws_def]
  let ?I = "\<lambda>w. low_routes rts w = X"
  let ?t = "nonEgressTableID + lk_Index l"
  have rest: "keeps ?I (if length routes = 0 then returnA () else
      bindA (foreachA (\<lambda>r. unless_exists ''netlink: failed to delete route'' (nl_RouteDel (nv_netlink E) r)) routes) (\<lambda>_.
      bindA (wrapA ''failed to delete FWMark rule'' (delFWMarkRule E l ?t f)) (\<lambda>_.
      if backend = EgressBackendIPTables then removeIPTablesConnmarkRules (nv_iptables E) f l
      else if backend = EgressBackendNFTables then removeNFTablesConnmarkRules (nv_nft E) f
      else returnA ())))" if "\<And>r. r \<in> set routes \<Longrightarrow> nonEgressTableID \<le> rt_Table r" for routes
    unfolding delFWMarkRule_def checkFWMarkRule_def using laws that
    by (intro keeps_intros unless_exists_keeps high_route_keeps(2) filters_keep low_keeps) simp_all
  have list: "keeps ?I (bindA (wrapA msg (nl_RouteListFiltered (nv_netlink E) f (FilterTable ?t))) k)"
    if k: "\<And>routes. (\<And>r. r \<in> set routes \<Longrightarrow> nonEgressTableID \<le> rt_Table r) \<Longrightarrow> keeps ?I (k routes)" for k :: "route list \<Rightarrow> ('a, unit) act" and msg
  proof (rule keepsI)
    fix w r w'
    assume w: "?I w" and run: "bindA (wrapA msg (nl_RouteListFiltered (nv_netlink E) f (FilterTable ?t))) k w = (r, w')"
    obtain q w1 where q: "nl_RouteListFiltered (nv_netlink E) f (FilterTable ?t) w = (q, w1)" by (cases "nl_RouteListFiltered (nv_netlink E) f (FilterTable ?t) w")
    have w1: "?I w1" using route_list(1) [OF nat_laws_routes [OF assms(1)] q] w by (simp add: low_routes_def)
    show "?I w'"
    proof (cases q)
      case (Ok rs)
      have "nonEgressTableID \<le> rt_Table r" if "r \<in> set rs" for r
        using route_list(2) [OF nat_laws_routes [OF assms(1)] q Ok] that assms(2) by simp
      from keepsD [OF k [OF this] w1] run q Ok show ?thesis by (simp add: bindA_def wrapA_def)
    qed (use run q w1 in \<open>auto simp: bindA_def wrapA_def\<close>)
  qed
  have "keeps ?I (wrapA msg (checkLinkForGlobalScopeIP E l f))" for msg
    unfolding checkLinkForGlobalScopeIP_def using laws by (intro keeps_intros low_keeps) simp_all
  then show ?thesis
    unfolding remove_link_def Let_def by (rule keeps_bindA) (rule keeps_if, rule keeps_returnA, rule list, rule rest)
qed

lemma links_keep:
  assumes "nat_laws rts E" and "\<And>l. 0 < lk_Index l \<Longrightarrow> keeps (\<lambda>w. low_routes rts w = X) (body l)"
  shows "keeps (\<lambda>w. low_routes rts w = X) (bindA (wrapA msg (nl_LinkList (nv_netlink E))) (\<lambda>links. foreachA body links))"
proof (rule keepsI)
  fix w r w'
  assume w: "low_routes rts w = X" and run: "bindA (wrapA msg (nl_LinkList (nv_netlink E))) (\<lambda>links. foreachA body links) w = (r, w')"
  obtain q w1 where q: "nl_LinkList (nv_netlink E) w = (q, w1)" by (cases "nl_LinkList (nv_netlink E) w")
  have "leaves rts (nl_LinkList (nv_netlink E))" using assms(1) by (simp add: nat_laws_def)
  from keepsD [OF low_keeps [OF this] w q] have w1: "low_routes rts w1 = X" .
  show "low_routes rts w' = X"
  proof (cases q)
    case (Ok ls)
    then have pos: "\<And>l. l \<in> set ls \<Longrightarrow> 0 < lk_Index l" using assms(1) q by (auto simp: nat_laws_def)
    have "keeps (\<lambda>w. low_routes rts w = X) (foreachA body ls)" by (rule keeps_foreachA) (rule assms(2) [OF pos])
    from keepsD [OF this w1] run q Ok show ?thesis by (simp add: bindA_def wrapA_def)
  qed (use run q w1 in \<open>auto simp: bindA_def wrapA_def\<close>)
qed

lemma originating_keeps:
  assumes "nat_laws rts E"
  shows "keeps (\<lambda>w. low_routes rts w = X) (configureOriginatingOnly E f backend)"
    and "keeps (\<lambda>w. low_routes rts w = X) (removeOriginatingOnly E f backend)"
  unfolding configureOriginatingOnly_def removeOriginatingOnly_def
  by (intro links_keep [OF assms] configure_link_keeps [OF assms] remove_link_keeps [OF assms]; assumption)+

lemma deleteRoutes_outcome:
  assumes "route_laws rts (nv_netlink E)"
  shows "outcome (foreachA (deleteRoute E) dels) (\<lambda>_ w'. rts w' = rts w - set dels) (\<lambda>_ _. True) (\<lambda>_. True) w"
proof (rule outcome_call)
  fix r w'
  assume "foreachA (deleteRoute E) dels w = (r, w')"
  then have "foreachA (\<lambda>v. wrapA ''netlink: failed to delete a route '' (nl_RouteDel (nv_netlink E) v)) dels w = (r, w')"
    unfolding deleteRoute_def .
  from dels_spec [OF assms this] show "case r of Ok x \<Rightarrow> rts w' = rts w - set dels | Err e \<Rightarrow> True | Panic p \<Rightarrow> True"
    by (cases r) auto
qed

text \<open>The routes after the deletions and additions, before the tables for connections from outside are looked at.\<close>

definition sync_state :: "('w \<Rightarrow> route set) \<Rightarrow> NatClient \<Rightarrow> link \<Rightarrow> ipnet list \<Rightarrow> route set \<Rightarrow> 'w \<Rightarrow> bool" where
  "sync_state rts n l subnets R w' \<longleftrightarrow> (\<exists>adds w1. set adds \<subseteq> set subnets \<and>
     (\<forall>s \<in> set subnets. IPNet_String s \<notin> dst_name ` {x \<in> R. link_route l x} \<longrightarrow> s \<in> set adds) \<and>
     rts w1 = R - {x \<in> R. link_route l x \<and> dst_name x \<notin> IPNet_String ` set subnets} \<and>
     (\<exists>w2. routes_added rts n l adds w1 w2 \<and> low_routes rts w' = low_routes rts w2))"

lemma SyncNat_outcome:
  assumes "nat_laws rts E" and "go_range rng" and "inj_on dst_name {x \<in> rts w. link_route l x}"
  shows "outcome (SyncNat E rng frng n l subnets oo) (\<lambda>_. sync_state rts n l subnets (rts w)) (\<lambda>_ _. True) (\<lambda>_. True) w"
proof -
  note laws = nat_laws_routes [OF assms(1)]
  have phase: "keeps (\<lambda>w. low_routes rts w = X) (if oo then foreachA (\<lambda>f. configureOriginatingOnly E f (nc_backend n)) fs
      else foreachA (\<lambda>f. removeOriginatingOnly E f (nc_backend n)) [FAMILY_V4, FAMILY_V6])" for X fs
    by (intro keeps_intros originating_keeps [OF assms(1)])
  show ?thesis
    unfolding SyncNat_def outcome_bindA
  proof (rule outcome_mono [OF collect_outcome [OF laws assms(3)]], goal_cases)
    case (1 m w0)
    obtain adds dels where d: "diffRoutes rng m subnets = (adds, dels)" by (cases "diffRoutes rng m subnets")
    note spec = diffRoutes_spec [OF assms(2) conjunct2 [OF 1] assms(3) d]
    show ?case
      unfolding d Let_def prod.case outcome_bindA
    proof (rule outcome_mono [OF deleteRoutes_outcome [OF laws]], goal_cases)
      case (1 _ w1)
      show ?case
      proof (rule outcome_mono [OF addRoutes_outcome [OF laws]], goal_cases)
        case (1 _ w2)
        have "sync_state rts n l subnets (rts w) w3" if "low_routes rts w3 = low_routes rts w2" for w3
          unfolding sync_state_def
          using \<open>rts w1 = rts w0 - set dels\<close> \<open>rts w0 = rts w \<and> _\<close> spec 1 that by (intro exI [of _ adds] exI [of _ w1]) auto
        then show ?case by (rule outcome_mono [OF outcome_keeps [OF phase refl]]) simp_all
      qed simp_all
    qed simp_all
  qed simp_all
qed

lemma client_table_low: "client_table n s \<in> {ncNarrowTableID, ncWideTableID}"
  by (simp add: client_table_def)

lemma installs_client:
  assumes "installs (client_route n l s) x" and "lk_Index l \<noteq> 0"
  shows "link_route l x" and "dst_name x = IPNet_String s" and "rt_Dst x = Some s" and "rt_Table x = client_table n s" and "rt_Protocol x = ncProtocolID"
  using assms client_table_low [of n s]
  by (auto simp: installs_def client_route_def link_route_def dst_name_def netp_String_def ncNarrowTableID_def ncWideTableID_def split: if_splits)

lemma link_route_low: "link_route l x \<Longrightarrow> rt_Table x < nonEgressTableID"
  by (auto simp: link_route_def ncNarrowTableID_def ncWideTableID_def nonEgressTableID_def)

lemma sync_state_exact:
  assumes "sync_state rts n l subnets R w'" and "lk_Index l \<noteq> 0"
  shows "dst_name ` {x \<in> rts w'. link_route l x} =
      IPNet_String ` {s \<in> set subnets. subnet_enabled n s} \<union> (dst_name ` {x \<in> R. link_route l x} \<inter> IPNet_String ` set subnets)"
    and "x \<in> rts w' \<Longrightarrow> link_route l x \<Longrightarrow> x \<in> R \<or>
      (\<exists>s \<in> set subnets. subnet_enabled n s \<and> rt_Dst x = Some s \<and> rt_Table x = client_table n s \<and> rt_Protocol x = ncProtocolID)"
    and "\<not> link_route l x \<Longrightarrow> rt_Table x < nonEgressTableID \<Longrightarrow> x \<in> rts w' \<longleftrightarrow> x \<in> R"
proof -
  obtain adds w1 w2 where adds: "set adds \<subseteq> set subnets" "\<And>s. s \<in> set subnets \<Longrightarrow> IPNet_String s \<notin> dst_name ` {x \<in> R. link_route l x} \<Longrightarrow> s \<in> set adds"
      and w1: "rts w1 = R - {x \<in> R. link_route l x \<and> dst_name x \<notin> IPNet_String ` set subnets}"
      and w2: "routes_added rts n l adds w1 w2" and low: "low_routes rts w' = low_routes rts w2"
    using assms(1) unfolding sync_state_def by blast
  have in_w': "x \<in> rts w' \<longleftrightarrow> x \<in> rts w2" if "rt_Table x < nonEgressTableID" for x using low that by (auto simp: low_routes_def)
  let ?M = "\<lambda>R. {x \<in> R. link_route l x}"
  let ?W = "IPNet_String ` {s \<in> set subnets. subnet_enabled n s} \<union> (dst_name ` ?M R \<inter> IPNet_String ` set subnets)"
  let ?inst = "\<lambda>k x. \<exists>s \<in> set subnets. subnet_enabled n s \<and> IPNet_String s = k \<and> installs (client_route n l s) x"
  have w1': "rts w1 = R - {x \<in> R. link_route l x \<and> dst_name x \<notin> ?W}" unfolding w1 by auto
  have new: "x \<in> rts w1 \<or> (\<exists>s \<in> set subnets. subnet_enabled n s \<and> installs (client_route n l s) x)" if "x \<in> rts w2" for x
    using w2 adds(1) that unfolding routes_added_def by blast
  have R: "R - {x \<in> R. link_route l x \<and> dst_name x \<notin> ?W} \<subseteq> rts w2" using w2 w1' by (simp add: routes_added_def)
  have new': "x \<in> R - {x \<in> R. link_route l x \<and> dst_name x \<notin> ?W} \<or> (\<exists>k \<in> ?W. ?inst k x)" if "x \<in> rts w2" for x
    using new [OF that] w1' by blast
  have added: "\<exists>x \<in> rts w2. ?inst k x" if "k \<in> ?W" "k \<notin> dst_name ` ?M R" for k
    using that adds(2) w2 unfolding routes_added_def by blast
  have inst: "dst_name x = k \<and> link_route l x" if "?inst k x" for k x using that installs_client [OF _ assms(2)] by blast
  note exact = synced_sets [where R = R and P = "link_route l" and key = dst_name and inst = ?inst, OF R new' added inst]
  have M: "?M (rts w') = ?M (rts w2)" using in_w' link_route_low by blast
  show "dst_name ` ?M (rts w') = ?W" unfolding M by (rule exact(1))
  show "x \<in> R \<or> (\<exists>s \<in> set subnets. subnet_enabled n s \<and> rt_Dst x = Some s \<and> rt_Table x = client_table n s \<and> rt_Protocol x = ncProtocolID)"
    if x: "x \<in> rts w'" "link_route l x"
    using new [of x] in_w' [OF link_route_low [OF x(2)]] x(1) installs_client [OF _ assms(2)] w1 by blast
  show "x \<in> rts w' \<longleftrightarrow> x \<in> R" if x: "\<not> link_route l x" "rt_Table x < nonEgressTableID"
    unfolding in_w' [OF x(2)] by (rule exact(2)) (assumption | rule x(1))+
qed

lemma ref_nat_laws: "nat_laws ref_routes ref_nat_env"
  using ref_route_laws
  by (simp add: nat_laws_def filter_leaves_def leaves_def ref_nat_env_def ref_iptables_def ref_nft_def returnA_def)
    (simp add: ref_netlink_def leaves_def okA_def)


definition example_link :: link where
  "example_link = (new_link ''fou4_0a000001'' OtherLink)\<lparr>lk_Index := 5\<rparr>"

definition net24 :: "ip \<Rightarrow> ipnet" where
  "net24 a = \<lparr>net_IP = a, net_Mask = Some (24, 32)\<rparr>"

definition example_routes :: nl_world where
  "example_routes = empty_world\<lparr>nw_links := [example_link],
     nw_routes := [new_route\<lparr>rt_Dst := Some (net24 [192, 168, 9, 0]), rt_Table := ncWideTableID, rt_LinkIndex := 5\<rparr>,
       new_route\<lparr>rt_Dst := Some (net24 [8, 8, 8, 0]), rt_Table := ncWideTableID, rt_LinkIndex := 5\<rparr>]\<rparr>"


section \<open>Clients of the server\<close>

definition back_route :: "ip \<Rightarrow> route \<Rightarrow> bool" where
  "back_route a x \<longleftrightarrow> rt_Table x = nsTableID \<and> (case rt_Dst x of None \<Rightarrow> False | Some d \<Rightarrow> IP_Equal (net_IP d) a)"

lemma IP_Equal_refl: "IP_Equal a a"
  by (simp add: IP_Equal_def)

lemma net_NewIPNet: "net_IP (NewIPNet a) = a"
  by (simp add: NewIPNet_def)

lemma IP_Equal_family: "IP_Equal a b \<Longrightarrow> ip_family a = ip_family b"
  by (auto simp: IP_Equal_def ip_family_def To4_def split: if_splits)

lemma back_route_family: "back_route a x \<Longrightarrow> in_family (ip_family a) x"
  by (auto simp: back_route_def in_family_def route_family_def IP_Equal_family split: option.splits)

text \<open>What \<open>AddClient\<close> may do to the routes of \<open>w\<close>.\<close>

definition back_kept :: "('w \<Rightarrow> route set) \<Rightarrow> ip \<Rightarrow> NatServer \<Rightarrow> 'w \<Rightarrow> NatServer \<times> 'w \<Rightarrow> bool" where
  "back_kept rts a n w s' \<longleftrightarrow> rts w \<subseteq> rts (snd s') \<and> (\<exists>x. rts (snd s') \<subseteq> insert x (rts w)) \<and>
     ((\<exists>x \<in> rts w. back_route a x) \<longrightarrow> rts (snd s') = rts w \<and> fst s' = n)"

lemma back_kept_same: "rts w' = rts w \<Longrightarrow> back_kept rts a n w (n, w')"
  by (auto simp: back_kept_def)

lemma add_back_outcome:
  assumes "route_laws rts N" and "rts w1 = rts w" and "\<not> (\<exists>x \<in> rts w. back_route a x)"
    and "rt_Dst v = Some (NewIPNet a)" and "rt_Table v = nsTableID"
  shows "outcome (bindA (wrapA t (liftW (nl_LinkSetUp N l))) (\<lambda>_. bindA (wrapA u (liftW (nl_RouteAdd N v))) (\<lambda>_. modifyA (\<lambda>(n, w). (f n, w)))))
    (\<lambda>_ s'. back_kept rts a n w s' \<and> (\<exists>x \<in> rts (snd s'). back_route a x)) (\<lambda>_. back_kept rts a n w) (back_kept rts a n w) (n, w1)"
proof -
  have up: "keeps (\<lambda>w'. rts w' = rts w) (nl_LinkSetUp N l)" using leaves_keeps [OF route_leaves(2) [OF assms(1)]] .
  have add: "outcome (nl_RouteAdd N v) (\<lambda>_ w'. \<exists>x. back_route a x \<and> rts w' = insert x (rts w)) (\<lambda>_ w'. rts w' = rts w) (\<lambda>w'. rts w' = rts w) w2"
    if "rts w2 = rts w" for w2
  proof (rule outcome_call)
    fix r w' assume run: "nl_RouteAdd N v w2 = (r, w')"
    have "\<exists>x. back_route a x \<and> rts w' = insert x (rts w)" if ok: "r = Ok ()"
    proof -
      obtain x where x: "installs v x" "rts w' = insert x (rts w)" using route_add(1) [OF assms(1) run ok] \<open>rts w2 = rts w\<close> by auto
      then have "back_route a x" using assms(4,5) by (simp add: back_route_def installs_def nsTableID_def IP_Equal_refl net_NewIPNet)
      then show ?thesis using x(2) by blast
    qed
    then show "case r of Ok _ \<Rightarrow> \<exists>x. back_route a x \<and> rts w' = insert x (rts w) | Err _ \<Rightarrow> rts w' = rts w | Panic _ \<Rightarrow> rts w' = rts w"
      using route_add(2) [OF assms(1) run] \<open>rts w2 = rts w\<close> by (auto split: res.splits)
  qed
  show ?thesis
    unfolding wp_simps
    by (rule outcome_mono [OF outcome_keeps [OF up assms(2)]], rule outcome_mono [OF add])
      (use assms(3) in \<open>auto simp: wp_simps back_kept_def\<close>)
qed

lemma AddClient_outcome:
  assumes "route_laws rts (nv_netlink E)" and "\<not> (isIPv4 a \<and> sv_ipv4 n = nil_ip)" and "\<not> (\<not> isIPv4 a \<and> sv_ipv6 n = nil_ip)"
  shows "outcome (AddClient E a l)
    (\<lambda>_ s'. back_kept rts a n w s' \<and> (\<exists>x \<in> rts (snd s'). back_route a x)) (\<lambda>_. back_kept rts a n w) (back_kept rts a n w) (n, w)"
  unfolding AddClient_def bindA_getA outcome_bindA [of getA] outcome_getA prod.case if_not_P [OF assms(2)] if_not_P [OF assms(3)]
    outcome_bindA [of "wrapA _ (liftW (nl_RouteListFiltered _ _ _))"] outcome_wrapA outcome_liftW
proof (rule outcome_call)
  fix r w1 assume run: "nl_RouteListFiltered (nv_netlink E) (ip_family a) (FilterTable nsTableID) w = (r, w1)"
  have w1: "rts w1 = rts w" using route_list(1) [OF assms(1) run] .
  have rs: "list_ex (\<lambda>r. case rt_Dst r of None \<Rightarrow> False | Some d \<Rightarrow> IP_Equal (net_IP d) a) rs \<longleftrightarrow> (\<exists>x \<in> rts w. back_route a x)" if "r = Ok rs" for rs
    using route_list(2) [OF assms(1) run that] back_route_family [of a] by (auto simp: list_ex_iff back_route_def split: option.splits)
  show "case r of Ok rs \<Rightarrow> outcome (if list_ex (\<lambda>r. case rt_Dst r of None \<Rightarrow> False | Some d \<Rightarrow> IP_Equal (net_IP d) a) rs then returnA ()
       else bindA (wrapA (''netlink: failed to link up '' @ lk_Name l) (liftW (nl_LinkSetUp (nv_netlink E) l))) (\<lambda>_.
         bindA (wrapA (''netlink: failed to add '' @ IP_String a @ '' to table 118'') (liftW (nl_RouteAdd (nv_netlink E)
           (new_route\<lparr>rt_Dst := Some (NewIPNet a), rt_LinkIndex := lk_Index l, rt_Table := nsTableID, rt_Protocol := nsProtocolID\<rparr>)))) (\<lambda>_.
         modifyA (\<lambda>(n, w). (n\<lparr>sv_clients := gupdate (IP_String a) () (sv_clients n)\<rparr>, w)))))
       (\<lambda>_ s'. back_kept rts a n w s' \<and> (\<exists>x \<in> rts (snd s'). back_route a x)) (\<lambda>_. back_kept rts a n w) (back_kept rts a n w) (n, w1)
     | Err e \<Rightarrow> back_kept rts a n w (n, w1) | Panic p \<Rightarrow> back_kept rts a n w (n, w1)"
    using w1 rs by (cases r) (auto simp: outcome_returnA back_kept_same intro!: add_back_outcome [OF assms(1) w1])
qed

text \<open>
  C36. \<open>AddClient\<close> of the NAT server: a client of an address family the server has no address of is refused, with nothing
  changed. When it succeeds there is a route back to the client in the table for clients. A client that has one
  already is left alone, and in any case at most one route is added and none removed.
\<close>

theorem AddClient_routes:
  assumes "route_laws rts (nv_netlink E)" and "AddClient E a l (n, w) = (r, (n', w'))"
  shows "(if isIPv4 a \<and> sv_ipv4 n = nil_ip \<or> \<not> isIPv4 a \<and> sv_ipv6 n = nil_ip then r = Err (Sentinel NatErrIPFamilyMismatch) \<and> n' = n \<and> w' = w
     else (r = Ok () \<longrightarrow> (\<exists>x \<in> rts w'. back_route a x)) \<and> ((\<exists>x \<in> rts w. back_route a x) \<longrightarrow> rts w' = rts w \<and> n' = n)) \<and>
    rts w \<subseteq> rts w' \<and> (\<exists>x. rts w' \<subseteq> insert x (rts w))"
proof (cases "isIPv4 a \<and> sv_ipv4 n = nil_ip \<or> \<not> isIPv4 a \<and> sv_ipv6 n = nil_ip")
  case True
  then show ?thesis using assms(2) by (auto simp: AddClient_def errA_def)
next
  case False
  then have "back_kept rts a n w (n', w') \<and> (r = Ok () \<longrightarrow> (\<exists>x \<in> rts w'. back_route a x))"
    using AddClient_outcome [OF assms(1), of a n l w] assms(2) by (auto simp: outcome_def split: res.splits)
  then show ?thesis using False by (auto simp: back_kept_def)
qed

theorem AddClient_routes_witness:
  "\<exists>n' w'. AddClient ref_nat_env [10, 1, 1, 9] example_link
      (\<lparr>sv_iface = ''eth0'', sv_ipv4 = [10, 1, 1, 1], sv_ipv6 = nil_ip, sv_backend = EgressBackendIPTables, sv_clients = []\<rparr>, empty_world) = (Ok (), (n', w')) \<and>
    (\<exists>x \<in> ref_routes w'. back_route [10, 1, 1, 9] x)"
proof -
  let ?n = "\<lparr>sv_iface = ''eth0'', sv_ipv4 = [10, 1, 1, 1], sv_ipv6 = nil_ip, sv_backend = EgressBackendIPTables, sv_clients = []\<rparr>"
  let ?run = "AddClient ref_nat_env [10, 1, 1, 9] example_link (?n, empty_world)"
  obtain r n' w' where run: "?run = (r, (n', w'))" by (cases ?run) auto
  have "fst ?run = Ok ()" by code_simp
  then have ok: "r = Ok ()" using run by simp
  have laws: "route_laws ref_routes (nv_netlink ref_nat_env)" using ref_route_laws by (simp add: ref_nat_env_def)
  have "isIPv4 [10, 1, 1, 9]" by (simp add: isIPv4_def To4_def)
  then show ?thesis using AddClient_routes [OF laws run] run ok by auto
qed

end
