(* ===== verification/Egress_Api.thy ===== *)
theory Egress_Api
  imports Kube_Api
begin

text \<open>
  The Egress API, \<open>api/v2/egress_types.go\<close> and \<open>api/v2/egress_webhook.go\<close>: the objects, their validation and the defaulter; and the
  core objects the egress handlers read (pods and services). Of the types of \<open>k8s.io/api\<close> the records have the fields
  the sources touch, and one field for the rest. The validators of \<open>apimachinery\<close> are parameters.
\<close>

section \<open>Objects\<close>

datatype pod_phase = PodPending | PodRunning | PodSucceeded | PodFailed | PodUnknown

record Pod =
  pod_meta :: object_meta
  pod_HostNetwork :: bool
  pod_Phase :: pod_phase
  pod_PodIP :: string
  pod_PodIPs :: "string list"
  pod_Images :: "string list"

definition namespaced :: "object_meta \<Rightarrow> string" where
  "namespaced m = om_Namespace m @ ''/'' @ om_Name m"

datatype int_or_string = IntVal int | StrVal string | OtherVal

record EgressPDBSpec =
  pdb_MinAvailable :: "int_or_string option"
  pdb_MaxUnavailable :: "int_or_string option"

datatype env_var = EnvValue string string | EnvFieldRef string string

record volume_mount =
  vm_MountPath :: string
  vm_Name :: string
  vm_ReadOnly :: bool

datatype volume_source = EmptyDir | HostPath string | OtherVolume string

record volume =
  vol_Name :: string
  vol_Source :: volume_source

record container_port =
  cp_Name :: string
  cp_ContainerPort :: int
  cp_Protocol :: string

record security_context =
  sc_Privileged :: "bool option"
  sc_ReadOnlyRootFilesystem :: "bool option"
  sc_AddCapabilities :: "string list"
  sc_rest :: string

datatype probe = HTTPGet string string string | OtherProbe string

record container =
  ct_Name :: string
  ct_Image :: string
  ct_Command :: "string list"
  ct_Args :: "string list"
  ct_Env :: "env_var list"
  ct_VolumeMounts :: "volume_mount list"
  ct_SecurityContext :: "security_context option"
  ct_Requests :: "string gomap"
  ct_Ports :: "container_port list"
  ct_LivenessProbe :: "probe option"
  ct_ReadinessProbe :: "probe option"
  ct_rest :: string

definition zero_container :: container where
  "zero_container = \<lparr>ct_Name = [], ct_Image = [], ct_Command = [], ct_Args = [], ct_Env = [], ct_VolumeMounts = [],
     ct_SecurityContext = None, ct_Requests = [], ct_Ports = [], ct_LivenessProbe = None, ct_ReadinessProbe = None, ct_rest = []\<rparr>"

record pod_spec =
  ps_Containers :: "container list"
  ps_Volumes :: "volume list"
  ps_ServiceAccountName :: string
  ps_rest :: string

definition zero_pod_spec :: pod_spec where
  "zero_pod_spec = \<lparr>ps_Containers = [], ps_Volumes = [], ps_ServiceAccountName = [], ps_rest = []\<rparr>"

record EgressPodTemplate =
  ept_Annotations :: "string gomap"
  ept_Labels :: "string gomap"
  ept_Spec :: pod_spec

record deployment_strategy =
  ds_Type :: string
  ds_rest :: string

record EgressSpec =
  es_Destinations :: "string list"
  es_Replicas :: int
  es_Strategy :: "deployment_strategy option"
  es_Template :: "EgressPodTemplate option"
  es_SessionAffinity :: string
  es_SessionAffinityConfig :: "string option"
  es_FouSourcePortAuto :: bool
  es_PodDisruptionBudget :: "EgressPDBSpec option"

record EgressStatus =
  est_Replicas :: int
  est_Selector :: string

record Egress =
  eg_meta :: object_meta
  eg_Spec :: EgressSpec
  eg_Status :: EgressStatus

record service_port =
  sp_Port :: int
  sp_TargetPort :: int
  sp_Protocol :: string

record Service =
  svc_meta :: object_meta
  svc_CreationTimestamp :: "nat option"
  svc_Type :: string
  svc_Selector :: "string gomap"
  svc_Ports :: "service_port list"
  svc_ClusterIP :: string
  svc_ClusterIPs :: "string list"
  svc_SessionAffinity :: string
  svc_SessionAffinityConfig :: "string option"
  svc_IPFamilyPolicy :: string

definition new_service :: Service where
  "new_service = \<lparr>svc_meta = empty_meta, svc_CreationTimestamp = None, svc_Type = [], svc_Selector = [], svc_Ports = [], svc_ClusterIP = [],
     svc_ClusterIPs = [], svc_SessionAffinity = [], svc_SessionAffinityConfig = None, svc_IPFamilyPolicy = []\<rparr>"

section \<open>Validation\<close>

record validators =
  va_IsValidPercent :: "string \<Rightarrow> string list"
  va_ValidateNonnegativeField :: "int \<Rightarrow> field_path \<Rightarrow> field_error list"
  va_ValidateLabels :: "string gomap \<Rightarrow> field_path \<Rightarrow> field_error list"
  va_ValidateLabelName :: "string \<Rightarrow> field_path \<Rightarrow> field_error list"

definition RecreateDeploymentStrategyType :: string where "RecreateDeploymentStrategyType = ''Recreate''"
definition RollingUpdateDeploymentStrategyType :: string where "RollingUpdateDeploymentStrategyType = ''RollingUpdate''"

definition int_or_string_text :: "int_or_string \<Rightarrow> string" where
  "int_or_string_text v = (case v of IntVal i \<Rightarrow> (if i < 0 then ''-'' @ itoa (nat (- i)) else itoa (nat i)) | StrVal s \<Rightarrow> s | OtherVal \<Rightarrow> [])"

definition validatePositiveIntOrPercent :: "validators \<Rightarrow> int_or_string \<Rightarrow> field_path \<Rightarrow> field_error list" where
  "validatePositiveIntOrPercent V v p = (case v of
       StrVal s \<Rightarrow> map (\<lambda>msg. FInvalid p (int_or_string_text v) msg) (va_IsValidPercent V s)
     | IntVal i \<Rightarrow> va_ValidateNonnegativeField V i p
     | OtherVal \<Rightarrow> [FInvalid p (int_or_string_text v) (''must be an integer or percentage (e.g '' @ [CHR 0x27] @ ''5%%'' @ [CHR 0x27] @ '')'')])"

text \<open>\<open>strconv.Atoi\<close> of a string of digits, its error ignored: a number that does not fit is the largest one.\<close>

definition Atoi_digits :: "string \<Rightarrow> nat" where
  "Atoi_digits s = min (dval s) (2 ^ 63 - 1)"

definition getPercentValue :: "validators \<Rightarrow> int_or_string \<Rightarrow> nat \<times> bool" where
  "getPercentValue V v = (case v of
       StrVal s \<Rightarrow> if va_IsValidPercent V s \<noteq> [] then (0, False) else (Atoi_digits (butlast s), True)
     | _ \<Rightarrow> (0, False))"

definition isNotMoreThan100Percent :: "validators \<Rightarrow> int_or_string \<Rightarrow> field_path \<Rightarrow> field_error list" where
  "isNotMoreThan100Percent V v p = (case getPercentValue V v of (n, isPercent) \<Rightarrow>
     if \<not> isPercent \<or> n \<le> 100 then [] else [FInvalid p (int_or_string_text v) ''must not be greater than 100%''])"

definition validate_budget_field :: "validators \<Rightarrow> int_or_string option \<Rightarrow> field_path \<Rightarrow> field_error list" where
  "validate_budget_field V v p = (case v of None \<Rightarrow> [] | Some v \<Rightarrow> validatePositiveIntOrPercent V v p @ isNotMoreThan100Percent V v p)"

definition validatePodDisruptionBudget :: "validators \<Rightarrow> EgressPDBSpec \<Rightarrow> field_path \<Rightarrow> field_error list" where
  "validatePodDisruptionBudget V pdb p =
     (if pdb_MinAvailable pdb \<noteq> None \<and> pdb_MaxUnavailable pdb \<noteq> None
      then [FInvalid p [] ''minAvailable and maxUnavailable cannot be both set''] else []) @
     validate_budget_field V (pdb_MinAvailable pdb) (p @ [PChild ''minAvailable'']) @
     validate_budget_field V (pdb_MaxUnavailable pdb) (p @ [PChild ''maxUnavailable''])"

definition invalid_destinations :: "string list \<Rightarrow> field_path \<Rightarrow> field_error list" where
  "invalid_destinations ds p = concat (map (\<lambda>(i, na). case ParseCIDR na of
       Err e \<Rightarrow> [FInvalid (p @ [PIndex i]) na (Error e)] | _ \<Rightarrow> []) (enumerate 0 ds))"

definition invalid_strategy :: "deployment_strategy option \<Rightarrow> field_error list" where
  "invalid_strategy s = (case s of None \<Rightarrow> [] | Some s \<Rightarrow>
     if ds_Type s \<in> {RecreateDeploymentStrategyType, RollingUpdateDeploymentStrategyType} then []
     else [FNotSupported [PChild ''spec'', PChild ''strategy'', PChild ''type''] (ds_Type s) [RecreateDeploymentStrategyType, RollingUpdateDeploymentStrategyType]])"

definition invalid_template :: "validators \<Rightarrow> range_order \<Rightarrow> EgressPodTemplate option \<Rightarrow> field_error list" where
  "invalid_template V rng t = (case t of None \<Rightarrow> [] | Some t \<Rightarrow>
     (let pp = [PChild ''spec'', PChild ''template'', PChild ''metadata''] in
      va_ValidateLabels V (ept_Labels t) (pp @ [PChild ''labels'']) @
      concat (map (\<lambda>k. va_ValidateLabelName V k (pp @ [PChild ''annotations''])) (rng (gkeys (ept_Annotations t))))))"

definition es_validate :: "validators \<Rightarrow> range_order \<Rightarrow> EgressSpec \<Rightarrow> field_error list" where
  "es_validate V rng es =
     invalid_destinations (es_Destinations es) [PChild ''spec'', PChild ''destinations''] @
     invalid_strategy (es_Strategy es) @
     invalid_template V rng (es_Template es) @
     (case es_PodDisruptionBudget es of None \<Rightarrow> []
      | Some pdb \<Rightarrow> validatePodDisruptionBudget V pdb [PChild ''spec'', PChild ''podDisruptionBudget''])"

definition es_validateUpdate :: "validators \<Rightarrow> range_order \<Rightarrow> EgressSpec \<Rightarrow> field_error list" where
  "es_validateUpdate V rng es = es_validate V rng es"

section \<open>Webhook\<close>

definition Egress_Default :: "Egress \<Rightarrow> Egress" where
  "Egress_Default eg = (case es_Template (eg_Spec eg) of
       None \<Rightarrow> eg
     | Some tmpl \<Rightarrow>
         if length (ps_Containers (ept_Spec tmpl)) = 0
         then eg\<lparr>eg_Spec := (eg_Spec eg)\<lparr>es_Template := Some (tmpl\<lparr>ept_Spec := (ept_Spec tmpl)\<lparr>ps_Containers := [zero_container\<lparr>ct_Name := ''egress''\<rparr>]\<rparr>\<rparr>)\<rparr>\<rparr>
         else eg)"

definition Egress_ValidateCreate :: "validators \<Rightarrow> range_order \<Rightarrow> Egress \<Rightarrow> admission" where
  "Egress_ValidateCreate V rng eg = (let errs = es_validate V rng (eg_Spec eg) in
     if length errs \<noteq> 0 then RejectInvalid ''Egress'' (om_Name (eg_meta eg)) errs else Admit)"

definition Egress_ValidateUpdate :: "validators \<Rightarrow> range_order \<Rightarrow> Egress \<Rightarrow> Egress \<Rightarrow> admission" where
  "Egress_ValidateUpdate V rng oldObj newObj = (let errs = es_validateUpdate V rng (eg_Spec newObj) in
     if length errs \<noteq> 0 then RejectInvalid ''Egress'' (om_Name (eg_meta newObj)) errs else Admit)"

definition Egress_ValidateDelete :: "Egress \<Rightarrow> admission" where
  "Egress_ValidateDelete eg = Admit"

section \<open>What the webhook admits\<close>

lemma ParseCIDR_cases: "(\<exists>e. ParseCIDR s = Err e) \<or> (\<exists>x. ParseCIDR s = Ok x)"
  by (auto simp: ParseCIDR_def split: option.splits)

lemma invalid_destinations_Nil: "invalid_destinations ds p = [] \<longleftrightarrow> (\<forall>d \<in> set ds. \<exists>x. ParseCIDR d = Ok x)"
proof -
  have "concat (map (\<lambda>(i, na). case ParseCIDR na of Err e \<Rightarrow> [f i na e] | _ \<Rightarrow> []) (enumerate n ds)) = [] \<longleftrightarrow>
      (\<forall>d \<in> set ds. \<exists>x. ParseCIDR d = Ok x)" for f :: "nat \<Rightarrow> string \<Rightarrow> error \<Rightarrow> field_error" and n
  proof (induction ds arbitrary: n)
    case (Cons d ds)
    then show ?case using ParseCIDR_cases [of d] by auto
  qed simp
  from this [of "\<lambda>i na e. FInvalid (p @ [PIndex i]) na (Error e)" 0] show ?thesis unfolding invalid_destinations_def .
qed

text \<open>A field of a budget is acceptable when the validators accept it and a percentage is at most 100.\<close>

definition budget_ok :: "validators \<Rightarrow> int_or_string option \<Rightarrow> field_path \<Rightarrow> bool" where
  "budget_ok V v p \<longleftrightarrow> (case v of None \<Rightarrow> True | Some v \<Rightarrow> validatePositiveIntOrPercent V v p = [] \<and>
     (\<forall>s. v = StrVal s \<longrightarrow> Atoi_digits (butlast s) \<le> 100))"

lemma validate_budget_field_Nil: "validate_budget_field V v p = [] \<longleftrightarrow> budget_ok V v p"
  by (auto simp: validate_budget_field_def budget_ok_def isNotMoreThan100Percent_def getPercentValue_def
      validatePositiveIntOrPercent_def split: option.splits int_or_string.splits if_splits)

definition pdb_path :: field_path where "pdb_path = [PChild ''spec'', PChild ''podDisruptionBudget'']"

definition strategy_ok :: "EgressSpec \<Rightarrow> bool" where
  "strategy_ok es \<longleftrightarrow> (case es_Strategy es of None \<Rightarrow> True | Some s \<Rightarrow> ds_Type s = ''Recreate'' \<or> ds_Type s = ''RollingUpdate'')"

lemma es_validate_Nil:
  "es_validate V rng es = [] \<longleftrightarrow> (\<forall>d \<in> set (es_Destinations es). \<exists>x. ParseCIDR d = Ok x) \<and> strategy_ok es \<and> invalid_template V rng (es_Template es) = [] \<and>
     (case es_PodDisruptionBudget es of None \<Rightarrow> True | Some pdb \<Rightarrow> (pdb_MinAvailable pdb = None \<or> pdb_MaxUnavailable pdb = None) \<and>
        budget_ok V (pdb_MinAvailable pdb) (pdb_path @ [PChild ''minAvailable'']) \<and> budget_ok V (pdb_MaxUnavailable pdb) (pdb_path @ [PChild ''maxUnavailable'']))"
  by (auto simp: es_validate_def invalid_destinations_Nil strategy_ok_def invalid_strategy_def validatePodDisruptionBudget_def
      validate_budget_field_Nil pdb_path_def RecreateDeploymentStrategyType_def RollingUpdateDeploymentStrategyType_def split: option.splits if_splits)


text \<open>Validators as Kubernetes has them, for the fields of a budget.\<close>

definition ref_validators :: validators where
  "ref_validators = \<lparr>va_IsValidPercent = (\<lambda>s. if length s \<ge> 2 \<and> last s = CHR ''%'' \<and> list_all isdigit (butlast s) then [] else [''a valid percent string'']),
     va_ValidateNonnegativeField = (\<lambda>i p. if i < 0 then [FInvalid p [] ''must be greater than or equal to 0''] else []),
     va_ValidateLabels = (\<lambda>_ _. []), va_ValidateLabelName = (\<lambda>_ _. [])\<rparr>"

definition simple_egress :: "string list \<Rightarrow> EgressPDBSpec option \<Rightarrow> Egress" where
  "simple_egress ds pdb = \<lparr>eg_meta = empty_meta\<lparr>om_Name := ''nat'', om_Namespace := ''inet''\<rparr>,
     eg_Spec = \<lparr>es_Destinations = ds, es_Replicas = 1, es_Strategy = None, es_Template = None, es_SessionAffinity = ''ClientIP'',
       es_SessionAffinityConfig = None, es_FouSourcePortAuto = False, es_PodDisruptionBudget = pdb\<rparr>,
     eg_Status = \<lparr>est_Replicas = 0, est_Selector = []\<rparr>\<rparr>"


end
