(* ===== verification/Coild_Server.thy ===== *)
theory Coild_Server
  imports Node_Ipam Pod_Network Fou Nat_Netfilter Egress_Api "HOL-Library.List_Lexorder" "HOL-Library.Char_ord"
begin

text \<open>
  The server that runs on every node, \<open>runners/coild_server.go\<close>: the CNI calls \<open>Add\<close>, \<open>Del\<close> and \<open>Check\<close>, the hook that
  sets up egress NAT in a pod, the periodic collection of address blocks and the clean-up at shutdown. It reaches the
  address management and the pod network through the interfaces \<open>NodeIPAM\<close> and \<open>PodNetwork\<close>, which are records of calls here;
  \<open>coild_ipam\<close> and \<open>coild_podnet\<close> fill them with the operations of the two components.
\<close>

section \<open>The program\<close>

definition PodNameKey :: string where "PodNameKey = ''K8S_POD_NAME''"
definition PodNamespaceKey :: string where "PodNamespaceKey = ''K8S_POD_NAMESPACE''"
definition IsChained :: string where "IsChained = ''IS_CHAINED''"

definition DefaultSocketPath :: string where "DefaultSocketPath = ''/run/coild.sock''"

record Config =
  cf_MetricsAddr :: string
  cf_HealthAddr :: string
  cf_PodTableId :: int
  cf_PodRulePrio :: int
  cf_ExportTableId :: int
  cf_ProtocolId :: int
  cf_SocketPath :: string
  cf_CompatCalico :: bool
  cf_EgressPort :: int
  cf_RegisterFromMain :: bool
  cf_EnableIPAM :: bool
  cf_EnableEgress :: bool
  cf_AddressBlockGCInterval :: int
  cf_Backend :: string
  cf_OriginatingOnly :: bool
  cf_ClearRoutesOnShutdown :: bool

record CNIArgs =
  ca_ContainerId :: string
  ca_Netns :: string
  ca_Ifname :: string
  ca_Args :: "string gomap"
  ca_Ips :: "string list"
  ca_Interfaces :: "bool gomap"

record GWNets =
  gw_Gateway :: ip
  gw_Networks :: "ipnet list"
  gw_SportAuto :: bool
  gw_OriginatingOnly :: bool

record natSetup =
  nts_port :: int

definition NewNATSetup :: "int \<Rightarrow> natSetup" where
  "NewNATSetup port = \<lparr>nts_port = port\<rparr>"

text \<open>Inside a pod the hook uses the calls of the tunnels and of the NAT client there.\<close>

type_synonym 'w inside = "'w fou_env \<times> 'w nat_env"

definition setup_gateway :: "'w inside \<Rightarrow> range_order \<Rightarrow> (family list \<Rightarrow> family list) \<Rightarrow> fouTunnel \<Rightarrow> NatClient \<Rightarrow> GWNets \<Rightarrow> ('w, unit) act" where
  "setup_gateway ins rng frng ft cl gwn =
     bindA (tryA (AddPeer (fst ins) ft (gw_Gateway gwn) (gw_SportAuto gwn))) (\<lambda>r. case r of
       Inl e \<Rightarrow> if errors_Is e FouErrIPFamilyMismatch then returnA () else errA e
     | Inr link \<Rightarrow> SyncNat (snd ins) rng frng cl link (gw_Networks gwn) (gw_OriginatingOnly gwn))"

definition natSetup_Hook :: "range_order \<Rightarrow> (family list \<Rightarrow> family list) \<Rightarrow> natSetup \<Rightarrow> GWNets list \<Rightarrow> string \<Rightarrow> ('w, 'w inside) setup_hook" where
  "natSetup_Hook rng frng n l backend = (\<lambda>ins ipv4 ipv6.
     bindA (resA (NewFoUTunnel (nts_port n) ipv4 ipv6)) (\<lambda>ft.
     bindA (fou_Init (fst ins) ft) (\<lambda>_.
     let cl = NewNatClient ipv4 ipv6 [] backend in
     bindA (nc_Init (snd ins) cl) (\<lambda>_.
     foreachA (setup_gateway ins rng frng ft cl) l))))"

text \<open>The interfaces of the components the server calls.\<close>

record 's NodeIPAM_if =
  if_Allocate :: "string \<Rightarrow> string \<Rightarrow> string \<Rightarrow> ('s, ip \<times> ip) act"
  if_Free :: "string \<Rightarrow> string \<Rightarrow> ('s, unit) act"
  if_GC :: "('s, unit) act"
  if_ClearRoutes :: "('s, unit) act"

record ('s, 'h) PodNetwork_if =
  if_SetupIPAM :: "string \<Rightarrow> string \<Rightarrow> string \<Rightarrow> PodNetConf \<Rightarrow> ('s, cni_result) act"
  if_SetupEgress :: "string \<Rightarrow> PodNetConf \<Rightarrow> 'h option \<Rightarrow> ('s, unit) act"
  if_Check :: "string \<Rightarrow> string \<Rightarrow> ('s, unit) act"
  if_Destroy :: "string \<Rightarrow> string \<Rightarrow> ('s, unit) act"

record 's coild_kube =
  ck_GetPod :: "string \<Rightarrow> string \<Rightarrow> ('s, Pod) act"
  ck_GetNamespace :: "string \<Rightarrow> ('s, object_meta) act"
  ck_GetNode :: "string \<Rightarrow> ('s, Node) act"
  ck_GetEgress :: "string \<Rightarrow> string \<Rightarrow> ('s, Egress) act"
  ck_GetService :: "string \<Rightarrow> string \<Rightarrow> ('s, Service) act"

record ('s, 'h) coildServer =
  cs_kube :: "'s coild_kube"
  cs_nodeIPAM :: "'s NodeIPAM_if"
  cs_podNet :: "('s, 'h) PodNetwork_if"
  cs_Hook :: "GWNets list \<Rightarrow> string \<Rightarrow> 'h"
  cs_cfg :: Config
  cs_aliasFunc :: "PodNetConf \<Rightarrow> string \<Rightarrow> ('s, unit) act"
  cs_nodeName :: string
  cs_Marshal :: "cni_result \<Rightarrow> string res"
  cs_range :: range_order
  cs_brange :: range_order

definition newError :: "grpc_code \<Rightarrow> cni_code \<Rightarrow> string \<Rightarrow> string \<Rightarrow> error" where
  "newError c cniCode msg details = RpcStatus c cniCode msg details"

definition newInternalError :: "error \<Rightarrow> string \<Rightarrow> error" where
  "newInternalError e msg = newError CodeInternal CNI_INTERNAL msg (Error e)"

text \<open>\<open>if err := m; err != nil { return nil, newInternalError(err, msg) }\<close>.\<close>

definition internalA :: "string \<Rightarrow> ('s, 'a) act \<Rightarrow> ('s, 'a) act" where
  "internalA msg m = (\<lambda>s. case m s of
      (Ok x, s') \<Rightarrow> (Ok x, s')
    | (Err e, s') \<Rightarrow> (Err (newInternalError e msg), s')
    | (Panic p, s') \<Rightarrow> (Panic p, s'))"

lemma outcome_internalA [wp_simps]: "outcome (internalA t m) Q E P s = outcome m Q (\<lambda>e. E (newInternalError e t)) P s"
  by (auto simp: outcome_def internalA_def split: prod.splits res.splits)

lemma keeps_internalA [keeps_intros]: "keeps I m \<Longrightarrow> keeps I (internalA e m)"
  by (auto simp: keeps_def internalA_def split: prod.splits res.splits)

text \<open>\<open>strconv.ParseBool\<close>.\<close>

definition ParseBool :: "string \<Rightarrow> bool res" where
  "ParseBool s = (if s \<in> {''1'', ''t'', ''T'', ''TRUE'', ''true'', ''True''} then Ok True
     else if s \<in> {''0'', ''f'', ''F'', ''FALSE'', ''false'', ''False''} then Ok False
     else Err (ErrorMsg (''strconv.ParseBool: parsing '' @ s @ '': invalid syntax'')))"

definition getSettings :: "CNIArgs \<Rightarrow> bool res" where
  "getSettings args = (case glookup (ca_Args args) IsChained of
       None \<Rightarrow> Ok False
     | Some v \<Rightarrow> (case ParseBool v of
         Err e \<Rightarrow> Err (newInternalError e ''error parsing CNI chaining bool value '')
       | r \<Rightarrow> r))"

text \<open>\<open>%+v\<close> of a map prints its keys in order.\<close>

definition fmt_map :: "string gomap \<Rightarrow> string" where
  "fmt_map m = ''map['' @ joinc (CHR '' '') (map (\<lambda>k. k @ '':'' @ gget m k) (sort (gkeys m))) @ '']''"

definition getPodFromArgs :: "('s, 'h) coildServer \<Rightarrow> CNIArgs \<Rightarrow> ('s, Pod) act" where
  "getPodFromArgs s args =
     (let podName = gget (ca_Args args) PodNameKey; podNS = gget (ca_Args args) PodNamespaceKey in
      if podName = '''' \<or> podNS = ''''
      then errA (newError CodeInvalidArgument CNI_INVALID_ENVIRONMENT_VARIABLES ''missing pod name/namespace'' (fmt_map (ca_Args args)))
      else bindA (tryA (ck_GetPod (cs_kube s) podNS podName)) (\<lambda>r. case r of
        Inr pod \<Rightarrow> returnA pod
      | Inl e \<Rightarrow> if IsNotFound e then errA (newError CodeNotFound CNI_UNKNOWN_CONTAINER ''pod not found'' (Error e))
          else errA (newInternalError e ''failed to get pod'')))"

fun getPodIPs_loop :: "string list \<Rightarrow> ip \<Rightarrow> ip \<Rightarrow> ip \<times> ip" where
  "getPodIPs_loop [] ipv4 ipv6 = (ipv4, ipv6)"
| "getPodIPs_loop (i # ips) ipv4 ipv6 =
     (let addr = ParseIP i;
          (ipv4', ipv6') =
            (if addr \<noteq> nil_ip
             then (if ipv4 = nil_ip \<and> To4 addr \<noteq> nil_ip then (addr, ipv6)
                   else if ipv6 = nil_ip then (ipv4, addr) else (ipv4, ipv6))
             else (ipv4, ipv6))
      in if ipv4' \<noteq> nil_ip \<and> ipv6' \<noteq> nil_ip then (ipv4', ipv6') else getPodIPs_loop ips ipv4' ipv6')"

definition getPodIPs :: "string list \<Rightarrow> ip \<times> ip" where
  "getPodIPs ips = getPodIPs_loop ips nil_ip nil_ip"

definition setCoilInterfaceAlias :: "('s, 'h) coildServer \<Rightarrow> bool gomap \<Rightarrow> PodNetConf \<Rightarrow> ('s, unit) act" where
  "setCoilInterfaceAlias s interfaces conf =
     (let ifName = (case List.find (\<lambda>name. glookup interfaces name = Some False) (cs_brange s (gkeys interfaces)) of
        Some name \<Rightarrow> name | None \<Rightarrow> '''') in
      wrapA ''failed to add link alias'' (cs_aliasFunc s conf ifName))"

definition ProcessLinkAlias :: "'w netlink_ops \<Rightarrow> PodNetConf \<Rightarrow> string \<Rightarrow> ('w, unit) act" where
  "ProcessLinkAlias N conf ifName =
     bindA (wrapA (''netlink: failed to look up the host-side veth ['' @ ifName @ '']'') (nl_LinkByName N ifName)) (\<lambda>hLink.
     wrapA ''netlink: failed to set alias'' (nl_LinkSetAlias N hLink (GenAlias conf (pc_ContainerId conf))))"

subsection \<open>The NAT hook\<close>

definition egress_names :: "range_order \<Rightarrow> string gomap \<Rightarrow> (string \<times> string) list" where
  "egress_names rng anns = concat (map (\<lambda>k.
     if \<not> HasPrefix k AnnEgressPrefix then []
     else map (\<lambda>name. (drop (length AnnEgressPrefix) k, name)) (splitc (CHR '','') (gget anns k)))
     (rng (gkeys anns)))"

text \<open>The destinations of the family of the address, with the error of the first that does not parse.\<close>

fun family_subnets :: "(error \<Rightarrow> error) \<Rightarrow> ip \<Rightarrow> string list \<Rightarrow> ipnet list res" where
  "family_subnets f svcIP [] = Ok []"
| "family_subnets f svcIP (sn # sns) = (case ParseCIDR sn of
       Err e \<Rightarrow> Err (f e)
     | Panic p \<Rightarrow> Panic p
     | Ok (_, subnet) \<Rightarrow> bindR (family_subnets f svcIP sns) (\<lambda>subnets.
         if (To4 svcIP \<noteq> nil_ip) = (To4 (net_IP subnet) \<noteq> nil_ip) then Ok (subnet # subnets) else Ok subnets))"

fun service_gateways :: "bool \<Rightarrow> string \<Rightarrow> Egress \<Rightarrow> string list \<Rightarrow> GWNets list res" where
  "service_gateways oo n eg [] = Ok []"
| "service_gateways oo n eg (clusterIP # cs) =
     (let svcIP = ParseIP clusterIP in
      if svcIP = nil_ip then Err (newError CodeInternal CNI_INTERNAL (''invalid ClusterIP in Service '' @ n) clusterIP)
      else bindR (family_subnets (\<lambda>e. newInternalError e (''invalid network in Egress '' @ n)) svcIP (es_Destinations (eg_Spec eg))) (\<lambda>subnets.
           bindR (service_gateways oo n eg cs) (\<lambda>gws.
           if length subnets > 0
           then Ok (\<lparr>gw_Gateway = svcIP, gw_Networks = subnets, gw_SportAuto = es_FouSourcePortAuto (eg_Spec eg), gw_OriginatingOnly = oo\<rparr> # gws)
           else Ok gws)))"

fun gateways :: "('s, 'h) coildServer \<Rightarrow> (string \<times> string) list \<Rightarrow> ('s, GWNets list) act" where
  "gateways s [] = returnA []"
| "gateways s ((ns, name) # rest) =
     (let n = ns @ ''/'' @ name in
      bindA (tryA (ck_GetEgress (cs_kube s) ns name)) (\<lambda>r. case r of
        Inl e \<Rightarrow> errA (newError CodeFailedPrecondition CNI_INTERNAL (''failed to get Egress '' @ n) (Error e))
      | Inr eg \<Rightarrow> bindA (tryA (ck_GetService (cs_kube s) ns name)) (\<lambda>r. case r of
          Inl e \<Rightarrow> errA (newError CodeFailedPrecondition CNI_INTERNAL (''failed to get Service '' @ n) (Error e))
        | Inr svc \<Rightarrow> bindA (resA (service_gateways (cf_OriginatingOnly (cs_cfg s)) n eg (svc_ClusterIPs svc))) (\<lambda>gws.
            bindA (gateways s rest) (\<lambda>more_gws. returnA (gws @ more_gws))))))"

definition getHook :: "('s, 'h) coildServer \<Rightarrow> Pod \<Rightarrow> ('s, 'h option) act" where
  "getHook s pod =
     (if pod_HostNetwork pod then returnA None
      else let egNames = egress_names (cs_range s) (om_Annotations (pod_meta pod)) in
        if length egNames = 0 then returnA None
        else bindA (gateways s egNames) (\<lambda>gwlist.
          if length gwlist > 0 then returnA (Some (cs_Hook s gwlist (cf_Backend (cs_cfg s)))) else returnA None))"

subsection \<open>The calls of the plugin\<close>

definition allocate_for :: "('s, 'h) coildServer \<Rightarrow> CNIArgs \<Rightarrow> Pod \<Rightarrow> ('s, ip \<times> ip \<times> string) act" where
  "allocate_for s args pod =
     (if cf_EnableIPAM (cs_cfg s)
      then bindA (internalA ''failed to get namespace'' (ck_GetNamespace (cs_kube s) (om_Namespace (pod_meta pod)))) (\<lambda>ns.
           let poolName = (case glookup (om_Annotations ns) AnnPool of Some v \<Rightarrow> v | None \<Rightarrow> DefaultPool) in
           bindA (internalA ''failed to allocate address'' (if_Allocate (cs_nodeIPAM s) poolName (ca_ContainerId args) (ca_Ifname args))) (\<lambda>(ipv4, ipv6).
           returnA (ipv4, ipv6, poolName)))
      else (case getPodIPs (ca_Ips args) of (ipv4, ipv6) \<Rightarrow> returnA (ipv4, ipv6, '''')))"

definition setup_ipam :: "('s, 'h) coildServer \<Rightarrow> CNIArgs \<Rightarrow> Pod \<Rightarrow> PodNetConf \<Rightarrow> ('s, cni_result) act" where
  "setup_ipam s args pod conf =
     (if cf_EnableIPAM (cs_cfg s)
      then bindA (tryA (if_SetupIPAM (cs_podNet s) (ca_Netns args) (om_Name (pod_meta pod)) (om_Namespace (pod_meta pod)) conf)) (\<lambda>r. case r of
           Inr result \<Rightarrow> returnA result
         | Inl e \<Rightarrow> bindA (tryA (if_Free (cs_nodeIPAM s) (ca_ContainerId args) (ca_Ifname args))) (\<lambda>_.
             errA (newInternalError e ''failed to setup pod network IPAM'')))
      else returnA \<lparr>cr_IPs = [], cr_Interfaces = []\<rparr>)"

definition setup_egress :: "('s, 'h) coildServer \<Rightarrow> CNIArgs \<Rightarrow> Pod \<Rightarrow> PodNetConf \<Rightarrow> ('s, unit) act" where
  "setup_egress s args pod conf =
     (if cf_EnableEgress (cs_cfg s)
      then bindA (if \<not> cf_EnableIPAM (cs_cfg s)
             then wrapA ''failed to set interface alias'' (setCoilInterfaceAlias s (ca_Interfaces args) conf) else returnA ()) (\<lambda>_.
           bindA (internalA ''failed to setup NAT hook'' (getHook s pod)) (\<lambda>hook.
           if hook \<noteq> None
           then internalA ''failed to setup pod network egress'' (if_SetupEgress (cs_podNet s) (ca_Netns args) conf hook)
           else returnA ()))
      else returnA ())"

definition marshal_result :: "('s, 'h) coildServer \<Rightarrow> CNIArgs \<Rightarrow> cni_result \<Rightarrow> ('s, string) act" where
  "marshal_result s args result =
     bindA (tryA (resA (cs_Marshal s result))) (\<lambda>r. case r of
       Inr data \<Rightarrow> returnA data
     | Inl e \<Rightarrow> bindA (if cf_EnableIPAM (cs_cfg s)
           then bindA (tryA (if_Destroy (cs_podNet s) (ca_ContainerId args) (ca_Ifname args))) (\<lambda>_.
                bindA (tryA (if_Free (cs_nodeIPAM s) (ca_ContainerId args) (ca_Ifname args))) (\<lambda>_. returnA ()))
           else returnA ()) (\<lambda>_.
         errA (newInternalError e ''failed to marshal the result'')))"

definition Add :: "('s, 'h) coildServer \<Rightarrow> CNIArgs \<Rightarrow> ('s, string) act" where
  "Add s args =
     bindA (tryA (resA (getSettings args))) (\<lambda>r. case r of
       Inl _ \<Rightarrow> errA (newInternalError (ErrorMsg ''runtime error'') ''failed to get CNI arguments'')
     | Inr isChained \<Rightarrow>
         if cf_EnableIPAM (cs_cfg s) \<and> isChained
         then errA (newInternalError (ErrorMsg ''configuration error'')
           ''coil must be called as the first plugin when IPAM related features are enabled'')
         else
           bindA (internalA ''failed to get pod'' (getPodFromArgs s args)) (\<lambda>pod.
           bindA (allocate_for s args pod) (\<lambda>(ipv4, ipv6, poolName).
           let conf = \<lparr>pc_PoolName = poolName,
                 pc_ContainerId = (if \<not> cf_EnableIPAM (cs_cfg s) then om_UID (pod_meta pod) else ca_ContainerId args),
                 pc_IFace = ca_Ifname args, pc_IPv4 = ipv4, pc_IPv6 = ipv6, pc_HostVethName = ''''\<rparr> in
           bindA (setup_ipam s args pod conf) (\<lambda>result.
           bindA (setup_egress s args pod conf) (\<lambda>_.
           marshal_result s args result)))))"

definition Del :: "('s, 'h) coildServer \<Rightarrow> CNIArgs \<Rightarrow> ('s, unit) act" where
  "Del s args =
     (if cf_EnableIPAM (cs_cfg s)
      then bindA (internalA ''failed to destroy pod network'' (if_Destroy (cs_podNet s) (ca_ContainerId args) (ca_Ifname args))) (\<lambda>_.
           internalA ''failed to free addresses'' (if_Free (cs_nodeIPAM s) (ca_ContainerId args) (ca_Ifname args)))
      else returnA ())"

definition coild_Check :: "('s, 'h) coildServer \<Rightarrow> CNIArgs \<Rightarrow> ('s, unit) act" where
  "coild_Check s args =
     (if cf_EnableIPAM (cs_cfg s)
      then internalA ''check failed'' (if_Check (cs_podNet s) (ca_ContainerId args) (ca_Ifname args))
      else if cf_EnableEgress (cs_cfg s)
      then bindA (internalA ''unable to get pod'' (getPodFromArgs s args)) (\<lambda>pod.
           internalA ''check failed'' (if_Check (cs_podNet s) (om_UID (pod_meta pod)) (ca_Ifname args)))
      else returnA ())"

text \<open>One tick of the collector, when address management is enabled, and what runs when the server stops.\<close>

definition gc_tick :: "('s, 'h) coildServer \<Rightarrow> ('s, unit) act" where
  "gc_tick s = (if cf_EnableIPAM (cs_cfg s) then bindA (tryA (if_GC (cs_nodeIPAM s))) (\<lambda>_. returnA ()) else returnA ())"

definition shutdown :: "('s, 'h) coildServer \<Rightarrow> ('s, unit) act" where
  "shutdown s =
     (if \<not> cf_ClearRoutesOnShutdown (cs_cfg s) then returnA ()
      else bindA (tryA (ck_GetNode (cs_kube s) (cs_nodeName s))) (\<lambda>r. case r of
        Inl e \<Rightarrow> if IsNotFound e then bindA (tryA (if_ClearRoutes (cs_nodeIPAM s))) (\<lambda>_. returnA ()) else returnA ()
      | Inr _ \<Rightarrow> returnA ()))"

subsection \<open>The server of a node\<close>

text \<open>The API server is outside the memory of the server.\<close>

definition world_kube :: "'w coild_kube \<Rightarrow> ('m \<times> 'w) coild_kube" where
  "world_kube K = \<lparr>ck_GetPod = (\<lambda>ns name. liftW (ck_GetPod K ns name)), ck_GetNamespace = (\<lambda>name. liftW (ck_GetNamespace K name)),
     ck_GetNode = (\<lambda>name. liftW (ck_GetNode K name)), ck_GetEgress = (\<lambda>ns name. liftW (ck_GetEgress K ns name)),
     ck_GetService = (\<lambda>ns name. liftW (ck_GetService K ns name))\<rparr>"

definition coild_ipam :: "('b, 'w) node_env \<Rightarrow> ('b nodeIPAM \<times> 'w) NodeIPAM_if" where
  "coild_ipam E = \<lparr>if_Allocate = Allocate E, if_Free = Free E, if_GC = GC E, if_ClearRoutes = ClearRoutes E\<rparr>"

definition coild_podnet :: "('w, 'n) pod_env \<Rightarrow> podNetwork \<Rightarrow> ('b nodeIPAM \<times> 'w, ('w, 'n) setup_hook) PodNetwork_if" where
  "coild_podnet P pn = \<lparr>if_SetupIPAM = (\<lambda>nsPath podName podNS conf. liftW (SetupIPAM P pn nsPath podName podNS conf)),
     if_SetupEgress = (\<lambda>nsPath conf hook. liftW (SetupEgress P nsPath conf hook)),
     if_Check = (\<lambda>c i. liftW (pn_Check P c i)), if_Destroy = (\<lambda>c i. liftW (Destroy P c i))\<rparr>"

end
