(* ===== verification/Egress_Watcher.thy ===== *)
theory Egress_Watcher
  imports Coild_Server
begin

text \<open>
  The egress watcher of \<open>coild\<close>, \<open>controllers/egress_watcher.go\<close>: when an Egress changes, it runs a hook in each running client pod
  of the node that sets the peer and the routes of the egress anew. \<open>Update\<close> of the pod network is a parameter here and the
  operation of \<open>Pod_Network\<close> in the instance.
\<close>

section \<open>The program\<close>

record ('s, 'h) egress_watcher =
  ew_GetEgress :: "string \<Rightarrow> string \<Rightarrow> ('s, Egress) act"
  ew_GetService :: "string \<Rightarrow> string \<Rightarrow> ('s, Service) act"
  ew_ListPods :: "string \<Rightarrow> ('s, Pod list) act"
  ew_Update :: "ip \<Rightarrow> ip \<Rightarrow> 'h option \<Rightarrow> string \<Rightarrow> string \<Rightarrow> ('s, unit) act"
  ew_hook :: "GWNets \<Rightarrow> 'h"
  ew_NodeName :: string
  ew_OriginatingOnly :: bool
  ew_range :: range_order

text \<open>The hook: unlike the hook of \<open>coild\<close> it initialises nothing.\<close>

definition watcher_hook :: "range_order \<Rightarrow> (family list \<Rightarrow> family list) \<Rightarrow> int \<Rightarrow> string \<Rightarrow> GWNets \<Rightarrow> ('w, 'w inside) setup_hook" where
  "watcher_hook rng frng EgressPort Backend gwn = (\<lambda>ins ipv4 ipv6.
     bindA (resA (NewFoUTunnel EgressPort ipv4 ipv6)) (\<lambda>ft.
     bindA (fou_IsInitialized (fst ins)) (\<lambda>ok.
     if \<not> ok then errA (ErrorMsg (''fouTunnel hasn'' @ [CHR 0x27] @ ''t been initialized''))
     else
       let cl = NewNatClient ipv4 ipv6 [] Backend in
       bindA (tryA (nc_IsInitialized (snd ins) cl)) (\<lambda>r. case r of
         Inl e \<Rightarrow> errA (Wrap (''natClient hasn'' @ [CHR 0x27] @ ''t been initialized'') [e])
       | Inr False \<Rightarrow> errA (ErrorMsg (''natClient hasn'' @ [CHR 0x27] @ ''t been initialized: %!w(<nil>)''))
       | Inr True \<Rightarrow> setup_gateway ins rng frng ft cl gwn))))"

fun watcher_gateways :: "bool \<Rightarrow> Egress \<Rightarrow> string \<Rightarrow> string list \<Rightarrow> GWNets list res" where
  "watcher_gateways oo eg first [] = Ok []"
| "watcher_gateways oo eg first (clusterIP # cs) =
     (let svcIP = ParseIP clusterIP in
      if svcIP = nil_ip
      then Err (ErrorMsg (''invalid ClusterIP in Service '' @ om_Name (eg_meta eg) @ '' '' @ first))
      else bindR (family_subnets (\<lambda>_. ErrorMsg (''invalid network in Egress '' @ om_Name (eg_meta eg))) svcIP (es_Destinations (eg_Spec eg))) (\<lambda>subnets.
           bindR (watcher_gateways oo eg first cs) (\<lambda>gws.
           if length subnets > 0
           then Ok (\<lparr>gw_Gateway = svcIP, gw_Networks = subnets, gw_SportAuto = es_FouSourcePortAuto (eg_Spec eg), gw_OriginatingOnly = oo\<rparr> # gws)
           else Ok gws)))"

definition getHooks :: "('s, 'h) egress_watcher \<Rightarrow> Egress \<Rightarrow> ('s, 'h list) act" where
  "getHooks r eg =
     bindA (ew_GetService r (om_Namespace (eg_meta eg)) (om_Name (eg_meta eg))) (\<lambda>svc.
     bindA (resA (watcher_gateways (ew_OriginatingOnly r) eg (svc_ClusterIP svc) (svc_ClusterIPs svc))) (\<lambda>gws.
     returnA (map (ew_hook r) gws)))"

fun status_ips :: "string list \<Rightarrow> ip \<Rightarrow> ip \<Rightarrow> ip \<times> ip" where
  "status_ips [] ipv4 ipv6 = (ipv4, ipv6)"
| "status_ips (p # ps) ipv4 ipv6 =
     (let a = ParseIP p in
      if To4 a \<noteq> nil_ip then status_ips ps (To4 a) ipv6
      else if To16 a \<noteq> nil_ip then status_ips ps ipv4 (To16 a)
      else status_ips ps ipv4 ipv6)"

definition reconcileEgressClient :: "('s, 'h) egress_watcher \<Rightarrow> Egress \<Rightarrow> Pod \<Rightarrow> ('s, unit) act" where
  "reconcileEgressClient r eg pod =
     bindA (wrapA ''failed to setup NAT hook'' (getHooks r eg)) (\<lambda>hooks.
     case status_ips (pod_PodIPs pod) nil_ip nil_ip of (ipv4, ipv6) \<Rightarrow>
     foreachA (\<lambda>hook. wrapA ''failed to update NAT configuration''
       (ew_Update r ipv4 ipv6 (Some hook) (namespaced (pod_meta pod)) (om_UID (pod_meta pod)))) hooks)"

fun target_pods :: "Pod list \<Rightarrow> Pod gomap \<Rightarrow> Pod gomap res" where
  "target_pods [] m = Ok m"
| "target_pods (pod # pods) m =
     (if pod_HostNetwork pod then target_pods pods m
      else if pod_Phase pod = PodRunning
      then (case glookup m (pod_PodIP pod) of
          Some _ \<Rightarrow> Err (ErrorMsg (''multiple pods have the same address: '' @ pod_PodIP pod))
        | None \<Rightarrow> target_pods pods (gupdate (pod_PodIP pod) pod m))
      else target_pods pods m)"

definition reconcile_annotation :: "('s, 'h) egress_watcher \<Rightarrow> Egress \<Rightarrow> Pod \<Rightarrow> string \<Rightarrow> ('s, unit) act" where
  "reconcile_annotation r eg pod k =
     (let v = gget (om_Annotations (pod_meta pod)) k in
      if \<not> HasPrefix k AnnEgressPrefix then returnA ()
      else if drop (length AnnEgressPrefix) k \<noteq> om_Namespace (eg_meta eg) then returnA ()
      else if v = om_Name (eg_meta eg) then reconcileEgressClient r eg pod
      else foreachA (\<lambda>n. if n = om_Name (eg_meta eg) then reconcileEgressClient r eg pod else returnA ()) (splitc (CHR '','') v))"

definition reconcile_pod :: "('s, 'h) egress_watcher \<Rightarrow> Egress \<Rightarrow> Pod \<Rightarrow> ('s, unit) act" where
  "reconcile_pod r eg pod =
     (if om_DeletionTimestamp (eg_meta eg) \<noteq> None then returnA ()
      else foreachA (reconcile_annotation r eg pod) (ew_range r (gkeys (om_Annotations (pod_meta pod)))))"

definition EgressWatcher_Reconcile :: "('s, 'h) egress_watcher \<Rightarrow> string \<Rightarrow> string \<Rightarrow> ('s, unit) act" where
  "EgressWatcher_Reconcile r ns name =
     bindA (tryA (ew_GetEgress r ns name)) (\<lambda>res. case res of
       Inl e \<Rightarrow> if IsNotFound e then returnA () else errA e
     | Inr eg \<Rightarrow>
         bindA (ew_ListPods r (ew_NodeName r)) (\<lambda>pods.
         bindA (resA (target_pods pods [])) (\<lambda>targetPods.
         foreachA (\<lambda>a. case glookup targetPods a of None \<Rightarrow> returnA () | Some pod \<Rightarrow> reconcile_pod r eg pod)
           (ew_range r (gkeys targetPods)))))"

section \<open>Gateways\<close>

text \<open>The networks of the destinations, and those of the family of an address.\<close>

definition dest_nets :: "string list \<Rightarrow> ipnet list" where
  "dest_nets ds = map (\<lambda>d. case ParseCIDR d of Ok (_, n) \<Rightarrow> n | _ \<Rightarrow> \<lparr>net_IP = [], net_Mask = None\<rparr>) ds"

definition same_family :: "ip \<Rightarrow> ipnet \<Rightarrow> bool" where
  "same_family a n \<longleftrightarrow> (To4 a \<noteq> nil_ip) = (To4 (net_IP n) \<noteq> nil_ip)"

definition gateway_list :: "bool \<Rightarrow> EgressSpec \<Rightarrow> ip list \<Rightarrow> GWNets list" where
  "gateway_list oo es as = map (\<lambda>a. \<lparr>gw_Gateway = a, gw_Networks = filter (same_family a) (dest_nets (es_Destinations es)),
       gw_SportAuto = es_FouSourcePortAuto es, gw_OriginatingOnly = oo\<rparr>)
     (filter (\<lambda>a. \<exists>n \<in> set (dest_nets (es_Destinations es)). same_family a n) as)"

lemma family_subnets_spec:
  "(\<forall>d \<in> set ds. \<exists>x. ParseCIDR d = Ok x) \<Longrightarrow> family_subnets f a ds = Ok (filter (same_family a) (dest_nets ds))"
proof (induction ds)
  case (Cons d ds)
  then obtain i n where "ParseCIDR d = Ok (i, n)" by fastforce
  then show ?case using Cons by (auto simp: dest_nets_def same_family_def)
qed (simp add: dest_nets_def)

lemma filter_nonempty: "filter P xs \<noteq> [] \<longleftrightarrow> (\<exists>x \<in> set xs. P x)"
  by (simp add: filter_empty_conv)

lemma service_gateways_spec:
  assumes "\<forall>d \<in> set (es_Destinations (eg_Spec eg)). \<exists>x. ParseCIDR d = Ok x"
  shows "\<forall>c \<in> set cs. ParseIP c \<noteq> nil_ip \<Longrightarrow> service_gateways oo n eg cs = Ok (gateway_list oo (eg_Spec eg) (map ParseIP cs))"
  by (induction cs) (simp_all add: family_subnets_spec [OF assms] filter_nonempty filter_empty_conv Let_def gateway_list_def)

lemma watcher_gateways_spec:
  assumes "\<forall>d \<in> set (es_Destinations (eg_Spec eg)). \<exists>x. ParseCIDR d = Ok x"
  shows "\<forall>c \<in> set cs. ParseIP c \<noteq> nil_ip \<Longrightarrow> watcher_gateways oo eg first cs = Ok (gateway_list oo (eg_Spec eg) (map ParseIP cs))"
  by (induction cs) (simp_all add: family_subnets_spec [OF assms] filter_nonempty filter_empty_conv Let_def gateway_list_def)

text \<open>C26. For an Egress the webhook admitted and a Service with valid addresses, neither \<open>coild\<close> nor the egress watcher ever fails on the Egress, and both set up
  the same gateways: one for each address of the Service that has a destination of its family, with exactly the destinations of that family.\<close>

theorem gateways_agree:
  assumes "Egress_ValidateCreate V rng eg = Admit" and "\<forall>c \<in> set cs. ParseIP c \<noteq> nil_ip"
  shows "service_gateways oo n eg cs = Ok (gateway_list oo (eg_Spec eg) (map ParseIP cs)) \<and>
    watcher_gateways oo eg first cs = service_gateways oo n eg cs"
proof -
  have "es_validate V rng (eg_Spec eg) = []" using assms(1) by (simp add: Egress_ValidateCreate_def Let_def split: if_splits)
  then have "\<forall>d \<in> set (es_Destinations (eg_Spec eg)). \<exists>x. ParseCIDR d = Ok x" by (simp add: es_validate_Nil)
  from service_gateways_spec [OF this assms(2)] watcher_gateways_spec [OF this assms(2)] show ?thesis by simp
qed

theorem gateways_agree_witness:
  "\<exists>n4. service_gateways True ''inet/nat'' (simple_egress [''10.0.0.0/8'', ''fd00::/8''] None) [''10.1.1.1''] =
     Ok [\<lparr>gw_Gateway = ParseIP ''10.1.1.1'', gw_Networks = [n4], gw_SportAuto = False, gw_OriginatingOnly = True\<rparr>] \<and>
   watcher_gateways True (simple_egress [''10.0.0.0/8'', ''fd00::/8''] None) ''10.1.1.1'' [''10.1.1.1''] =
     service_gateways True ''inet/nat'' (simple_egress [''10.0.0.0/8'', ''fd00::/8''] None) [''10.1.1.1'']"
proof -
  let ?eg = "simple_egress [''10.0.0.0/8'', ''fd00::/8''] None"
  have adm: "Egress_ValidateCreate ref_validators (\<lambda>ks. ks) ?eg = Admit" by code_simp
  have ip: "ParseIP ''10.1.1.1'' \<noteq> nil_ip" by code_simp
  have fam: "map (same_family (ParseIP ''10.1.1.1'')) (dest_nets [''10.0.0.0/8'', ''fd00::/8'']) = [True, False]" by code_simp
  obtain n4 n6 where n: "dest_nets [''10.0.0.0/8'', ''fd00::/8''] = [n4, n6]" by (simp add: dest_nets_def)
  have g: "gateway_list True (eg_Spec ?eg) (map ParseIP [''10.1.1.1'']) =
      [\<lparr>gw_Gateway = ParseIP ''10.1.1.1'', gw_Networks = [n4], gw_SportAuto = False, gw_OriginatingOnly = True\<rparr>]"
    using fam n by (simp add: gateway_list_def simple_egress_def)
  show ?thesis using gateways_agree [OF adm, of "[''10.1.1.1'']" True "''inet/nat''" "''10.1.1.1''"] ip g by auto
qed

end
