(* ===== verification/Pod_Watcher.thy ===== *)
theory Pod_Watcher
  imports Fou Nat_Netfilter Egress_Api
begin

text \<open>
  The pod watcher of \<open>coil-egress\<close>, \<open>controllers/pod_watcher.go\<close>: for each client pod of the egress it keeps a tunnel to every
  address of the pod. Its memory is \<open>podAddrs\<close>, the addresses of each pod, and \<open>peers\<close>, the pods at each address; it calls the
  tunnels and the NAT server through their interfaces. Metrics are not state of the program; the lock is the atomicity of the handlers.
\<close>

section \<open>The program\<close>

record 's FoUTunnel_if =
  fi_AddPeer :: "ip \<Rightarrow> bool \<Rightarrow> ('s, link) act"
  fi_DelPeer :: "ip \<Rightarrow> ('s, unit) act"

record 's watcher_env =
  wt_ListPods :: "('s, Pod list) act"
  wt_GetPod :: "string \<Rightarrow> string \<Rightarrow> ('s, Pod) act"
  wt_ft :: "'s FoUTunnel_if"
  wt_AddClient :: "ip \<Rightarrow> link \<Rightarrow> ('s, unit) act"
  wt_range :: range_order
  wt_ctxErr :: error

record podWatcher =
  pw_myNS :: string
  pw_myName :: string
  pw_encapSportAuto :: bool
  pw_podAddrs :: "ip list gomap"
  pw_peers :: "unit gomap gomap"
  pw_initDone :: bool

definition NewPodWatcher :: "string \<Rightarrow> string \<Rightarrow> bool \<Rightarrow> podWatcher" where
  "NewPodWatcher ns name encapSportAuto = \<lparr>pw_myNS = ns, pw_myName = name, pw_encapSportAuto = encapSportAuto,
     pw_podAddrs = [], pw_peers = [], pw_initDone = False\<rparr>"

definition ReadyzCheck :: "podWatcher \<Rightarrow> unit res" where
  "ReadyzCheck r = (if pw_initDone r then Ok () else Err (ErrorMsg ''initial pod sync not yet complete''))"

definition shouldHandle :: "range_order \<Rightarrow> podWatcher \<Rightarrow> Pod \<Rightarrow> bool" where
  "shouldHandle rng r pod =
     (if pod_HostNetwork pod then False
      else list_ex (\<lambda>k. HasPrefix k AnnEgressPrefix \<and> drop (length AnnEgressPrefix) k = pw_myNS r \<and>
        (let v = gget (om_Annotations (pod_meta pod)) k in
         v = pw_myName r \<or> list_ex (\<lambda>n. n = pw_myName r) (splitc (CHR '','') v)))
        (rng (gkeys (om_Annotations (pod_meta pod)))))"

definition isTerminated :: "Pod \<Rightarrow> bool" where
  "isTerminated pod \<longleftrightarrow> pod_Phase pod = PodSucceeded \<or> pod_Phase pod = PodFailed"

definition addrs_of :: "podWatcher \<Rightarrow> string \<Rightarrow> ip list" where
  "addrs_of r key = (case glookup (pw_podAddrs r) key of Some ips \<Rightarrow> ips | None \<Rightarrow> [])"

definition add_peer :: "'s watcher_env \<Rightarrow> bool \<Rightarrow> ip list \<Rightarrow> ip \<Rightarrow> ('s, unit) act" where
  "add_peer E sport existing ip =
     (if list_ex (\<lambda>eip. IP_Equal ip eip) existing then returnA ()
      else bindA (tryA (fi_AddPeer (wt_ft E) ip sport)) (\<lambda>r. case r of
        Inl e \<Rightarrow> if errors_Is e FouErrIPFamilyMismatch then returnA () else errA e
      | Inr link \<Rightarrow> wt_AddClient E ip link))"

definition drop_peer :: "'s watcher_env \<Rightarrow> ip list \<Rightarrow> ip \<Rightarrow> ('s, unit) act" where
  "drop_peer E podIPs eip =
     (if list_ex (\<lambda>ip. IP_Equal eip ip) podIPs then returnA () else fi_DelPeer (wt_ft E) eip)"

definition record_peer :: "string \<Rightarrow> ip \<Rightarrow> unit gomap gomap \<Rightarrow> unit gomap gomap" where
  "record_peer key ip peers =
     gupdate (IP_String ip) (gupdate key () (case glookup peers (IP_String ip) of Some ks \<Rightarrow> ks | None \<Rightarrow> [])) peers"

definition addPod :: "'s watcher_env \<Rightarrow> Pod \<Rightarrow> (podWatcher \<times> 's, unit) act" where
  "addPod E pod =
     bindA getA (\<lambda>(r, _).
     let key = namespaced (pod_meta pod); existing = addrs_of r key; podIPs = map ParseIP (pod_PodIPs pod) in
     bindA (liftW (foreachA (add_peer E (pw_encapSportAuto r) existing) podIPs)) (\<lambda>_.
     bindA (liftW (foreachA (drop_peer E podIPs) existing)) (\<lambda>_.
     modifyA (\<lambda>(r, w). (r\<lparr>pw_podAddrs := gupdate key podIPs (pw_podAddrs r), pw_peers := fold (record_peer key) podIPs (pw_peers r)\<rparr>, w)))))"

definition existsOtherLivePeers :: "podWatcher \<Rightarrow> string \<Rightarrow> string \<Rightarrow> bool res" where
  "existsOtherLivePeers r key ip = (case glookup (pw_peers r) ip of
       Some keySet \<Rightarrow> (case glookup keySet key of
         Some _ \<Rightarrow> Ok (length keySet > 1)
       | None \<Rightarrow> Err (ErrorMsg (''keySet in the peers doesn'' @ [CHR 0x27] @ ''t contain my key. key: '' @ key @ '' ip: '' @ ip)))
     | None \<Rightarrow> Err (ErrorMsg (''peers doesn'' @ [CHR 0x27] @ ''t contain my IP. key: '' @ key @ '' ip: '' @ ip)))"

definition forget_peer :: "string \<Rightarrow> string \<Rightarrow> unit gomap gomap \<Rightarrow> unit gomap gomap" where
  "forget_peer key ip peers = (case glookup peers ip of
       Some keySet \<Rightarrow> (let keySet' = gdelete key keySet in
         if length keySet' = 0 then gdelete ip peers else gupdate ip keySet' peers)
     | None \<Rightarrow> peers)"

definition del_addr :: "'s watcher_env \<Rightarrow> string \<Rightarrow> ip \<Rightarrow> (podWatcher \<times> 's, unit) act" where
  "del_addr E key ip =
     bindA getA (\<lambda>(r, _).
     bindA (resA (existsOtherLivePeers r key (IP_String ip))) (\<lambda>existsLivePeers.
     bindA (if \<not> existsLivePeers then liftW (fi_DelPeer (wt_ft E) ip) else returnA ()) (\<lambda>_.
     modifyA (\<lambda>(r, w). (r\<lparr>pw_peers := forget_peer key (IP_String ip) (pw_peers r)\<rparr>, w)))))"

definition delPeer :: "'s watcher_env \<Rightarrow> string \<Rightarrow> string \<Rightarrow> (podWatcher \<times> 's, unit) act" where
  "delPeer E ns name =
     bindA getA (\<lambda>(r, _).
     let key = ns @ ''/'' @ name in
     bindA (foreachA (del_addr E key) (addrs_of r key)) (\<lambda>_.
     modifyA (\<lambda>(r, w). (r\<lparr>pw_podAddrs := gdelete key (pw_podAddrs r)\<rparr>, w))))"

definition delTerminatedPod :: "'s watcher_env \<Rightarrow> Pod \<Rightarrow> (podWatcher \<times> 's, unit) act" where
  "delTerminatedPod E pod = delPeer E (om_Namespace (pod_meta pod)) (om_Name (pod_meta pod))"

definition delPod :: "'s watcher_env \<Rightarrow> string \<Rightarrow> string \<Rightarrow> (podWatcher \<times> 's, unit) act" where
  "delPod E ns name = delPeer E ns name"

definition handle_pod :: "'s watcher_env \<Rightarrow> Pod \<Rightarrow> (podWatcher \<times> 's, unit) act" where
  "handle_pod E pod =
     bindA getA (\<lambda>(r, _).
     if \<not> shouldHandle (wt_range E) r pod then returnA ()
     else if \<not> isTerminated pod then addPod E pod else delTerminatedPod E pod)"

definition initial_sync :: "'s watcher_env \<Rightarrow> (podWatcher \<times> 's, unit) act" where
  "initial_sync E =
     bindA (liftW (wt_ListPods E)) (\<lambda>pods.
     bindA (foreachA (handle_pod E) pods) (\<lambda>_.
     modifyA (\<lambda>(r, w). (r\<lparr>pw_initDone := True\<rparr>, w))))"

definition podWatcher_Reconcile :: "'s watcher_env \<Rightarrow> string \<Rightarrow> string \<Rightarrow> (podWatcher \<times> 's, unit) act" where
  "podWatcher_Reconcile E ns name =
     bindA getA (\<lambda>(r, _).
     if \<not> pw_initDone r then errA (wt_ctxErr E)
     else bindA (tryA (liftW (wt_GetPod E ns name))) (\<lambda>res. case res of
       Inr pod \<Rightarrow> handle_pod E pod
     | Inl e \<Rightarrow> if IsNotFound e then delPod E ns name else returnA ()))"

text \<open>The interfaces filled with the tunnels and the NAT server of this process.\<close>

definition watcher_ft :: "'w fou_env \<Rightarrow> fouTunnel \<Rightarrow> (NatServer \<times> 'w) FoUTunnel_if" where
  "watcher_ft F ft = \<lparr>fi_AddPeer = (\<lambda>a sport. liftW (AddPeer F ft a sport)), fi_DelPeer = (\<lambda>a. liftW (DelPeer F a))\<rparr>"

section \<open>Bookkeeping of peers\<close>

text \<open>\<open>recorded peers key a\<close>: the pod is recorded at the address.\<close>

definition recorded :: "unit gomap gomap \<Rightarrow> string \<Rightarrow> string \<Rightarrow> bool" where
  "recorded peers key a \<longleftrightarrow> (\<exists>ks. glookup peers a = Some ks \<and> glookup ks key = Some ())"

lemma recorded_record_peer: "recorded (record_peer key ip peers) k a \<longleftrightarrow> k = key \<and> a = IP_String ip \<or> recorded peers k a"
  by (auto simp: recorded_def record_peer_def split: option.splits)

lemma recorded_record_peers:
  "recorded (fold (record_peer key) ips peers) k a \<longleftrightarrow> k = key \<and> a \<in> IP_String ` set ips \<or> recorded peers k a"
  by (induction ips arbitrary: peers) (auto simp: recorded_record_peer)

lemma recorded_forget_peer: "k \<noteq> key \<Longrightarrow> recorded (forget_peer key b peers) k a \<longleftrightarrow> recorded peers k a"
proof (cases "glookup peers b")
  case (Some ks)
  assume k: "k \<noteq> key"
  have "map_of ks k = None" if "gdelete key ks = []"
    using glookup_gdelete [of key ks k] k that by simp
  then show ?thesis using Some k by (auto simp: recorded_def forget_peer_def Let_def)
qed (simp add: forget_peer_def)

lemma not_recorded_forget_peer: "\<not> recorded (forget_peer key a peers) key a"
  by (auto simp: recorded_def forget_peer_def Let_def split: option.splits if_splits)

lemma recorded_forget_other: "a \<noteq> b \<Longrightarrow> recorded (forget_peer key b peers) k a \<longleftrightarrow> recorded peers k a"
  by (auto simp: recorded_def forget_peer_def Let_def split: option.splits)

lemma existsOther_unrecorded:
  assumes "\<not> recorded (pw_peers r) key a"
  shows "\<exists>e. existsOtherLivePeers r key a = Err e"
  using assms by (auto simp: existsOtherLivePeers_def recorded_def split: option.split)

text \<open>The invariant: every pod is recorded at each of its addresses.\<close>

definition pw_inv :: "podWatcher \<Rightarrow> bool" where
  "pw_inv r \<longleftrightarrow> (\<forall>key. \<forall>ip \<in> set (addrs_of r key). recorded (pw_peers r) key (IP_String ip))"

lemma pw_invD: "pw_inv r \<Longrightarrow> ip \<in> set (addrs_of r key) \<Longrightarrow> recorded (pw_peers r) key (IP_String ip)"
  by (simp add: pw_inv_def)

lemma NewPodWatcher_inv: "pw_inv (NewPodWatcher ns name sport)"
  by (simp add: pw_inv_def NewPodWatcher_def addrs_of_def)

lemma addPod_inv: "keeps (\<lambda>(r, _). pw_inv r) (addPod E pod)"
proof -
  have "pw_inv (r\<lparr>pw_podAddrs := gupdate key ips (pw_podAddrs r), pw_peers := fold (record_peer key) ips (pw_peers r)\<rparr>)"
    if "pw_inv r" for r key ips
    using that by (auto simp: pw_inv_def addrs_of_def recorded_record_peers)
  then show ?thesis
    unfolding addPod_def Let_def
    by (intro keeps_intros keeps_modifyA keeps_liftW) (auto simp: keeps_def)
qed

text \<open>Deleting one address touches only the record of its pod.\<close>

definition others_kept :: "string \<Rightarrow> podWatcher \<Rightarrow> podWatcher \<Rightarrow> bool" where
  "others_kept key r0 r \<longleftrightarrow> pw_podAddrs r = pw_podAddrs r0 \<and> (\<forall>k a. k \<noteq> key \<longrightarrow> recorded (pw_peers r) k a = recorded (pw_peers r0) k a)"

lemma others_kept_refl [simp]: "others_kept key r r"
  by (simp add: others_kept_def)

lemma del_addr_others: "keeps (\<lambda>(r, _). others_kept key r0 r) (del_addr E key ip)"
  unfolding del_addr_def
  by (intro keeps_intros keeps_modifyA keeps_liftW) (auto simp: keeps_def others_kept_def recorded_forget_peer)

lemma delPeer_inv:
  assumes "pw_inv r" and "delPeer E ns name (r, w) = (Ok (), (r', w'))"
  shows "pw_inv r'"
proof -
  let ?key = "ns @ ''/'' @ name"
  obtain r1 w1 where run: "foreachA (del_addr E ?key) (addrs_of r ?key) (r, w) = (Ok (), (r1, w1))"
      and r': "r' = r1\<lparr>pw_podAddrs := gdelete ?key (pw_podAddrs r1)\<rparr>"
    using assms(2) by (auto simp: delPeer_def bindA_Ok_iff modifyA_def Let_def)
  have "keeps (\<lambda>(x, _). others_kept ?key r x) (foreachA (del_addr E ?key) (addrs_of r ?key))"
    by (intro keeps_intros del_addr_others)
  from keepsD [OF this _ run] have "others_kept ?key r r1" by simp
  then show ?thesis using assms(1) unfolding r' by (auto simp: pw_inv_def others_kept_def addrs_of_def)
qed

text \<open>The steps of the watcher: a pod is added, however that ends, or removed successfully.\<close>

inductive watcher_step :: "'s watcher_env \<Rightarrow> podWatcher \<times> 's \<Rightarrow> podWatcher \<times> 's \<Rightarrow> bool" for E where
  add_step: "addPod E pod s = (r, s') \<Longrightarrow> watcher_step E s s'"
| del_step: "delPeer E ns name s = (Ok (), s') \<Longrightarrow> watcher_step E s s'"

inductive_cases watcher_stepE: "watcher_step E s s'"

interpretation watcher: inductive_invariant "watcher_step E" "\<lambda>s. pw_inv (fst s)" for E :: "'s watcher_env"
proof
  fix s s' assume inv: "pw_inv (fst s)" and step: "watcher_step E s s'"
  from step show "pw_inv (fst s')"
  proof cases
    case (add_step pod r)
    then show ?thesis using keepsD [OF addPod_inv, of s] inv by (auto simp: split_beta)
  next
    case (del_step ns name)
    then show ?thesis using delPeer_inv [of "fst s" E ns name "snd s" "fst s'" "snd s'"] inv by simp
  qed
qed

section \<open>Tunnels of other pods\<close>

text \<open>What the watcher relies on when it deletes a peer: only the device of that peer changes.\<close>

locale tunnel_service =
  fixes ft :: "'s FoUTunnel_if"
    and lks :: "'s \<Rightarrow> string \<Rightarrow> link option"
    and ok :: bool
  assumes del_only: "ok \<Longrightarrow> only lks {fouName a} (fi_DelPeer ft a)"
begin

text \<open>While another pod is recorded at the name of the address, its device is kept.\<close>

lemma del_addr_spares:
  assumes ok and ft: "wt_ft E = ft" and k: "k \<noteq> key" and same: "fouName ip = fouName ip' \<longrightarrow> IP_String ip = IP_String ip'"
  shows "keeps (\<lambda>(r, w). recorded (pw_peers r) k (IP_String ip') \<and> lks w (fouName ip') = x) (del_addr E key ip)"
proof (rule keepsI)
  fix s res s'
  assume I: "case s of (r, w) \<Rightarrow> recorded (pw_peers r) k (IP_String ip') \<and> lks w (fouName ip') = x" and run: "del_addr E key ip s = (res, s')"
  obtain r w r' w' where s: "s = (r, w)" "s' = (r', w')" by (cases s, cases s') auto
  note run = run [unfolded s]
  have held: "recorded (pw_peers r) k (IP_String ip')" and x: "x = lks w (fouName ip')" using I s by auto
  have rec: "recorded (pw_peers r') k (IP_String ip')"
    using keepsD [OF del_addr_others [of key r E ip], of "(r, w)"] held run k by (simp add: others_kept_def)
  have "lks w' (fouName ip') = lks w (fouName ip')"
  proof (cases "existsOtherLivePeers r key (IP_String ip) = Ok False")
    case True
    have "IP_String ip \<noteq> IP_String ip'"
    proof
      assume eq: "IP_String ip = IP_String ip'"
      obtain ks where ks: "glookup (pw_peers r) (IP_String ip) = Some ks" "glookup ks k = Some ()"
        using held unfolding recorded_def eq by auto
      moreover obtain u where "glookup ks key = Some u" and len: "\<not> 1 < length ks"
        using True ks(1) by (auto simp: existsOtherLivePeers_def split: option.splits)
      ultimately have "(k, ()) \<in> set ks" "(key, u) \<in> set ks" by (auto dest: map_of_SomeD)
      then show False using len k by (cases ks) auto
    qed
    then have "fouName ip' \<notin> {fouName ip}" using same by auto
    then show ?thesis using run onlyD [OF del_only [OF \<open>ok\<close>, of ip]] ft True
      by (auto simp: del_addr_def bindA_def getA_def resA_def liftW_def modifyA_def split: prod.splits res.splits)
  next
    case False
    then show ?thesis using run
      by (auto simp: del_addr_def bindA_def getA_def resA_def modifyA_def returnA_def split: prod.splits res.splits if_splits)
  qed
  then show "case s' of (r, w) \<Rightarrow> recorded (pw_peers r) k (IP_String ip') \<and> lks w (fouName ip') = x" using rec x s by simp
qed

lemma delPeer_spares:
  assumes ok and "wt_ft E = ft" and "k \<noteq> ns @ ''/'' @ name" and "recorded (pw_peers r) k (IP_String ip')"
    and "\<forall>ip \<in> set (addrs_of r (ns @ ''/'' @ name)). fouName ip = fouName ip' \<longrightarrow> IP_String ip = IP_String ip'"
    and "delPeer E ns name (r, w) = (res, (r', w'))"
  shows "lks w' (fouName ip') = lks w (fouName ip')"
proof -
  let ?key = "ns @ ''/'' @ name"
  let ?I = "\<lambda>(r', w'). recorded (pw_peers r') k (IP_String ip') \<and> lks w' (fouName ip') = lks w (fouName ip')"
  have "keeps ?I (foreachA (del_addr E ?key) (addrs_of r ?key))"
    using assms(5) by (intro keeps_foreachA del_addr_spares [OF assms(1-3)]) auto
  then have "keeps ?I (bindA (foreachA (del_addr E ?key) (addrs_of r ?key)) (\<lambda>_.
     modifyA (\<lambda>(r, w). (r\<lparr>pw_podAddrs := gdelete ?key (pw_podAddrs r)\<rparr>, w))))"
    by (intro keeps_bindA keeps_modifyA) auto
  from keepsD [OF this, of "(r, w)"] assms(4,6) show ?thesis by (simp add: delPeer_def Let_def)
qed

end

lemma only_liftW: "only lks S m \<Longrightarrow> only (\<lambda>s. lks (snd s)) S (liftW m)"
  by (rule onlyI) (auto simp: liftW_def split: prod.splits dest: onlyD)

interpretation egress_tunnels: tunnel_service "watcher_ft F ft" "\<lambda>s. lks (snd s)" "link_laws lks (fe_netlink F)"
  for F :: "'w fou_env" and ft and lks :: "'w \<Rightarrow> string \<Rightarrow> link option"
  by unfold_locales (simp add: watcher_ft_def only_liftW DelPeer_only)

lemma fouName4_IP_String:
  assumes "To4 b \<noteq> nil_ip" and "fouName a = fouName b"
  shows "IP_String a = IP_String b"
proof -
  have a: "To4 a \<noteq> []" using assms fouName46 [of b a] by auto
  then have eq: "To4 a = To4 b" using assms fouName4_inject by simp
  have len: "length c = 4 \<or> length c = 16" if "To4 c \<noteq> []" for c
    using that by (simp add: To4_def split: if_splits)
  have "length a = 4 \<or> length a = 16" "length b = 4 \<or> length b = 16" using len a assms(1) by blast+
  then show ?thesis using a assms(1) eq by (auto simp: IP_String_def)
qed


text \<open>The egress of the examples, with two pods at one address.\<close>

definition example_server :: NatServer where
  "example_server = \<lparr>sv_iface = ''eth0'', sv_ipv4 = [10, 1, 1, 1], sv_ipv6 = [], sv_backend = EgressBackendIPTables, sv_clients = []\<rparr>"

definition example_watcher_env :: "(NatServer \<times> nl_world) watcher_env" where
  "example_watcher_env = \<lparr>wt_ListPods = returnA [], wt_GetPod = (\<lambda>_ _. errA (StatusError ReasonNotFound ''not found'')), wt_ft = watcher_ft ref_fou_env example_tunnel,
     wt_AddClient = AddClient ref_nat_env, wt_range = (\<lambda>ks. ks), wt_ctxErr = Sentinel Canceled\<rparr>"

definition example_pod :: "string \<Rightarrow> string list \<Rightarrow> Pod" where
  "example_pod name ips = \<lparr>pod_meta = empty_meta\<lparr>om_Name := name, om_Namespace := ''default''\<rparr>, pod_HostNetwork = False, pod_Phase = PodRunning,
     pod_PodIP = (case ips of [] \<Rightarrow> [] | i # _ \<Rightarrow> i), pod_PodIPs = ips, pod_Images = []\<rparr>"

definition two_pods :: "podWatcher \<times> NatServer \<times> nl_world" where
  "two_pods = snd (addPod example_watcher_env (example_pod ''p2'' [''10.1.1.9''])
     (snd (addPod example_watcher_env (example_pod ''p1'' [''10.1.1.9'']) (NewPodWatcher ''inet'' ''nat'' False, example_server, empty_world))))"

lemma watcher_step_addPod: "watcher_step E s (snd (addPod E pod s))"
  by (rule add_step) (rule prod.collapse [symmetric])


text \<open>C40. A removal that fails at the second address of a pod can never be completed: the record of the first address is gone, so every later removal of this pod
  fails before it reaches the second, whatever the kernel would answer, and the tunnel stays.\<close>

theorem delPeer_never_recovers:
  assumes "addrs_of r (ns @ ''/'' @ name) = [a, b]" and "IP_String a \<noteq> IP_String b"
    and "existsOtherLivePeers r (ns @ ''/'' @ name) (IP_String a) = Ok False" and "existsOtherLivePeers r (ns @ ''/'' @ name) (IP_String b) = Ok False"
    and "fi_DelPeer (wt_ft E) a w = (Ok (), w1)" and "fi_DelPeer (wt_ft E) b w1 = (Err e, w2)"
  shows "\<exists>r' e'. delPeer E ns name (r, w) = (Err e, (r', w2)) \<and> addrs_of r' (ns @ ''/'' @ name) = [a, b] \<and>
    (\<forall>w3. delPeer E ns name (r', w3) = (Err e', (r', w3)))"
proof -
  let ?key = "ns @ ''/'' @ name"
  let ?r = "r\<lparr>pw_peers := forget_peer ?key (IP_String a) (pw_peers r)\<rparr>"
  have b: "existsOtherLivePeers ?r ?key (IP_String b) = Ok False"
    using assms(2,4) by (auto simp: existsOtherLivePeers_def forget_peer_def Let_def split: option.splits)
  have first: "del_addr E ?key a (r, w) = (Ok (), (?r, w1))"
    using assms(3,5) by (simp add: del_addr_def bindA_def getA_def resA_def liftW_def modifyA_def)
  have second: "del_addr E ?key b (?r, w1) = (Err e, (?r, w2))"
    using b assms(6) by (simp add: del_addr_def bindA_def getA_def resA_def liftW_def modifyA_def)
  have run: "delPeer E ns name (r, w) = (Err e, (?r, w2))"
    using first second assms(1) by (simp add: delPeer_def Let_def bindA_def getA_def)
  have addrs: "addrs_of ?r ?key = [a, b]" using assms(1) by (simp add: addrs_of_def)
  obtain e' where e': "existsOtherLivePeers ?r ?key (IP_String a) = Err e'"
    using existsOther_unrecorded [of "?r" ?key "IP_String a"] not_recorded_forget_peer [of ?key "IP_String a" "pw_peers r"] by auto
  have "delPeer E ns name (?r, w3) = (Err e', (?r, w3))" for w3
    using addrs e' by (simp add: delPeer_def Let_def bindA_def getA_def del_addr_def resA_def)
  then show ?thesis using run addrs by blast
qed

text \<open>A kernel that refuses to delete the IPv6 tunnel while the flag is set.\<close>

definition flaky_env :: "bool watcher_env" where
  "flaky_env = \<lparr>wt_ListPods = returnA [], wt_GetPod = (\<lambda>_ _. errA (StatusError ReasonNotFound ''not found'')),
     wt_ft = \<lparr>fi_AddPeer = (\<lambda>_ _. returnA (new_link ''fou'' Dummy)),
       fi_DelPeer = (\<lambda>a w. if To4 a = nil_ip \<and> w then (Err (Sentinel ENODEV), w) else (Ok (), w))\<rparr>,
     wt_AddClient = (\<lambda>_ _. returnA ()), wt_range = (\<lambda>ks. ks), wt_ctxErr = Sentinel Canceled\<rparr>"

definition dual_pod :: "podWatcher \<times> bool" where
  "dual_pod = snd (addPod flaky_env (example_pod ''p1'' [''10.1.1.9'', ''fd00::9'']) (NewPodWatcher ''inet'' ''nat'' False, True))"

theorem delPeer_never_recovers_witness:
  "\<exists>r' e e'. delPeer flaky_env ''default'' ''p1'' dual_pod = (Err e, (r', True)) \<and> delPeer flaky_env ''default'' ''p1'' (r', False) = (Err e', (r', False))"
proof -
  let ?a = "ParseIP ''10.1.1.9''" and ?b = "ParseIP ''fd00::9''"
  obtain r w where d: "dual_pod = (r, w)" by (cases dual_pod)
  have "snd dual_pod = True" by code_simp
  then have w: "w = True" by (simp add: d)
  have "addrs_of (fst dual_pod) ''default/p1'' = [?a, ?b]" by code_simp
  then have addrs: "addrs_of r (''default'' @ ''/'' @ ''p1'') = [?a, ?b]" by (simp add: d)
  have ne: "IP_String ?a \<noteq> IP_String ?b" by code_simp
  have "existsOtherLivePeers (fst dual_pod) ''default/p1'' (IP_String ?a) = Ok False" by code_simp
  then have ea: "existsOtherLivePeers r (''default'' @ ''/'' @ ''p1'') (IP_String ?a) = Ok False" by (simp add: d)
  have "existsOtherLivePeers (fst dual_pod) ''default/p1'' (IP_String ?b) = Ok False" by code_simp
  then have eb: "existsOtherLivePeers r (''default'' @ ''/'' @ ''p1'') (IP_String ?b) = Ok False" by (simp add: d)
  have da: "fi_DelPeer (wt_ft flaky_env) ?a w = (Ok (), True)" unfolding w by code_simp
  have db: "fi_DelPeer (wt_ft flaky_env) ?b True = (Err (Sentinel ENODEV), True)" by code_simp
  from delPeer_never_recovers [OF addrs ne ea eb da db] show ?thesis unfolding d by blast
qed

end
