(* ===== verification/Pool.thy ===== *)
theory Pool
  imports Address_Pool
begin

text \<open>
  The pool manager of the IPAM controller, \<open>pkg/ipam/pool.go\<close>. The API server is a parameter: a
  record of the calls the file makes, each an action on an opaque world. The gauges of a pool are
  fields of the pool; a lock makes each method of a pool atomic.
\<close>

section \<open>The program\<close>

record 'w pool_kube =
  pk_GetAddressPool :: "string \<Rightarrow> ('w, AddressPool) act"
  pk_ListAddressBlocks :: "string gomap \<Rightarrow> ('w, AddressBlock list) act"
  pk_CreateAddressBlock :: "AddressBlock \<Rightarrow> ('w, AddressBlock) act"

record ('b, 'w) pool_env =
  pe_bitset :: "'b bitset_ops"
  pe_netutil :: netutil_ops
  pe_ctrlutil :: ctrlutil_ops
  pe_kube :: "'w pool_kube"

record 'b pool =
  p_name :: string
  p_maxBlocks :: int
  p_allocatedBlocks :: int
  p_allocated :: 'b

record 'b poolManager =
  pm_pools :: "'b pool gomap"

text \<open>The mask of a subnet set: \<open>_, n, _ := net.ParseCIDR(...)\<close>, then \<open>n.Mask.Size()\<close>, where a nil
  pointer is dereferenced when there is no subnet or it does not parse.\<close>

definition cidr_mask :: "string \<Rightarrow> (nat \<times> nat) res" where
  "cidr_mask s = (case ParseCIDR s of Ok (_, n) \<Rightarrow> Ok (MaskSize (net_Mask n)) | _ \<Rightarrow> Panic nil_deref)"

definition ss_mask :: "SubnetSet \<Rightarrow> (nat \<times> nat) res" where
  "ss_mask ss = (case ss_IPv4 ss of
       Some s \<Rightarrow> cidr_mask s
     | None \<Rightarrow> (case ss_IPv6 ss of Some s \<Rightarrow> cidr_mask s | None \<Rightarrow> Panic nil_deref))"

text \<open>\<open>1 << n\<close> in \<open>int\<close> and \<open>uint(1) << n\<close>.\<close>

definition int_shl :: "int \<Rightarrow> int res" where
  "int_shl n = (if n < 0 then Panic ''negative shift amount'' else Ok (wrap_int64 (2 ^ nat n)))"

definition uint_shl :: "int \<Rightarrow> nat res" where
  "uint_shl n = (if n < 0 then Panic ''negative shift amount'' else Ok (uint_shl1 (nat n)))"

fun max_blocks :: "int \<Rightarrow> SubnetSet list \<Rightarrow> int \<Rightarrow> int res" where
  "max_blocks sz [] acc = Ok acc"
| "max_blocks sz (sub # subs) acc =
     bindR (ss_mask sub) (\<lambda>(ones, bits).
     bindR (int_shl (int bits - int ones - sz)) (\<lambda>k. max_blocks sz subs (wrap_int64 (acc + k))))"

definition SyncBlocks :: "('b, 'w) pool_env \<Rightarrow> ('b pool \<times> 'w, unit) act" where
  "SyncBlocks E =
     bindA getA (\<lambda>(p0, _).
     bindA (liftW (pk_GetAddressPool (pe_kube E) (p_name p0))) (\<lambda>ap.
     bindA (resA (max_blocks (aps_BlockSizeBits (ap_Spec ap)) (aps_Subnets (ap_Spec ap)) 0)) (\<lambda>maxBlocks.
     bindA (modifyA (\<lambda>(p, w). (p\<lparr>p_maxBlocks := maxBlocks\<rparr>, w))) (\<lambda>_.
     bindA (modifyA (\<lambda>(p, w). (p\<lparr>p_allocated := bs_ClearAll (pe_bitset E) (p_allocated p)\<rparr>, w))) (\<lambda>_.
     bindA (liftW (pk_ListAddressBlocks (pe_kube E) [(LabelPool, p_name p0)])) (\<lambda>blocks.
     modifyA (\<lambda>(p, w). (p\<lparr>p_allocated := fold (\<lambda>b s. bs_Set (pe_bitset E) s (wrap_uint (ab_Index b))) blocks (p_allocated p),
                           p_allocatedBlocks := int (length blocks)\<rparr>, w))))))))"

text \<open>The loop of \<open>AllocateBlock\<close> up to the subnet that holds \<open>nextIndex\<close>, with the index relative
  to that subnet.\<close>

fun find_subnet :: "int \<Rightarrow> nat \<Rightarrow> SubnetSet list \<Rightarrow> nat \<Rightarrow> (SubnetSet \<times> nat) option res" where
  "find_subnet sz nextIndex [] currentIndex = Ok None"
| "find_subnet sz nextIndex (ss # rest) currentIndex =
     bindR (ss_mask ss) (\<lambda>(ones, bits).
     bindR (uint_shl (int bits - int ones - sz)) (\<lambda>size.
     if nextIndex \<ge> (currentIndex + size) mod 2 ^ 64
     then find_subnet sz nextIndex rest ((currentIndex + size) mod 2 ^ 64)
     else Ok (Some (ss, wrap_uint (int nextIndex - int currentIndex)))))"

text \<open>The object built for the block: name, owner, labels, finalizer, index and subnets.\<close>

definition block_object :: "('b, 'w) pool_env \<Rightarrow> string \<Rightarrow> string \<Rightarrow> string \<Rightarrow> AddressPool \<Rightarrow> nat
    \<Rightarrow> ipnet option \<times> ipnet option \<Rightarrow> AddressBlock res" where
  "block_object E pname nodeName requestUID ap nextIndex nets =
     bindR (cu_SetControllerReference (pe_ctrlutil E) ''AddressPool'' (ap_meta ap)
              (empty_meta\<lparr>om_Name := pname @ ''-'' @ itoa nextIndex\<rparr>)) (\<lambda>m.
     let m = m\<lparr>om_Labels := [(LabelPool, pname), (LabelNode, nodeName), (LabelRequest, requestUID)]\<rparr>;
         m = cu_AddFinalizer (pe_ctrlutil E) m FinCoil
     in Ok \<lparr>ab_meta = m, ab_Index = wrap_int32 (int nextIndex),
            ab_IPv4 = map_option IPNet_String (fst nets), ab_IPv6 = map_option IPNet_String (snd nets)\<rparr>)"

definition pool_nextIndex :: "'b bitset_ops \<Rightarrow> 'b \<Rightarrow> nat" where
  "pool_nextIndex B u = (case bs_NextClear B u 0 of Some i \<Rightarrow> i | None \<Rightarrow> bs_Len B u)"

definition pool_AllocateBlock :: "('b, 'w) pool_env \<Rightarrow> string \<Rightarrow> string \<Rightarrow> ('b pool \<times> 'w, AddressBlock) act" where
  "pool_AllocateBlock E nodeName requestUID =
     bindA getA (\<lambda>(p, _).
     let nextIndex = pool_nextIndex (pe_bitset E) (p_allocated p) in
     bindA (liftW (pk_GetAddressPool (pe_kube E) (p_name p))) (\<lambda>ap.
     if om_DeletionTimestamp (ap_meta ap) \<noteq> None then errA (Sentinel ErrNoBlock)
     else bindA (resA (find_subnet (aps_BlockSizeBits (ap_Spec ap)) nextIndex (aps_Subnets (ap_Spec ap)) 0)) (\<lambda>found.
       case found of
         None \<Rightarrow> errA (Sentinel ErrNoBlock)
       | Some (ss, n) \<Rightarrow>
           bindA (resA (GetBlock (pe_netutil E) ss n (aps_BlockSizeBits (ap_Spec ap)))) (\<lambda>nets.
           bindA (resA (block_object E (p_name p) nodeName requestUID ap nextIndex nets)) (\<lambda>r.
           bindA (liftW (pk_CreateAddressBlock (pe_kube E) r)) (\<lambda>r.
           bindA (modifyA (\<lambda>(p, w). (p\<lparr>p_allocated := bs_Set (pe_bitset E) (p_allocated p) nextIndex,
                                         p_allocatedBlocks := p_allocatedBlocks p + 1\<rparr>, w))) (\<lambda>_.
           returnA r)))))))"

definition pool_IsUsed :: "('b, 'w) pool_env \<Rightarrow> ('b pool \<times> 'w, bool) act" where
  "pool_IsUsed E =
     bindA getA (\<lambda>(p, _).
     bindA (liftW (pk_ListAddressBlocks (pe_kube E) [(LabelPool, p_name p)])) (\<lambda>blocks.
     returnA (length blocks > 0)))"

section \<open>The manager\<close>

definition NewPoolManager :: "'b poolManager" where
  "NewPoolManager = \<lparr>pm_pools = []\<rparr>"

definition new_pool :: "('b, 'w) pool_env \<Rightarrow> string \<Rightarrow> 'b pool" where
  "new_pool E name = \<lparr>p_name = name, p_maxBlocks = 0, p_allocatedBlocks = 0, p_allocated = bs_Zero (pe_bitset E)\<rparr>"

text \<open>\<open>getPool\<close>: the pool is entered into the map only once it has been synchronised.\<close>

definition getPool :: "('b, 'w) pool_env \<Rightarrow> string \<Rightarrow> ('b poolManager \<times> 'w, 'b pool) act" where
  "getPool E name = (\<lambda>(pm, w).
     case glookup (pm_pools pm) name of
       Some p \<Rightarrow> (Ok p, (pm, w))
     | None \<Rightarrow> (case SyncBlocks E (new_pool E name, w) of
           (Ok _, (p, w')) \<Rightarrow> (Ok p, (pm\<lparr>pm_pools := gupdate name p (pm_pools pm)\<rparr>, w'))
         | (Err e, (_, w')) \<Rightarrow> (Err e, (pm, w'))
         | (Panic m, (_, w')) \<Rightarrow> (Panic m, (pm, w'))))"

text \<open>Running a method on the pool that \<open>getPool\<close> returned; the map holds a pointer to it.\<close>

definition on_pool :: "string \<Rightarrow> 'b pool \<Rightarrow> ('b pool \<times> 'w, 'a) act \<Rightarrow> ('b poolManager \<times> 'w, 'a) act" where
  "on_pool name p m = (\<lambda>(pm, w). case m (p, w) of
     (r, (p', w')) \<Rightarrow> (r, (pm\<lparr>pm_pools := gupdate name p' (pm_pools pm)\<rparr>, w')))"

definition DropPool :: "string \<Rightarrow> ('b poolManager \<times> 'w, unit) act" where
  "DropPool name = modifyA (\<lambda>(pm, w). (pm\<lparr>pm_pools := gdelete name (pm_pools pm)\<rparr>, w))"

definition SyncPool :: "('b, 'w) pool_env \<Rightarrow> string \<Rightarrow> ('b poolManager \<times> 'w, unit) act" where
  "SyncPool E name = bindA (getPool E name) (\<lambda>p. on_pool name p (SyncBlocks E))"

definition AllocateBlock :: "('b, 'w) pool_env \<Rightarrow> string \<Rightarrow> string \<Rightarrow> string
    \<Rightarrow> ('b poolManager \<times> 'w, AddressBlock) act" where
  "AllocateBlock E poolName nodeName requestUID =
     bindA (getPool E poolName) (\<lambda>p. on_pool poolName p (pool_AllocateBlock E nodeName requestUID))"

definition IsUsed :: "('b, 'w) pool_env \<Rightarrow> string \<Rightarrow> ('b poolManager \<times> 'w, bool) act" where
  "IsUsed E name = bindA (getPool E name) (\<lambda>p. on_pool name p (pool_IsUsed E))"

section \<open>The blocks of a pool\<close>

text \<open>The number of blocks of \<open>2^k\<close> addresses in a subnet set and in a pool, and the subnet that holds
  a block index.\<close>

definition blocks_in :: "nat \<Rightarrow> SubnetSet \<Rightarrow> nat" where
  "blocks_in k ss = (case ss_mask ss of Ok (ones, bits) \<Rightarrow> 2 ^ (bits - ones - k) | _ \<Rightarrow> 0)"

definition pool_total :: "nat \<Rightarrow> SubnetSet list \<Rightarrow> nat" where
  "pool_total k subs = sum_list (map (blocks_in k) subs)"

fun locate :: "nat \<Rightarrow> nat \<Rightarrow> SubnetSet list \<Rightarrow> (SubnetSet \<times> nat) option" where
  "locate k i [] = None"
| "locate k i (ss # rest) = (if i < blocks_in k ss then Some (ss, i) else locate k (i - blocks_in k ss) rest)"

text \<open>A pool as the webhook admits it, within the bounds of the 64-bit arithmetic: subnets of at most
  \<open>2^62\<close> addresses and indices that fit the \<open>int32\<close> of an AddressBlock.\<close>

definition pool_ok :: "nat \<Rightarrow> AddressPoolSpec \<Rightarrow> bool" where
  "pool_ok k spec \<longleftrightarrow> aps_BlockSizeBits spec = int k \<and>
     (\<forall>ss \<in> set (aps_Subnets spec). ss_native ss \<and> (\<exists>hb \<le> 62. ss_valid (int k) hb ss)) \<and>
     pool_total k (aps_Subnets spec) < 2 ^ 31"

lemma cidr_mask_of: "subnet_of w s base hb \<Longrightarrow> cidr_mask s = Ok (w - hb, w)"
  by (auto simp: cidr_mask_def subnet_of_def split: res.splits)

lemma ss_mask_valid:
  assumes "ss_valid sz hb ss"
  shows "\<exists>w. ss_mask ss = Ok (w - hb, w) \<and> hb \<le> w"
proof -
  have "subnet_of w s base hb \<Longrightarrow> hb \<le> w" for w s base by (auto elim: subnet_of_ParseCIDR)
  then show ?thesis
    using assms by (cases "ss_IPv4 ss"; cases "ss_IPv6 ss")
      (auto simp: ss_valid_def ss_mask_def dest: cidr_mask_of)
qed

lemma blocks_in_valid: "ss_valid sz hb ss \<Longrightarrow> blocks_in k ss = 2 ^ (hb - k)"
  using ss_mask_valid [of sz hb ss] by (auto simp: blocks_in_def)

lemma uint_shl_valid:
  assumes "ss_valid (int k) hb ss" and "hb \<le> 62" and "ss_mask ss = Ok (ones, bits)"
  shows "uint_shl (int bits - int ones - int k) = Ok (blocks_in k ss)"
proof -
  obtain w where w: "ss_mask ss = Ok (w - hb, w)" "hb \<le> w" using ss_mask_valid [OF assms(1)] by blast
  have k: "k \<le> hb" using assms(1) by (simp add: ss_valid_def)
  have eq: "int bits - int ones - int k = int (hb - k)" using w assms(3) k by auto
  have "\<not> (int (hb - k) < 0)" "nat (int (hb - k)) = hb - k" "hb - k < 64" using assms(2) by auto
  then show ?thesis unfolding eq blocks_in_valid [OF assms(1)] uint_shl_def by simp
qed

lemma find_subnet_locate:
  assumes "\<And>ss. ss \<in> set subs \<Longrightarrow> \<exists>hb \<le> 62. ss_valid (int k) hb ss"
    and "c + pool_total k subs < 2 ^ 64" and "c \<le> i" and "i < 2 ^ 64"
  shows "find_subnet (int k) i subs c = Ok (locate k (i - c) subs)"
  using assms
proof (induction subs arbitrary: c)
  case Nil
  then show ?case by simp
next
  case (Cons ss subs)
  obtain hb where hb: "ss_valid (int k) hb ss" "hb \<le> 62" using Cons.prems(1) by auto
  obtain ones bits where m: "ss_mask ss = Ok (ones, bits)" using ss_mask_valid [OF hb(1)] by blast
  define size where "size = blocks_in k ss"
  have sh: "uint_shl (int bits - int ones - int k) = Ok size"
    using uint_shl_valid [OF hb m] by (simp add: size_def)
  have tot: "c + size + pool_total k subs < 2 ^ 64"
    using Cons.prems(2) by (simp add: pool_total_def size_def)
  then have md: "(c + size) mod 18446744073709551616 = c + size" by simp
  show ?case
  proof (cases "c + size \<le> i")
    case True
    then have "find_subnet (int k) i subs (c + size) = Ok (locate k (i - (c + size)) subs)"
      using Cons.IH [of "c + size"] Cons.prems tot by simp
    moreover have "\<not> i - c < size" "i - c - size = i - (c + size)" using True by auto
    ultimately show ?thesis using True by (simp add: m sh md flip: size_def)
  next
    case False
    have "int i - int c < 2 ^ 64" using Cons.prems(4) by (simp flip: of_nat_less_iff)
    then have "wrap_uint (int i - int c) = i - c" using Cons.prems(3) by (simp add: nat_diff_distrib)
    with False show ?thesis using Cons.prems(3) by (auto simp: m sh md simp flip: size_def)
  qed
qed

lemma locate_None: "locate k i subs = None \<longleftrightarrow> pool_total k subs \<le> i"
proof (induction subs arbitrary: i)
  case (Cons ss subs)
  show ?case
  proof (cases "i < blocks_in k ss")
    case False
    then have "pool_total k subs \<le> i - blocks_in k ss \<longleftrightarrow> pool_total k (ss # subs) \<le> i"
      by (simp add: pool_total_def le_diff_conv2 add.commute)
    with False show ?thesis using Cons.IH [of "i - blocks_in k ss"] by simp
  qed (simp add: pool_total_def)
qed (simp add: pool_total_def)

lemma locate_Some: "locate k i subs = Some (ss, n) \<Longrightarrow> ss \<in> set subs \<and> n < blocks_in k ss"
  by (induction subs arbitrary: i) (auto split: if_splits)

lemma locate_append: "locate k i subs = Some r \<Longrightarrow> locate k i (subs @ rest) = Some r"
  by (induction subs arbitrary: i) (auto split: if_splits)

lemma find_subnet_append:
  "find_subnet sz i subs c = Ok (Some r) \<Longrightarrow> find_subnet sz i (subs @ rest) c = Ok (Some r)"
proof (induction sz i subs c rule: find_subnet.induct)
  case (2 sz i ss subs c)
  then obtain ones bits where m: "ss_mask ss = Ok (ones, bits)" by (cases "ss_mask ss") auto
  with 2 obtain size where "uint_shl (int bits - int ones - sz) = Ok size"
    by (cases "uint_shl (int bits - int ones - sz)") auto
  with 2 m show ?case by (auto split: if_splits)
qed simp

section \<open>Synchronisation\<close>

lemma pool_nextIndex_least:
  assumes "bitset_laws B"
  shows "pool_nextIndex B u \<notin> bs_bits B u" and "j < pool_nextIndex B u \<Longrightarrow> j \<in> bs_bits B u"
    and "pool_nextIndex B u \<le> bs_Len B u"
proof -
  have "pool_nextIndex B u \<notin> bs_bits B u \<and> pool_nextIndex B u \<le> bs_Len B u \<and>
      (j < pool_nextIndex B u \<longrightarrow> j \<in> bs_bits B u)"
  proof (cases "bs_NextClear B u 0")
    case None
    have "bs_Len B u \<notin> bs_bits B u" using bs_bits_below [OF assms] by blast
    then show ?thesis
      using bitset_NextClear_None [OF assms None, of j] None by (simp add: pool_nextIndex_def bs_bits_def)
  next
    case (Some i)
    then show ?thesis
      using bitset_NextClear_Some [OF assms Some] by (simp add: pool_nextIndex_def bs_bits_def)
  qed
  then show "pool_nextIndex B u \<notin> bs_bits B u" "j < pool_nextIndex B u \<Longrightarrow> j \<in> bs_bits B u"
    "pool_nextIndex B u \<le> bs_Len B u" by blast+
qed

lemma fold_Set_blocks:
  "bitset_laws B \<Longrightarrow> bs_bits B (fold (\<lambda>b s. bs_Set B s (f b)) xs u) = f ` set xs \<union> bs_bits B u"
  by (induction xs arbitrary: u) auto

section \<open>Allocation of a block\<close>

definition deleting :: "AddressPool \<Rightarrow> bool" where
  "deleting ap \<longleftrightarrow> om_DeletionTimestamp (ap_meta ap) \<noteq> None"

text \<open>The step after the block was found: create the object, then mark the index.\<close>

definition create_step :: "('b, 'w) pool_env \<Rightarrow> nat \<Rightarrow> AddressBlock res \<Rightarrow> ('b pool \<times> 'w, AddressBlock) act" where
  "create_step E i obj = bindA (resA obj) (\<lambda>r. bindA (liftW (pk_CreateAddressBlock (pe_kube E) r)) (\<lambda>r.
     bindA (modifyA (\<lambda>(p, w). (p\<lparr>p_allocated := bs_Set (pe_bitset E) (p_allocated p) i,
                                   p_allocatedBlocks := p_allocatedBlocks p + 1\<rparr>, w))) (\<lambda>_. returnA r)))"

lemma pool_AllocateBlock_eq:
  assumes "netutil_laws (pe_netutil E)"
    and "pk_GetAddressPool (pe_kube E) (p_name p) w = (Ok ap, w1)" and "pool_ok k (ap_Spec ap)"
    and "i = pool_nextIndex (pe_bitset E) (p_allocated p)" and "i < 2 ^ 64"
  shows "pool_AllocateBlock E nodeName uid (p, w) =
    (if deleting ap then (Err (Sentinel ErrNoBlock), (p, w1))
     else case locate k i (aps_Subnets (ap_Spec ap)) of
         None \<Rightarrow> (Err (Sentinel ErrNoBlock), (p, w1))
       | Some (ss, n) \<Rightarrow> bindA (resA (GetBlock (pe_netutil E) ss n (int k)))
           (\<lambda>nets. create_step E i (block_object E (p_name p) nodeName uid ap i nets)) (p, w1))"
proof -
  have ok: "aps_BlockSizeBits (ap_Spec ap) = int k" "pool_total k (aps_Subnets (ap_Spec ap)) < 2 ^ 64"
      "\<And>ss. ss \<in> set (aps_Subnets (ap_Spec ap)) \<Longrightarrow> \<exists>hb \<le> 62. ss_valid (int k) hb ss"
    using assms(3) by (auto simp: pool_ok_def)
  have "find_subnet (int k) i (aps_Subnets (ap_Spec ap)) 0 = Ok (locate k i (aps_Subnets (ap_Spec ap)))"
    using find_subnet_locate [OF ok(3), where c = 0 and i = i] ok(2) assms(5) by simp
  then show ?thesis
    using assms(2,4) ok(1)
    by (auto simp: pool_AllocateBlock_def create_step_def deleting_def act_defs Let_def split: option.splits)
qed

lemma pool_GetBlock_Ok:
  assumes "netutil_laws N" and "pool_ok k spec" and "locate k i (aps_Subnets spec) = Some (ss, n)"
  shows "\<exists>nets. GetBlock N ss n (int k) = Ok nets"
proof -
  have "ss \<in> set (aps_Subnets spec)" "n < blocks_in k ss" using locate_Some [OF assms(3)] by auto
  moreover from this obtain hb where "hb \<le> 62" "ss_valid (int k) hb ss" "ss_native ss"
    using assms(2) by (auto simp: pool_ok_def)
  ultimately show ?thesis using GetBlock_Ok [OF assms(1)] blocks_in_valid by metis
qed

section \<open>The blocks in the API server\<close>

text \<open>
  \<open>bl w\<close> are the AddressBlocks stored in the API server, by name. The calls of \<open>pool.go\<close> only read
  them, except \<open>Create\<close>: it stores an object under a name no other object has, and a failed
  \<open>Create\<close> may or may not have stored it.
\<close>

definition stored_as :: "AddressBlock \<Rightarrow> AddressBlock \<Rightarrow> bool" where
  "stored_as b b' \<longleftrightarrow> ab_Index b' = ab_Index b \<and> ab_IPv4 b' = ab_IPv4 b \<and> ab_IPv6 b' = ab_IPv6 b \<and>
     om_Name (ab_meta b') = om_Name (ab_meta b) \<and> om_Labels (ab_meta b') = om_Labels (ab_meta b) \<and>
     om_Finalizers (ab_meta b') = om_Finalizers (ab_meta b)"

definition create_effect :: "('w \<Rightarrow> string \<Rightarrow> AddressBlock option) \<Rightarrow> AddressBlock \<Rightarrow> 'w \<Rightarrow> AddressBlock res \<Rightarrow> 'w \<Rightarrow> bool" where
  "create_effect bl b w r w' \<longleftrightarrow>
     (bl w' = bl w \<and> (\<forall>b'. r \<noteq> Ok b')) \<or>
     (bl w (om_Name (ab_meta b)) = None \<and>
       (\<exists>b'. stored_as b b' \<and> bl w' = (bl w)(om_Name (ab_meta b) \<mapsto> b') \<and> (\<forall>b''. r = Ok b'' \<longrightarrow> b'' = b')))"

definition pool_kube_laws :: "('w \<Rightarrow> string \<Rightarrow> AddressBlock option) \<Rightarrow> 'w pool_kube \<Rightarrow> bool" where
  "pool_kube_laws bl K \<longleftrightarrow>
     (\<forall>n w r w'. pk_GetAddressPool K n w = (r, w') \<longrightarrow> bl w' = bl w) \<and>
     (\<forall>sel w r w'. pk_ListAddressBlocks K sel w = (r, w') \<longrightarrow>
        bl w' = bl w \<and> (\<forall>bs. r = Ok bs \<longrightarrow> set bs \<subseteq> ran (bl w))) \<and>
     (\<forall>b w r w'. pk_CreateAddressBlock K b w = (r, w') \<longrightarrow> create_effect bl b w r w')"

text \<open>The pools the server returns were admitted by the webhook and are within the bounds.\<close>

definition pools_admitted :: "'w pool_kube \<Rightarrow> bool" where
  "pools_admitted K \<longleftrightarrow> (\<forall>n w ap w'. pk_GetAddressPool K n w = (Ok ap, w') \<longrightarrow> (\<exists>k. pool_ok k (ap_Spec ap)))"

definition block_label :: "AddressBlock \<Rightarrow> string \<Rightarrow> string" where
  "block_label b l = gget (om_Labels (ab_meta b)) l"

text \<open>Every stored block is named after its pool and index.\<close>

definition idx_inv :: "(string \<Rightarrow> AddressBlock option) \<Rightarrow> bool" where
  "idx_inv m \<longleftrightarrow> (\<forall>nm b. m nm = Some b \<longrightarrow> 0 \<le> ab_Index b \<and> ab_Index b < 2 ^ 31 \<and>
     nm = block_label b LabelPool @ ''-'' @ itoa (nat (ab_Index b)))"

definition env_ok :: "('w \<Rightarrow> string \<Rightarrow> AddressBlock option) \<Rightarrow> ('b, 'w) pool_env \<Rightarrow> bool" where
  "env_ok bl E \<longleftrightarrow> bitset_laws (pe_bitset E) \<and> netutil_laws (pe_netutil E) \<and> ctrlutil_laws (pe_ctrlutil E) \<and>
     pool_kube_laws bl (pe_kube E) \<and> pools_admitted (pe_kube E)"

definition pool_inv :: "('w \<Rightarrow> string \<Rightarrow> AddressBlock option) \<Rightarrow> ('b, 'w) pool_env \<Rightarrow> string \<Rightarrow> 'b pool \<times> 'w \<Rightarrow> bool" where
  "pool_inv bl E name s \<longleftrightarrow> env_ok bl E \<and> idx_inv (bl (snd s)) \<and> p_name (fst s) = name \<and>
     bs_Len (pe_bitset E) (p_allocated (fst s)) \<le> 2 ^ 31"

lemma env_okD:
  assumes "env_ok bl E"
  shows "bitset_laws (pe_bitset E)" "netutil_laws (pe_netutil E)" "ctrlutil_laws (pe_ctrlutil E)"
    "pool_kube_laws bl (pe_kube E)" "pools_admitted (pe_kube E)"
  using assms by (auto simp: env_ok_def)

lemma kube_Get:
  assumes "env_ok bl E" and "pk_GetAddressPool (pe_kube E) n w = (r, w')"
  shows "bl w' = bl w" and "r = Ok ap \<Longrightarrow> \<exists>k. pool_ok k (ap_Spec ap)"
proof -
  show "bl w' = bl w" using env_okD(4) [OF assms(1)] assms(2) unfolding pool_kube_laws_def by blast
  show "r = Ok ap \<Longrightarrow> \<exists>k. pool_ok k (ap_Spec ap)"
    using env_okD(5) [OF assms(1)] assms(2) unfolding pools_admitted_def by blast
qed

lemma kube_List:
  assumes "env_ok bl E" and "pk_ListAddressBlocks (pe_kube E) sel w = (r, w')"
  shows "bl w' = bl w" and "r = Ok bs \<Longrightarrow> set bs \<subseteq> ran (bl w)"
proof -
  have "\<forall>sel w r w'. pk_ListAddressBlocks (pe_kube E) sel w = (r, w') \<longrightarrow>
        bl w' = bl w \<and> (\<forall>bs. r = Ok bs \<longrightarrow> set bs \<subseteq> ran (bl w))"
    using env_okD(4) [OF assms(1)] unfolding pool_kube_laws_def by (elim conjE)
  with assms(2) show "bl w' = bl w" "r = Ok bs \<Longrightarrow> set bs \<subseteq> ran (bl w)" by blast+
qed

lemma kube_Create:
  assumes "env_ok bl E" and "pk_CreateAddressBlock (pe_kube E) b w = (r, w')"
  shows "create_effect bl b w r w'"
  using env_okD(4) [OF assms(1)] assms(2) unfolding pool_kube_laws_def by blast

lemma fold_Set_blocks_Len:
  assumes "bitset_laws B"
  shows "bs_Len B u \<le> n \<Longrightarrow> (\<And>b. b \<in> set xs \<Longrightarrow> f b < n) \<Longrightarrow> bs_Len B (fold (\<lambda>b s. bs_Set B s (f b)) xs u) \<le> n"
proof (induction xs arbitrary: u)
  case (Cons x xs)
  have "bs_Len B (bs_Set B u (f x)) \<le> n" using Cons.prems assms by (simp add: Suc_le_eq)
  then show ?case using Cons.IH Cons.prems(2) by simp
qed simp

lemma idx_inv_wrap:
  assumes "idx_inv m" and "b \<in> ran m"
  shows "wrap_uint (ab_Index b) < 2 ^ 31"
proof -
  have "0 \<le> ab_Index b" "ab_Index b < 2 ^ 31" using assms by (auto simp: idx_inv_def ran_def)
  then show ?thesis by (simp add: nat_less_iff)
qed

lemma SyncBlocks_keeps: "keeps (pool_inv bl E name) (SyncBlocks E)"
  unfolding keeps_outcome
proof (intro allI impI)
  fix s assume inv: "pool_inv bl E name s"
  obtain p w where s: "s = (p, w)" by (cases s)
  have env: "env_ok bl E" and ii: "idx_inv (bl w)" and nm: "p_name p = name"
    and len: "bs_Len (pe_bitset E) (p_allocated p) \<le> 2 ^ 31" using inv by (auto simp: pool_inv_def s)
  note B = env_okD(1) [OF env]
  obtain r1 w1 where g: "pk_GetAddressPool (pe_kube E) (p_name p) w = (r1, w1)" by (cases "pk_GetAddressPool (pe_kube E) (p_name p) w")
  note bl1 = kube_Get(1) [OF env g]
  obtain r2 w2 where l: "pk_ListAddressBlocks (pe_kube E) [(LabelPool, p_name p)] w1 = (r2, w2)"
    by (cases "pk_ListAddressBlocks (pe_kube E) [(LabelPool, p_name p)] w1")
  note bl2 = kube_List [OF env l]
  have "bs_Len (pe_bitset E) (fold (\<lambda>b s. bs_Set (pe_bitset E) s (wrap_uint (ab_Index b))) bs (bs_ClearAll (pe_bitset E) (p_allocated p))) \<le> 2 ^ 31"
    if "r2 = Ok bs" for bs
    using bl2(2) [OF that] ii bl1 idx_inv_wrap len B by (intro fold_Set_blocks_Len) auto
  then show "outcome (SyncBlocks E) (\<lambda>_. pool_inv bl E name) (\<lambda>_. pool_inv bl E name) (pool_inv bl E name) s"
    using env ii nm len B g l bl1 bl2(1)
    by (auto simp: SyncBlocks_def wp_simps s outcome_def act_defs pool_inv_def split: res.splits)
qed

lemma SyncBlocks_store:
  assumes "env_ok bl E" and "SyncBlocks E (p, w) = (r, (p', w'))"
  shows "bl w' = bl w"
proof -
  obtain r1 w1 where g: "pk_GetAddressPool (pe_kube E) (p_name p) w = (r1, w1)" by (cases "pk_GetAddressPool (pe_kube E) (p_name p) w")
  obtain r2 w2 where l: "pk_ListAddressBlocks (pe_kube E) [(LabelPool, p_name p)] w1 = (r2, w2)"
    by (cases "pk_ListAddressBlocks (pe_kube E) [(LabelPool, p_name p)] w1")
  show ?thesis
    using assms(2) g l kube_Get(1) [OF assms(1) g] kube_List(1) [OF assms(1) l]
    by (auto simp: SyncBlocks_def act_defs split: res.splits)
qed

lemma block_object_Ok:
  assumes "ctrlutil_laws (pe_ctrlutil E)" and "block_object E pname node uid ap i nets = Ok r"
  shows "om_Name (ab_meta r) = pname @ ''-'' @ itoa i" and "ab_Index r = wrap_int32 (int i)"
    and "om_Labels (ab_meta r) = [(LabelPool, pname), (LabelNode, node), (LabelRequest, uid)]"
    and "FinCoil \<in> set (om_Finalizers (ab_meta r))"
    and "ab_IPv4 r = map_option IPNet_String (fst nets)" and "ab_IPv6 r = map_option IPNet_String (snd nets)"
proof -
  let ?m0 = "empty_meta\<lparr>om_Name := pname @ ''-'' @ itoa i\<rparr>"
  have "\<exists>rs. cu_SetControllerReference (pe_ctrlutil E) ''AddressPool'' (ap_meta ap) ?m0 = Ok (?m0\<lparr>om_OwnerReferences := rs\<rparr>)"
    using assms(2) by (cases rule: SetControllerReference_cases [OF assms(1), of "''AddressPool''" "ap_meta ap" ?m0])
      (auto simp: block_object_def)
  then obtain rs where rs: "cu_SetControllerReference (pe_ctrlutil E) ''AddressPool'' (ap_meta ap) ?m0 = Ok (?m0\<lparr>om_OwnerReferences := rs\<rparr>)" ..
  define m where "m = ?m0\<lparr>om_OwnerReferences := rs, om_Labels := [(LabelPool, pname), (LabelNode, node), (LabelRequest, uid)]\<rparr>"
  obtain fs where fs: "cu_AddFinalizer (pe_ctrlutil E) m FinCoil = m\<lparr>om_Finalizers := fs\<rparr>" "set fs = insert FinCoil (set (om_Finalizers m))"
    by (rule AddFinalizer_upd [OF assms(1)])
  have r: "r = \<lparr>ab_meta = m\<lparr>om_Finalizers := fs\<rparr>, ab_Index = wrap_int32 (int i),
            ab_IPv4 = map_option IPNet_String (fst nets), ab_IPv6 = map_option IPNet_String (snd nets)\<rparr>"
    using assms(2) rs fs(1) by (simp add: block_object_def m_def)
  show "om_Name (ab_meta r) = pname @ ''-'' @ itoa i" "ab_Index r = wrap_int32 (int i)"
    "om_Labels (ab_meta r) = [(LabelPool, pname), (LabelNode, node), (LabelRequest, uid)]"
    "FinCoil \<in> set (om_Finalizers (ab_meta r))"
    "ab_IPv4 r = map_option IPNet_String (fst nets)" "ab_IPv6 r = map_option IPNet_String (snd nets)"
    using fs(2) by (simp_all add: r m_def)
qed

lemma block_labels [simp]:
  assumes "om_Labels (ab_meta r) = [(LabelPool, pname), (LabelNode, node), (LabelRequest, uid)]"
  shows "block_label r LabelPool = pname" "block_label r LabelNode = node" "block_label r LabelRequest = uid"
  using assms by (simp_all add: block_label_def gget_def label_defs)

lemma idx_inv_create:
  assumes "idx_inv (bl w)" and "create_effect bl b w r w'" and "i < 2 ^ 31" and "ab_Index b = int i"
    and "om_Name (ab_meta b) = block_label b LabelPool @ ''-'' @ itoa i"
  shows "idx_inv (bl w')"
proof -
  have "block_label b' LabelPool = block_label b LabelPool \<and> ab_Index b' = int i" if "stored_as b b'" for b'
    using that assms(4) by (simp add: stored_as_def block_label_def)
  moreover have "int i < 2 ^ 31" using assms(3) by (simp flip: of_nat_less_iff)
  ultimately show ?thesis
    using assms(1,2,5) unfolding idx_inv_def create_effect_def by (auto split: if_splits)
qed

lemma create_step_outcome:
  assumes "pool_inv bl E name (p, w)" and "i < 2 ^ 31" and "obj = block_object E name node uid ap i nets"
  shows "outcome (create_step E i obj)
    (\<lambda>r s'. pool_inv bl E name s' \<and> block_label r LabelPool = name \<and> block_label r LabelNode = node \<and>
       block_label r LabelRequest = uid \<and> ab_Index r = int i \<and> bl (snd s') (om_Name (ab_meta r)) = Some r \<and>
       bl w (om_Name (ab_meta r)) = None)
    (\<lambda>_. pool_inv bl E name) (pool_inv bl E name) (p, w)"
proof (cases obj)
  case (Ok b)
  have env: "env_ok bl E" and ii: "idx_inv (bl w)" and nm: "p_name p = name"
    and len: "bs_Len (pe_bitset E) (p_allocated p) \<le> 2 ^ 31" using assms(1) by (auto simp: pool_inv_def)
  note b = block_object_Ok [OF env_okD(3) [OF env], of name node uid ap i nets b]
  have bo: "block_object E name node uid ap i nets = Ok b" using assms(3) Ok by simp
  note lab = block_labels [OF b(3) [OF bo]]
  have "int i < 2 ^ 31" using assms(2) by (simp flip: of_nat_less_iff)
  then have idx: "ab_Index b = int i" using b(2) [OF bo] by simp
  obtain r w' where c: "pk_CreateAddressBlock (pe_kube E) b w = (r, w')" by (cases "pk_CreateAddressBlock (pe_kube E) b w")
  note eff = kube_Create [OF env c]
  have ii': "idx_inv (bl w')"
    by (rule idx_inv_create [OF ii eff assms(2) idx]) (simp add: lab b(1) [OF bo])
  have st: "stored_as b r' \<and> bl w' (om_Name (ab_meta b)) = Some r' \<and> bl w (om_Name (ab_meta b)) = None" if "r = Ok r'" for r'
    using eff that by (auto simp: create_effect_def)
  have len': "bs_Len (pe_bitset E) (bs_Set (pe_bitset E) (p_allocated p) i) \<le> 2 ^ 31"
    using len assms(2) env_okD(1) [OF env] by simp
  have inv': "pool_inv bl E name (p, w')" using env ii' nm len by (simp add: pool_inv_def)
  have run: "create_step E i obj (p, w) = (case r of
      Ok r' \<Rightarrow> (Ok r', (p\<lparr>p_allocated := bs_Set (pe_bitset E) (p_allocated p) i, p_allocatedBlocks := p_allocatedBlocks p + 1\<rparr>, w'))
    | Err e \<Rightarrow> (Err e, (p, w')) | Panic q \<Rightarrow> (Panic q, (p, w')))"
    by (simp add: create_step_def act_defs Ok c split: res.splits)
  show ?thesis
  proof (cases r)
    case (Ok r')
    have "stored_as b r'" "bl w' (om_Name (ab_meta b)) = Some r'" "bl w (om_Name (ab_meta b)) = None"
      using st [OF Ok] by auto
    moreover from this have "om_Name (ab_meta r') = om_Name (ab_meta b)" "block_label r' l = block_label b l"
        "ab_Index r' = int i" for l
      using idx by (simp_all add: stored_as_def block_label_def)
    moreover have "pool_inv bl E name (p\<lparr>p_allocated := bs_Set (pe_bitset E) (p_allocated p) i,
        p_allocatedBlocks := p_allocatedBlocks p + 1\<rparr>, w')"
      using env ii' nm len' by (simp add: pool_inv_def)
    ultimately show ?thesis using lab Ok by (simp add: outcome_def run)
  qed (use inv' in \<open>simp_all add: outcome_def run\<close>)
qed (use assms(1) in \<open>simp_all add: create_step_def outcome_def act_defs\<close>)

lemma locate_bound: "locate k i subs \<noteq> None \<Longrightarrow> i < pool_total k subs"
  using locate_None [of k i subs] by simp

lemma pool_AllocateBlock_outcome:
  assumes "pool_inv bl E name (p, w)"
  shows "outcome (pool_AllocateBlock E node uid)
    (\<lambda>r s'. pool_inv bl E name s' \<and> block_label r LabelPool = name \<and> block_label r LabelNode = node \<and>
       block_label r LabelRequest = uid \<and> bl (snd s') (om_Name (ab_meta r)) = Some r \<and>
       bl w (om_Name (ab_meta r)) = None)
    (\<lambda>_. pool_inv bl E name) (pool_inv bl E name) (p, w)"
proof -
  have env: "env_ok bl E" and nm: "p_name p = name" and len: "bs_Len (pe_bitset E) (p_allocated p) \<le> 2 ^ 31"
    using assms by (auto simp: pool_inv_def)
  define i where "i = pool_nextIndex (pe_bitset E) (p_allocated p)"
  have i64: "i < 2 ^ 64" using pool_nextIndex_least(3) [OF env_okD(1) [OF env], of "p_allocated p"] len by (simp add: i_def)
  obtain r w1 where g: "pk_GetAddressPool (pe_kube E) (p_name p) w = (r, w1)" by (cases "pk_GetAddressPool (pe_kube E) (p_name p) w")
  have blw: "bl w1 = bl w" by (rule kube_Get(1) [OF env g])
  then have inv1: "pool_inv bl E name (p, w1)" using assms by (simp add: pool_inv_def)
  show ?thesis
  proof (cases r)
    case (Ok ap)
    obtain k where k: "pool_ok k (ap_Spec ap)" using kube_Get(2) [OF env g Ok] ..
    have eq: "pool_AllocateBlock E node uid (p, w) =
      (if deleting ap then (Err (Sentinel ErrNoBlock), (p, w1))
       else case locate k i (aps_Subnets (ap_Spec ap)) of
           None \<Rightarrow> (Err (Sentinel ErrNoBlock), (p, w1))
         | Some (ss, n) \<Rightarrow> bindA (resA (GetBlock (pe_netutil E) ss n (int k)))
             (\<lambda>nets. create_step E i (block_object E name node uid ap i nets)) (p, w1))"
      using pool_AllocateBlock_eq [OF env_okD(2) [OF env] g [unfolded Ok] k i_def i64,
        where nodeName = node and uid = uid] unfolding nm .
    show ?thesis
    proof (cases "deleting ap \<or> locate k i (aps_Subnets (ap_Spec ap)) = None")
      case True
      then show ?thesis using inv1 eq by (auto simp: outcome_def)
    next
      case False
      then obtain ss n where loc: "locate k i (aps_Subnets (ap_Spec ap)) = Some (ss, n)" by auto
      obtain nets where nets: "GetBlock (pe_netutil E) ss n (int k) = Ok nets"
        using pool_GetBlock_Ok [OF env_okD(2) [OF env] k loc] ..
      have "i < 2 ^ 31" using locate_bound [of k i] loc k by (fastforce simp: pool_ok_def)
      from create_step_outcome [OF inv1 this refl, of node uid ap nets] show ?thesis
        unfolding outcome_def eq using False loc nets blw
        by (auto simp: resA_def bindA_def split: prod.splits res.splits)
    qed
  qed (use inv1 g in \<open>auto simp: pool_AllocateBlock_def outcome_def act_defs Let_def\<close>)
qed

section \<open>The manager\<close>

definition pm_inv :: "('w \<Rightarrow> string \<Rightarrow> AddressBlock option) \<Rightarrow> ('b, 'w) pool_env \<Rightarrow> 'b poolManager \<times> 'w \<Rightarrow> bool" where
  "pm_inv bl E s \<longleftrightarrow> env_ok bl E \<and> idx_inv (bl (snd s)) \<and>
     (\<forall>n p. glookup (pm_pools (fst s)) n = Some p \<longrightarrow> p_name p = n \<and> bs_Len (pe_bitset E) (p_allocated p) \<le> 2 ^ 31)"

lemma pm_inv_pool: "pm_inv bl E (pm, w) \<Longrightarrow> glookup (pm_pools pm) n = Some p \<Longrightarrow> pool_inv bl E n (p, w)"
  by (simp add: pm_inv_def pool_inv_def)

lemma pm_inv_update:
  "pm_inv bl E (pm, w) \<Longrightarrow> pool_inv bl E n (p', w') \<Longrightarrow> pm_inv bl E (pm\<lparr>pm_pools := gupdate n p' (pm_pools pm)\<rparr>, w')"
  by (auto simp: pm_inv_def pool_inv_def)

lemma pm_inv_world: "pm_inv bl E (pm, w) \<Longrightarrow> idx_inv (bl w') \<Longrightarrow> pm_inv bl E (pm, w')"
  by (simp add: pm_inv_def)

lemma new_pool_inv: "pm_inv bl E (pm, w) \<Longrightarrow> pool_inv bl E n (new_pool E n, w)"
  by (auto simp: pm_inv_def pool_inv_def new_pool_def dest: env_okD(1))

lemma getPool_outcome:
  assumes "pm_inv bl E s"
  shows "outcome (getPool E n)
    (\<lambda>p s'. pm_inv bl E s' \<and> pool_inv bl E n (p, snd s') \<and> bl (snd s') = bl (snd s)) (\<lambda>_. pm_inv bl E) (pm_inv bl E) s"
proof -
  obtain pm w where s: "s = (pm, w)" by (cases s)
  show ?thesis
  proof (cases "glookup (pm_pools pm) n")
    case None
    obtain r p w' where y: "SyncBlocks E (new_pool E n, w) = (r, (p, w'))" by (metis prod_cases3)
    have inv': "pool_inv bl E n (p, w')"
      by (rule keepsD [OF SyncBlocks_keeps new_pool_inv y]) (use assms s in simp)
    then have "pm_inv bl E (pm, w')" using assms by (auto simp: s pm_inv_def pool_inv_def)
    moreover have "pm_inv bl E (pm\<lparr>pm_pools := gupdate n p (pm_pools pm)\<rparr>, w')"
      using pm_inv_update [OF _ inv'] assms s by simp
    moreover have "bl w' = bl w" by (rule SyncBlocks_store [OF _ y]) (use assms s in \<open>simp add: pm_inv_def\<close>)
    ultimately show ?thesis using inv' None y by (auto simp: outcome_def getPool_def s split: res.splits)
  next
    case (Some p)
    then show ?thesis using assms pm_inv_pool by (auto simp: outcome_def getPool_def s)
  qed
qed

lemma on_pool_outcome:
  assumes "pm_inv bl E (pm, w)"
    and "outcome m (\<lambda>x s'. pool_inv bl E n s' \<and> Q x (snd s')) (\<lambda>_. pool_inv bl E n) (pool_inv bl E n) (p, w)"
  shows "outcome (on_pool n p m) (\<lambda>x s'. pm_inv bl E s' \<and> Q x (snd s')) (\<lambda>_. pm_inv bl E) (pm_inv bl E) (pm, w)"
  using assms pm_inv_update [OF assms(1)]
  by (auto simp: outcome_def on_pool_def split: prod.splits res.splits)

lemma with_pool_outcome:
  assumes "pm_inv bl E s"
    and "\<And>p w'. pool_inv bl E n (p, w') \<Longrightarrow> bl w' = bl (snd s) \<Longrightarrow>
      outcome m (\<lambda>x s'. pool_inv bl E n s' \<and> Q x (snd s')) (\<lambda>_. pool_inv bl E n) (pool_inv bl E n) (p, w')"
  shows "outcome (bindA (getPool E n) (\<lambda>p. on_pool n p m))
    (\<lambda>x s'. pm_inv bl E s' \<and> Q x (snd s')) (\<lambda>_. pm_inv bl E) (pm_inv bl E) s"
  unfolding wp_simps
proof (rule outcome_mono [OF getPool_outcome [OF assms(1)]])
  fix p s' assume "pm_inv bl E s' \<and> pool_inv bl E n (p, snd s') \<and> bl (snd s') = bl (snd s)"
  then show "outcome (on_pool n p m) (\<lambda>x s'. pm_inv bl E s' \<and> Q x (snd s')) (\<lambda>_. pm_inv bl E) (pm_inv bl E) s'"
    using on_pool_outcome [of bl E "fst s'" "snd s'" m n Q p] assms(2) by simp
qed auto

lemma SyncPool_keeps: "keeps (pm_inv bl E) (SyncPool E n)"
  unfolding keeps_outcome SyncPool_def
proof (intro allI impI)
  fix s assume inv: "pm_inv bl E s"
  have "outcome (SyncBlocks E) (\<lambda>_. pool_inv bl E n) (\<lambda>_. pool_inv bl E n) (pool_inv bl E n) (p, w)"
    if "pool_inv bl E n (p, w)" for p w using that by (rule outcome_keeps [OF SyncBlocks_keeps])
  then show "outcome (bindA (getPool E n) (\<lambda>p. on_pool n p (SyncBlocks E)))
      (\<lambda>_. pm_inv bl E) (\<lambda>_. pm_inv bl E) (pm_inv bl E) s"
    using with_pool_outcome [where Q = "\<lambda>_ _. True" and m = "SyncBlocks E", OF inv] by simp
qed

lemma IsUsed_keeps: "keeps (pm_inv bl E) (IsUsed E n)"
  unfolding keeps_outcome IsUsed_def
proof (intro allI impI)
  fix s assume inv: "pm_inv bl E s"
  have "outcome (pool_IsUsed E) (\<lambda>_. pool_inv bl E n) (\<lambda>_. pool_inv bl E n) (pool_inv bl E n) (p, w)"
    if "pool_inv bl E n (p, w)" for p w
    using that kube_List(1) [of bl E "[(LabelPool, p_name p)]" w]
    by (auto simp: pool_IsUsed_def pool_inv_def outcome_def act_defs split: prod.splits res.splits)
  then show "outcome (bindA (getPool E n) (\<lambda>p. on_pool n p (pool_IsUsed E)))
      (\<lambda>_. pm_inv bl E) (\<lambda>_. pm_inv bl E) (pm_inv bl E) s"
    using with_pool_outcome [where Q = "\<lambda>_ _. True" and m = "pool_IsUsed E", OF inv] by simp
qed

lemma DropPool_keeps: "keeps (pm_inv bl E) (DropPool n)"
  unfolding DropPool_def by (rule keeps_modifyA) (auto simp: pm_inv_def split: if_splits)

lemma AllocateBlock_outcome:
  assumes "pm_inv bl E s"
  shows "outcome (AllocateBlock E n node uid)
    (\<lambda>r s'. pm_inv bl E s' \<and> block_label r LabelPool = n \<and> block_label r LabelNode = node \<and>
       block_label r LabelRequest = uid \<and> bl (snd s') (om_Name (ab_meta r)) = Some r \<and> bl (snd s) (om_Name (ab_meta r)) = None)
    (\<lambda>_. pm_inv bl E) (pm_inv bl E) s"
  unfolding AllocateBlock_def
proof (rule with_pool_outcome [OF assms])
  fix p w' assume inv: "pool_inv bl E n (p, w')" and bw: "bl w' = bl (snd s)"
  show "outcome (pool_AllocateBlock E node uid)
    (\<lambda>r s'. pool_inv bl E n s' \<and> block_label r LabelPool = n \<and> block_label r LabelNode = node \<and>
       block_label r LabelRequest = uid \<and> bl (snd s') (om_Name (ab_meta r)) = Some r \<and> bl (snd s) (om_Name (ab_meta r)) = None)
    (\<lambda>_. pool_inv bl E n) (pool_inv bl E n) (p, w')"
    using pool_AllocateBlock_outcome [OF inv, of node uid] unfolding bw .
qed

section \<open>The contract of a pool manager\<close>

text \<open>A sequence of calls on a pool manager, by any of its clients.\<close>

datatype pm_call = CallDrop string | CallSync string | CallAllocate string string string | CallIsUsed string

fun run_calls :: "(string \<Rightarrow> ('s, unit) act) \<Rightarrow> (string \<Rightarrow> ('s, unit) act)
    \<Rightarrow> (string \<Rightarrow> string \<Rightarrow> string \<Rightarrow> ('s, AddressBlock) act) \<Rightarrow> (string \<Rightarrow> ('s, bool) act) \<Rightarrow> pm_call list \<Rightarrow> 's \<Rightarrow> 's" where
  "run_calls dp sy al us [] s = s"
| "run_calls dp sy al us (c # cs) s = run_calls dp sy al us cs (case c of
     CallDrop n \<Rightarrow> snd (dp n s)
   | CallSync n \<Rightarrow> snd (sy n s)
   | CallAllocate n node uid \<Rightarrow> snd (al n node uid s)
   | CallIsUsed n \<Rightarrow> snd (us n s))"

text \<open>
  What the controllers rely on. \<open>store\<close> are the AddressBlocks in the API server; the
  invariant makes the pool and the index of a block determine it.
\<close>

locale block_pools =
  fixes invar :: "'s \<Rightarrow> bool"
    and store :: "'s \<Rightarrow> string \<Rightarrow> AddressBlock option"
    and drop_pool :: "string \<Rightarrow> ('s, unit) act"
    and sync_pool :: "string \<Rightarrow> ('s, unit) act"
    and allocate_block :: "string \<Rightarrow> string \<Rightarrow> string \<Rightarrow> ('s, AddressBlock) act"
    and is_used :: "string \<Rightarrow> ('s, bool) act"
  assumes drop_keeps: "keeps invar (drop_pool n)"
    and sync_keeps: "keeps invar (sync_pool n)"
    and used_keeps: "keeps invar (is_used n)"
    and allocate_outcome: "invar s \<Longrightarrow> outcome (allocate_block n node uid)
      (\<lambda>b s'. invar s' \<and> block_label b LabelPool = n \<and> block_label b LabelNode = node \<and>
         block_label b LabelRequest = uid \<and> store s' (om_Name (ab_meta b)) = Some b \<and> store s (om_Name (ab_meta b)) = None)
      (\<lambda>_. invar) invar s"
    and invar_index: "invar s \<Longrightarrow> store s nm = Some b \<Longrightarrow> store s nm' = Some b' \<Longrightarrow>
      block_label b LabelPool = block_label b' LabelPool \<Longrightarrow> ab_Index b = ab_Index b' \<Longrightarrow> nm = nm'"
begin

lemma allocate_keeps: "keeps invar (allocate_block n node uid)"
  unfolding keeps_outcome using allocate_outcome by (blast intro: outcome_mono)

lemma run_calls_keeps: "invar s \<Longrightarrow> invar (run_calls drop_pool sync_pool allocate_block is_used cs s)"
proof (induction cs arbitrary: s)
  case (Cons c cs)
  then show ?case
    using drop_keeps sync_keeps used_keeps allocate_keeps by (cases c) (simp_all add: keeps_def)
qed simp

lemma run_calls_unique:
  assumes "invar s" and "s' = run_calls drop_pool sync_pool allocate_block is_used cs s"
    and "store s' nm = Some b" and "store s' nm' = Some b'"
    and "block_label b LabelPool = block_label b' LabelPool" and "ab_Index b = ab_Index b'"
  shows "nm = nm'"
  using invar_index [OF _ assms(3-6)] run_calls_keeps [OF assms(1)] assms(2) by blast

end

interpretation pmgr: block_pools "pm_inv bl E" "\<lambda>s. bl (snd s)" DropPool "SyncPool E" "AllocateBlock E" "IsUsed E"
  for bl :: "'w \<Rightarrow> string \<Rightarrow> AddressBlock option" and E :: "('b, 'w) pool_env"
proof unfold_locales
  fix s :: "'b poolManager \<times> 'w" and nm nm' b b'
  assume "pm_inv bl E s" and b: "bl (snd s) nm = Some b" "bl (snd s) nm' = Some b'"
    "block_label b LabelPool = block_label b' LabelPool" "ab_Index b = ab_Index b'"
  then have "idx_inv (bl (snd s))" by (simp add: pm_inv_def)
  with b show "nm = nm'" unfolding idx_inv_def by metis
qed (use DropPool_keeps SyncPool_keeps IsUsed_keeps AllocateBlock_outcome in blast)+

section \<open>A reference API server\<close>

text \<open>One pool specification, and a store of blocks by name; it shows that the laws can hold.\<close>

definition example_pool :: AddressPool where
  "example_pool = \<lparr>ap_meta = empty_meta\<lparr>om_Name := ''default'', om_UID := ''u1''\<rparr>,
     ap_Spec = \<lparr>aps_BlockSizeBits = 1, aps_Subnets = [\<lparr>ss_IPv4 = Some ''10.2.0.0/29'', ss_IPv6 = None\<rparr>]\<rparr>\<rparr>"

definition selects :: "string gomap \<Rightarrow> AddressBlock \<Rightarrow> bool" where
  "selects sel b = list_all (\<lambda>(k, v). glookup (om_Labels (ab_meta b)) k = Some v) sel"

definition ref_pool_kube :: "AddressBlock gomap pool_kube" where
  "ref_pool_kube = \<lparr>
     pk_GetAddressPool = (\<lambda>n w. (Ok example_pool, w)),
     pk_ListAddressBlocks = (\<lambda>sel w. (Ok (filter (selects sel) (List.map_filter (glookup w) (remdups (gkeys w)))), w)),
     pk_CreateAddressBlock = (\<lambda>b w. case glookup w (om_Name (ab_meta b)) of
         None \<Rightarrow> (Ok b, w @ [(om_Name (ab_meta b), b)])
       | Some _ \<Rightarrow> (Err (StatusError ReasonAlreadyExists (om_Name (ab_meta b))), w))\<rparr>"

definition ref_pool_env :: "(bool list, AddressBlock gomap) pool_env" where
  "ref_pool_env = \<lparr>pe_bitset = list_bitset, pe_netutil = netutil_ref, pe_ctrlutil = ctrlutil_ref, pe_kube = ref_pool_kube\<rparr>"

text \<open>The stored blocks: the first entry of a name.\<close>

lemma example_pool_ok: "pool_ok 1 (ap_Spec example_pool)"
proof -
  have s: "subnet_of 32 ''10.2.0.0/29'' 167903232 3" by code_simp
  then have "ss_valid 1 3 \<lparr>ss_IPv4 = Some ''10.2.0.0/29'', ss_IPv6 = None\<rparr>" by (auto simp: ss_valid_def)
  then show ?thesis
    using blocks_in_valid [of 1 3 "\<lparr>ss_IPv4 = Some ''10.2.0.0/29'', ss_IPv6 = None\<rparr>" 1]
    by (auto simp: pool_ok_def example_pool_def ss_native_def pool_total_def intro!: exI [of _ 3])
qed

lemma ref_pool_env_ok: "env_ok glookup ref_pool_env"
proof -
  have "create_effect glookup b w r w'" if "pk_CreateAddressBlock ref_pool_kube b w = (r, w')" for b w r w'
    using that by (auto simp: ref_pool_kube_def create_effect_def stored_as_def map_add_def fun_eq_iff split: option.splits)
  moreover have "set bs \<subseteq> ran (glookup w)" if "pk_ListAddressBlocks ref_pool_kube sel w = (Ok bs, w')" for sel w bs w'
    using that by (force simp: ref_pool_kube_def List.map_filter_def ran_def)
  moreover have "w' = w" if "pk_ListAddressBlocks ref_pool_kube sel w = (r, w')" for sel w r w'
    using that by (simp add: ref_pool_kube_def)
  moreover have "w' = w" if "pk_GetAddressPool ref_pool_kube n w = (r, w')" for n w r w'
    using that by (simp add: ref_pool_kube_def)
  ultimately have "pool_kube_laws glookup ref_pool_kube" unfolding pool_kube_laws_def by blast
  moreover have "pools_admitted ref_pool_kube"
    using example_pool_ok by (auto simp: pools_admitted_def ref_pool_kube_def)
  ultimately show ?thesis
    by (simp add: env_ok_def ref_pool_env_def list_bitset_laws netutil_ref_laws ctrlutil_ref_laws)
qed

lemma ref_pm_inv: "pm_inv glookup ref_pool_env (NewPoolManager, [])"
  by (simp add: pm_inv_def ref_pool_env_ok idx_inv_def NewPoolManager_def)

section \<open>Properties\<close>

definition example_block :: AddressBlock where
  "example_block = \<lparr>ab_meta = empty_meta\<lparr>om_Name := ''default-2'', om_Labels := [(LabelPool, ''default'')]\<rparr>,
     ab_Index = 2, ab_IPv4 = Some ''10.2.0.4/31'', ab_IPv6 = None\<rparr>"

text \<open>Two allocations from the empty server leave two blocks.\<close>

definition example_calls :: "pm_call list" where
  "example_calls = [CallAllocate ''default'' ''node1'' ''r1'', CallAllocate ''default'' ''node2'' ''r2'']"

definition example_state :: "bool list poolManager \<times> AddressBlock gomap" where
  "example_state = run_calls DropPool (SyncPool ref_pool_env) (AllocateBlock ref_pool_env) (IsUsed ref_pool_env)
     example_calls (NewPoolManager, [])"

definition example_pool2 :: AddressPool where
  "example_pool2 = example_pool\<lparr>ap_Spec := \<lparr>aps_BlockSizeBits = 1,
     aps_Subnets = [\<lparr>ss_IPv4 = Some ''10.2.0.0/29'', ss_IPv6 = None\<rparr>, \<lparr>ss_IPv4 = Some ''10.3.0.0/30'', ss_IPv6 = None\<rparr>]\<rparr>\<rparr>"

text \<open>
  C4. Whatever calls are made on the pool manager, in any order, with pools dropped, resynchronised
  or out of date, and with failing API calls in between: two AddressBlocks of one pool
  never have the same index.
\<close>

theorem block_index_unique:
  assumes "pm_inv bl E s"
    and "s' = run_calls DropPool (SyncPool E) (AllocateBlock E) (IsUsed E) calls s"
    and "bl (snd s') nm = Some b" and "bl (snd s') nm' = Some b'"
    and "block_label b LabelPool = block_label b' LabelPool" and "ab_Index b = ab_Index b'"
  shows "nm = nm'"
  by (rule pmgr.run_calls_unique [OF assms])

theorem block_index_unique_witness:
  "map (\<lambda>(n, b). (n, ab_Index b, ab_IPv4 b)) (snd example_state) =
      [(''default-0'', 0, Some ''10.2.0.0/31''), (''default-1'', 1, Some ''10.2.0.2/31'')] \<and>
   {(nm, nm'). \<exists>b b'. glookup (snd example_state) nm = Some b \<and> glookup (snd example_state) nm' = Some b' \<and>
      block_label b LabelPool = block_label b' LabelPool \<and> ab_Index b = ab_Index b'} \<subseteq> Id"
proof (intro conjI subsetI)
  show "map (\<lambda>(n, b). (n, ab_Index b, ab_IPv4 b)) (snd example_state) =
      [(''default-0'', 0, Some ''10.2.0.0/31''), (''default-1'', 1, Some ''10.2.0.2/31'')]" by code_simp
  show "x \<in> Id" if "x \<in> {(nm, nm'). \<exists>b b'. glookup (snd example_state) nm = Some b \<and> glookup (snd example_state) nm' = Some b' \<and>
      block_label b LabelPool = block_label b' LabelPool \<and> ab_Index b = ab_Index b'}" for x
    using that block_index_unique [OF ref_pm_inv example_state_def] by blast
qed



text \<open>
  C9. An update of a pool that the webhook admits moves no block: an index that had a block in the
  old specification has the same block, with the same addresses, in the new one.
\<close>

theorem update_keeps_blocks:
  assumes "AddressPool_ValidateUpdate old new = Admit"
    and "find_subnet (aps_BlockSizeBits (ap_Spec old)) i (aps_Subnets (ap_Spec old)) 0 = Ok (Some (ss, n))"
  shows "find_subnet (aps_BlockSizeBits (ap_Spec new)) i (aps_Subnets (ap_Spec new)) 0 = Ok (Some (ss, n)) \<and>
    GetBlock N ss n (aps_BlockSizeBits (ap_Spec new)) = GetBlock N ss n (aps_BlockSizeBits (ap_Spec old))"
proof -
  have "aps_validateUpdate (ap_Spec new) (ap_Spec old) = []"
    using assms(1) by (auto simp: AddressPool_ValidateUpdate_def Let_def split: if_splits)
  then obtain rest where eqs: "aps_BlockSizeBits (ap_Spec new) = aps_BlockSizeBits (ap_Spec old)"
      "aps_Subnets (ap_Spec new) = aps_Subnets (ap_Spec old) @ rest"
    unfolding aps_validateUpdate_Nil by blast
  show ?thesis using find_subnet_append [OF assms(2)] eqs by simp
qed

theorem update_keeps_blocks_witness:
  "AddressPool_ValidateUpdate example_pool example_pool2 = Admit \<and>
   find_subnet (aps_BlockSizeBits (ap_Spec example_pool2)) 3 (aps_Subnets (ap_Spec example_pool2)) 0 =
     Ok (Some (\<lparr>ss_IPv4 = Some ''10.2.0.0/29'', ss_IPv6 = None\<rparr>, 3))"
proof -
  have a: "AddressPool_ValidateUpdate example_pool example_pool2 = Admit" by code_simp
  have f: "find_subnet (aps_BlockSizeBits (ap_Spec example_pool)) 3 (aps_Subnets (ap_Spec example_pool)) 0 =
     Ok (Some (\<lparr>ss_IPv4 = Some ''10.2.0.0/29'', ss_IPv6 = None\<rparr>, 3))" by code_simp
  show ?thesis using a update_keeps_blocks [OF a f] by blast
qed



end
