(* ===== verification/Ipam_Controllers.thy ===== *)
theory Ipam_Controllers
  imports Pool
begin

text \<open>
  The reconcilers of coil-ipam-controller: \<open>controllers/addresspool_controller.go\<close>,
  \<open>blockrequest_controller.go\<close>, \<open>addressblock_controller.go\<close>, \<open>blockrequest_watcher.go\<close>, and the
  garbage collector of orphaned blocks, \<open>runners/garbage_collector.go\<close>. The reconcilers call the
  pool manager through its interface, here a record of its methods; the API calls are actions
  on the same state.
\<close>

section \<open>The program\<close>

record 's pool_manager_ops =
  pmo_DropPool :: "string \<Rightarrow> ('s, unit) act"
  pmo_SyncPool :: "string \<Rightarrow> ('s, unit) act"
  pmo_AllocateBlock :: "string \<Rightarrow> string \<Rightarrow> string \<Rightarrow> ('s, AddressBlock) act"
  pmo_IsUsed :: "string \<Rightarrow> ('s, bool) act"

definition poolManager_ops :: "('b, 'w) pool_env \<Rightarrow> ('b poolManager \<times> 'w) pool_manager_ops" where
  "poolManager_ops E = \<lparr>pmo_DropPool = DropPool, pmo_SyncPool = SyncPool E, pmo_AllocateBlock = AllocateBlock E, pmo_IsUsed = IsUsed E\<rparr>"

record 'w ctl_kube =
  ck_GetAddressPool :: "string \<Rightarrow> ('w, AddressPool) act"
  ck_UpdateAddressPool :: "AddressPool \<Rightarrow> ('w, unit) act"
  ck_GetBlockRequest :: "string \<Rightarrow> ('w, BlockRequest) act"
  ck_ListBlocksByRequest :: "string \<Rightarrow> ('w, AddressBlock list) act"
  ck_UpdateBlockRequestStatus :: "BlockRequest \<Rightarrow> ('w, unit) act"
  ck_Now :: "('w, nat) act"

subsection \<open>AddressPoolReconciler\<close>

definition AddressPool_Reconcile :: "('m \<times> 'w) pool_manager_ops \<Rightarrow> ctrlutil_ops \<Rightarrow> 'w ctl_kube \<Rightarrow> string
    \<Rightarrow> ('m \<times> 'w, unit) act" where
  "AddressPool_Reconcile M C K name =
     bindA (tryA (liftW (ck_GetAddressPool K name))) (\<lambda>r. case r of
       Inl e \<Rightarrow> if IsNotFound e then pmo_DropPool M name else errA (Wrap ''failed to get address pool'' [e])
     | Inr ap \<Rightarrow>
         bindA (wrapA ''SyncPool failed'' (pmo_SyncPool M name)) (\<lambda>_.
         if om_DeletionTimestamp (ap_meta ap) = None then returnA ()
         else if \<not> cu_ContainsFinalizer C (ap_meta ap) FinCoil then returnA ()
         else bindA (wrapA ''IsUsed failed'' (pmo_IsUsed M name)) (\<lambda>used.
           if used then returnA ()
           else wrapA ''failed to remove finalizer from address pool''
             (liftW (ck_UpdateAddressPool K (ap\<lparr>ap_meta := cu_RemoveFinalizer C (ap_meta ap) FinCoil\<rparr>))))))"

subsection \<open>BlockRequestReconciler\<close>

definition allocated_status :: "nat \<Rightarrow> string \<Rightarrow> BlockRequestStatus" where
  "allocated_status now blockName = \<lparr>brst_AddressBlockName = blockName, brst_Conditions =
     [\<lparr>brc_Type = BlockRequestComplete, brc_Status = ConditionTrue, brc_LastProbeTime = now, brc_LastTransitionTime = now,
       brc_Reason = ''allocated'', brc_Message = ''allocated a block '' @ blockName\<rparr>]\<rparr>"

definition failed_conditions :: "nat \<Rightarrow> string \<Rightarrow> BlockRequestCondition list" where
  "failed_conditions now pool =
     [\<lparr>brc_Type = BlockRequestComplete, brc_Status = ConditionTrue, brc_LastProbeTime = now, brc_LastTransitionTime = now,
       brc_Reason = ''completed with failure'', brc_Message = ''completed with failure''\<rparr>,
      \<lparr>brc_Type = BlockRequestFailed, brc_Status = ConditionTrue, brc_LastProbeTime = now, brc_LastTransitionTime = now,
       brc_Reason = ''out of blocks'', brc_Message = ''pool '' @ pool @ '' does not have free blocks''\<rparr>]"

definition updateStatus :: "'w ctl_kube \<Rightarrow> BlockRequest \<Rightarrow> string \<Rightarrow> ('w, unit) act" where
  "updateStatus K br blockName =
     bindA (ck_Now K) (\<lambda>now. ck_UpdateBlockRequestStatus K (br\<lparr>br_Status := allocated_status now blockName\<rparr>))"

definition BlockRequest_Reconcile :: "('m \<times> 'w) pool_manager_ops \<Rightarrow> 'w ctl_kube \<Rightarrow> string \<Rightarrow> ('m \<times> 'w, unit) act" where
  "BlockRequest_Reconcile M K name =
     bindA (tryA (liftW (ck_GetBlockRequest K name))) (\<lambda>r. case r of
       Inl e \<Rightarrow> if IsNotFound e then returnA () else errA e
     | Inr br \<Rightarrow>
         if length (brst_Conditions (br_Status br)) > 0 then returnA ()
         else bindA (tryA (liftW (ck_ListBlocksByRequest K (om_UID (br_meta br))))) (\<lambda>r. case r of
           Inl e \<Rightarrow> returnA ()
         | Inr (b # bs) \<Rightarrow> liftW (updateStatus K br (om_Name (ab_meta b)))
         | Inr [] \<Rightarrow>
             bindA (tryA (pmo_AllocateBlock M (brs_PoolName (br_Spec br)) (brs_NodeName (br_Spec br)) (om_UID (br_meta br)))) (\<lambda>r. case r of
               Inl e \<Rightarrow>
                 if errors_Is e ErrNoBlock then
                   bindA (liftW (ck_Now K)) (\<lambda>now.
                   liftW (ck_UpdateBlockRequestStatus K (br\<lparr>br_Status := (br_Status br)\<lparr>brst_Conditions :=
                     failed_conditions now (brs_PoolName (br_Spec br))\<rparr>\<rparr>)))
                 else errA e
             | Inr block \<Rightarrow> liftW (updateStatus K br (om_Name (ab_meta block))))))"

text \<open>The event filters of the two controllers of BlockRequests.\<close>

definition BlockRequest_UpdateFunc :: "BlockRequest \<Rightarrow> bool" where
  "BlockRequest_UpdateFunc req \<longleftrightarrow> length (brst_Conditions (br_Status req)) = 0"

definition BlockRequestWatcher_filter :: "string \<Rightarrow> BlockRequest \<Rightarrow> bool" where
  "BlockRequestWatcher_filter nodeName req =
     (if brs_NodeName (br_Spec req) \<noteq> nodeName then False else length (brst_Conditions (br_Status req)) > 0)"

subsection \<open>BlockRequestWatcher\<close>

text \<open>\<open>notify\<close> is the call of \<open>NodeIPAM.Notify\<close>.\<close>

definition BlockRequestWatcher_Reconcile :: "(string \<Rightarrow> ('w, BlockRequest) act) \<Rightarrow> (BlockRequest \<Rightarrow> ('w, unit) act) \<Rightarrow> string
    \<Rightarrow> string \<Rightarrow> ('w, unit) act" where
  "BlockRequestWatcher_Reconcile get notify nodeName name =
     bindA (tryA (get name)) (\<lambda>r. case r of
       Inl e \<Rightarrow> if IsNotFound e then returnA () else errA e
     | Inr br \<Rightarrow>
         if brs_NodeName (br_Spec br) \<noteq> nodeName then returnA ()
         else if length (brst_Conditions (br_Status br)) = 0 then returnA ()
         else notify br)"

subsection \<open>AddressBlockReconciler\<close>

text \<open>A non-blocking send on a channel of capacity \<open>cap\<close> holding \<open>queued\<close> values: dropped when full.\<close>

definition AddressBlock_Reconcile :: "nat \<Rightarrow> nat \<Rightarrow> nat" where
  "AddressBlock_Reconcile cap queued = (if queued < cap then queued + 1 else queued)"

subsection \<open>Garbage collector of orphaned blocks\<close>

record 'w gc_kube =
  gk_ListAddressBlocks :: "('w, AddressBlock list) act"
  gk_ListNodes :: "('w, Node list) act"
  gk_GetAddressBlock :: "string \<Rightarrow> ('w, AddressBlock) act"
  gk_UpdateAddressBlock :: "AddressBlock \<Rightarrow> ('w, unit) act"
  gk_DeleteAddressBlock :: "string \<Rightarrow> ('w, unit) act"
  gk_RetryOnConflict :: "('w, unit) act \<Rightarrow> ('w, unit) act"

definition gc_remove_finalizer :: "'w gc_kube \<Rightarrow> ctrlutil_ops \<Rightarrow> string \<Rightarrow> ('w, unit) act" where
  "gc_remove_finalizer K C name =
     bindA (tryA (gk_GetAddressBlock K name)) (\<lambda>r. case r of
       Inl e \<Rightarrow> if IsNotFound e then returnA () else errA e
     | Inr b \<Rightarrow>
         if \<not> cu_ContainsFinalizer C (ab_meta b) FinCoil then returnA ()
         else gk_UpdateAddressBlock K (b\<lparr>ab_meta := cu_RemoveFinalizer C (ab_meta b) FinCoil\<rparr>))"

definition gc_deleteBlock :: "'w gc_kube \<Rightarrow> ctrlutil_ops \<Rightarrow> string \<Rightarrow> ('w, unit) act" where
  "gc_deleteBlock K C name =
     bindA (wrapA (''failed to remove finalizer from '' @ name) (gk_RetryOnConflict K (gc_remove_finalizer K C name))) (\<lambda>_.
     ignoreNotFound (gk_DeleteAddressBlock K name))"

definition gc_do :: "'w gc_kube \<Rightarrow> ctrlutil_ops \<Rightarrow> ('w, unit) act" where
  "gc_do K C =
     bindA (wrapA ''failed to list address blocks'' (gk_ListAddressBlocks K)) (\<lambda>blocks.
     bindA (wrapA ''failed to list nodes'' (gk_ListNodes K)) (\<lambda>nodes.
     let nodeNames = map (\<lambda>n. om_Name (node_meta n)) nodes in
     foreachA (\<lambda>b.
       if block_label b LabelNode \<in> set nodeNames then returnA ()
       else wrapA ''failed to delete a block'' (gc_deleteBlock K C (om_Name (ab_meta b)))) blocks))"

text \<open>\<open>Start\<close>: one collection per tick, until the context is done or a collection fails. \<open>ticks\<close> is
  the number of ticks before the context is done.\<close>

primrec gc_Start :: "'w gc_kube \<Rightarrow> ctrlutil_ops \<Rightarrow> nat \<Rightarrow> ('w, unit) act" where
  "gc_Start K C 0 = returnA ()"
| "gc_Start K C (Suc ticks) = bindA (gc_do K C) (\<lambda>_. gc_Start K C ticks)"

section \<open>What the pool manager does to the stored blocks\<close>

text \<open>At most one block was added, for the request \<open>uid\<close>.\<close>

definition adds_for :: "string \<Rightarrow> (string \<Rightarrow> AddressBlock option) \<Rightarrow> (string \<Rightarrow> AddressBlock option) \<Rightarrow> bool" where
  "adds_for uid m m' \<longleftrightarrow> m' = m \<or> (\<exists>nm b. m nm = None \<and> m' = m(nm \<mapsto> b) \<and> block_label b LabelRequest = uid)"

lemma adds_same: "m' = m \<Longrightarrow> adds_for uid m m'"
  by (simp add: adds_for_def)

lemma getPool_store:
  assumes "env_ok bl E" and "getPool E n (pm, w) = (r, (pm', w'))"
  shows "bl w' = bl w"
proof (cases "glookup (pm_pools pm) n")
  case None
  obtain q p v where y: "SyncBlocks E (new_pool E n, w) = (q, (p, v))" by (metis prod_cases3)
  then have "bl v = bl w" by (rule SyncBlocks_store [OF assms(1)])
  then show ?thesis using assms(2) None y by (auto simp: getPool_def split: res.splits)
qed (use assms(2) in \<open>simp add: getPool_def\<close>)

lemma create_adds: "create_effect bl b w r w' \<Longrightarrow> block_label b LabelRequest = uid \<Longrightarrow> adds_for uid (bl w) (bl w')"
  unfolding create_effect_def adds_for_def stored_as_def block_label_def by metis

lemma create_step_adds:
  assumes "env_ok bl E" and "bl v = m"
  shows "outcome (create_step E i (block_object E pn node uid ap j nets)) (\<lambda>_ s'. adds_for uid m (bl (snd s')))
    (\<lambda>_ s'. adds_for uid m (bl (snd s'))) (\<lambda>s'. adds_for uid m (bl (snd s'))) (p, v)"
proof (cases "block_object E pn node uid ap j nets")
  case (Ok b)
  have "block_label b LabelRequest = uid"
    using block_labels(3) [OF block_object_Ok(3) [OF env_okD(3) [OF assms(1)] Ok]] .
  then have eff: "adds_for uid m (bl v')" if "pk_CreateAddressBlock (pe_kube E) b v = (r, v')" for r v'
    using create_adds [OF kube_Create [OF assms(1) that]] assms(2) by simp
  show ?thesis
    by (simp add: create_step_def Ok wp_simps, rule outcome_call) (auto split: res.splits dest: eff)
qed (simp_all add: create_step_def wp_simps adds_for_def assms(2))

lemma pool_AllocateBlock_create:
  "pool_AllocateBlock E node uid = bindA getA (\<lambda>(p, _).
     let i = pool_nextIndex (pe_bitset E) (p_allocated p) in
     bindA (liftW (pk_GetAddressPool (pe_kube E) (p_name p))) (\<lambda>ap.
     if om_DeletionTimestamp (ap_meta ap) \<noteq> None then errA (Sentinel ErrNoBlock)
     else bindA (resA (find_subnet (aps_BlockSizeBits (ap_Spec ap)) i (aps_Subnets (ap_Spec ap)) 0)) (\<lambda>found.
       case found of
         None \<Rightarrow> errA (Sentinel ErrNoBlock)
       | Some (ss, n) \<Rightarrow> bindA (resA (GetBlock (pe_netutil E) ss n (aps_BlockSizeBits (ap_Spec ap))))
           (\<lambda>nets. create_step E i (block_object E (p_name p) node uid ap i nets)))))"
  unfolding pool_AllocateBlock_def create_step_def by (rule refl)

lemma pool_AllocateBlock_adds:
  assumes "env_ok bl E"
  shows "outcome (pool_AllocateBlock E node uid) (\<lambda>_ s'. adds_for uid (bl w) (bl (snd s')))
    (\<lambda>_ s'. adds_for uid (bl w) (bl (snd s'))) (\<lambda>s'. adds_for uid (bl w) (bl (snd s'))) (p, w)"
  by (simp add: pool_AllocateBlock_create wp_simps Let_def, rule outcome_call)
    (auto simp: wp_simps adds_same kube_Get(1) [OF assms] create_step_adds [OF assms] split: res.splits option.splits prod.splits)

lemma AllocateBlock_adds:
  assumes "env_ok bl E" and "AllocateBlock E n node uid s = (r, s')"
  shows "adds_for uid (bl (snd s)) (bl (snd s'))"
proof -
  obtain pm w where s: "s = (pm, w)" by (cases s)
  obtain q pm1 w1 where g: "getPool E n (pm, w) = (q, (pm1, w1))" by (metis prod_cases3)
  have bl1: "bl w1 = bl w" by (rule getPool_store [OF assms(1) g])
  show ?thesis
  proof (cases q)
    case (Ok p)
    obtain r' p' w' where run: "pool_AllocateBlock E node uid (p, w1) = (r', (p', w'))" by (metis prod_cases3)
    have "adds_for uid (bl w1) (bl w')"
      using pool_AllocateBlock_adds [OF assms(1), of node uid w1 p] run by (simp add: outcome_def split: res.splits)
    then show ?thesis using assms(2) g Ok run bl1 by (auto simp: AllocateBlock_def bindA_def on_pool_def s)
  qed (use assms(2) g bl1 adds_same in \<open>auto simp: AllocateBlock_def bindA_def s\<close>)
qed

lemma SyncPool_store:
  assumes "env_ok bl E" and "SyncPool E n s = (r, s')"
  shows "bl (snd s') = bl (snd s)"
proof -
  obtain pm w where s: "s = (pm, w)" by (cases s)
  obtain q pm1 w1 where g: "getPool E n (pm, w) = (q, (pm1, w1))" by (metis prod_cases3)
  have bl1: "bl w1 = bl w" by (rule getPool_store [OF assms(1) g])
  show ?thesis
  proof (cases q)
    case (Ok p)
    obtain r' p' w' where run: "SyncBlocks E (p, w1) = (r', (p', w'))" by (metis prod_cases3)
    then have "bl w' = bl w1" by (rule SyncBlocks_store [OF assms(1)])
    then show ?thesis using assms(2) g Ok run bl1 by (auto simp: SyncPool_def bindA_def on_pool_def s)
  qed (use assms(2) g bl1 in \<open>auto simp: SyncPool_def bindA_def s\<close>)
qed

lemma IsUsed_store:
  assumes "env_ok bl E" and "IsUsed E n s = (r, s')"
  shows "bl (snd s') = bl (snd s)"
proof -
  obtain pm w where s: "s = (pm, w)" by (cases s)
  obtain q pm1 w1 where g: "getPool E n (pm, w) = (q, (pm1, w1))" by (metis prod_cases3)
  have bl1: "bl w1 = bl w" by (rule getPool_store [OF assms(1) g])
  show ?thesis
  proof (cases q)
    case (Ok p)
    obtain l w' where run: "pk_ListAddressBlocks (pe_kube E) [(LabelPool, p_name p)] w1 = (l, w')"
      by (cases "pk_ListAddressBlocks (pe_kube E) [(LabelPool, p_name p)] w1")
    then have "bl w' = bl w1" by (rule kube_List(1) [OF assms(1)])
    then show ?thesis using assms(2) g Ok run bl1
      by (auto simp: IsUsed_def bindA_def on_pool_def pool_IsUsed_def getA_def liftW_def returnA_def s split: res.splits)
  qed (use assms(2) g bl1 in \<open>auto simp: IsUsed_def bindA_def s\<close>)
qed

section \<open>The invariant of the controller\<close>

text \<open>The API calls of the reconcilers leave the AddressBlocks alone, and the listing by request
  misses no block of the request.\<close>

definition ctl_laws :: "('w \<Rightarrow> string \<Rightarrow> AddressBlock option) \<Rightarrow> 'w ctl_kube \<Rightarrow> bool" where
  "ctl_laws bl K \<longleftrightarrow>
     (\<forall>n m. keeps (\<lambda>w. bl w = m) (ck_GetAddressPool K n)) \<and>
     (\<forall>ap m. keeps (\<lambda>w. bl w = m) (ck_UpdateAddressPool K ap)) \<and>
     (\<forall>n m. keeps (\<lambda>w. bl w = m) (ck_GetBlockRequest K n)) \<and>
     (\<forall>br m. keeps (\<lambda>w. bl w = m) (ck_UpdateBlockRequestStatus K br)) \<and>
     (\<forall>m. keeps (\<lambda>w. bl w = m) (ck_Now K)) \<and>
     (\<forall>uid w r w'. ck_ListBlocksByRequest K uid w = (r, w') \<longrightarrow> bl w' = bl w \<and>
        (r = Ok [] \<longrightarrow> (\<forall>b \<in> ran (bl w). block_label b LabelRequest \<noteq> uid)))"

definition one_per_request :: "(string \<Rightarrow> AddressBlock option) \<Rightarrow> bool" where
  "one_per_request m \<longleftrightarrow> (\<forall>nm nm' b b'. m nm = Some b \<and> m nm' = Some b' \<and>
     block_label b LabelRequest = block_label b' LabelRequest \<longrightarrow> nm = nm')"

lemma one_per_request_add:
  assumes "one_per_request m" and "\<forall>b \<in> ran m. block_label b LabelRequest \<noteq> uid" and "adds_for uid m m'"
  shows "one_per_request m'"
proof (cases "m' = m")
  case False
  then obtain nm b where nb: "m nm = None" "m' = m(nm \<mapsto> b)" "block_label b LabelRequest = uid"
    using assms(3) by (auto simp: adds_for_def)
  have old: "block_label c LabelRequest \<noteq> uid" if "m k = Some c" for k c using assms(2) that by (auto simp: ran_def)
  show ?thesis
    unfolding one_per_request_def
  proof (intro allI impI)
    fix k k' c c'
    assume a: "m' k = Some c \<and> m' k' = Some c' \<and> block_label c LabelRequest = block_label c' LabelRequest"
    show "k = k'"
    proof (cases "k = nm \<or> k' = nm")
      case True
      then show ?thesis using a nb old [of k c] old [of k' c'] by (auto split: if_splits)
    next
      case False
      then have "m k = Some c" "m k' = Some c'" using a nb(2) by auto
      then show ?thesis using a assms(1) unfolding one_per_request_def by blast
    qed
  qed
qed (use assms in simp)

text \<open>
  What a controller of BlockRequests needs of its pool manager and of the API: the manager's
  contract, that only \<open>AllocateBlock\<close> adds blocks and that it adds at most one, for the request it
  was given; the other calls leave the blocks alone.
\<close>

locale block_requests =
  block_pools invar store "pmo_DropPool M" "pmo_SyncPool M" "pmo_AllocateBlock M" "pmo_IsUsed M"
  for invar :: "'m \<times> 'w \<Rightarrow> bool" and store and M :: "('m \<times> 'w) pool_manager_ops" +
  fixes K :: "'w ctl_kube"
  assumes drop_store: "keeps (\<lambda>s. store s = m) (pmo_DropPool M n)"
    and sync_store: "keeps (\<lambda>s. invar s \<and> store s = m) (pmo_SyncPool M n)"
    and used_store: "keeps (\<lambda>s. invar s \<and> store s = m) (pmo_IsUsed M n)"
    and allocate_adds: "invar s \<Longrightarrow> pmo_AllocateBlock M n node uid s = (r, s') \<Longrightarrow> adds_for uid (store s) (store s')"
    and get_pool: "keeps (\<lambda>s. invar s \<and> store s = m) (liftW (ck_GetAddressPool K n))"
    and update_pool: "keeps (\<lambda>s. invar s \<and> store s = m) (liftW (ck_UpdateAddressPool K ap))"
    and get_request: "keeps (\<lambda>s. invar s \<and> store s = m) (liftW (ck_GetBlockRequest K n))"
    and update_request: "keeps (\<lambda>s. invar s \<and> store s = m) (liftW (ck_UpdateBlockRequestStatus K br))"
    and now: "keeps (\<lambda>s. invar s \<and> store s = m) (liftW (ck_Now K))"
    and list_by_request: "keeps (\<lambda>s. invar s \<and> store s = m) (liftW (ck_ListBlocksByRequest K uid))"
    and list_complete: "invar s \<Longrightarrow> liftW (ck_ListBlocksByRequest K uid) s = (Ok [], s') \<Longrightarrow>
      b \<in> ran (store s) \<Longrightarrow> block_label b LabelRequest \<noteq> uid"
begin

lemmas calls_keep = get_pool update_pool get_request update_request now list_by_request
  keeps_conj [OF drop_keeps drop_store] sync_store used_store

lemma updateStatus_keeps: "keeps (\<lambda>s. invar s \<and> store s = m) (liftW (updateStatus K br nm))"
  unfolding updateStatus_def liftW_bindA by (intro keeps_bindA now update_request)

lemma AddressPool_Reconcile_keeps: "keeps (\<lambda>s. invar s \<and> store s = m) (AddressPool_Reconcile M C K name)"
  unfolding AddressPool_Reconcile_def by (intro keeps_intros calls_keep)

text \<open>The state after a list that found nothing and an allocation.\<close>

lemma allocate_one_per_request:
  assumes "invar s" and "one_per_request (store s)" and "\<forall>b \<in> ran (store s). block_label b LabelRequest \<noteq> uid"
  shows "outcome (pmo_AllocateBlock M n node uid) (\<lambda>_ s'. invar s' \<and> one_per_request (store s'))
    (\<lambda>_ s'. invar s' \<and> one_per_request (store s')) (\<lambda>s'. invar s' \<and> one_per_request (store s')) s"
proof (rule outcome_call)
  fix r s' assume run: "pmo_AllocateBlock M n node uid s = (r, s')"
  have "one_per_request (store s')" by (rule one_per_request_add [OF assms(2,3) allocate_adds [OF assms(1) run]])
  moreover have "invar s'" by (rule keepsD [OF allocate_keeps assms(1) run])
  ultimately show "case r of Ok x \<Rightarrow> invar s' \<and> one_per_request (store s') | Err e \<Rightarrow> invar s' \<and> one_per_request (store s')
      | Panic p \<Rightarrow> invar s' \<and> one_per_request (store s')" by (cases r) auto
qed

lemma keeps_one: "(\<And>m. keeps (\<lambda>s. invar s \<and> store s = m) f) \<Longrightarrow> keeps (\<lambda>s. invar s \<and> one_per_request (store s)) f"
  unfolding keeps_def by metis

lemmas calls_keep_one = calls_keep [THEN keeps_one] updateStatus_keeps [THEN keeps_one]

lemma list_allocate_keeps:
  assumes "\<And>x. keeps (\<lambda>s. invar s \<and> one_per_request (store s)) (k x)"
    and "\<And>y ys. keeps (\<lambda>s. invar s \<and> one_per_request (store s)) (f y ys)"
    and "\<And>e. keeps (\<lambda>s. invar s \<and> one_per_request (store s)) (g e)"
  shows "keeps (\<lambda>s. invar s \<and> one_per_request (store s))
    (bindA (tryA (liftW (ck_ListBlocksByRequest K uid))) (\<lambda>r. case r of Inl e \<Rightarrow> g e | Inr (y # ys) \<Rightarrow> f y ys
      | Inr [] \<Rightarrow> bindA (tryA (pmo_AllocateBlock M n node uid)) k))"
  unfolding keeps_outcome
proof (intro allI impI)
  fix s assume inv: "invar s \<and> one_per_request (store s)"
  let ?I = "\<lambda>s. invar s \<and> one_per_request (store s)"
  let ?k = "\<lambda>r. case r of Inl e \<Rightarrow> g e | Inr (y # ys) \<Rightarrow> f y ys | Inr [] \<Rightarrow> bindA (tryA (pmo_AllocateBlock M n node uid)) k"
  note run1 = outcome_keeps [of ?I, unfolded wp_simps, OF assms(1)] outcome_keeps [of ?I, OF assms(2)]
      outcome_keeps [of ?I, OF assms(3)]
  show "outcome (bindA (tryA (liftW (ck_ListBlocksByRequest K uid))) ?k) (\<lambda>_. ?I) (\<lambda>_. ?I) ?I s"
    unfolding outcome_bindA outcome_tryA
  proof (rule outcome_call)
    fix r s' assume run: "liftW (ck_ListBlocksByRequest K uid) s = (r, s')"
    have inv': "?I s'" and st: "store s' = store s"
      using keepsD [OF list_by_request [of "store s"] _ run] inv by auto
    have "outcome (bindA (tryA (pmo_AllocateBlock M n node uid)) k) (\<lambda>_. ?I) (\<lambda>_. ?I) ?I s'" if "r = Ok []"
    proof -
      have "\<forall>b \<in> ran (store s'). block_label b LabelRequest \<noteq> uid"
        using list_complete [OF conjunct1 [OF inv]] run that st by metis
      from allocate_one_per_request [OF conjunct1 [OF inv'] conjunct2 [OF inv'] this] show ?thesis
        unfolding outcome_bindA outcome_tryA by (rule outcome_mono) (auto intro: run1)
    qed
    then show "case r of Ok x \<Rightarrow> outcome (?k (Inr x)) (\<lambda>_. ?I) (\<lambda>_. ?I) ?I s'
        | Err e \<Rightarrow> outcome (?k (Inl e)) (\<lambda>_. ?I) (\<lambda>_. ?I) ?I s' | Panic p \<Rightarrow> ?I s'"
      using run1 inv' by (auto split: res.splits list.splits)
  qed
qed

lemma BlockRequest_Reconcile_keeps: "keeps (\<lambda>s. invar s \<and> one_per_request (store s)) (BlockRequest_Reconcile M K name)"
  unfolding BlockRequest_Reconcile_def
  by (intro keeps_intros list_allocate_keeps calls_keep_one)

end

text \<open>The pool manager of \<open>pkg/ipam\<close> serves the reconcilers.\<close>

definition ctl_inv :: "('w \<Rightarrow> string \<Rightarrow> AddressBlock option) \<Rightarrow> ('b, 'w) pool_env \<Rightarrow> 'w ctl_kube \<Rightarrow> 'b poolManager \<times> 'w \<Rightarrow> bool" where
  "ctl_inv bl E K s \<longleftrightarrow> pm_inv bl E s \<and> ctl_laws bl K"

lemma pm_inv_same: "pm_inv bl E (pm, w) \<Longrightarrow> bl w' = bl w \<Longrightarrow> pm_inv bl E (pm, w')"
  by (simp add: pm_inv_def)

lemma ctl_call:
  assumes "\<And>m. ctl_laws bl K \<Longrightarrow> keeps (\<lambda>w. bl w = m) f"
  shows "keeps (\<lambda>s. ctl_inv bl E K s \<and> bl (snd s) = m) (liftW f)"
proof (rule keeps_liftW, rule keepsI)
  fix pm w r w' assume "ctl_inv bl E K (pm, w) \<and> bl (snd (pm, w)) = m" "f w = (r, w')"
  moreover from this have "bl w' = bl w" using keepsD [OF assms [of "bl w"]] by (auto simp: ctl_inv_def)
  ultimately show "ctl_inv bl E K (pm, w') \<and> bl (snd (pm, w')) = m"
    using pm_inv_same [of bl E pm w w'] by (auto simp: ctl_inv_def)
qed

lemma ctl_keeps: "keeps (pm_inv bl E) f \<Longrightarrow> keeps (ctl_inv bl E K) f"
  by (simp add: keeps_def ctl_inv_def)

lemma poolManager_ops_simps [simp]:
  "pmo_DropPool (poolManager_ops E) = DropPool" "pmo_SyncPool (poolManager_ops E) = SyncPool E"
  "pmo_AllocateBlock (poolManager_ops E) = AllocateBlock E" "pmo_IsUsed (poolManager_ops E) = IsUsed E"
  by (simp_all add: poolManager_ops_def)

lemma ctl_env: "ctl_inv bl E K s \<Longrightarrow> env_ok bl E"
  by (simp add: ctl_inv_def pm_inv_def)

lemma list_request_law:
  assumes "ctl_laws bl K" and "ck_ListBlocksByRequest K uid w = (r, w')"
  shows "bl w' = bl w" and "r = Ok [] \<Longrightarrow> b \<in> ran (bl w) \<Longrightarrow> block_label b LabelRequest \<noteq> uid"
  using assms by (fastforce simp: ctl_laws_def)+

interpretation ctl: block_requests "ctl_inv bl E K" "\<lambda>s. bl (snd s)" "poolManager_ops E" K
  for bl :: "'w \<Rightarrow> string \<Rightarrow> AddressBlock option" and E :: "('b, 'w) pool_env" and K
proof unfold_locales
  show "keeps (ctl_inv bl E K) (pmo_DropPool (poolManager_ops E) n)" for n by (simp add: ctl_keeps DropPool_keeps)
  show "keeps (ctl_inv bl E K) (pmo_SyncPool (poolManager_ops E) n)" for n by (simp add: ctl_keeps SyncPool_keeps)
  show "keeps (ctl_inv bl E K) (pmo_IsUsed (poolManager_ops E) n)" for n by (simp add: ctl_keeps IsUsed_keeps)
  show "outcome (pmo_AllocateBlock (poolManager_ops E) n node uid)
      (\<lambda>b s'. ctl_inv bl E K s' \<and> block_label b LabelPool = n \<and> block_label b LabelNode = node \<and>
         block_label b LabelRequest = uid \<and> bl (snd s') (om_Name (ab_meta b)) = Some b \<and> bl (snd s) (om_Name (ab_meta b)) = None)
      (\<lambda>_. ctl_inv bl E K) (ctl_inv bl E K) s" if "ctl_inv bl E K s" for s n node uid
    using pmgr.allocate_outcome [of bl E s n node uid] that unfolding ctl_inv_def by (auto elim: outcome_mono)
  show "nm = nm'" if "ctl_inv bl E K s" "bl (snd s) nm = Some b" "bl (snd s) nm' = Some b'"
      "block_label b LabelPool = block_label b' LabelPool" "ab_Index b = ab_Index b'" for s nm nm' b b'
    using pmgr.invar_index [of bl E s nm b nm' b'] that by (simp add: ctl_inv_def)
  show "keeps (\<lambda>s. bl (snd s) = m) (pmo_DropPool (poolManager_ops E) n)" for m n
    by (auto simp: keeps_def DropPool_def modifyA_def)
  show "keeps (\<lambda>s. ctl_inv bl E K s \<and> bl (snd s) = m) (pmo_SyncPool (poolManager_ops E) n)" for m n
    by (rule keepsI) (auto dest: keepsD [OF ctl_keeps [OF SyncPool_keeps]] SyncPool_store [OF ctl_env])
  show "keeps (\<lambda>s. ctl_inv bl E K s \<and> bl (snd s) = m) (pmo_IsUsed (poolManager_ops E) n)" for m n
    by (rule keepsI) (auto dest: keepsD [OF ctl_keeps [OF IsUsed_keeps]] IsUsed_store [OF ctl_env])
  show "adds_for uid (bl (snd s)) (bl (snd s'))"
    if "ctl_inv bl E K s" "pmo_AllocateBlock (poolManager_ops E) n node uid s = (r, s')" for s n node uid r s'
    using AllocateBlock_adds [OF ctl_env] that by simp
  show "block_label b LabelRequest \<noteq> uid" if "ctl_inv bl E K s"
      "liftW (ck_ListBlocksByRequest K uid) s = (Ok [], s')" "b \<in> ran (bl (snd s))" for s uid s' b
    using that list_request_law(2) by (force simp: ctl_inv_def liftW_def split: prod.splits)
  show "keeps (\<lambda>s. ctl_inv bl E K s \<and> bl (snd s) = m) (liftW (ck_ListBlocksByRequest K uid))" for m uid
    by (rule ctl_call, rule keepsI) (auto dest: list_request_law(1))
qed (rule ctl_call, simp add: ctl_laws_def)+

text \<open>
  coil-ipam-controller: the two controllers reconcile objects in any order; a call of the API may
  fail, or the process be restarted with an empty pool manager, at any point.
\<close>

inductive ctl_step :: "('b, 'w) pool_env \<Rightarrow> ctrlutil_ops \<Rightarrow> 'w ctl_kube \<Rightarrow> 'b poolManager \<times> 'w \<Rightarrow> 'b poolManager \<times> 'w \<Rightarrow> bool"
  for E C K where
  pool: "AddressPool_Reconcile (poolManager_ops E) C K name s = (r, s') \<Longrightarrow> ctl_step E C K s s'"
| request: "BlockRequest_Reconcile (poolManager_ops E) K name s = (r, s') \<Longrightarrow> ctl_step E C K s s'"
| restart: "ctl_step E C K (pm, w) (NewPoolManager, w)"

inductive_cases ctl_stepE: "ctl_step E C K s s'"

interpretation ctls: inductive_invariant "ctl_step E C K" "\<lambda>s. ctl_inv bl E K s \<and> one_per_request (bl (snd s))"
  for bl :: "'w \<Rightarrow> string \<Rightarrow> AddressBlock option" and E :: "('b, 'w) pool_env" and C K
proof
  fix s s' assume inv: "ctl_inv bl E K s \<and> one_per_request (bl (snd s))" and "ctl_step E C K s s'"
  from this(2) show "ctl_inv bl E K s' \<and> one_per_request (bl (snd s'))"
  proof cases
    case (pool name r)
    then show ?thesis using keepsD [OF ctl.keeps_one [OF ctl.AddressPool_Reconcile_keeps], of bl E K] inv by blast
  next
    case (request name r)
    then show ?thesis using keepsD [OF ctl.BlockRequest_Reconcile_keeps [of bl E K]] inv by blast
  next
    case restart
    then show ?thesis using inv by (auto simp: ctl_inv_def pm_inv_def NewPoolManager_def)
  qed
qed

section \<open>The finalizer of a pool\<close>

text \<open>A list with a label selector misses no stored block (the pool manager lists through the
  API server, not through the cache).\<close>

definition list_complete :: "('w \<Rightarrow> string \<Rightarrow> AddressBlock option) \<Rightarrow> ('b, 'w) pool_env \<Rightarrow> bool" where
  "list_complete bl E \<longleftrightarrow> (\<forall>sel w bs w' b. pk_ListAddressBlocks (pe_kube E) sel w = (Ok bs, w') \<longrightarrow>
     b \<in> ran (bl w) \<longrightarrow> selects sel b \<longrightarrow> b \<in> set bs)"

lemma pool_IsUsed_stored:
  assumes "list_complete bl E" and "b \<in> ran (bl w)" and "glookup (om_Labels (ab_meta b)) LabelPool = Some (p_name p)"
  shows "pool_IsUsed E (p, w) \<noteq> (Ok False, s')"
proof -
  obtain r w' where run: "pk_ListAddressBlocks (pe_kube E) [(LabelPool, p_name p)] w = (r, w')" by (metis prod.collapse)
  have "selects [(LabelPool, p_name p)] b" using assms(3) by (simp add: selects_def)
  then have "b \<in> set bs" if "r = Ok bs" for bs using assms(1,2) run that unfolding list_complete_def by blast
  then have "bs \<noteq> []" if "r = Ok bs" for bs using that by fastforce
  then show ?thesis using run by (cases r) (auto simp: pool_IsUsed_def bindA_def getA_def liftW_def returnA_def)
qed

lemma IsUsed_stored:
  assumes "pm_inv bl E s" and "list_complete bl E" and "b \<in> ran (bl (snd s))"
    and "glookup (om_Labels (ab_meta b)) LabelPool = Some n"
  shows "IsUsed E n s \<noteq> (Ok False, s')"
proof
  assume used: "IsUsed E n s = (Ok False, s')"
  then obtain p s1 where g: "getPool E n s = (Ok p, s1)" and on: "on_pool n p (pool_IsUsed E) s1 = (Ok False, s')"
    unfolding IsUsed_def bindA_Ok_iff by blast
  have "pool_inv bl E n (p, snd s1) \<and> bl (snd s1) = bl (snd s)"
    using getPool_outcome [OF assms(1), of n] g by (simp add: outcome_def)
  then have "p_name p = n" "b \<in> ran (bl (snd s1))" using assms(3) by (simp_all add: pool_inv_def)
  then show False
    using on pool_IsUsed_stored [OF assms(2), of b "snd s1" p] assms(4)
    by (cases s1) (fastforce simp: on_pool_def split: prod.splits)
qed

section \<open>Orphaned blocks\<close>

text \<open>The API of the garbage collector, on a view \<open>bl\<close> of the stored blocks: lists return what is
  stored, under its name; an update and a delete reach the named object only, and a delete that succeeds, or that
  finds nothing, leaves no such object; a retry runs its function some number of times.\<close>

definition gc_laws :: "('w \<Rightarrow> string \<Rightarrow> AddressBlock option) \<Rightarrow> 'w gc_kube \<Rightarrow> bool" where
  "gc_laws bl K \<longleftrightarrow>
     (\<forall>w bs w'. gk_ListAddressBlocks K w = (Ok bs, w') \<longrightarrow> bl w' = bl w \<and>
        (\<forall>nm b. bl w nm = Some b \<longleftrightarrow> b \<in> set bs \<and> om_Name (ab_meta b) = nm)) \<and>
     leaves bl (gk_ListNodes K) \<and>
     (\<forall>n. leaves bl (gk_GetAddressBlock K n)) \<and>
     (\<forall>n w b w'. gk_GetAddressBlock K n w = (Ok b, w') \<longrightarrow> om_Name (ab_meta b) = n) \<and>
     (\<forall>b. touches bl (om_Name (ab_meta b)) (gk_UpdateAddressBlock K b)) \<and>
     (\<forall>n. touches bl n (gk_DeleteAddressBlock K n)) \<and>
     (\<forall>n w r w'. gk_DeleteAddressBlock K n w = (r, w') \<longrightarrow> r = Ok () \<or> (\<exists>e. r = Err e \<and> IsNotFound e) \<longrightarrow> bl w' n = None) \<and>
     retries (gk_RetryOnConflict K)"

lemma gc_lists:
  assumes "gc_laws bl K" and "gk_ListAddressBlocks K w = (Ok bs, w')"
  shows "bl w' = bl w" and "bl w nm = Some b \<longleftrightarrow> b \<in> set bs \<and> om_Name (ab_meta b) = nm"
  using assms by (auto simp: gc_laws_def)

lemma gc_Get:
  assumes "gc_laws bl K"
  shows "leaves bl (gk_ListNodes K)" "leaves bl (gk_GetAddressBlock K n)"
  using assms by (simp_all add: gc_laws_def)

lemma gc_Get_name: "gc_laws bl K \<Longrightarrow> gk_GetAddressBlock K n w = (Ok b, w') \<Longrightarrow> om_Name (ab_meta b) = n"
  unfolding gc_laws_def by (elim conjE) metis

lemma gc_writes:
  assumes "gc_laws bl K"
  shows "touches bl (om_Name (ab_meta b)) (gk_UpdateAddressBlock K b)" "touches bl n (gk_DeleteAddressBlock K n)"
    "retries (gk_RetryOnConflict K)"
  using assms by (auto simp: gc_laws_def)

lemma gc_Delete_gone:
  assumes "gc_laws bl K" and "gk_DeleteAddressBlock K n w = (r, w')" and "r = Ok () \<or> (\<exists>e. r = Err e \<and> IsNotFound e)"
  shows "bl w' n = None"
  using assms unfolding gc_laws_def by blast

lemma gc_remove_finalizer_keeps:
  assumes "gc_laws bl K" and "ctrlutil_laws C" and "k \<noteq> n \<or> v = None"
  shows "keeps (\<lambda>w. bl w k = v) (gc_remove_finalizer K C n)"
proof (unfold keeps_outcome, intro allI impI)
  fix w assume w: "bl w k = v"
  let ?I = "\<lambda>w. bl w k = v"
  have upd: "keeps ?I (gk_UpdateAddressBlock K (b\<lparr>ab_meta := cu_RemoveFinalizer C (ab_meta b) FinCoil\<rparr>))"
    if "om_Name (ab_meta b) = n" for b
  proof -
    obtain fs where "cu_RemoveFinalizer C (ab_meta b) FinCoil = (ab_meta b)\<lparr>om_Finalizers := fs\<rparr>"
      using RemoveFinalizer_upd [OF assms(2)] by metis
    then show ?thesis using touches_keeps [OF gc_writes(1) [OF assms(1)], of k] assms(3) that by auto
  qed
  show "outcome (gc_remove_finalizer K C n) (\<lambda>_. ?I) (\<lambda>_. ?I) ?I w"
    unfolding gc_remove_finalizer_def outcome_bindA outcome_tryA
  proof (rule outcome_call)
    fix r w' assume g: "gk_GetAddressBlock K n w = (r, w')"
    have "bl w' k = v" using leavesD [OF gc_Get(2) [OF assms(1)] g] w by simp
    then show "case r of Ok x \<Rightarrow> outcome (case Inr x of Inl e \<Rightarrow> if IsNotFound e then returnA () else errA e
           | Inr b \<Rightarrow> if \<not> cu_ContainsFinalizer C (ab_meta b) FinCoil then returnA ()
               else gk_UpdateAddressBlock K (b\<lparr>ab_meta := cu_RemoveFinalizer C (ab_meta b) FinCoil\<rparr>)) (\<lambda>_. ?I) (\<lambda>_. ?I) ?I w'
       | Err e \<Rightarrow> outcome (case Inl e of Inl e \<Rightarrow> if IsNotFound e then returnA () else errA e
           | Inr b \<Rightarrow> if \<not> cu_ContainsFinalizer C (ab_meta b) FinCoil then returnA ()
               else gk_UpdateAddressBlock K (b\<lparr>ab_meta := cu_RemoveFinalizer C (ab_meta b) FinCoil\<rparr>)) (\<lambda>_. ?I) (\<lambda>_. ?I) ?I w'
       | Panic p \<Rightarrow> ?I w'"
      using gc_Get_name [OF assms(1)] g upd outcome_keeps [of ?I, OF upd]
      by (cases r) (auto simp: wp_simps)
  qed
qed

lemma gc_deleteBlock_keeps:
  assumes "gc_laws bl K" and "ctrlutil_laws C" and "k \<noteq> n \<or> v = None"
  shows "keeps (\<lambda>w. bl w k = v) (gc_deleteBlock K C n)"
  unfolding gc_deleteBlock_def
  by (intro keeps_intros retries_keeps [OF gc_writes(3) [OF assms(1)]] touches_keeps [OF gc_writes(2) [OF assms(1)] assms(3)] gc_remove_finalizer_keeps [OF assms])

lemma gc_deleteBlock_gone:
  assumes "gc_laws bl K" and "gc_deleteBlock K C n w = (Ok (), w')"
  shows "bl w' n = None"
proof -
  obtain w1 where "ignoreNotFound (gk_DeleteAddressBlock K n) w1 = (Ok (), w')"
    using assms(2) unfolding gc_deleteBlock_def bindA_Ok_iff by blast
  then show ?thesis
    using gc_Delete_gone [OF assms(1)] by (auto simp: ignoreNotFound_def split: prod.splits res.splits if_splits)
qed

text \<open>The loop over the blocks: the blocks of the nodes that exist stay, the others go.\<close>

definition orphan :: "Node list \<Rightarrow> AddressBlock \<Rightarrow> bool" where
  "orphan nodes b \<longleftrightarrow> block_label b LabelNode \<notin> set (map (\<lambda>n. om_Name (node_meta n)) nodes)"

definition gc_one :: "'w gc_kube \<Rightarrow> ctrlutil_ops \<Rightarrow> Node list \<Rightarrow> AddressBlock \<Rightarrow> ('w, unit) act" where
  "gc_one K C nodes b = (if \<not> orphan nodes b then returnA ()
     else wrapA ''failed to delete a block'' (gc_deleteBlock K C (om_Name (ab_meta b))))"

lemma gc_do_loop:
  assumes "gk_ListAddressBlocks K w = (Ok bs, w1)" and "gk_ListNodes K w1 = (Ok nodes, w2)"
  shows "gc_do K C w = foreachA (gc_one K C nodes) bs w2"
  using assms by (simp add: gc_do_def bindA_def wrapA_def gc_one_def [abs_def] orphan_def Let_def)

lemma gc_loop:
  assumes "gc_laws bl K" and "ctrlutil_laws C"
    and "foreachA (gc_one K C nodes) bs w = (r, w')"
  shows "(\<And>b. b \<in> set bs \<Longrightarrow> orphan nodes b \<Longrightarrow> om_Name (ab_meta b) \<noteq> k) \<Longrightarrow> bl w' k = bl w k"
    and "r = Ok () \<Longrightarrow> b \<in> set bs \<Longrightarrow> orphan nodes b \<Longrightarrow> bl w' (om_Name (ab_meta b)) = None"
proof -
  show "bl w' k = bl w k" if "\<And>b. b \<in> set bs \<Longrightarrow> orphan nodes b \<Longrightarrow> om_Name (ab_meta b) \<noteq> k"
  proof -
    have "keeps (\<lambda>w'. bl w' k = bl w k) (foreachA (gc_one K C nodes) bs)"
      unfolding gc_one_def using that by (intro keeps_intros gc_deleteBlock_keeps [OF assms(1,2)]) metis
    then show ?thesis using keepsD [of "\<lambda>w'. bl w' k = bl w k"] assms(3) by blast
  qed
  show "bl w' (om_Name (ab_meta b)) = None" if "r = Ok ()" "b \<in> set bs" "orphan nodes b"
    using assms(3) that
  proof (induction bs arbitrary: w)
    case (Cons c cs)
    then obtain w2 where step: "gc_one K C nodes c w = (Ok (), w2)" "foreachA (gc_one K C nodes) cs w2 = (Ok (), w')"
      by (auto simp: bindA_Ok_iff)
    show ?case
    proof (cases "b \<in> set cs")
      case False
      then have "gc_deleteBlock K C (om_Name (ab_meta b)) w = (Ok (), w2)"
        using Cons.prems step(1) by (auto simp: gc_one_def wrapA_def split: prod.splits res.splits)
      then have "bl w2 (om_Name (ab_meta b)) = None" by (rule gc_deleteBlock_gone [OF assms(1)])
      moreover have "keeps (\<lambda>w. bl w (om_Name (ab_meta b)) = None) (foreachA (gc_one K C nodes) cs)"
        unfolding gc_one_def by (intro keeps_intros gc_deleteBlock_keeps [OF assms(1,2)]) auto
      ultimately show ?thesis using keepsD [of "\<lambda>w. bl w (om_Name (ab_meta b)) = None"] step(2) by blast
    qed (use Cons.IH [of w2] step(2) Cons.prems in blast)
  qed simp
qed

section \<open>Example API\<close>

definition ref_ctl_kube :: "AddressBlock gomap ctl_kube" where
  "ref_ctl_kube = \<lparr>
     ck_GetAddressPool = (\<lambda>n w. (Ok (example_pool\<lparr>ap_meta := (ap_meta example_pool)\<lparr>om_DeletionTimestamp := Some 5, om_Finalizers := [FinCoil]\<rparr>\<rparr>), w)),
     ck_UpdateAddressPool = (\<lambda>ap w. (Err (StatusError ReasonConflict ''pool''), w)),
     ck_GetBlockRequest = (\<lambda>n w. (Ok \<lparr>br_meta = empty_meta\<lparr>om_Name := n, om_UID := n\<rparr>,
        br_Spec = \<lparr>brs_NodeName = ''node1'', brs_PoolName = ''default''\<rparr>,
        br_Status = \<lparr>brst_AddressBlockName = '''', brst_Conditions = []\<rparr>\<rparr>, w)),
     ck_ListBlocksByRequest = (\<lambda>uid w. (Ok (filter (\<lambda>b. block_label b LabelRequest = uid) (List.map_filter (glookup w) (remdups (gkeys w)))), w)),
     ck_UpdateBlockRequestStatus = (\<lambda>br w. (Ok (), w)),
     ck_Now = (\<lambda>w. (Ok 7, w))\<rparr>"

lemma ref_ctl_laws: "ctl_laws glookup ref_ctl_kube"
proof -
  have "block_label b LabelRequest \<noteq> uid"
    if none: "filter (\<lambda>b. block_label b LabelRequest = uid) (List.map_filter (glookup w) (remdups (gkeys w))) = []"
      and b: "b \<in> ran (glookup w)" for uid w b
  proof -
    obtain k where "glookup w k = Some b" using b by (auto simp: ran_def)
    moreover from this have "k \<in> set (gkeys w)" by auto
    ultimately have "b \<in> set (List.map_filter (glookup w) (remdups (gkeys w)))"
      by (force simp: List.map_filter_def)
    then show ?thesis using none by (auto simp: filter_empty_conv)
  qed
  note none = this
  have "glookup w' = glookup w \<and> (r = Ok [] \<longrightarrow> (\<forall>b \<in> ran (glookup w). block_label b LabelRequest \<noteq> uid))"
    if run: "ck_ListBlocksByRequest ref_ctl_kube uid w = (r, w')" for uid w r w'
  proof -
    have "w' = w" and r: "r = Ok (filter (\<lambda>b. block_label b LabelRequest = uid) (List.map_filter (glookup w) (remdups (gkeys w))))"
      using run by (auto simp: ref_ctl_kube_def)
    then show ?thesis using none [of uid w] unfolding r res.inject by blast
  qed
  note lst = this
  have same: "keeps (\<lambda>w. glookup w = m) (ck_GetAddressPool ref_ctl_kube n)" "keeps (\<lambda>w. glookup w = m) (ck_UpdateAddressPool ref_ctl_kube ap)"
      "keeps (\<lambda>w. glookup w = m) (ck_GetBlockRequest ref_ctl_kube n)" "keeps (\<lambda>w. glookup w = m) (ck_UpdateBlockRequestStatus ref_ctl_kube br)"
      "keeps (\<lambda>w. glookup w = m) (ck_Now ref_ctl_kube)" for m n ap br
    by (simp_all add: ref_ctl_kube_def keeps_def)
  show ?thesis unfolding ctl_laws_def by (intro conjI allI impI same lst [THEN conjunct1] lst [THEN conjunct2, THEN mp])
qed

lemma ref_ctl_inv: "ctl_inv glookup ref_pool_env ref_ctl_kube (NewPoolManager, [])"
  using ref_pm_inv ref_ctl_laws by (simp add: ctl_inv_def)

definition ref_gc_kube :: "AddressBlock gomap gc_kube" where
  "ref_gc_kube = \<lparr>
     gk_ListAddressBlocks = (\<lambda>w. (if list_all (\<lambda>(k, b). om_Name (ab_meta b) = k) w \<and> distinct (gkeys w) then Ok (map snd w)
        else Err (ErrorMsg ''cache''), w)),
     gk_ListNodes = (\<lambda>w. (Ok [\<lparr>node_meta = empty_meta\<lparr>om_Name := ''node1''\<rparr>, node_Addresses = []\<rparr>], w)),
     gk_GetAddressBlock = (\<lambda>n w. (case glookup w n of Some b \<Rightarrow> if om_Name (ab_meta b) = n then Ok b else Err (ErrorMsg ''cache'')
        | None \<Rightarrow> Err (StatusError ReasonNotFound n), w)),
     gk_UpdateAddressBlock = (\<lambda>b w. case glookup w (om_Name (ab_meta b)) of
          None \<Rightarrow> (Err (StatusError ReasonNotFound (om_Name (ab_meta b))), w)
        | Some _ \<Rightarrow> (Ok (), gupdate (om_Name (ab_meta b)) b w)),
     gk_DeleteAddressBlock = (\<lambda>n w. (Ok (), gdelete n w)),
     gk_RetryOnConflict = (\<lambda>f. f)\<rparr>"

lemma ref_gc_laws: "gc_laws glookup ref_gc_kube"
proof -
  have "glookup w nm = Some b \<longleftrightarrow> b \<in> set (map snd w) \<and> om_Name (ab_meta b) = nm"
    if "list_all (\<lambda>(k, b). om_Name (ab_meta b) = k) w" "distinct (gkeys w)" for w :: "AddressBlock gomap" and nm b
    using that by (force simp: gkeys_def list_all_iff)
  then show ?thesis
    by (auto simp: gc_laws_def ref_gc_kube_def leaves_def touches_def split: if_splits option.splits)
qed

section \<open>Properties\<close>



text \<open>
  C15. While an AddressBlock of a pool is stored, reconciling the pool never calls the update that
  removes its finalizer: the reconciliation is the same whatever that update would do.
\<close>

theorem finalizer_kept_while_used:
  assumes "ctl_inv bl E K s" and "list_complete bl E" and "b \<in> ran (bl (snd s))"
    and "glookup (om_Labels (ab_meta b)) LabelPool = Some name"
  shows "AddressPool_Reconcile (poolManager_ops E) C (K\<lparr>ck_UpdateAddressPool := upd\<rparr>) name s =
    AddressPool_Reconcile (poolManager_ops E) C K name s"
proof -
  obtain r s1 where g: "liftW (ck_GetAddressPool K name) s = (r, s1)" by (metis prod.collapse)
  have i1: "ctl_inv bl E K s1 \<and> bl (snd s1) = bl (snd s)"
    using keepsD [OF ctl.get_pool [where m = "bl (snd s)"] _ g] assms(1) by blast
  obtain q s2 where y: "SyncPool E name s1 = (q, s2)" by (metis prod.collapse)
  have i2: "ctl_inv bl E K s2 \<and> bl (snd s2) = bl (snd s)"
    using keepsD [OF ctl.sync_store [where m = "bl (snd s)"], of bl E K s1 name q s2] i1 y by simp
  then have "IsUsed E name s2 \<noteq> (Ok False, s3)" for s3
    using IsUsed_stored [OF _ assms(2)] assms(3,4) by (simp add: ctl_inv_def)
  then have "bindA (wrapA m (IsUsed E name)) (\<lambda>used. if used then returnA () else k) s2 =
      bindA (wrapA m (IsUsed E name)) (\<lambda>used. if used then returnA () else k') s2" for m k k'
    by (cases "IsUsed E name s2") (auto simp: bindA_def wrapA_def split: res.splits)
  then show ?thesis
    using g y by (auto simp: AddressPool_Reconcile_def bindA_def tryA_def wrapA_def split: res.splits)
qed

theorem finalizer_kept_while_used_witness:
  "\<forall>upd. AddressPool_Reconcile (poolManager_ops ref_pool_env) ctrlutil_ref (ref_ctl_kube\<lparr>ck_UpdateAddressPool := upd\<rparr>) ''default''
      (NewPoolManager, [(''default-2'', example_block)]) =
    AddressPool_Reconcile (poolManager_ops ref_pool_env) ctrlutil_ref ref_ctl_kube ''default'' (NewPoolManager, [(''default-2'', example_block)])"
proof
  fix upd :: "AddressPool \<Rightarrow> (AddressBlock gomap, unit) act"
  have "idx_inv (glookup [(''default-2'', example_block)])"
    by (simp add: idx_inv_def example_block_def) code_simp
  then have inv: "ctl_inv glookup ref_pool_env ref_ctl_kube (NewPoolManager, [(''default-2'', example_block)])"
    using ref_ctl_laws ref_pool_env_ok by (simp add: ctl_inv_def pm_inv_def NewPoolManager_def del: map_of.simps)
  have "list_complete glookup ref_pool_env"
    by (force simp: list_complete_def ref_pool_env_def ref_pool_kube_def List.map_filter_def ran_def)
  moreover have "example_block \<in> ran (glookup (snd (NewPoolManager :: bool list poolManager, [(''default-2'', example_block)])))" by (auto simp: ran_def)
  moreover have "glookup (om_Labels (ab_meta example_block)) LabelPool = Some ''default''" by (simp add: example_block_def)
  ultimately show "AddressPool_Reconcile (poolManager_ops ref_pool_env) ctrlutil_ref (ref_ctl_kube\<lparr>ck_UpdateAddressPool := upd\<rparr>) ''default''
      (NewPoolManager, [(''default-2'', example_block)]) =
    AddressPool_Reconcile (poolManager_ops ref_pool_env) ctrlutil_ref ref_ctl_kube ''default'' (NewPoolManager, [(''default-2'', example_block)])"
    by (rule finalizer_kept_while_used [OF inv])
qed

text \<open>
  C17. What a reconciled BlockRequest reports: with no block yet for the request, the outcome of
  \<open>AllocateBlock\<close> decides. A block makes the update write a status that \<open>GetResult\<close> reads as the
  name of the block; \<open>ErrNoBlock\<close> one that it reads as the error ``out of blocks''; any other
  error is returned with the request left as it is.
\<close>

theorem request_status:
  assumes "ck_GetBlockRequest K name w = (Ok br, w1)" and "brst_Conditions (br_Status br) = []"
    and "ck_ListBlocksByRequest K (om_UID (br_meta br)) w1 = (Ok [], w2)"
    and "pmo_AllocateBlock M (brs_PoolName (br_Spec br)) (brs_NodeName (br_Spec br)) (om_UID (br_meta br)) (pm, w2) = (a, (pm', w3))"
    and "ck_Now K w3 = (Ok now, w4)"
  shows "case a of
      Ok b \<Rightarrow> (\<exists>br'. BlockRequest_Reconcile M K name (pm, w) = liftW (ck_UpdateBlockRequestStatus K br') (pm', w4) \<and>
        br_meta br' = br_meta br \<and> br_Spec br' = br_Spec br \<and> GetResult br' = Inr (om_Name (ab_meta b)))
    | Err e \<Rightarrow> if errors_Is e ErrNoBlock
        then (\<exists>br'. BlockRequest_Reconcile M K name (pm, w) = liftW (ck_UpdateBlockRequestStatus K br') (pm', w4) \<and>
          br_meta br' = br_meta br \<and> br_Spec br' = br_Spec br \<and> GetResult br' = Inl (ErrorMsg ''out of blocks''))
        else BlockRequest_Reconcile M K name (pm, w) = (Err e, (pm', w3))
    | Panic p \<Rightarrow> BlockRequest_Reconcile M K name (pm, w) = (Panic p, (pm', w3))"
proof -
  let ?ok = "\<lambda>b. br\<lparr>br_Status := allocated_status now (om_Name (ab_meta b))\<rparr>"
  let ?no = "br\<lparr>br_Status := (br_Status br)\<lparr>brst_Conditions := failed_conditions now (brs_PoolName (br_Spec br))\<rparr>\<rparr>"
  have "GetResult (?ok b) = Inr (om_Name (ab_meta b))" for b
    by (simp add: GetResult_def getResult_def allocated_status_def)
  moreover have "GetResult ?no = Inl (ErrorMsg ''out of blocks'')"
    by (simp add: GetResult_def getResult_def failed_conditions_def)
  moreover have "BlockRequest_Reconcile M K name (pm, w) = liftW (ck_UpdateBlockRequestStatus K (?ok b)) (pm', w4)" if "a = Ok b" for b
    using assms that by (simp add: BlockRequest_Reconcile_def updateStatus_def liftW_bindA act_defs)
  moreover have "BlockRequest_Reconcile M K name (pm, w) = (if errors_Is e ErrNoBlock
      then liftW (ck_UpdateBlockRequestStatus K ?no) (pm', w4) else (Err e, (pm', w3)))" if "a = Err e" for e
    using assms that by (simp add: BlockRequest_Reconcile_def act_defs)
  moreover have "BlockRequest_Reconcile M K name (pm, w) = (Panic p, (pm', w3))" if "a = Panic p" for p
    using assms that by (simp add: BlockRequest_Reconcile_def act_defs)
  ultimately show ?thesis by (cases a) (force split: if_splits)+
qed

theorem request_status_witness:
  "\<exists>br'. BlockRequest_Reconcile (poolManager_ops ref_pool_env) ref_ctl_kube ''r1'' (NewPoolManager, [])
      = liftW (ck_UpdateBlockRequestStatus ref_ctl_kube br') (snd (AllocateBlock ref_pool_env ''default'' ''node1'' ''r1'' (NewPoolManager, []))) \<and>
    GetResult br' = Inr ''default-0''"
proof -
  define a where "a = AllocateBlock ref_pool_env ''default'' ''node1'' ''r1'' (NewPoolManager, [])"
  have "case fst a of Ok b \<Rightarrow> om_Name (ab_meta b) = ''default-0'' | _ \<Rightarrow> False" unfolding a_def by code_simp
  then obtain b pm' w' where a: "a = (Ok b, (pm', w'))" "om_Name (ab_meta b) = ''default-0''"
    by (cases a) (auto split: res.splits)
  let ?br = "\<lparr>br_meta = empty_meta\<lparr>om_Name := ''r1'', om_UID := ''r1''\<rparr>, br_Spec = \<lparr>brs_NodeName = ''node1'', brs_PoolName = ''default''\<rparr>,
        br_Status = \<lparr>brst_AddressBlockName = '''', brst_Conditions = []\<rparr>\<rparr>"
  show ?thesis
    using request_status [of ref_ctl_kube "''r1''" "[]" ?br "[]" "[]" "poolManager_ops ref_pool_env" NewPoolManager "Ok b" pm' w' 7 w'] a
    unfolding a_def by (auto simp: ref_ctl_kube_def List.map_filter_def gkeys_def)
qed


definition example_blocks :: "AddressBlock gomap" where
  "example_blocks = map (\<lambda>(n, nd). (n, \<lparr>ab_meta = empty_meta\<lparr>om_Name := n, om_Labels := [(LabelPool, ''default''), (LabelNode, nd)], om_Finalizers := [FinCoil]\<rparr>,
     ab_Index = 0, ab_IPv4 = None, ab_IPv6 = None\<rparr>)) [(''default-0'', ''node1''), (''default-1'', ''node2''), (''default-2'', ''node1'')]"


end
