(* ===== verification/Egress_Controller.thy ===== *)
theory Egress_Controller
  imports Egress_Api "HOL-Library.List_Lexorder" "HOL-Library.Char_ord"
begin

text \<open>
  The controllers of \<open>coil-egress-controller\<close>: \<open>controllers/egress_controller.go\<close> keeps a service account, a Deployment, a Service
  and a PodDisruptionBudget for each Egress, and \<open>controllers/clusterrolebinding_controller.go\<close> the subjects of two cluster role
  bindings. \<open>CreateOrUpdate\<close> of controller-runtime, \<open>DeepDerivative\<close> and \<open>LabelSelectorAsSelector\<close> of apimachinery are parameters.
\<close>

section \<open>The program\<close>

definition LabelAppName :: string where "LabelAppName = ''app.kubernetes.io/name''"
definition LabelAppInstance :: string where "LabelAppInstance = ''app.kubernetes.io/instance''"
definition LabelAppComponent :: string where "LabelAppComponent = ''app.kubernetes.io/component''"

record label_selector =
  ls_MatchLabels :: "string gomap"
  ls_MatchExpressions :: "string list"

record Deployment =
  dp_meta :: object_meta
  dp_CreationTimestamp :: "nat option"
  dp_Selector :: "label_selector option"
  dp_Replicas :: "int option"
  dp_Strategy :: deployment_strategy
  dp_Labels :: "string gomap"
  dp_Annotations :: "string gomap"
  dp_PodSpec :: pod_spec
  dp_AvailableReplicas :: int

definition new_deployment :: Deployment where
  "new_deployment = \<lparr>dp_meta = empty_meta, dp_CreationTimestamp = None, dp_Selector = None, dp_Replicas = None,
     dp_Strategy = \<lparr>ds_Type = [], ds_rest = []\<rparr>, dp_Labels = [], dp_Annotations = [], dp_PodSpec = zero_pod_spec, dp_AvailableReplicas = 0\<rparr>"

record PodDisruptionBudget =
  pd_meta :: object_meta
  pd_CreationTimestamp :: "nat option"
  pd_MinAvailable :: "int_or_string option"
  pd_MaxUnavailable :: "int_or_string option"
  pd_Selector :: "label_selector option"

definition new_pdb :: PodDisruptionBudget where
  "new_pdb = \<lparr>pd_meta = empty_meta, pd_CreationTimestamp = None, pd_MinAvailable = None, pd_MaxUnavailable = None, pd_Selector = None\<rparr>"

record subject =
  sj_APIGroup :: string
  sj_Kind :: string
  sj_Name :: string
  sj_Namespace :: string

record ClusterRoleBinding =
  crb_meta :: object_meta
  crb_Subjects :: "subject list"

record 'w egress_kube =
  ek_GetEgress :: "string \<Rightarrow> string \<Rightarrow> ('w, Egress) act"
  ek_GetServiceAccount :: "string \<Rightarrow> string \<Rightarrow> ('w, unit) act"
  ek_CreateServiceAccount :: "string \<Rightarrow> string \<Rightarrow> ('w, unit) act"
  ek_GetCRB :: "string \<Rightarrow> ('w, ClusterRoleBinding) act"
  ek_ListEgresses :: "('w, Egress list) act"
  ek_UpdateCRB :: "ClusterRoleBinding \<Rightarrow> ('w, unit) act"
  ek_CreateOrUpdateDeployment :: "Deployment \<Rightarrow> (Deployment \<Rightarrow> Deployment res) \<Rightarrow> ('w, unit) act"
  ek_CreateOrUpdateService :: "Service \<Rightarrow> (Service \<Rightarrow> Service res) \<Rightarrow> ('w, unit) act"
  ek_CreateOrUpdatePDB :: "PodDisruptionBudget \<Rightarrow> (PodDisruptionBudget \<Rightarrow> PodDisruptionBudget res) \<Rightarrow> ('w, unit) act"
  ek_GetDeployment :: "string \<Rightarrow> string \<Rightarrow> ('w, Deployment) act"
  ek_UpdateEgressStatus :: "Egress \<Rightarrow> ('w, unit) act"
  ek_GetPod :: "string \<Rightarrow> string \<Rightarrow> ('w, Pod) act"
  ek_range :: range_order
  ek_DeepDerivative :: "subject list \<Rightarrow> subject list \<Rightarrow> bool"
  ek_SelectorString :: "label_selector option \<Rightarrow> string res"
  ek_ctrlutil :: ctrlutil_ops

record EgressReconciler =
  er_Image :: string
  er_Port :: int
  er_Backend :: string

subsection \<open>Cluster role bindings\<close>

definition egress_namespaces :: "range_order \<Rightarrow> Egress list \<Rightarrow> string list" where
  "egress_namespaces rng egs = sort (rng (gkeys (fold (\<lambda>eg. gupdate (om_Namespace (eg_meta eg)) ()) egs [])))"

definition egress_subject :: "string \<Rightarrow> subject" where
  "egress_subject n = \<lparr>sj_APIGroup = [], sj_Kind = ''ServiceAccount'', sj_Name = SAEgress, sj_Namespace = n\<rparr>"

definition reconcileCRB :: "'w egress_kube \<Rightarrow> string \<Rightarrow> ('w, unit) act" where
  "reconcileCRB K name =
     bindA (tryA (ek_GetCRB K name)) (\<lambda>r. case r of
       Inl e \<Rightarrow> if IsNotFound e \<and> name = CRBEgressPSP then returnA () else errA e
     | Inr crb \<Rightarrow>
         bindA (ek_ListEgresses K) (\<lambda>egs.
         let subjects = map egress_subject (egress_namespaces (ek_range K) egs) in
         if ek_DeepDerivative K subjects (crb_Subjects crb) then returnA ()
         else ek_UpdateCRB K (crb\<lparr>crb_Subjects := subjects\<rparr>)))"

definition crbReconciler_Reconcile :: "'w egress_kube \<Rightarrow> string \<Rightarrow> ('w, unit) act" where
  "crbReconciler_Reconcile K name = (if name = CRBEgress \<or> name = CRBEgressPSP then reconcileCRB K name else returnA ())"

definition crb_filter :: "object_meta \<Rightarrow> bool" where
  "crb_filter m \<longleftrightarrow> om_Name m = CRBEgress \<or> om_Name m = CRBEgressPSP"

subsection \<open>Egresses\<close>

definition reconcileServiceAccount :: "'w egress_kube \<Rightarrow> string \<Rightarrow> ('w, unit) act" where
  "reconcileServiceAccount K ns =
     bindA (tryA (ek_GetServiceAccount K ns SAEgress)) (\<lambda>r. case r of
       Inr _ \<Rightarrow> returnA ()
     | Inl e \<Rightarrow> if IsNotFound e then ek_CreateServiceAccount K ns SAEgress else errA e)"

definition selectorLabels :: "string \<Rightarrow> string gomap" where
  "selectorLabels name = [(LabelAppName, ''coil''), (LabelAppInstance, name), (LabelAppComponent, ''egress'')]"

text \<open>\<open>for k, v := range src { dst[k] = v }\<close>; the keys of \<open>src\<close> are distinct, so their order does not matter.\<close>

definition copy_labels :: "string gomap \<Rightarrow> string gomap \<Rightarrow> string gomap" where
  "copy_labels src dst = fold (\<lambda>(k, v). gupdate k v) src dst"

definition addVolumes :: "volume list \<Rightarrow> volume list" where
  "addVolumes vols =
     (if list_ex (\<lambda>vol. vol_Name vol = ''run'') vols then vols else vols @ [\<lparr>vol_Name = ''run'', vol_Source = EmptyDir\<rparr>]) @
     [\<lparr>vol_Name = ''modules'', vol_Source = HostPath ''/lib/modules''\<rparr>]"

definition addVolumeMounts :: "volume_mount list \<Rightarrow> volume_mount list" where
  "addVolumeMounts mounts =
     (if list_ex (\<lambda>m. vm_Name m = ''run'') mounts then mounts
      else mounts @ [\<lparr>vm_MountPath = ''/run'', vm_Name = ''run'', vm_ReadOnly = False\<rparr>]) @
     [\<lparr>vm_MountPath = ''/lib/modules'', vm_Name = ''modules'', vm_ReadOnly = True\<rparr>]"

definition default_request :: "string \<Rightarrow> string \<Rightarrow> string gomap \<Rightarrow> string gomap" where
  "default_request k v m = (case glookup m k of None \<Rightarrow> gupdate k v m | Some _ \<Rightarrow> m)"

definition egress_args :: "EgressReconciler \<Rightarrow> Egress \<Rightarrow> string list" where
  "egress_args r eg = [''--zap-stacktrace-level=panic''] @
     (if es_FouSourcePortAuto (eg_Spec eg) then [''--enable-sport-auto=true''] else []) @ [''--backend='' @ er_Backend r]"

definition egress_container :: "EgressReconciler \<Rightarrow> Egress \<Rightarrow> container \<Rightarrow> container" where
  "egress_container r eg c = c\<lparr>
     ct_Name := ''egress'',
     ct_Image := (if ct_Image c = '''' then er_Image r else ct_Image c),
     ct_Command := (if length (ct_Command c) = 0 then [''coil-egress''] else ct_Command c),
     ct_Args := (if length (ct_Args c) = 0 then egress_args r eg else ct_Args c),
     ct_Env := ct_Env c @ [EnvValue EnvPodNamespace (om_Namespace (eg_meta eg)), EnvValue EnvEgressName (om_Name (eg_meta eg)),
       EnvFieldRef EnvAddresses ''status.podIPs''],
     ct_VolumeMounts := addVolumeMounts (ct_VolumeMounts c),
     ct_SecurityContext := Some \<lparr>sc_Privileged = Some True, sc_ReadOnlyRootFilesystem = Some True, sc_AddCapabilities = [''NET_ADMIN''], sc_rest = []\<rparr>,
     ct_Requests := default_request ''memory'' ''200Mi'' (default_request ''cpu'' ''100m'' (ct_Requests c)),
     ct_Ports := [\<lparr>cp_Name = ''metrics'', cp_ContainerPort = 8080, cp_Protocol = ''TCP''\<rparr>,
       \<lparr>cp_Name = ''health'', cp_ContainerPort = 8081, cp_Protocol = ''TCP''\<rparr>],
     ct_LivenessProbe := Some (HTTPGet ''/healthz'' ''health'' ''HTTP''),
     ct_ReadinessProbe := Some (HTTPGet ''/readyz'' ''health'' ''HTTP'')\<rparr>"

text \<open>The last container with the name is the one; without any, a new one goes to the front.\<close>

fun last_index :: "('a \<Rightarrow> bool) \<Rightarrow> nat \<Rightarrow> 'a list \<Rightarrow> nat option" where
  "last_index P i [] = None"
| "last_index P i (x # xs) = (case last_index P (Suc i) xs of Some j \<Rightarrow> Some j | None \<Rightarrow> if P x then Some i else None)"

definition with_egress_container :: "EgressReconciler \<Rightarrow> Egress \<Rightarrow> container list \<Rightarrow> container list" where
  "with_egress_container r eg cs = (case last_index (\<lambda>c. ct_Name c = ''egress'') 0 cs of
       Some i \<Rightarrow> cs[i := egress_container r eg (cs ! i)]
     | None \<Rightarrow> egress_container r eg zero_container # cs)"

definition reconcilePodTemplate :: "EgressReconciler \<Rightarrow> Egress \<Rightarrow> Deployment \<Rightarrow> Deployment" where
  "reconcilePodTemplate r eg depl =
     (let (podSpec, annotations, labels) = (case es_Template (eg_Spec eg) of
            None \<Rightarrow> (zero_pod_spec, dp_Annotations depl, [])
          | Some desired \<Rightarrow> (ept_Spec desired, copy_labels (ept_Annotations desired) (dp_Annotations depl), copy_labels (ept_Labels desired) []))
      in depl\<lparr>dp_Annotations := annotations, dp_Labels := copy_labels (selectorLabels (om_Name (eg_meta eg))) labels,
           dp_PodSpec := podSpec\<lparr>ps_ServiceAccountName := SAEgress, ps_Volumes := addVolumes (ps_Volumes podSpec),
             ps_Containers := with_egress_container r eg (ps_Containers podSpec)\<rparr>\<rparr>)"

definition set_labels :: "string \<Rightarrow> object_meta \<Rightarrow> object_meta" where
  "set_labels name m = m\<lparr>om_Labels := copy_labels (selectorLabels name) (om_Labels m)\<rparr>"

definition mutate_deployment :: "ctrlutil_ops \<Rightarrow> EgressReconciler \<Rightarrow> Egress \<Rightarrow> Deployment \<Rightarrow> Deployment res" where
  "mutate_deployment C r eg depl =
     (if om_DeletionTimestamp (dp_meta depl) \<noteq> None then Ok depl
      else
        let name = om_Name (eg_meta eg); depl1 = depl\<lparr>dp_meta := set_labels name (dp_meta depl)\<rparr> in
        bindR (if dp_CreationTimestamp depl1 = None
               then bindR (cu_SetControllerReference C ''Egress'' (eg_meta eg) (dp_meta depl1)) (\<lambda>m.
                    Ok (depl1\<lparr>dp_meta := m, dp_Selector := Some \<lparr>ls_MatchLabels = selectorLabels name, ls_MatchExpressions = []\<rparr>\<rparr>))
               else Ok depl1) (\<lambda>depl2.
        let depl3 = (if dp_Replicas depl2 \<noteq> Some (es_Replicas (eg_Spec eg)) then depl2\<lparr>dp_Replicas := Some (es_Replicas (eg_Spec eg))\<rparr> else depl2);
            depl4 = (case es_Strategy (eg_Spec eg) of Some st \<Rightarrow> depl3\<lparr>dp_Strategy := st\<rparr> | None \<Rightarrow> depl3) in
        Ok (reconcilePodTemplate r eg depl4)))"

definition reconcileDeployment :: "'w egress_kube \<Rightarrow> EgressReconciler \<Rightarrow> Egress \<Rightarrow> ('w, unit) act" where
  "reconcileDeployment K r eg = ek_CreateOrUpdateDeployment K
     (new_deployment\<lparr>dp_meta := empty_meta\<lparr>om_Namespace := om_Namespace (eg_meta eg), om_Name := om_Name (eg_meta eg)\<rparr>\<rparr>)
     (mutate_deployment (ek_ctrlutil K) r eg)"

definition mutate_service :: "ctrlutil_ops \<Rightarrow> EgressReconciler \<Rightarrow> Egress \<Rightarrow> Service \<Rightarrow> Service res" where
  "mutate_service C r eg svc =
     (if om_DeletionTimestamp (svc_meta svc) \<noteq> None then Ok svc
      else
        let name = om_Name (eg_meta eg); svc1 = svc\<lparr>svc_meta := set_labels name (svc_meta svc)\<rparr> in
        bindR (if svc_CreationTimestamp svc1 = None
               then bindR (cu_SetControllerReference C ''Egress'' (eg_meta eg) (svc_meta svc1)) (\<lambda>m. Ok (svc1\<lparr>svc_meta := m\<rparr>))
               else Ok svc1) (\<lambda>svc2.
        Ok (svc2\<lparr>svc_Type := ''ClusterIP'', svc_Selector := selectorLabels name,
          svc_Ports := [\<lparr>sp_Port = er_Port r, sp_TargetPort = er_Port r, sp_Protocol = ''UDP''\<rparr>],
          svc_SessionAffinity := es_SessionAffinity (eg_Spec eg),
          svc_SessionAffinityConfig := (case es_SessionAffinityConfig (eg_Spec eg) of Some sac \<Rightarrow> Some sac | None \<Rightarrow> svc_SessionAffinityConfig svc2),
          svc_IPFamilyPolicy := ''PreferDualStack''\<rparr>)))"

definition reconcileService :: "'w egress_kube \<Rightarrow> EgressReconciler \<Rightarrow> Egress \<Rightarrow> ('w, unit) act" where
  "reconcileService K r eg = ek_CreateOrUpdateService K
     (new_service\<lparr>svc_meta := empty_meta\<lparr>om_Namespace := om_Namespace (eg_meta eg), om_Name := om_Name (eg_meta eg)\<rparr>\<rparr>)
     (mutate_service (ek_ctrlutil K) r eg)"

definition mutate_pdb :: "ctrlutil_ops \<Rightarrow> Egress \<Rightarrow> EgressPDBSpec \<Rightarrow> PodDisruptionBudget \<Rightarrow> PodDisruptionBudget res" where
  "mutate_pdb C eg spec pdb =
     (if om_DeletionTimestamp (pd_meta pdb) \<noteq> None then Ok pdb
      else
        let name = om_Name (eg_meta eg); pdb1 = pdb\<lparr>pd_meta := set_labels name (pd_meta pdb)\<rparr> in
        bindR (if pd_CreationTimestamp pdb1 = None
               then bindR (cu_SetControllerReference C ''Egress'' (eg_meta eg) (pd_meta pdb1)) (\<lambda>m. Ok (pdb1\<lparr>pd_meta := m\<rparr>))
               else Ok pdb1) (\<lambda>pdb2.
        let pdb3 = (case pdb_MinAvailable spec of Some v \<Rightarrow> pdb2\<lparr>pd_MinAvailable := Some v\<rparr> | None \<Rightarrow> pdb2);
            pdb4 = (case pdb_MaxUnavailable spec of Some v \<Rightarrow> pdb3\<lparr>pd_MaxUnavailable := Some v\<rparr> | None \<Rightarrow> pdb3) in
        Ok (pdb4\<lparr>pd_Selector := Some \<lparr>ls_MatchLabels = selectorLabels name, ls_MatchExpressions = []\<rparr>\<rparr>)))"

definition reconcilePDB :: "'w egress_kube \<Rightarrow> Egress \<Rightarrow> ('w, unit) act" where
  "reconcilePDB K eg = (case es_PodDisruptionBudget (eg_Spec eg) of
       None \<Rightarrow> returnA ()
     | Some spec \<Rightarrow> ek_CreateOrUpdatePDB K
         (new_pdb\<lparr>pd_meta := empty_meta\<lparr>om_Namespace := om_Namespace (eg_meta eg), om_Name := om_Name (eg_meta eg)\<rparr>\<rparr>)
         (mutate_pdb (ek_ctrlutil K) eg spec))"

definition Egress_updateStatus :: "'w egress_kube \<Rightarrow> Egress \<Rightarrow> ('w, unit) act" where
  "Egress_updateStatus K eg =
     bindA (ek_GetDeployment K (om_Namespace (eg_meta eg)) (om_Name (eg_meta eg))) (\<lambda>depl.
     bindA (resA (ek_SelectorString K (dp_Selector depl))) (\<lambda>selString.
     let changed = (est_Selector (eg_Status eg) \<noteq> selString \<or> est_Replicas (eg_Status eg) \<noteq> dp_AvailableReplicas depl) in
     if changed
     then ek_UpdateEgressStatus K (eg\<lparr>eg_Status := \<lparr>est_Replicas = dp_AvailableReplicas depl, est_Selector = selString\<rparr>\<rparr>)
     else returnA ()))"

definition Egress_Reconcile :: "'w egress_kube \<Rightarrow> EgressReconciler \<Rightarrow> string \<Rightarrow> string \<Rightarrow> ('w, unit) act" where
  "Egress_Reconcile K r ns name =
     bindA (tryA (ek_GetEgress K ns name)) (\<lambda>res. case res of
       Inl e \<Rightarrow> if IsNotFound e then returnA () else errA e
     | Inr eg \<Rightarrow>
         if om_DeletionTimestamp (eg_meta eg) \<noteq> None then returnA ()
         else
           bindA (reconcileServiceAccount K ns) (\<lambda>_.
           bindA (reconcileCRB K CRBEgress) (\<lambda>_.
           bindA (reconcileCRB K CRBEgressPSP) (\<lambda>_.
           bindA (reconcileDeployment K r eg) (\<lambda>_.
           bindA (reconcileService K r eg) (\<lambda>_.
           bindA (reconcilePDB K eg) (\<lambda>_.
           Egress_updateStatus K eg)))))))"

text \<open>\<open>pod.Spec.Containers[0].Image\<close>; a pod without containers is an index out of range.\<close>

definition GetImage :: "'w egress_kube \<Rightarrow> string \<Rightarrow> string \<Rightarrow> ('w, string) act" where
  "GetImage K ns name = bindA (ek_GetPod K ns name) (\<lambda>pod. case pod_Images pod of
       [] \<Rightarrow> panicA ''index out of range'' | i # _ \<Rightarrow> returnA i)"

section \<open>Namespaces and subjects\<close>

lemma set_nsMap: "dom (map_of (fold (\<lambda>eg. gupdate (f eg) ()) egs m)) = f ` set egs \<union> dom (map_of m)"
  by (induction egs arbitrary: m) (auto simp: dom_def)

lemma distinct_nsMap: "distinct (gkeys m) \<Longrightarrow> distinct (gkeys (fold (\<lambda>eg. gupdate (f eg) ()) egs m))"
  by (induction egs arbitrary: m) simp_all

lemma egress_namespaces_set:
  assumes "go_range rng"
  shows "set (egress_namespaces rng egs) = (\<lambda>eg. om_Namespace (eg_meta eg)) ` set egs" "distinct (egress_namespaces rng egs)"
proof -
  show "set (egress_namespaces rng egs) = (\<lambda>eg. om_Namespace (eg_meta eg)) ` set egs"
    using set_nsMap [of "\<lambda>eg. om_Namespace (eg_meta eg)" egs "[]"] assms by (simp add: egress_namespaces_def)
  show "distinct (egress_namespaces rng egs)"
    using distinct_nsMap [of "[]" "\<lambda>eg. om_Namespace (eg_meta eg)" egs] assms by (simp add: egress_namespaces_def gkeys_def)
qed

text \<open>The subjects of the cluster role bindings do not depend on the order in which the runtime ranges over the map of namespaces: the
  namespaces are those of the Egresses, each once, in ascending order.\<close>

lemma egress_namespaces_sorted:
  assumes "go_range rng"
  shows "egress_namespaces rng egs = sort (remdups (map (\<lambda>eg. om_Namespace (eg_meta eg)) egs))"
proof (rule sorted_distinct_set_unique)
  show "sorted (egress_namespaces rng egs)" by (simp add: egress_namespaces_def)
  show "distinct (egress_namespaces rng egs)" by (rule egress_namespaces_set [OF assms])
  show "set (egress_namespaces rng egs) = set (sort (remdups (map (\<lambda>eg. om_Namespace (eg_meta eg)) egs)))"
    using egress_namespaces_set [OF assms] by simp
qed simp_all

definition example_egress :: Egress where
  "example_egress = \<lparr>eg_meta = empty_meta\<lparr>om_Name := ''nat'', om_Namespace := ''inet''\<rparr>,
     eg_Spec = \<lparr>es_Destinations = [''0.0.0.0/0''], es_Replicas = 2, es_Strategy = None,
       es_Template = Some \<lparr>ept_Annotations = [], ept_Labels = [(LabelAppName, ''mine''), (''team'', ''neco'')], ept_Spec = zero_pod_spec\<rparr>,
       es_SessionAffinity = ''ClientIP'', es_SessionAffinityConfig = None, es_FouSourcePortAuto = True, es_PodDisruptionBudget = None\<rparr>,
     eg_Status = \<lparr>est_Replicas = 0, est_Selector = []\<rparr>\<rparr>"

lemma egress_namespaces_sorted_witness:
  "egress_namespaces rev [example_egress, example_egress] = [''inet'']"
  using egress_namespaces_sorted [OF go_range_rev, of "[example_egress, example_egress]"]
  by (simp add: example_egress_def)

text \<open>What \<open>DeepDerivative\<close> promises of two lists of subjects: when it holds of a non-empty list, each of its subjects is at the same
  place in the other list, where fields that are empty in the first are not compared; it holds of the empty list and anything.\<close>

definition set_fields_agree :: "subject \<Rightarrow> subject \<Rightarrow> bool" where
  "set_fields_agree a b \<longleftrightarrow> (sj_APIGroup a = [] \<or> sj_APIGroup a = sj_APIGroup b) \<and> (sj_Kind a = [] \<or> sj_Kind a = sj_Kind b) \<and>
     (sj_Name a = [] \<or> sj_Name a = sj_Name b) \<and> (sj_Namespace a = [] \<or> sj_Namespace a = sj_Namespace b)"

definition derivative_laws :: "(subject list \<Rightarrow> subject list \<Rightarrow> bool) \<Rightarrow> bool" where
  "derivative_laws D \<longleftrightarrow> (\<forall>a b. D a b \<longrightarrow> a = [] \<or> (length a \<le> length b \<and> (\<forall>i < length a. set_fields_agree (a ! i) (b ! i))))"

definition binds :: "ClusterRoleBinding \<Rightarrow> string \<Rightarrow> bool" where
  "binds crb n \<longleftrightarrow> (\<exists>s \<in> set (crb_Subjects crb). sj_Kind s = ''ServiceAccount'' \<and> sj_Name s = SAEgress \<and> sj_Namespace s = n)"

lemma binds_subjects: "n \<in> set ns \<Longrightarrow> binds (crb\<lparr>crb_Subjects := map egress_subject ns\<rparr>) n"
  by (auto simp: binds_def egress_subject_def)

lemma derivative_binds:
  assumes D: "derivative_laws D" and d: "D (map egress_subject ns) (crb_Subjects crb)" and n: "n \<in> set ns" "n \<noteq> []"
  shows "binds crb n"
proof -
  obtain i where i: "i < length ns" "ns ! i = n" using n(1) by (auto simp: in_set_conv_nth)
  then have len: "length ns \<le> length (crb_Subjects crb)" and a: "set_fields_agree (egress_subject n) (crb_Subjects crb ! i)"
    using D d unfolding derivative_laws_def by fastforce+
  have "crb_Subjects crb ! i \<in> set (crb_Subjects crb)" using i len by (intro nth_mem) simp
  then show ?thesis using a n(2) unfolding binds_def by (auto simp: set_fields_agree_def egress_subject_def SAEgress_def)
qed

text \<open>The API server: a view of the cluster role bindings and of the Egresses.\<close>

definition crb_laws :: "('w \<Rightarrow> string \<Rightarrow> ClusterRoleBinding option) \<Rightarrow> ('w \<Rightarrow> Egress list) \<Rightarrow> 'w egress_kube \<Rightarrow> bool" where
  "crb_laws crbs egs K \<longleftrightarrow> derivative_laws (ek_DeepDerivative K) \<and> go_range (ek_range K) \<and>
     (\<forall>n w r w'. ek_GetCRB K n w = (r, w') \<longrightarrow> crbs w' = crbs w \<and> egs w' = egs w \<and> (\<forall>c. r = Ok c \<longrightarrow> crbs w n = Some c \<and> om_Name (crb_meta c) = n)) \<and>
     (\<forall>w r w'. ek_ListEgresses K w = (r, w') \<longrightarrow> crbs w' = crbs w \<and> egs w' = egs w \<and> (\<forall>l. r = Ok l \<longrightarrow> set l = set (egs w))) \<and>
     (\<forall>c w w'. ek_UpdateCRB K c w = (Ok (), w') \<longrightarrow> crbs w' = (crbs w)(om_Name (crb_meta c) \<mapsto> c) \<and> egs w' = egs w)"

lemma GetCRB_outcome:
  "crb_laws crbs egs K \<Longrightarrow> outcome (ek_GetCRB K n) (\<lambda>c w'. crbs w' = crbs w \<and> egs w' = egs w \<and> crbs w n = Some c \<and> om_Name (crb_meta c) = n)
     (\<lambda>_ _. True) (\<lambda>_. True) w"
  unfolding crb_laws_def by (auto intro!: outcome_call split: res.splits)

lemma ListEgresses_outcome:
  "crb_laws crbs egs K \<Longrightarrow> outcome (ek_ListEgresses K) (\<lambda>l w'. crbs w' = crbs w \<and> egs w' = egs w \<and> set l = set (egs w)) (\<lambda>_ _. True) (\<lambda>_. True) w"
  unfolding crb_laws_def by (auto intro!: outcome_call split: res.splits)

lemma UpdateCRB_outcome:
  "crb_laws crbs egs K \<Longrightarrow> outcome (ek_UpdateCRB K c) (\<lambda>_ w'. crbs w' = (crbs w)(om_Name (crb_meta c) \<mapsto> c) \<and> egs w' = egs w) (\<lambda>_ _. True) (\<lambda>_. True) w"
  unfolding crb_laws_def by (auto intro!: outcome_call split: res.splits)

definition all_bound :: "('w \<Rightarrow> string \<Rightarrow> ClusterRoleBinding option) \<Rightarrow> string \<Rightarrow> Egress list \<Rightarrow> 'w \<Rightarrow> bool" where
  "all_bound crbs name egs w \<longleftrightarrow> (\<exists>crb. crbs w name = Some crb \<and>
     (\<forall>eg \<in> set egs. om_Namespace (eg_meta eg) \<noteq> [] \<longrightarrow> binds crb (om_Namespace (eg_meta eg))))"

lemma reconcileCRB_outcome:
  assumes laws: "crb_laws crbs egs K" and name: "name \<noteq> CRBEgressPSP"
  shows "outcome (reconcileCRB K name) (\<lambda>_. all_bound crbs name (egs w)) (\<lambda>_ _. True) (\<lambda>_. True) w"
proof -
  have rng: "go_range (ek_range K)" and D: "derivative_laws (ek_DeepDerivative K)" using laws by (auto simp: crb_laws_def)
  have body: "outcome (let subjects = map egress_subject (egress_namespaces (ek_range K) l) in
      if ek_DeepDerivative K subjects (crb_Subjects crb) then returnA () else ek_UpdateCRB K (crb\<lparr>crb_Subjects := subjects\<rparr>))
      (\<lambda>_. all_bound crbs name (egs w)) (\<lambda>_ _. True) (\<lambda>_. True) w2"
    if crb: "crbs w name = Some crb" "om_Name (crb_meta crb) = name" and l: "set l = set (egs w)" "crbs w2 = crbs w" for crb l w2
  proof (cases "ek_DeepDerivative K (map egress_subject (egress_namespaces (ek_range K) l)) (crb_Subjects crb)")
    case True
    have "binds crb (om_Namespace (eg_meta eg))" if "eg \<in> set (egs w)" "om_Namespace (eg_meta eg) \<noteq> []" for eg
      by (rule derivative_binds [OF D True]) (use that l egress_namespaces_set(1) [OF rng, of l] in auto)
    then show ?thesis using True crb l by (auto simp: Let_def wp_simps all_bound_def)
  next
    case False
    let ?crb = "crb\<lparr>crb_Subjects := map egress_subject (egress_namespaces (ek_range K) l)\<rparr>"
    have "binds ?crb (om_Namespace (eg_meta eg))" if "eg \<in> set (egs w)" for eg
      by (rule binds_subjects) (use that l egress_namespaces_set(1) [OF rng, of l] in auto)
    then show ?thesis using False crb
      by (auto simp: Let_def all_bound_def intro!: outcome_mono [OF UpdateCRB_outcome [OF laws, of ?crb w2]])
  qed
  show ?thesis
    unfolding reconcileCRB_def outcome_bindA outcome_tryA
  proof (rule outcome_mono [OF GetCRB_outcome [OF laws, of name w]], goal_cases)
    case (1 crb w1)
    then show ?case unfolding sum.case outcome_bindA
      by (intro outcome_mono [OF ListEgresses_outcome [OF laws, of w1]] body) auto
  qed (use name in \<open>auto simp: wp_simps\<close>)
qed

text \<open>When \<open>reconcileCRB\<close> succeeds for the cluster role binding of coil-egress, the binding names the service account of every
  namespace that has an Egress, whether or not it was updated.\<close>

lemma reconcileCRB_binds:
  assumes "crb_laws crbs egs K" and "name \<noteq> CRBEgressPSP" and "reconcileCRB K name w = (Ok (), w')"
  shows "\<exists>crb. crbs w' name = Some crb \<and> (\<forall>eg \<in> set (egs w). om_Namespace (eg_meta eg) \<noteq> [] \<longrightarrow> binds crb (om_Namespace (eg_meta eg)))"
  using reconcileCRB_outcome [OF assms(1,2), of w] assms(3) by (simp add: outcome_def all_bound_def)

section \<open>Labels and selectors\<close>

lemma glookup_copy_labels:
  "distinct (gkeys src) \<Longrightarrow> map_of (copy_labels src dst) k = (case map_of src k of Some v \<Rightarrow> Some v | None \<Rightarrow> map_of dst k)"
proof (induction src arbitrary: dst)
  case (Cons kv src)
  obtain k' v where kv: "kv = (k', v)" by (cases kv)
  have d: "distinct (gkeys src)" "map_of src k' = None" using Cons.prems kv by (auto simp: gkeys_def map_of_eq_None_iff)
  have "copy_labels (kv # src) dst = copy_labels src (gupdate k' v dst)" by (simp add: copy_labels_def kv)
  then show ?case using Cons.IH [OF d(1), of "gupdate k' v dst"] d(2) kv by (auto split: option.splits)
qed (simp add: copy_labels_def)

text \<open>The meaning of \<open>MatchLabels\<close>.\<close>

definition selects :: "string gomap \<Rightarrow> string gomap \<Rightarrow> bool" where
  "selects sel labels \<longleftrightarrow> list_all (\<lambda>(k, v). glookup labels k = Some v) sel"

lemma distinct_selectorLabels: "distinct (gkeys (selectorLabels name))"
  by (simp add: selectorLabels_def gkeys_def LabelAppName_def LabelAppInstance_def LabelAppComponent_def)

lemma selects_selectorLabels: "selects (selectorLabels name) (copy_labels (selectorLabels name) labels)"
proof -
  have "map_of (copy_labels (selectorLabels name) labels) k = Some v" if "(k, v) \<in> set (selectorLabels name)" for k v
    using map_of_is_SomeI [of "selectorLabels name" k v] that distinct_selectorLabels [of name]
    by (simp add: glookup_copy_labels gkeys_def)
  then show ?thesis by (auto simp: selects_def list_all_iff)
qed

definition coil_selector :: "string \<Rightarrow> label_selector" where
  "coil_selector name = \<lparr>ls_MatchLabels = selectorLabels name, ls_MatchExpressions = []\<rparr>"

text \<open>The container that serves the egress.\<close>

definition serves :: "EgressReconciler \<Rightarrow> Egress \<Rightarrow> pod_spec \<Rightarrow> bool" where
  "serves r eg ps \<longleftrightarrow> ps_ServiceAccountName ps = SAEgress \<and> (\<exists>c \<in> set (ps_Containers ps). ct_Name c = ''egress'' \<and> ct_Image c \<noteq> [] \<and>
     EnvValue EnvPodNamespace (om_Namespace (eg_meta eg)) \<in> set (ct_Env c) \<and> EnvValue EnvEgressName (om_Name (eg_meta eg)) \<in> set (ct_Env c) \<and>
     EnvFieldRef EnvAddresses ''status.podIPs'' \<in> set (ct_Env c))"

lemma last_index_bound: "last_index P i xs = Some j \<Longrightarrow> i \<le> j \<and> j < i + length xs"
  by (induction xs arbitrary: i) (fastforce split: option.splits if_splits)+

lemma with_egress_container_mem: "\<exists>c0. egress_container r eg c0 \<in> set (with_egress_container r eg cs)"
proof (cases "last_index (\<lambda>c. ct_Name c = ''egress'') 0 cs")
  case (Some i)
  then have "i < length cs" using last_index_bound by fastforce
  then show ?thesis using Some set_update_memI [of i cs] by (auto simp: with_egress_container_def)
qed (auto simp: with_egress_container_def)

lemma reconcilePodTemplate_spec:
  assumes "er_Image r \<noteq> []"
  shows "selects (selectorLabels (om_Name (eg_meta eg))) (dp_Labels (reconcilePodTemplate r eg d))"
    and "serves r eg (dp_PodSpec (reconcilePodTemplate r eg d))"
    and "dp_Selector (reconcilePodTemplate r eg d) = dp_Selector d"
proof -
  show "selects (selectorLabels (om_Name (eg_meta eg))) (dp_Labels (reconcilePodTemplate r eg d))"
    by (simp add: reconcilePodTemplate_def Let_def selects_selectorLabels split: option.splits prod.splits)
  obtain ps where ps: "ps_Containers (dp_PodSpec (reconcilePodTemplate r eg d)) = with_egress_container r eg ps"
      "ps_ServiceAccountName (dp_PodSpec (reconcilePodTemplate r eg d)) = SAEgress"
    by (cases "es_Template (eg_Spec eg)") (auto simp: reconcilePodTemplate_def Let_def)
  obtain c0 where c0: "egress_container r eg c0 \<in> set (with_egress_container r eg ps)" using with_egress_container_mem by blast
  show "serves r eg (dp_PodSpec (reconcilePodTemplate r eg d))"
    unfolding serves_def ps using assms by (intro conjI bexI [OF _ c0]) (simp_all add: egress_container_def)
  show "dp_Selector (reconcilePodTemplate r eg d) = dp_Selector d"
    by (simp add: reconcilePodTemplate_def Let_def split: option.splits prod.splits)
qed

text \<open>A Deployment that coil may update: not being deleted, and made by coil if it exists.\<close>

definition own_deployment :: "string \<Rightarrow> Deployment \<Rightarrow> bool" where
  "own_deployment name d \<longleftrightarrow> om_DeletionTimestamp (dp_meta d) = None \<and> (dp_CreationTimestamp d = None \<or> dp_Selector d = Some (coil_selector name))"

lemma bindR_Ok: "bindR m k = Ok y \<longleftrightarrow> (\<exists>x. m = Ok x \<and> k x = Ok y)"
  by (cases m) auto

lemma mutate_deployment_spec:
  assumes own: "own_deployment (om_Name (eg_meta eg)) d" and ok: "mutate_deployment C r eg d = Ok d'" and img: "er_Image r \<noteq> []"
  shows "dp_Selector d' = Some (coil_selector (om_Name (eg_meta eg))) \<and>
    selects (selectorLabels (om_Name (eg_meta eg))) (dp_Labels d') \<and> serves r eg (dp_PodSpec d')"
proof -
  obtain d2 d4 :: Deployment where d2: "dp_Selector d2 = Some (coil_selector (om_Name (eg_meta eg)))" and d4: "dp_Selector d4 = dp_Selector d2"
      and d': "d' = reconcilePodTemplate r eg d4"
  proof -
    let ?d1 = "d\<lparr>dp_meta := set_labels (om_Name (eg_meta eg)) (dp_meta d)\<rparr>"
    obtain d2 where d2: "(if dp_CreationTimestamp ?d1 = None
          then bindR (cu_SetControllerReference C ''Egress'' (eg_meta eg) (dp_meta ?d1)) (\<lambda>m.
               Ok (?d1\<lparr>dp_meta := m, dp_Selector := Some \<lparr>ls_MatchLabels = selectorLabels (om_Name (eg_meta eg)), ls_MatchExpressions = []\<rparr>\<rparr>))
          else Ok ?d1) = Ok d2"
      and rest: "d' = reconcilePodTemplate r eg (let d3 = (if dp_Replicas d2 \<noteq> Some (es_Replicas (eg_Spec eg)) then d2\<lparr>dp_Replicas := Some (es_Replicas (eg_Spec eg))\<rparr> else d2)
          in case es_Strategy (eg_Spec eg) of Some st \<Rightarrow> d3\<lparr>dp_Strategy := st\<rparr> | None \<Rightarrow> d3)"
      using ok own by (auto simp: mutate_deployment_def own_deployment_def Let_def bindR_Ok)
    have sel: "dp_Selector d2 = Some (coil_selector (om_Name (eg_meta eg)))"
      using d2 own by (auto simp: bindR_Ok coil_selector_def own_deployment_def split: if_splits)
    show thesis by (rule that [OF sel _ rest]) (simp add: Let_def split: option.splits)
  qed
  show ?thesis using d2 d4 reconcilePodTemplate_spec [OF img, of eg d4] unfolding d' by simp
qed

lemma mutate_service_spec:
  assumes "om_DeletionTimestamp (svc_meta s) = None" and "mutate_service C r eg s = Ok s'"
  shows "svc_Selector s' = selectorLabels (om_Name (eg_meta eg)) \<and> svc_Ports s' = [\<lparr>sp_Port = er_Port r, sp_TargetPort = er_Port r, sp_Protocol = ''UDP''\<rparr>]"
  using assms by (auto simp: mutate_service_def Let_def bindR_Ok)

text \<open>What \<open>CreateOrUpdate\<close> promises of a view of the stored objects: when it succeeds, the object stored under the key is what the function
  made of the object that was stored, or of the given one when there was none, up to the fields the API server fills in.\<close>

definition create_or_update_laws :: "('w \<Rightarrow> 'k \<Rightarrow> 'o option) \<Rightarrow> ('o \<Rightarrow> 'k) \<Rightarrow> ('o \<Rightarrow> 'o \<Rightarrow> bool) \<Rightarrow> ('o \<Rightarrow> ('o \<Rightarrow> 'o res) \<Rightarrow> ('w, unit) act) \<Rightarrow> bool" where
  "create_or_update_laws v key same op \<longleftrightarrow> (\<forall>obj f w w'. op obj f w = (Ok (), w') \<longrightarrow>
     (\<exists>y z. f (case v w (key obj) of Some x \<Rightarrow> x | None \<Rightarrow> obj) = Ok y \<and> v w' (key obj) = Some z \<and> same y z))"

definition meta_key :: "object_meta \<Rightarrow> string \<times> string" where
  "meta_key m = (om_Namespace m, om_Name m)"

definition same_deployment :: "Deployment \<Rightarrow> Deployment \<Rightarrow> bool" where
  "same_deployment y z \<longleftrightarrow> dp_Selector z = dp_Selector y \<and> dp_Labels z = dp_Labels y \<and> ps_Containers (dp_PodSpec z) = ps_Containers (dp_PodSpec y) \<and>
     ps_ServiceAccountName (dp_PodSpec z) = ps_ServiceAccountName (dp_PodSpec y)"

definition same_service :: "Service \<Rightarrow> Service \<Rightarrow> bool" where
  "same_service y z \<longleftrightarrow> svc_Selector z = svc_Selector y \<and> svc_Ports z = svc_Ports y"

definition egress_laws :: "('w \<Rightarrow> string \<times> string \<Rightarrow> Deployment option) \<Rightarrow> ('w \<Rightarrow> string \<times> string \<Rightarrow> Service option) \<Rightarrow> 'w egress_kube \<Rightarrow> bool" where
  "egress_laws dep svc K \<longleftrightarrow>
     create_or_update_laws dep (\<lambda>d. meta_key (dp_meta d)) same_deployment (ek_CreateOrUpdateDeployment K) \<and>
     create_or_update_laws svc (\<lambda>s. meta_key (svc_meta s)) same_service (ek_CreateOrUpdateService K) \<and>
     (\<forall>x f. leaves svc (ek_CreateOrUpdateDeployment K x f)) \<and> (\<forall>x f. leaves dep (ek_CreateOrUpdateService K x f)) \<and>
     (\<forall>n m. leaves (\<lambda>w. (dep w, svc w)) (ek_GetServiceAccount K n m) \<and> leaves (\<lambda>w. (dep w, svc w)) (ek_CreateServiceAccount K n m) \<and>
        leaves (\<lambda>w. (dep w, svc w)) (ek_GetEgress K n m) \<and> leaves (\<lambda>w. (dep w, svc w)) (ek_GetCRB K n) \<and> leaves (\<lambda>w. (dep w, svc w)) (ek_GetDeployment K n m)) \<and>
     leaves (\<lambda>w. (dep w, svc w)) (ek_ListEgresses K) \<and> (\<forall>c. leaves (\<lambda>w. (dep w, svc w)) (ek_UpdateCRB K c)) \<and>
     (\<forall>x f. leaves (\<lambda>w. (dep w, svc w)) (ek_CreateOrUpdatePDB K x f)) \<and> (\<forall>x. leaves (\<lambda>w. (dep w, svc w)) (ek_UpdateEgressStatus K x))"

section \<open>The objects of an Egress\<close>

lemma egress_laws_leaves:
  assumes "egress_laws dep svc K"
  shows "keeps (\<lambda>w. I (dep w, svc w)) (reconcileServiceAccount K ns)" and "keeps (\<lambda>w. I (dep w, svc w)) (reconcileCRB K name)"
    and "keeps (\<lambda>w. I (dep w, svc w)) (reconcilePDB K eg)" and "keeps (\<lambda>w. I (dep w, svc w)) (Egress_updateStatus K eg)"
proof -
  note L = assms [unfolded egress_laws_def]
  note k = leaves_keeps [of "\<lambda>w. (dep w, svc w)" _ I]
  show "keeps (\<lambda>w. I (dep w, svc w)) (reconcileServiceAccount K ns)"
    unfolding reconcileServiceAccount_def by (intro keeps_intros k) (use L in auto)
  show "keeps (\<lambda>w. I (dep w, svc w)) (reconcileCRB K name)"
    unfolding reconcileCRB_def Let_def by (intro keeps_intros k) (use L in auto)
  show "keeps (\<lambda>w. I (dep w, svc w)) (reconcilePDB K eg)"
    unfolding reconcilePDB_def by (intro keeps_intros k) (use L in auto)
  show "keeps (\<lambda>w. I (dep w, svc w)) (Egress_updateStatus K eg)"
    unfolding Egress_updateStatus_def Let_def by (intro keeps_intros k) (use L in auto)
qed

definition deployed :: "EgressReconciler \<Rightarrow> Egress \<Rightarrow> Deployment option \<Rightarrow> bool" where
  "deployed r eg d \<longleftrightarrow> (\<exists>z. d = Some z \<and> dp_Selector z = Some (coil_selector (om_Name (eg_meta eg))) \<and>
     selects (selectorLabels (om_Name (eg_meta eg))) (dp_Labels z) \<and> serves r eg (dp_PodSpec z))"

definition served :: "EgressReconciler \<Rightarrow> Egress \<Rightarrow> Service option \<Rightarrow> bool" where
  "served r eg s \<longleftrightarrow> (\<exists>z. s = Some z \<and> svc_Selector z = selectorLabels (om_Name (eg_meta eg)) \<and>
     svc_Ports z = [\<lparr>sp_Port = er_Port r, sp_TargetPort = er_Port r, sp_Protocol = ''UDP''\<rparr>])"

text \<open>The objects that exist before: a Deployment made by coil and a Service, neither being deleted.\<close>

definition own_objects :: "Egress \<Rightarrow> Deployment option \<Rightarrow> Service option \<Rightarrow> bool" where
  "own_objects eg d s \<longleftrightarrow> (case d of None \<Rightarrow> True | Some x \<Rightarrow> own_deployment (om_Name (eg_meta eg)) x) \<and>
     (case s of None \<Rightarrow> True | Some x \<Rightarrow> om_DeletionTimestamp (svc_meta x) = None)"

lemma egress_laws_frames:
  assumes "egress_laws dep svc K"
  shows "ek_CreateOrUpdateDeployment K x f w = (r, w') \<Longrightarrow> svc w' = svc w"
    and "ek_CreateOrUpdateService K y g w = (r, w') \<Longrightarrow> dep w' = dep w"
    and "ek_GetEgress K ns name w = (r', w') \<Longrightarrow> dep w' = dep w \<and> svc w' = svc w"
proof -
  have l: "leaves svc (ek_CreateOrUpdateDeployment K x f)" "leaves dep (ek_CreateOrUpdateService K y g)"
      "leaves (\<lambda>w. (dep w, svc w)) (ek_GetEgress K ns name)" using assms by (auto simp: egress_laws_def)
  show "ek_CreateOrUpdateDeployment K x f w = (r, w') \<Longrightarrow> svc w' = svc w" by (rule leavesD [OF l(1)])
  show "ek_CreateOrUpdateService K y g w = (r, w') \<Longrightarrow> dep w' = dep w" by (rule leavesD [OF l(2)])
  show "ek_GetEgress K ns name w = (r', w') \<Longrightarrow> dep w' = dep w \<and> svc w' = svc w" by (drule leavesD [OF l(3)]) simp
qed

lemma reconcileDeployment_outcome:
  assumes laws: "egress_laws dep svc K" and own: "own_objects eg (dep w (meta_key (eg_meta eg))) s" and img: "er_Image r \<noteq> []"
  shows "outcome (reconcileDeployment K r eg) (\<lambda>_ w'. deployed r eg (dep w' (meta_key (eg_meta eg))) \<and> svc w' = svc w) (\<lambda>_ _. True) (\<lambda>_. True) w"
proof (rule outcome_call, goal_cases)
  case (1 res w')
  let ?obj = "new_deployment\<lparr>dp_meta := empty_meta\<lparr>om_Namespace := om_Namespace (eg_meta eg), om_Name := om_Name (eg_meta eg)\<rparr>\<rparr>"
  have key: "meta_key (dp_meta ?obj) = meta_key (eg_meta eg)" by (simp add: meta_key_def)
  show ?case
  proof (cases res)
    case (Ok u)
    then have run: "ek_CreateOrUpdateDeployment K ?obj (mutate_deployment (ek_ctrlutil K) r eg) w = (Ok (), w')"
      using 1 by (simp add: reconcileDeployment_def)
    then obtain y z where y: "mutate_deployment (ek_ctrlutil K) r eg (case dep w (meta_key (eg_meta eg)) of Some x \<Rightarrow> x | None \<Rightarrow> ?obj) = Ok y"
        and z: "dep w' (meta_key (eg_meta eg)) = Some z" "same_deployment y z"
      using laws unfolding egress_laws_def create_or_update_laws_def key [symmetric] by blast
    have "own_deployment (om_Name (eg_meta eg)) (case dep w (meta_key (eg_meta eg)) of Some x \<Rightarrow> x | None \<Rightarrow> ?obj)"
      using own by (auto simp: own_objects_def own_deployment_def new_deployment_def empty_meta_def split: option.splits)
    from mutate_deployment_spec [OF this y img] z have "deployed r eg (dep w' (meta_key (eg_meta eg)))"
      by (auto simp: deployed_def same_deployment_def serves_def)
    moreover have "svc w' = svc w" by (rule egress_laws_frames(1) [OF laws run])
    ultimately show ?thesis using Ok by simp
  qed simp_all
qed

lemma reconcileService_outcome:
  assumes laws: "egress_laws dep svc K" and own: "own_objects eg d (svc w (meta_key (eg_meta eg)))"
  shows "outcome (reconcileService K r eg) (\<lambda>_ w'. served r eg (svc w' (meta_key (eg_meta eg))) \<and> dep w' = dep w) (\<lambda>_ _. True) (\<lambda>_. True) w"
proof (rule outcome_call, goal_cases)
  case (1 res w')
  let ?obj = "new_service\<lparr>svc_meta := empty_meta\<lparr>om_Namespace := om_Namespace (eg_meta eg), om_Name := om_Name (eg_meta eg)\<rparr>\<rparr>"
  have key: "meta_key (svc_meta ?obj) = meta_key (eg_meta eg)" by (simp add: meta_key_def)
  show ?case
  proof (cases res)
    case (Ok u)
    then have run: "ek_CreateOrUpdateService K ?obj (mutate_service (ek_ctrlutil K) r eg) w = (Ok (), w')"
      using 1 by (simp add: reconcileService_def)
    then obtain y z where y: "mutate_service (ek_ctrlutil K) r eg (case svc w (meta_key (eg_meta eg)) of Some x \<Rightarrow> x | None \<Rightarrow> ?obj) = Ok y"
        and z: "svc w' (meta_key (eg_meta eg)) = Some z" "same_service y z"
      using laws unfolding egress_laws_def create_or_update_laws_def key [symmetric] by blast
    have "om_DeletionTimestamp (svc_meta (case svc w (meta_key (eg_meta eg)) of Some x \<Rightarrow> x | None \<Rightarrow> ?obj)) = None"
      using own by (auto simp: own_objects_def new_service_def empty_meta_def split: option.splits)
    from mutate_service_spec [OF this y] z have "served r eg (svc w' (meta_key (eg_meta eg)))"
      by (auto simp: served_def same_service_def)
    moreover have "dep w' = dep w" by (rule egress_laws_frames(2) [OF laws run])
    ultimately show ?thesis using Ok by simp
  qed simp_all
qed

lemma Egress_Reconcile_outcome:
  assumes laws: "egress_laws dep svc K" and get: "ek_GetEgress K ns name w = (Ok eg, w0)" and live: "om_DeletionTimestamp (eg_meta eg) = None"
    and own: "own_objects eg (dep w (meta_key (eg_meta eg))) (svc w (meta_key (eg_meta eg)))" and img: "er_Image r \<noteq> []"
  shows "outcome (Egress_Reconcile K r ns name) (\<lambda>_ w'. deployed r eg (dep w' (meta_key (eg_meta eg))) \<and> served r eg (svc w' (meta_key (eg_meta eg))))
    (\<lambda>_ _. True) (\<lambda>_. True) w"
proof -
  let ?k = "meta_key (eg_meta eg)"
  let ?I = "\<lambda>(d, s). own_objects eg (d ?k) (s ?k)"
  let ?J = "\<lambda>(d, s). deployed r eg (d ?k) \<and> served r eg (s ?k)"
  have w0: "?I (dep w0, svc w0)"
    using own egress_laws_frames(3) [OF laws get] by simp
  note kI = egress_laws_leaves [OF laws, where I = ?I, THEN outcome_keeps]
  note kJ = egress_laws_leaves [OF laws, where I = ?J, THEN outcome_keeps]
  have start: "Egress_Reconcile K r ns name w = (bindA (reconcileServiceAccount K ns) (\<lambda>_. bindA (reconcileCRB K CRBEgress) (\<lambda>_.
      bindA (reconcileCRB K CRBEgressPSP) (\<lambda>_. bindA (reconcileDeployment K r eg) (\<lambda>_. bindA (reconcileService K r eg) (\<lambda>_.
      bindA (reconcilePDB K eg) (\<lambda>_. Egress_updateStatus K eg))))))) w0"
    using get live by (simp add: Egress_Reconcile_def bindA_def tryA_def)
  have "outcome (bindA (reconcileServiceAccount K ns) (\<lambda>_. bindA (reconcileCRB K CRBEgress) (\<lambda>_.
      bindA (reconcileCRB K CRBEgressPSP) (\<lambda>_. bindA (reconcileDeployment K r eg) (\<lambda>_. bindA (reconcileService K r eg) (\<lambda>_.
      bindA (reconcilePDB K eg) (\<lambda>_. Egress_updateStatus K eg)))))))
      (\<lambda>_ w'. ?J (dep w', svc w')) (\<lambda>_ _. True) (\<lambda>_. True) w0"
    unfolding outcome_bindA
    apply (rule outcome_mono [OF kI(1) [OF w0]]; (rule TrueI)?)
    apply (rule outcome_mono [OF kI(2)], assumption; (rule TrueI)?)
    apply (rule outcome_mono [OF kI(2)], assumption; (rule TrueI)?)
    apply (rule outcome_mono [OF reconcileDeployment_outcome [OF laws _ img]], simp; (rule TrueI)?)
    apply (rule outcome_mono [OF reconcileService_outcome [OF laws, where d = None]]; (rule TrueI)?)
     apply (simp add: own_objects_def)
    apply (rule outcome_mono [OF kJ(3)], simp; (rule TrueI)?)
    apply (rule outcome_mono [OF kJ(4)], assumption; (rule TrueI | assumption)?)
    done
  then show ?thesis unfolding outcome_def start prod.case .
qed


section \<open>A reference API server\<close>

record egress_world =
  xw_deps :: "string \<times> string \<Rightarrow> Deployment option"
  xw_svcs :: "string \<times> string \<Rightarrow> Service option"
  xw_crbs :: "string \<Rightarrow> ClusterRoleBinding option"
  xw_egs :: "Egress list"

definition api_not_found :: error where "api_not_found = StatusError ReasonNotFound ''not found''"

definition ref_egress_kube :: "egress_world egress_kube" where
  "ref_egress_kube = \<lparr>
     ek_GetEgress = (\<lambda>ns n w. case List.find (\<lambda>eg. meta_key (eg_meta eg) = (ns, n)) (xw_egs w) of Some eg \<Rightarrow> (Ok eg, w) | None \<Rightarrow> (Err api_not_found, w)),
     ek_GetServiceAccount = (\<lambda>ns n w. (Ok (), w)), ek_CreateServiceAccount = (\<lambda>ns n w. (Ok (), w)),
     ek_GetCRB = (\<lambda>n w. case xw_crbs w n of Some c \<Rightarrow> (if om_Name (crb_meta c) = n then Ok c else Err api_not_found, w) | None \<Rightarrow> (Err api_not_found, w)),
     ek_ListEgresses = (\<lambda>w. (Ok (xw_egs w), w)),
     ek_UpdateCRB = (\<lambda>c w. (Ok (), w\<lparr>xw_crbs := (xw_crbs w)(om_Name (crb_meta c) \<mapsto> c)\<rparr>)),
     ek_CreateOrUpdateDeployment = (\<lambda>x f w. case f (case xw_deps w (meta_key (dp_meta x)) of Some d \<Rightarrow> d | None \<Rightarrow> x) of
        Ok y \<Rightarrow> (Ok (), w\<lparr>xw_deps := (xw_deps w)(meta_key (dp_meta x) \<mapsto> y\<lparr>dp_CreationTimestamp := Some 1\<rparr>)\<rparr>) | Err e \<Rightarrow> (Err e, w) | Panic p \<Rightarrow> (Panic p, w)),
     ek_CreateOrUpdateService = (\<lambda>x f w. case f (case xw_svcs w (meta_key (svc_meta x)) of Some d \<Rightarrow> d | None \<Rightarrow> x) of
        Ok y \<Rightarrow> (Ok (), w\<lparr>xw_svcs := (xw_svcs w)(meta_key (svc_meta x) \<mapsto> y\<lparr>svc_CreationTimestamp := Some 1\<rparr>)\<rparr>) | Err e \<Rightarrow> (Err e, w) | Panic p \<Rightarrow> (Panic p, w)),
     ek_CreateOrUpdatePDB = (\<lambda>x f w. (Ok (), w)),
     ek_GetDeployment = (\<lambda>ns n w. case xw_deps w (ns, n) of Some d \<Rightarrow> (Ok d, w) | None \<Rightarrow> (Err api_not_found, w)),
     ek_UpdateEgressStatus = (\<lambda>eg w. (Ok (), w)),
     ek_GetPod = (\<lambda>ns n w. (Err api_not_found, w)),
     ek_range = rev,
     ek_DeepDerivative = (\<lambda>a b. a = [] \<or> (length a \<le> length b \<and> list_all2 set_fields_agree a (take (length a) b))),
     ek_SelectorString = (\<lambda>sel. Ok ''sel''),
     ek_ctrlutil = ctrlutil_ref\<rparr>"

lemma ref_egress_laws: "egress_laws xw_deps xw_svcs ref_egress_kube"
proof -
  have "create_or_update_laws xw_deps (\<lambda>d. meta_key (dp_meta d)) same_deployment (ek_CreateOrUpdateDeployment ref_egress_kube)"
    by (auto simp: create_or_update_laws_def ref_egress_kube_def same_deployment_def split: res.splits)
  moreover have "create_or_update_laws xw_svcs (\<lambda>s. meta_key (svc_meta s)) same_service (ek_CreateOrUpdateService ref_egress_kube)"
    by (auto simp: create_or_update_laws_def ref_egress_kube_def same_service_def split: res.splits)
  ultimately show ?thesis
    by (auto simp: egress_laws_def leaves_def ref_egress_kube_def split: res.splits option.splits)
qed

lemma ref_derivative: "derivative_laws (ek_DeepDerivative ref_egress_kube)"
  by (auto simp: derivative_laws_def ref_egress_kube_def list_all2_conv_all_nth)

lemma ref_crb_laws: "crb_laws xw_crbs xw_egs ref_egress_kube"
  using ref_derivative by (auto simp: crb_laws_def ref_egress_kube_def split: option.splits if_splits)

definition example_api :: egress_world where
  "example_api = \<lparr>xw_deps = (\<lambda>_. None), xw_svcs = (\<lambda>_. None),
     xw_crbs = [CRBEgress \<mapsto> \<lparr>crb_meta = empty_meta\<lparr>om_Name := CRBEgress\<rparr>, crb_Subjects = []\<rparr>], xw_egs = [example_egress]\<rparr>"

definition example_reconciler :: EgressReconciler where
  "example_reconciler = \<lparr>er_Image = ''coil:2'', er_Port = 5555, er_Backend = ''iptables''\<rparr>"

lemma example_reconcileCRB: "reconcileCRB ref_egress_kube CRBEgress example_api =
  (Ok (), example_api\<lparr>xw_crbs := [CRBEgress \<mapsto> \<lparr>crb_meta = empty_meta\<lparr>om_Name := CRBEgress\<rparr>, crb_Subjects = [egress_subject ''inet'']\<rparr>]\<rparr>)"
  by (simp add: reconcileCRB_def ref_egress_kube_def example_api_def example_egress_def bindA_def tryA_def egress_namespaces_def gupdate_def gkeys_def Let_def)

lemma reconcileCRB_binds_witness:
  "\<exists>w' crb. reconcileCRB ref_egress_kube CRBEgress example_api = (Ok (), w') \<and> xw_crbs w' CRBEgress = Some crb \<and> binds crb ''inet''"
proof -
  obtain w' where run: "reconcileCRB ref_egress_kube CRBEgress example_api = (Ok (), w')" using example_reconcileCRB by blast
  have "CRBEgress \<noteq> CRBEgressPSP" by (simp add: CRBEgress_def CRBEgressPSP_def)
  from reconcileCRB_binds [OF ref_crb_laws this run] run show ?thesis by (auto simp: example_api_def example_egress_def)
qed


section \<open>Budgets\<close>

text \<open>When the budget of an Egress is changed from \<open>minAvailable\<close> to \<open>maxUnavailable\<close>, which the webhook admits, the
  reconciler keeps the old field of the PodDisruptionBudget beside the new one: it sends an object with both, which Kubernetes refuses.\<close>

lemma budget_switch_sets_both:
  assumes "pd_MinAvailable pdb = Some a" and "om_DeletionTimestamp (pd_meta pdb) = None" and "pd_CreationTimestamp pdb = Some t"
    and "pdb_MinAvailable spec = None" and "pdb_MaxUnavailable spec = Some b"
  shows "\<exists>pdb'. mutate_pdb C eg spec pdb = Ok pdb' \<and> pd_MinAvailable pdb' = Some a \<and> pd_MaxUnavailable pdb' = Some b"
  using assms by (simp add: mutate_pdb_def Let_def)

lemma budget_switch_sets_both_witness:
  "Egress_ValidateUpdate ref_validators (\<lambda>ks. ks) (simple_egress [] (Some \<lparr>pdb_MinAvailable = Some (IntVal 1), pdb_MaxUnavailable = None\<rparr>))
     (simple_egress [] (Some \<lparr>pdb_MinAvailable = None, pdb_MaxUnavailable = Some (IntVal 1)\<rparr>)) = Admit \<and>
   (\<exists>pdb'. mutate_pdb ctrlutil_ref example_egress \<lparr>pdb_MinAvailable = None, pdb_MaxUnavailable = Some (IntVal 1)\<rparr>
     (new_pdb\<lparr>pd_MinAvailable := Some (IntVal 1), pd_CreationTimestamp := Some 1\<rparr>) = Ok pdb' \<and>
     pd_MinAvailable pdb' = Some (IntVal 1) \<and> pd_MaxUnavailable pdb' = Some (IntVal 1))"
proof
  show "Egress_ValidateUpdate ref_validators (\<lambda>ks. ks) (simple_egress [] (Some \<lparr>pdb_MinAvailable = Some (IntVal 1), pdb_MaxUnavailable = None\<rparr>))
     (simple_egress [] (Some \<lparr>pdb_MinAvailable = None, pdb_MaxUnavailable = Some (IntVal 1)\<rparr>)) = Admit" by code_simp
qed (rule budget_switch_sets_both, simp_all add: new_pdb_def empty_meta_def)

end
