(* ===== verification/Cert_Installer.thy ===== *)
theory Cert_Installer
  imports Coil_Prelude
begin

text \<open>
  Two small programs that work on files: the reloader of webhook certificates, \<open>pkg/cert/cert.go\<close>, and the installer of the plugin,
  \<open>cmd/coil-installer/sub/install.go\<close>. The calls of the operating system are parameters; directories
  are given in clean form, so that \<open>filepath.Join\<close> only puts a slash between them and a name. An installation is atomic, and a certificate that was loaded once
  is served until a newer one can be loaded.
\<close>

section \<open>Certificates\<close>

record ('w, 'c) cert_files =
  cx_Stat :: "string \<Rightarrow> ('w, nat) act"
  cx_LoadX509KeyPair :: "string \<Rightarrow> string \<Rightarrow> ('w, 'c) act"

record 'c Reloader =
  rl_certPath :: string
  rl_keyPath :: string
  rl_cert :: "'c option"
  rl_modTime :: nat

definition NewReloader :: "string \<Rightarrow> 'c Reloader" where
  "NewReloader dir = \<lparr>rl_certPath = dir @ ''/tls.crt'', rl_keyPath = dir @ ''/tls.key'', rl_cert = None, rl_modTime = 0\<rparr>"

text \<open>The error of the last step that failed, if any.\<close>

definition reload :: "('w, 'c) cert_files \<Rightarrow> ('c Reloader \<times> 'w, error option) act" where
  "reload F =
     bindA getA (\<lambda>(r, _).
     bindA (tryA (liftW (cx_Stat F (rl_certPath r)))) (\<lambda>st. case st of
       Inl e \<Rightarrow> returnA (Some e)
     | Inr t \<Rightarrow>
         if rl_cert r = None \<or> t \<noteq> rl_modTime r
         then bindA (tryA (liftW (cx_LoadX509KeyPair F (rl_certPath r) (rl_keyPath r)))) (\<lambda>c. case c of
                Inr c \<Rightarrow> bindA (modifyA (\<lambda>(r, w). (r\<lparr>rl_cert := Some c, rl_modTime := t\<rparr>, w))) (\<lambda>_. returnA None)
              | Inl e \<Rightarrow> returnA (Some e))
         else returnA None))"

definition GetCertificate :: "('w, 'c) cert_files \<Rightarrow> ('c Reloader \<times> 'w, 'c) act" where
  "GetCertificate F =
     bindA (reload F) (\<lambda>err.
     bindA getA (\<lambda>(r, _). case rl_cert r of
       Some c \<Rightarrow> returnA c
     | None \<Rightarrow> errA (Wrap ''webhook certificate is not ready'' (case err of Some e \<Rightarrow> [e] | None \<Rightarrow> []))))"

section \<open>Installer\<close>

record 'w file_ops =
  fs_ReadFile :: "string \<Rightarrow> ('w, string) act"
  fs_MkdirAll :: "string \<Rightarrow> ('w, unit) act"
  fs_ReadDir :: "string \<Rightarrow> ('w, (string \<times> bool) list) act"
  fs_Remove :: "string \<Rightarrow> ('w, unit) act"
  fs_Create :: "string \<Rightarrow> ('w, unit) act"
  fs_Chmod :: "string \<Rightarrow> nat \<Rightarrow> ('w, unit) act"
  fs_Write :: "string \<Rightarrow> string \<Rightarrow> ('w, unit) act"
  fs_Sync :: "string \<Rightarrow> ('w, unit) act"
  fs_Open :: "string \<Rightarrow> ('w, unit) act"
  fs_CreateTemp :: "string \<Rightarrow> string \<Rightarrow> ('w, string) act"
  fs_Copy :: "string \<Rightarrow> string \<Rightarrow> ('w, unit) act"
  fs_Rename :: "string \<Rightarrow> string \<Rightarrow> ('w, unit) act"

text \<open>\<open>strings.Contains\<close>.\<close>

fun str_contains :: "string \<Rightarrow> string \<Rightarrow> bool" where
  "str_contains [] p = (p = [])"
| "str_contains (x # xs) p = (take (length p) (x # xs) = p \<or> str_contains xs p)"

definition path_join :: "string \<Rightarrow> string \<Rightarrow> string" where
  "path_join dir name = dir @ ''/'' @ name"

definition installCniConf :: "'w file_ops \<Rightarrow> string \<Rightarrow> string \<Rightarrow> string \<Rightarrow> string \<Rightarrow> ('w, unit) act" where
  "installCniConf F cniConfName cniEtcDir cniNetConf cniNetConfFile =
     bindA (if cniNetConf = '''' then fs_ReadFile F cniNetConfFile else returnA cniNetConf) (\<lambda>data.
     bindA (fs_MkdirAll F cniEtcDir) (\<lambda>_.
     bindA (fs_ReadDir F cniEtcDir) (\<lambda>files.
     bindA (foreachA (\<lambda>(name, isDir). if isDir then returnA ()
       else if str_contains name ''conflist'' then fs_Remove F (path_join cniEtcDir name) else returnA ()) files) (\<lambda>_.
     let f = path_join cniEtcDir cniConfName in
     bindA (fs_Create F f) (\<lambda>_.
     bindA (fs_Chmod F f 420) (\<lambda>_.
     bindA (fs_Write F f data) (\<lambda>_.
     fs_Sync F f)))))))"

text \<open>The deferred function removes the temporary file, whatever happened; its error is ignored.\<close>

definition installCoil :: "'w file_ops \<Rightarrow> string \<Rightarrow> string \<Rightarrow> ('w, unit) act" where
  "installCoil F coilPath cniBinDir =
     bindA (fs_Open F coilPath) (\<lambda>_.
     bindA (fs_MkdirAll F cniBinDir) (\<lambda>_.
     bindA (fs_CreateTemp F cniBinDir ''.tmp'') (\<lambda>g.
     bindA (tryA (
       bindA (fs_Copy F coilPath g) (\<lambda>_.
       bindA (fs_Chmod F g 493) (\<lambda>_.
       bindA (fs_Sync F g) (\<lambda>_.
       fs_Rename F g (path_join cniBinDir ''coil'')))))) (\<lambda>r.
     bindA (tryA (fs_Remove F g)) (\<lambda>_. case r of Inr _ \<Rightarrow> returnA () | Inl e \<Rightarrow> errA e)))))"

text \<open>The command: \<open>viper\<close> takes an environment variable that is set to a non-empty text, else the default. The sleep at the end changes nothing.\<close>

definition defaultCniConfName :: string where "defaultCniConfName = ''10-coil.conflist''"
definition defaultCniEtcDir :: string where "defaultCniEtcDir = ''/host/etc/cni/net.d''"
definition defaultCniBinDir :: string where "defaultCniBinDir = ''/host/opt/cni/bin''"
definition defaultCoilPath :: string where "defaultCoilPath = ''/usr/local/coil/coil''"

definition installer_defaults :: "string gomap" where
  "installer_defaults = [(''CNI_CONF_NAME'', defaultCniConfName), (''CNI_ETC_DIR'', defaultCniEtcDir), (''CNI_BIN_DIR'', defaultCniBinDir),
     (''COIL_PATH'', defaultCoilPath)]"

definition viper_GetString :: "string gomap \<Rightarrow> string \<Rightarrow> string" where
  "viper_GetString env k = (case glookup env k of
       Some v \<Rightarrow> if v \<noteq> [] then v else (case glookup installer_defaults k of Some d \<Rightarrow> d | None \<Rightarrow> [])
     | None \<Rightarrow> (case glookup installer_defaults k of Some d \<Rightarrow> d | None \<Rightarrow> []))"

definition installer_RunE :: "'w file_ops \<Rightarrow> string gomap \<Rightarrow> ('w, unit) act" where
  "installer_RunE F env =
     bindA (installCniConf F (viper_GetString env ''CNI_CONF_NAME'') (viper_GetString env ''CNI_ETC_DIR'') (viper_GetString env ''CNI_NETCONF'')
       (viper_GetString env ''CNI_NETCONF_FILE'')) (\<lambda>_.
     installCoil F (viper_GetString env ''COIL_PATH'') (viper_GetString env ''CNI_BIN_DIR''))"

section \<open>Certificates are served on\<close>

text \<open>Once a certificate is loaded, a request is never refused, whatever happens to the files.\<close>

lemma GetCertificate_serves:
  assumes "rl_cert r = Some c"
  shows "outcome (GetCertificate F) (\<lambda>c' (r', _). rl_cert r' = Some c') (\<lambda>_ _. False) (\<lambda>_. True) (r, w)"
proof -
  have "outcome (reload F) (\<lambda>_ (r', _). rl_cert r' \<noteq> None) (\<lambda>_ _. False) (\<lambda>_. True) (r, w)"
    using assms by (auto simp: reload_def wp_simps split: prod.splits intro!: outcome_call split: res.splits)
  then show ?thesis
    unfolding GetCertificate_def outcome_bindA by (rule outcome_mono) (auto simp: wp_simps split: prod.splits)
qed

section \<open>Installation is atomic\<close>

text \<open>What a file system promises of a view of the contents of files: a temporary file is new and its name starts with the pattern; a copy writes its target only, wholly
  if it succeeds; a rename moves the contents at once or does nothing.\<close>

definition fs_laws :: "('w \<Rightarrow> string \<Rightarrow> string option) \<Rightarrow> 'w file_ops \<Rightarrow> bool" where
  "fs_laws files F \<longleftrightarrow> (\<forall>p. leaves files (fs_Open F p)) \<and> (\<forall>d. leaves files (fs_MkdirAll F d)) \<and> (\<forall>p m. leaves files (fs_Chmod F p m)) \<and>
     (\<forall>p. leaves files (fs_Sync F p)) \<and>
     (\<forall>d pat w r w'. fs_CreateTemp F d pat w = (r, w') \<longrightarrow> (case r of
        Ok g \<Rightarrow> (\<exists>sfx. g = path_join d (pat @ sfx)) \<and> files w g = None \<and> files w' = (files w)(g \<mapsto> []) | _ \<Rightarrow> files w' = files w)) \<and>
     (\<forall>src g w r w'. fs_Copy F src g w = (r, w') \<longrightarrow> (\<exists>c. files w' = (files w)(g \<mapsto> c) \<and> (r = Ok () \<longrightarrow> files w src = Some c))) \<and>
     (\<forall>p q w r w'. fs_Rename F p q w = (r, w') \<longrightarrow> files w' = (if r = Ok () then (files w)(p := None, q := files w p) else files w)) \<and>
     (\<forall>p w r w'. fs_Remove F p w = (r, w') \<longrightarrow> files w' = (if r = Ok () then (files w)(p := None) else files w))"

lemma fs_leaves:
  assumes "fs_laws files F"
  shows "leaves files (fs_Open F p)" "leaves files (fs_MkdirAll F d)" "leaves files (fs_Chmod F p m)" "leaves files (fs_Sync F p)"
  using assms by (simp_all add: fs_laws_def)

lemma fs_copy: "fs_laws files F \<Longrightarrow> fs_Copy F src g w = (r, w') \<Longrightarrow> \<exists>c. files w' = (files w)(g \<mapsto> c) \<and> (r = Ok () \<longrightarrow> files w src = Some c)"
  unfolding fs_laws_def by (elim conjE) simp

lemma fs_rename: "fs_laws files F \<Longrightarrow> fs_Rename F p q w = (r, w') \<Longrightarrow> files w' = (if r = Ok () then (files w)(p := None, q := files w p) else files w)"
  unfolding fs_laws_def by (elim conjE) simp

lemma fs_remove: "fs_laws files F \<Longrightarrow> fs_Remove F p w = (r, w') \<Longrightarrow> files w' = (if r = Ok () then (files w)(p := None) else files w)"
  unfolding fs_laws_def by (elim conjE) simp

lemma fs_temp: "fs_laws files F \<Longrightarrow> fs_CreateTemp F d pat w = (r, w') \<Longrightarrow> case r of
    Ok g \<Rightarrow> (\<exists>sfx. g = path_join d (pat @ sfx)) \<and> files w g = None \<and> files w' = (files w)(g \<mapsto> []) | _ \<Rightarrow> files w' = files w"
  unfolding fs_laws_def by (elim conjE) simp

text \<open>Nothing but the temporary file \<open>g\<close> and the target has changed, and the target is as it was or new.\<close>

definition half_done :: "('w \<Rightarrow> string \<Rightarrow> string option) \<Rightarrow> string \<Rightarrow> string \<Rightarrow> string \<Rightarrow> 'w \<Rightarrow> 'w \<Rightarrow> bool" where
  "half_done files g target bin w w' \<longleftrightarrow> (\<forall>p. p \<noteq> g \<longrightarrow> p \<noteq> target \<longrightarrow> files w' p = files w p) \<and> files w' target \<in> {files w target, Some bin}"

lemma replace_outcome:
  assumes laws: "fs_laws files F" and ne: "g \<noteq> target" "g \<noteq> coilPath" and bin: "files w coilPath = Some bin" and w1: "files w1 = (files w)(g \<mapsto> [])"
  shows "outcome (bindA (fs_Copy F coilPath g) (\<lambda>_. bindA (fs_Chmod F g m) (\<lambda>_. bindA (fs_Sync F g) (\<lambda>_. fs_Rename F g target))))
    (\<lambda>_ w'. half_done files g target bin w w' \<and> files w' target = Some bin) (\<lambda>_. half_done files g target bin w) (half_done files g target bin w) w1"
proof -
  define X where "X = (files w)(g \<mapsto> bin)"
  let ?I = "\<lambda>w'. files w' = X"
  have half: "half_done files g target bin w w'" if "files w' = (files w)(g \<mapsto> c)" for w' c using that ne by (simp add: half_done_def)
  have half_X: "half_done files g target bin w w'" if "?I w'" for w' using half [of w' bin] that by (simp only: X_def)
  have copy: "outcome (fs_Copy F coilPath g) (\<lambda>_. ?I) (\<lambda>_. half_done files g target bin w) (half_done files g target bin w) w1"
  proof (rule outcome_call)
    fix r w' assume run: "fs_Copy F coilPath g w1 = (r, w')"
    obtain c where "files w' = (files w1)(g \<mapsto> c)" "r = Ok () \<longrightarrow> files w1 coilPath = Some c" using fs_copy [OF laws run] by blast
    then show "case r of Ok _ \<Rightarrow> ?I w' | Err _ \<Rightarrow> half_done files g target bin w w' | Panic _ \<Rightarrow> half_done files g target bin w w'"
      using w1 ne bin half [of w' c] by (cases r) (auto simp: X_def)
  qed
  have step: "outcome m (\<lambda>_. ?I) (\<lambda>_. half_done files g target bin w) (half_done files g target bin w) v" if "leaves files m" "?I v" for m :: "('a, unit) act" and v
    by (rule outcome_mono [OF outcome_keeps [OF leaves_keeps [OF that(1), where I = "\<lambda>f. f = X"] that(2)]]) (auto intro: half_X)
  have ren: "outcome (fs_Rename F g target) (\<lambda>_ w'. half_done files g target bin w w' \<and> files w' target = Some bin)
      (\<lambda>_. half_done files g target bin w) (half_done files g target bin w) v" if "?I v" for v
  proof (rule outcome_call)
    fix r w' assume run: "fs_Rename F g target v = (r, w')"
    show "case r of Ok _ \<Rightarrow> half_done files g target bin w w' \<and> files w' target = Some bin | Err _ \<Rightarrow> half_done files g target bin w w' | Panic _ \<Rightarrow> half_done files g target bin w w'"
      using that ne fs_rename [OF laws run] by (cases r) (auto simp: half_done_def X_def)
  qed
  show ?thesis
    unfolding outcome_bindA
    by (intro outcome_mono [OF copy] outcome_mono [OF step [OF fs_leaves(3) [OF laws]]] outcome_mono [OF step [OF fs_leaves(4) [OF laws]]] ren)
qed

text \<open>
  C31. The installation of the plugin is atomic: however it ends, the installed file is the one that was there or the whole new one, never a part of it, no file
  but temporary ones changes, and after a success it is the new one.
\<close>

theorem installCoil_atomic:
  assumes "fs_laws files F" and "files w coilPath = Some bin" and "installCoil F coilPath dir w = (r, w')"
  shows "files w' (path_join dir ''coil'') \<in> {files w (path_join dir ''coil''), Some bin} \<and> (r = Ok () \<longrightarrow> files w' (path_join dir ''coil'') = Some bin) \<and>
    (\<forall>p. p \<noteq> path_join dir ''coil'' \<and> (\<forall>sfx. p \<noteq> path_join dir (''.tmp'' @ sfx)) \<longrightarrow> files w' p = files w p)"
proof -
  let ?t = "path_join dir ''coil''"
  define D where "D v \<longleftrightarrow> files v ?t \<in> {files w ?t, Some bin} \<and> (\<forall>p. p \<noteq> ?t \<and> (\<forall>sfx. p \<noteq> path_join dir (''.tmp'' @ sfx)) \<longrightarrow> files v p = files w p)" for v
  let ?R = "\<lambda>v. D v \<and> files v ?t = Some bin"
  have same: "D v" if "files v = files w" for v unfolding D_def that by simp
  have half: "D v" if "half_done files (path_join dir (''.tmp'' @ sfx)) ?t bin w v" for v sfx using that unfolding half_done_def D_def by blast
  have leave: "outcome m (\<lambda>_ v. files v = files w) (\<lambda>_. D) D v" if "leaves files m" "files v = files w" for m :: "('a, unit) act" and v
    by (rule outcome_mono [OF outcome_keeps [OF leaves_keeps [OF that(1), where I = "\<lambda>f. f = files w"] that(2)]]) (auto intro: same)
  have rm: "outcome (fs_Remove F g) (\<lambda>_ v'. D v' \<and> files v' ?t = files v ?t) (\<lambda>_ v'. D v' \<and> files v' ?t = files v ?t) D v"
    if g: "g = path_join dir (''.tmp'' @ sfx)" and v: "half_done files g ?t bin w v" for g sfx v
  proof (rule outcome_call)
    fix q v' assume run: "fs_Remove F g v = (q, v')"
    have "half_done files g ?t bin w v' \<and> files v' ?t = files v ?t"
      using fs_remove [OF assms(1) run] v g by (auto simp: half_done_def path_join_def)
    then show "case q of Ok _ \<Rightarrow> D v' \<and> files v' ?t = files v ?t | Err _ \<Rightarrow> D v' \<and> files v' ?t = files v ?t | Panic _ \<Rightarrow> D v'"
      using half [of sfx v'] g by (cases q) simp_all
  qed
  have body: "outcome (bindA (tryA m) (\<lambda>r. bindA (tryA (fs_Remove F g)) (\<lambda>_. case r of Inr _ \<Rightarrow> returnA () | Inl e \<Rightarrow> errA e))) (\<lambda>_. ?R) (\<lambda>_. D) D v"
    if g: "g = path_join dir (''.tmp'' @ sfx)"
      and m: "outcome m (\<lambda>_ v. half_done files g ?t bin w v \<and> files v ?t = Some bin) (\<lambda>_. half_done files g ?t bin w) (half_done files g ?t bin w) v"
    for m :: "('a, unit) act" and g sfx v
    unfolding outcome_bindA outcome_tryA
    by (rule outcome_mono [OF m]; (rule outcome_mono [OF rm [OF g]])?) (use half g in \<open>auto simp: outcome_returnA outcome_errA\<close>)
  have "outcome (installCoil F coilPath dir) (\<lambda>_. ?R) (\<lambda>_. D) D w"
    unfolding installCoil_def outcome_bindA [of "fs_Open F coilPath"] outcome_bindA [of "fs_MkdirAll F dir"] outcome_bindA [of "fs_CreateTemp F dir ''.tmp''"]
  proof (rule outcome_mono [OF leave [OF fs_leaves(1) [OF assms(1)] refl]], rule outcome_mono [OF leave [OF fs_leaves(2) [OF assms(1)]]], assumption, rule outcome_call)
    fix v1 r v2 assume v1: "files v1 = files w" and run: "fs_CreateTemp F dir ''.tmp'' v1 = (r, v2)"
    show "case r of Ok g \<Rightarrow> outcome (bindA (tryA (bindA (fs_Copy F coilPath g) (\<lambda>_. bindA (fs_Chmod F g 493) (\<lambda>_. bindA (fs_Sync F g) (\<lambda>_. fs_Rename F g ?t)))))
        (\<lambda>r. bindA (tryA (fs_Remove F g)) (\<lambda>_. case r of Inr _ \<Rightarrow> returnA () | Inl e \<Rightarrow> errA e))) (\<lambda>_. ?R) (\<lambda>_. D) D v2 | Err _ \<Rightarrow> D v2 | Panic _ \<Rightarrow> D v2"
    proof (cases r)
      case (Ok g)
      then obtain sfx where g: "g = path_join dir (''.tmp'' @ sfx)" "files w g = None" "files v2 = (files w)(g \<mapsto> [])"
        using fs_temp [OF assms(1) run] v1 by auto
      have "g \<noteq> ?t" "g \<noteq> coilPath" using g assms(2) by (auto simp: path_join_def)
      from body [OF g(1) replace_outcome [OF assms(1) this assms(2) g(3)]] show ?thesis using Ok by simp
    qed (use fs_temp [OF assms(1) run] v1 same in auto)
  qed
  then show ?thesis using assms(3) unfolding outcome_def D_def by (auto split: res.splits)
qed

text \<open>A file system as a map from paths to contents.\<close>

definition ref_fs :: "string gomap file_ops" where
  "ref_fs = \<lparr>fs_ReadFile = (\<lambda>p w. (case glookup w p of Some c \<Rightarrow> Ok c | None \<Rightarrow> Err (Sentinel OsErrNotExist), w)), fs_MkdirAll = (\<lambda>_. returnA ()),
     fs_ReadDir = (\<lambda>_. returnA []), fs_Remove = (\<lambda>p w. if glookup w p = None then (Err (Sentinel OsErrNotExist), w) else (Ok (), gdelete p w)),
     fs_Create = (\<lambda>p w. (Ok (), gupdate p [] w)), fs_Chmod = (\<lambda>_ _. returnA ()), fs_Write = (\<lambda>p c w. (Ok (), gupdate p c w)), fs_Sync = (\<lambda>_. returnA ()),
     fs_Open = (\<lambda>p w. (if glookup w p = None then Err (Sentinel OsErrNotExist) else Ok (), w)),
     fs_CreateTemp = (\<lambda>d pat w. let g = path_join d (pat @ ''0'') in if glookup w g = None then (Ok g, gupdate g [] w) else (Err (Sentinel EEXIST), w)),
     fs_Copy = (\<lambda>p g w. case glookup w p of Some c \<Rightarrow> (Ok (), gupdate g c w) | None \<Rightarrow> (Err (Sentinel OsErrNotExist), gupdate g [] w)),
     fs_Rename = (\<lambda>p q w. case glookup w p of Some c \<Rightarrow> (Ok (), gupdate q c (gdelete p w)) | None \<Rightarrow> (Err (Sentinel OsErrNotExist), w))\<rparr>"

lemma ref_fs_laws: "fs_laws glookup ref_fs"
  unfolding fs_laws_def by (intro conjI allI impI) (auto simp: ref_fs_def leaves_def returnA_def Let_def fun_eq_iff split: if_splits option.splits)

theorem installCoil_atomic_witness:
  "\<exists>w'. installCoil ref_fs ''/coil'' ''/bin'' [(''/coil'', ''new''), (''/bin/coil'', ''old'')] = (Ok (), w') \<and> glookup w' ''/bin/coil'' = Some ''new''"
proof -
  let ?w = "[(''/coil'', ''new''), (''/bin/coil'', ''old'')]"
  obtain r w' where run: "installCoil ref_fs ''/coil'' ''/bin'' ?w = (r, w')" by (metis prod.collapse)
  have "fst (installCoil ref_fs ''/coil'' ''/bin'' ?w) = Ok ()" by code_simp
  then have r: "r = Ok ()" using run by simp
  have bin: "glookup ?w ''/coil'' = Some ''new''" by simp
  show ?thesis using installCoil_atomic [OF ref_fs_laws bin run] run r by (simp add: path_join_def)
qed

end
