(* ===== verification/Manager.thy ===== *)
theory Manager
  imports Ipam_Controllers Egress_Controller Cert_Installer
begin

text \<open>
  The manager of controller-runtime, to which every process of the system registers its parts before it starts: the \<open>SetupWithManager\<close> functions
  under \<open>controllers/\<close> with their event filters, the \<open>SetupWebhookWithManager\<close> functions under \<open>api/v2/\<close>, the indexes of \<open>pkg/indexing\<close> and the rotator of
  certificates of \<open>pkg/cert\<close>. The manager itself, its builders and the rotator are parameters. A registered reconciler or runner is named by the constructor of a
  datatype; what it does is the definition of the component. \<open>scripted\<close> says that a function registers the given things one after the other and stops at the first failure.
\<close>

section \<open>The program\<close>

subsection \<open>The manager\<close>

record webhook_options =
  wo_Host :: string
  wo_Port :: int
  wo_certPath :: string
  wo_keyPath :: string

record manager_options =
  mo_LeaderElection :: bool
  mo_LeaderElectionID :: string
  mo_LeaderElectionNamespace :: string
  mo_MetricsAddr :: string
  mo_GracefulShutdownTimeout :: int
  mo_HealthProbeBindAddress :: string
  mo_WebhookServer :: "webhook_options option"

datatype checker = Ping | WebhookStarted | PodSyncChecker

text \<open>The objects of events and of the cache: BlockRequests, Pods with their metadata and the name of their node, and the metadata of other objects.\<close>

datatype client_object = ObjBlockRequest BlockRequest | ObjPod object_meta string | ObjOther object_meta

datatype event = CreateEvent client_object | UpdateEvent client_object client_object | DeleteEvent client_object | GenericEvent client_object

datatype reconciler =
    AddressPoolReconciler
  | BlockRequestReconciler
  | BlockRequestWatcher string
  | AddressBlockReconciler
  | EgressReconcilerR EgressReconciler
  | CRBReconciler
  | EgressWatcherR string int string bool
  | PodWatcherR

record controller =
  ct_For :: string
  ct_ForPredicate :: "event \<Rightarrow> bool"
  ct_Owns :: "(string \<times> (event \<Rightarrow> bool)) list"
  ct_Reconciler :: reconciler

datatype runnable = GarbageCollector int | CoildServer | RouterR string int int | InitialPodSync

datatype webhook_type = Validating | Mutating

record CertRotator =
  cr_SecretKey :: "string \<times> string"
  cr_CertDir :: string
  cr_CAName :: string
  cr_CAOrganization :: string
  cr_DNSName :: string
  cr_ExtraDNSNames :: "string list"
  cr_RequireLeaderElection :: bool
  cr_Webhooks :: "(string \<times> webhook_type) list"
  cr_RestartOnSecretRefresh :: bool

record 'w manager_ops =
  mg_NewManager :: "manager_options \<Rightarrow> ('w, unit) act"
  mg_AddHealthzCheck :: "string \<Rightarrow> checker \<Rightarrow> ('w, unit) act"
  mg_AddReadyzCheck :: "string \<Rightarrow> checker \<Rightarrow> ('w, unit) act"
  mg_Complete :: "controller \<Rightarrow> ('w, unit) act"
  mg_CompleteWebhook :: "string \<Rightarrow> ('w, unit) act"
  mg_IndexField :: "string \<Rightarrow> string \<Rightarrow> (client_object \<Rightarrow> string list) \<Rightarrow> ('w, unit) act"
  mg_AddRotator :: "CertRotator \<Rightarrow> ('w, unit) act"
  mg_Add :: "runnable \<Rightarrow> ('w, unit) act"
  mg_Start :: "('w, unit) act"

subsection \<open>Controllers\<close>

definition every_event :: "event \<Rightarrow> bool" where
  "every_event ev = True"

fun only_deletes :: "event \<Rightarrow> bool" where
  "only_deletes (CreateEvent _) = False"
| "only_deletes (UpdateEvent _ _) = False"
| "only_deletes (DeleteEvent _) = True"
| "only_deletes (GenericEvent _) = False"

definition AddressPool_SetupWithManager :: "'w manager_ops \<Rightarrow> ('w, unit) act" where
  "AddressPool_SetupWithManager M = mg_Complete M \<lparr>ct_For = ''AddressPool'', ct_ForPredicate = every_event,
     ct_Owns = [(''AddressBlock'', only_deletes)], ct_Reconciler = AddressPoolReconciler\<rparr>"

text \<open>A failed type assertion panics; the builder gives a filter the objects of its kind only.\<close>

definition on_request :: "(BlockRequest \<Rightarrow> bool) \<Rightarrow> client_object \<Rightarrow> bool" where
  "on_request f ob = (case ob of ObjBlockRequest br \<Rightarrow> f br | _ \<Rightarrow> False)"

fun BlockRequest_predicate :: "event \<Rightarrow> bool" where
  "BlockRequest_predicate (CreateEvent _) = True"
| "BlockRequest_predicate (UpdateEvent _ new) = on_request BlockRequest_UpdateFunc new"
| "BlockRequest_predicate (DeleteEvent _) = False"
| "BlockRequest_predicate (GenericEvent _) = True"

definition BlockRequest_SetupWithManager :: "'w manager_ops \<Rightarrow> ('w, unit) act" where
  "BlockRequest_SetupWithManager M = mg_Complete M \<lparr>ct_For = ''BlockRequest'', ct_ForPredicate = BlockRequest_predicate, ct_Owns = [],
     ct_Reconciler = BlockRequestReconciler\<rparr>"

fun BlockRequestWatcher_predicate :: "string \<Rightarrow> event \<Rightarrow> bool" where
  "BlockRequestWatcher_predicate nodeName (CreateEvent ob) = on_request (BlockRequestWatcher_filter nodeName) ob"
| "BlockRequestWatcher_predicate nodeName (UpdateEvent _ new) = on_request (BlockRequestWatcher_filter nodeName) new"
| "BlockRequestWatcher_predicate nodeName (DeleteEvent _) = False"
| "BlockRequestWatcher_predicate nodeName (GenericEvent _) = True"

definition BlockRequestWatcher_SetupWithManager :: "'w manager_ops \<Rightarrow> string \<Rightarrow> ('w, unit) act" where
  "BlockRequestWatcher_SetupWithManager M nodeName = mg_Complete M \<lparr>ct_For = ''BlockRequest'', ct_ForPredicate = BlockRequestWatcher_predicate nodeName,
     ct_Owns = [], ct_Reconciler = BlockRequestWatcher nodeName\<rparr>"

definition AddressBlock_SetupWithManager :: "'w manager_ops \<Rightarrow> ('w, unit) act" where
  "AddressBlock_SetupWithManager M = mg_Complete M \<lparr>ct_For = ''AddressBlock'', ct_ForPredicate = every_event, ct_Owns = [],
     ct_Reconciler = AddressBlockReconciler\<rparr>"

definition Egress_SetupWithManager :: "'w manager_ops \<Rightarrow> EgressReconciler \<Rightarrow> ('w, unit) act" where
  "Egress_SetupWithManager M r = mg_Complete M \<lparr>ct_For = ''Egress'', ct_ForPredicate = every_event,
     ct_Owns = [(''Deployment'', every_event), (''Service'', every_event), (''PodDisruptionBudget'', every_event)], ct_Reconciler = EgressReconcilerR r\<rparr>"

definition object_filter :: "(object_meta \<Rightarrow> bool) \<Rightarrow> client_object \<Rightarrow> bool" where
  "object_filter f ob = f (case ob of ObjBlockRequest br \<Rightarrow> br_meta br | ObjPod m _ \<Rightarrow> m | ObjOther m \<Rightarrow> m)"

text \<open>\<open>predicate.NewPredicateFuncs\<close>.\<close>

fun NewPredicateFuncs :: "(object_meta \<Rightarrow> bool) \<Rightarrow> event \<Rightarrow> bool" where
  "NewPredicateFuncs f (CreateEvent ob) = object_filter f ob"
| "NewPredicateFuncs f (UpdateEvent _ new) = object_filter f new"
| "NewPredicateFuncs f (DeleteEvent ob) = object_filter f ob"
| "NewPredicateFuncs f (GenericEvent ob) = object_filter f ob"

definition SetupCRBReconciler :: "'w manager_ops \<Rightarrow> ('w, unit) act" where
  "SetupCRBReconciler M = mg_Complete M \<lparr>ct_For = ''ClusterRoleBinding'', ct_ForPredicate = NewPredicateFuncs crb_filter, ct_Owns = [],
     ct_Reconciler = CRBReconciler\<rparr>"

definition EgressWatcher_SetupWithManager :: "'w manager_ops \<Rightarrow> string \<Rightarrow> int \<Rightarrow> string \<Rightarrow> bool \<Rightarrow> ('w, unit) act" where
  "EgressWatcher_SetupWithManager M nodeName port backend originatingOnly = mg_Complete M \<lparr>ct_For = ''Egress'', ct_ForPredicate = every_event, ct_Owns = [],
     ct_Reconciler = EgressWatcherR nodeName port backend originatingOnly\<rparr>"

subsection \<open>Webhooks, indexes and certificates\<close>

definition AddressPool_SetupWebhookWithManager :: "'w manager_ops \<Rightarrow> ('w, unit) act" where
  "AddressPool_SetupWebhookWithManager M = mg_CompleteWebhook M ''AddressPool''"

definition Egress_SetupWebhookWithManager :: "'w manager_ops \<Rightarrow> ('w, unit) act" where
  "Egress_SetupWebhookWithManager M = mg_CompleteWebhook M ''Egress''"

definition AddressBlockRequestKey :: string where "AddressBlockRequestKey = ''address-block.request''"
definition PodNodeNameKey :: string where "PodNodeNameKey = ''pod.node-name''"

definition object_labels :: "client_object \<Rightarrow> string gomap" where
  "object_labels ob = om_Labels (case ob of ObjBlockRequest br \<Rightarrow> br_meta br | ObjPod m _ \<Rightarrow> m | ObjOther m \<Rightarrow> m)"

definition request_index :: "client_object \<Rightarrow> string list" where
  "request_index ob = (let val = gget (object_labels ob) LabelRequest in if val = [] then [] else [val])"

definition SetupIndexForAddressBlock :: "'w manager_ops \<Rightarrow> ('w, unit) act" where
  "SetupIndexForAddressBlock M = mg_IndexField M ''AddressBlock'' AddressBlockRequestKey request_index"

definition node_index :: "client_object \<Rightarrow> string list" where
  "node_index ob = (case ob of ObjPod _ nodeName \<Rightarrow> [nodeName] | _ \<Rightarrow> [])"

definition SetupIndexForPodByNodeName :: "'w manager_ops \<Rightarrow> ('w, unit) act" where
  "SetupIndexForPodByNodeName M = mg_IndexField M ''Pod'' PodNodeNameKey node_index"

definition cert_rotator :: "string \<Rightarrow> bool \<Rightarrow> string \<Rightarrow> CertRotator" where
  "cert_rotator objectType enableRestartOnCertRefresh certDir =
     (let podNamespace = ''kube-system''; serviceName = ''coilv2-'' @ objectType @ ''-webhook-service''; secretName = ''coilv2-'' @ objectType @ ''-webhook-server-cert'' in
      \<lparr>cr_SecretKey = (podNamespace, secretName), cr_CertDir = certDir, cr_CAName = ''coil-'' @ objectType @ ''-ca'', cr_CAOrganization = ''coil'',
       cr_DNSName = serviceName @ ''.'' @ podNamespace @ ''.svc'', cr_ExtraDNSNames = [serviceName @ ''.'' @ podNamespace @ ''.svc.cluster.local''],
       cr_RequireLeaderElection = False,
       cr_Webhooks = [(''coilv2-validating-'' @ objectType @ ''-webhook-configuration'', Validating), (''coilv2-mutating-'' @ objectType @ ''-webhook-configuration'', Mutating)],
       cr_RestartOnSecretRefresh = enableRestartOnCertRefresh\<rparr>)"

definition SetupRotator :: "'w manager_ops \<Rightarrow> string \<Rightarrow> bool \<Rightarrow> string \<Rightarrow> ('w, unit) act" where
  "SetupRotator M objectType enableRestartOnCertRefresh certDir =
     wrapA ''unable to set up cert rotation'' (mg_AddRotator M (cert_rotator objectType enableRestartOnCertRefresh certDir))"


section \<open>Registration in order\<close>

datatype registration =
    RegManager manager_options
  | RegHealthz string checker
  | RegReadyz string checker
  | RegController controller
  | RegWebhook string
  | RegIndex string string "client_object \<Rightarrow> string list"
  | RegRotator CertRotator
  | RegRunnable runnable
  | RegStart

named_theorems script_intros

text \<open>The manager keeps what was registered, in order; a call that fails registers nothing, and \<open>Start\<close> counts as soon as it is called.\<close>

definition logs :: "('w \<Rightarrow> registration list) \<Rightarrow> registration \<Rightarrow> ('w, unit) act \<Rightarrow> bool" where
  "logs reg x m \<longleftrightarrow> (\<forall>w r w'. m w = (r, w') \<longrightarrow> reg w' = (if r = Ok () then reg w @ [x] else reg w))"

definition manager_laws :: "('w \<Rightarrow> registration list) \<Rightarrow> 'w manager_ops \<Rightarrow> bool" where
  "manager_laws reg M \<longleftrightarrow> (\<forall>x. logs reg (RegManager x) (mg_NewManager M x)) \<and> (\<forall>n c. logs reg (RegHealthz n c) (mg_AddHealthzCheck M n c)) \<and>
     (\<forall>n c. logs reg (RegReadyz n c) (mg_AddReadyzCheck M n c)) \<and> (\<forall>x. logs reg (RegController x) (mg_Complete M x)) \<and>
     (\<forall>x. logs reg (RegWebhook x) (mg_CompleteWebhook M x)) \<and> (\<forall>k n f. logs reg (RegIndex k n f) (mg_IndexField M k n f)) \<and>
     (\<forall>x. logs reg (RegRotator x) (mg_AddRotator M x)) \<and> (\<forall>x. logs reg (RegRunnable x) (mg_Add M x)) \<and>
     (\<forall>w r w'. mg_Start M w = (r, w') \<longrightarrow> reg w' = reg w @ [RegStart])"

definition scripted :: "('w \<Rightarrow> registration list) \<Rightarrow> registration list \<Rightarrow> ('w, 'a) act \<Rightarrow> bool" where
  "scripted reg xs m \<longleftrightarrow> (\<forall>w r w'. m w = (r, w') \<longrightarrow> (\<exists>k \<le> length xs. reg w' = reg w @ take k xs \<and> (k < length xs \<longrightarrow> (\<nexists>x. r = Ok x))))"

lemma scripted_logs: "logs reg x m \<Longrightarrow> scripted reg [x] m"
  unfolding scripted_def
proof (intro allI impI)
  fix w r w' assume "logs reg x m" "m w = (r, w')"
  then have l: "reg w' = (if r = Ok () then reg w @ [x] else reg w)" unfolding logs_def by blast
  show "\<exists>k \<le> length [x]. reg w' = reg w @ take k [x] \<and> (k < length [x] \<longrightarrow> (\<nexists>y. r = Ok y))"
    by (rule exI [of _ "if r = Ok () then 1 else 0"]) (simp add: l)
qed

lemma scripted_laws [script_intros]:
  assumes "manager_laws reg M"
  shows "scripted reg [RegManager o1] (mg_NewManager M o1)" "scripted reg [RegHealthz n c] (mg_AddHealthzCheck M n c)"
    "scripted reg [RegReadyz n c] (mg_AddReadyzCheck M n c)" "scripted reg [RegController ct] (mg_Complete M ct)" "scripted reg [RegWebhook n] (mg_CompleteWebhook M n)"
    "scripted reg [RegIndex n n' f] (mg_IndexField M n n' f)" "scripted reg [RegRotator cr] (mg_AddRotator M cr)" "scripted reg [RegRunnable rn] (mg_Add M rn)"
    "scripted reg [RegStart] (mg_Start M)"
proof -
  show "scripted reg [RegStart] (mg_Start M)" using assms unfolding manager_laws_def scripted_def
    by (intro allI impI exI [of _ 1]) simp
qed (rule scripted_logs; use assms in \<open>simp add: manager_laws_def\<close>)+

lemma scripted_bindA [script_intros]:
  assumes "scripted reg xs m" and "\<And>x. scripted reg ys (k x)"
  shows "scripted reg (xs @ ys) (bindA m k)"
  unfolding scripted_def
proof (intro allI impI)
  fix w r w' assume run: "bindA m k w = (r, w')"
  obtain r1 w1 where m: "m w = (r1, w1)" by (cases "m w")
  then obtain i where i: "i \<le> length xs" "reg w1 = reg w @ take i xs" "i < length xs \<longrightarrow> (\<nexists>x. r1 = Ok x)" using assms(1) unfolding scripted_def by blast
  show "\<exists>j \<le> length (xs @ ys). reg w' = reg w @ take j (xs @ ys) \<and> (j < length (xs @ ys) \<longrightarrow> (\<nexists>x. r = Ok x))"
  proof (cases "\<exists>x. r1 = Ok x")
    case True
    then obtain x where x: "r1 = Ok x" by blast
    then have full: "reg w1 = reg w @ xs" using i by (cases "i < length xs") auto
    have "k x w1 = (r, w')" using run m x by (simp add: bindA_def)
    then obtain j where "j \<le> length ys" "reg w' = reg w1 @ take j ys" "j < length ys \<longrightarrow> (\<nexists>x. r = Ok x)" using assms(2) unfolding scripted_def by blast
    then show ?thesis using full by (intro exI [of _ "length xs + j"]) simp
  next
    case False
    then have "w' = w1 \<and> (\<nexists>x. r = Ok x)" using run m by (cases r1) (auto simp: bindA_def)
    then show ?thesis using i by (intro exI [of _ i]) simp
  qed
qed

lemma scripted_nil [script_intros]: "scripted reg [] (returnA x)" "scripted reg [] (errA e)" "scripted reg [] (resA q)"
  by (simp_all add: scripted_def returnA_def errA_def resA_def)

lemma scripted_leaves: "leaves reg m \<Longrightarrow> scripted reg [] m"
  by (auto simp: scripted_def leaves_def)

lemma scripted_wrapA [script_intros]: "scripted reg xs m \<Longrightarrow> scripted reg xs (wrapA t m)"
  unfolding scripted_def wrapA_def by (fastforce split: prod.splits res.splits)

lemma scripted_if [script_intros]: "scripted reg xs m \<Longrightarrow> scripted reg ys m' \<Longrightarrow> scripted reg (if b then xs else ys) (if b then m else m')"
  by simp

text \<open>With \<open>Start\<close> at the end only, a process that starts has registered everything.\<close>

lemma scripted_complete:
  assumes "scripted reg (xs @ [RegStart]) m" and "RegStart \<notin> set xs" and "m w = (r, w')"
  shows "\<exists>ys. reg w' = reg w @ ys \<and> (RegStart \<in> set ys \<or> (\<exists>x. r = Ok x) \<longrightarrow> ys = xs @ [RegStart])"
proof -
  obtain k where k: "k \<le> length (xs @ [RegStart])" "reg w' = reg w @ take k (xs @ [RegStart])" "k < length (xs @ [RegStart]) \<longrightarrow> (\<nexists>x. r = Ok x)"
    using assms(1,3) unfolding scripted_def by blast
  show ?thesis
  proof (cases "k < length (xs @ [RegStart])")
    case True
    then have "take k (xs @ [RegStart]) = take k xs" by simp
    moreover have "RegStart \<notin> set (take k xs)" using assms(2) in_set_takeD by fast
    ultimately show ?thesis using k True by (intro exI [of _ "take k xs"]) simp
  next
    case False
    then show ?thesis using k by (intro exI [of _ "xs @ [RegStart]"]) simp
  qed
qed

end
