(* ===== verification/Metrics.thy ===== *)
theory Metrics
  imports Packet_Filter Kube_Api
begin

text \<open>
  The metrics of an egress pod, \<open>pkg/metrics/collector.go\<close> and \<open>pkg/metrics/egress.go\<close>: a runner updates gauges of Prometheus every thirty seconds with
  the entries of the connection tracker and with the counters of the packet filter rules of the NAT server.
  Prometheus, \<open>google/nftables\<close> and the reading of files are parameters; a \<open>float64\<close> made of an unsigned integer is a whole number and is modelled as this number.
  The help texts of the gauges are left out.
\<close>

section \<open>Go\<close>

text \<open>\<open>unicode.IsSpace\<close>: the white space characters in UTF-8.\<close>

definition unicode_spaces :: "nat list list" where
  "unicode_spaces = map (\<lambda>c. [c]) [9, 10, 11, 12, 13, 32] @ [[194, 133], [194, 160], [225, 154, 128]] @ map (\<lambda>c. [226, 128, c]) [128..<139] @
     [[226, 128, 168], [226, 128, 169], [226, 128, 175], [226, 129, 159], [227, 128, 128]]"

definition space_prefix :: "string list \<Rightarrow> string \<Rightarrow> nat" where
  "space_prefix sps s = (case List.find (HasPrefix s) sps of Some p \<Rightarrow> length p | None \<Rightarrow> 0)"

fun trim_left :: "string list \<Rightarrow> string \<Rightarrow> string" where
  "trim_left sps [] = []"
| "trim_left sps (c # s) = (case space_prefix sps (c # s) of 0 \<Rightarrow> c # s | Suc k \<Rightarrow> trim_left sps (drop k s))"

text \<open>\<open>strings.TrimSpace\<close>. UTF-8 synchronises, so an encoded space at the end of a string is the last character of it.\<close>

definition TrimSpace :: "string \<Rightarrow> string" where
  "TrimSpace s = (let sps = map (map char_of) unicode_spaces in rev (trim_left (map rev sps) (rev (trim_left sps s))))"

text \<open>\<open>strconv.ParseUint(s, 10, 64)\<close>, without the quoting of unprintable characters in its errors.\<close>

definition num_error :: "string \<Rightarrow> string \<Rightarrow> error" where
  "num_error s why = ErrorMsg (''strconv.ParseUint: parsing '' @ [CHR 0x22] @ s @ [CHR 0x22] @ '': '' @ why)"

fun parse_uint :: "string \<Rightarrow> nat \<Rightarrow> string \<Rightarrow> nat res" where
  "parse_uint s n [] = Ok n"
| "parse_uint s n (c # cs) =
     (if \<not> isdigit c then Err (num_error s ''invalid syntax'')
      else if n \<ge> (2 ^ 64 - 1) div 10 + 1 then Err (num_error s ''value out of range'')
      else let n1 = n * 10 + digit_val c in
        if n1 \<ge> 2 ^ 64 then Err (num_error s ''value out of range'') else parse_uint s n1 cs)"

definition ParseUint :: "string \<Rightarrow> nat res" where
  "ParseUint s = (if s = [] then Err (num_error s ''invalid syntax'') else parse_uint s 0 s)"

text \<open>\<open>float64(n)\<close>: the number itself up to 53 bits, otherwise the nearest number with 53 significant bits, the even one of two.\<close>

fun excess_bits :: "nat \<Rightarrow> nat" where
  "excess_bits n = (if n < 2 ^ 53 then 0 else Suc (excess_bits (n div 2)))"

declare excess_bits.simps [simp del]

definition float64 :: "nat \<Rightarrow> nat" where
  "float64 n = (let e = excess_bits n; q = n div 2 ^ e; r = n mod 2 ^ e in
     if 2 * r > 2 ^ e \<or> 2 * r = 2 ^ e \<and> odd q then (q + 1) * 2 ^ e else q * 2 ^ e)"

section \<open>The program\<close>

subsection \<open>The collector of an egress pod\<close>

definition NF_CONNTRACK_COUNT_PATH :: string where "NF_CONNTRACK_COUNT_PATH = ''/proc/sys/net/netfilter/nf_conntrack_count''"
definition NF_CONNTRACK_LIMIT_PATH :: string where "NF_CONNTRACK_LIMIT_PATH = ''/proc/sys/net/netfilter/nf_conntrack_max''"

record gauge_vec =
  gv_Namespace :: string
  gv_Subsystem :: string
  gv_Name :: string
  gv_Labels :: "string list"

definition NfConntrackCount :: gauge_vec where
  "NfConntrackCount = \<lparr>gv_Namespace = MetricsNS, gv_Subsystem = ''egress'', gv_Name = ''nf_conntrack_entries_count'', gv_Labels = [''namespace'', ''pod'', ''egress'']\<rparr>"

definition NfConntrackLimit :: gauge_vec where
  "NfConntrackLimit = \<lparr>gv_Namespace = MetricsNS, gv_Subsystem = ''egress'', gv_Name = ''nf_conntrack_entries_limit'', gv_Labels = [''namespace'', ''pod'', ''egress'']\<rparr>"

definition NfTableMasqueradePackets :: gauge_vec where
  "NfTableMasqueradePackets = \<lparr>gv_Namespace = MetricsNS, gv_Subsystem = ''egress'', gv_Name = ''nftables_masqueraded_packets_total'',
     gv_Labels = [''namespace'', ''pod'', ''egress'', ''protocol'']\<rparr>"

definition NfTableMasqueradeBytes :: gauge_vec where
  "NfTableMasqueradeBytes = \<lparr>gv_Namespace = MetricsNS, gv_Subsystem = ''egress'', gv_Name = ''nftables_masqueraded_bytes_total'',
     gv_Labels = [''namespace'', ''pod'', ''egress'', ''protocol'']\<rparr>"

definition NfTableInvalidPackets :: gauge_vec where
  "NfTableInvalidPackets = \<lparr>gv_Namespace = MetricsNS, gv_Subsystem = ''egress'', gv_Name = ''nftables_invalid_packets_total'',
     gv_Labels = [''namespace'', ''pod'', ''egress'', ''protocol'']\<rparr>"

definition NfTableInvalidBytes :: gauge_vec where
  "NfTableInvalidBytes = \<lparr>gv_Namespace = MetricsNS, gv_Subsystem = ''egress'', gv_Name = ''nftables_invalid_bytes_total'',
     gv_Labels = [''namespace'', ''pod'', ''egress'', ''protocol'']\<rparr>"

lemmas gauge_vec_defs = NfConntrackCount_def NfConntrackLimit_def NfTableMasqueradePackets_def NfTableMasqueradeBytes_def
  NfTableInvalidPackets_def NfTableInvalidBytes_def MetricsNS_def

text \<open>Prometheus; \<open>'g\<close> are its gauges.\<close>

record ('w, 'g) prom_ops =
  pr_Reset :: "gauge_vec \<Rightarrow> ('w, unit) act"
  pr_WithLabelValues :: "gauge_vec \<Rightarrow> string list \<Rightarrow> ('w, 'g) act"
  pr_Set :: "'g \<Rightarrow> nat \<Rightarrow> ('w, unit) act"

record ('w, 'g) metrics_env =
  me_prom :: "('w, 'g) prom_ops"
  me_nft :: "'w nft_ops"
  me_ReadFile :: "string \<Rightarrow> ('w, string) act"
  me_range :: range_order

record 'g nfTablesPerProtocolMetrics =
  NATPackets :: 'g
  NATBytes :: 'g
  InvalidPackets :: 'g
  InvalidBytes :: 'g

record 'g egressCollector =
  col_nfConntrackCount :: 'g
  col_nfConntrackLimit :: 'g
  col_perProtocol :: "'g nfTablesPerProtocolMetrics gomap"

definition newNfTablesPerProtocolMetrics :: "('w, 'g) metrics_env \<Rightarrow> string \<Rightarrow> string \<Rightarrow> string \<Rightarrow> string \<Rightarrow> ('w, 'g nfTablesPerProtocolMetrics) act" where
  "newNfTablesPerProtocolMetrics E ns pod egress protocol =
     bindA (pr_WithLabelValues (me_prom E) NfTableMasqueradePackets [ns, pod, egress, protocol]) (\<lambda>np.
     bindA (pr_WithLabelValues (me_prom E) NfTableMasqueradeBytes [ns, pod, egress, protocol]) (\<lambda>nb.
     bindA (pr_WithLabelValues (me_prom E) NfTableInvalidPackets [ns, pod, egress, protocol]) (\<lambda>ip.
     bindA (pr_WithLabelValues (me_prom E) NfTableInvalidBytes [ns, pod, egress, protocol]) (\<lambda>ib.
     returnA \<lparr>NATPackets = np, NATBytes = nb, InvalidPackets = ip, InvalidBytes = ib\<rparr>))))"

fun per_protocols :: "('w, 'g) metrics_env \<Rightarrow> string \<Rightarrow> string \<Rightarrow> string \<Rightarrow> 'g nfTablesPerProtocolMetrics gomap \<Rightarrow> string list \<Rightarrow>
    ('w, 'g nfTablesPerProtocolMetrics gomap) act" where
  "per_protocols E ns pod egress acc [] = returnA acc"
| "per_protocols E ns pod egress acc (protocol # protocols) =
     bindA (newNfTablesPerProtocolMetrics E ns pod egress protocol) (\<lambda>m. per_protocols E ns pod egress (gupdate protocol m acc) protocols)"

definition NewEgressCollector :: "('w, 'g) metrics_env \<Rightarrow> string \<Rightarrow> string \<Rightarrow> string \<Rightarrow> string list \<Rightarrow> ('w, 'g egressCollector) act" where
  "NewEgressCollector E ns pod egress protocols =
     bindA (foreachA (pr_Reset (me_prom E)) [NfConntrackCount, NfConntrackLimit, NfTableMasqueradeBytes, NfTableMasqueradePackets,
       NfTableInvalidPackets, NfTableInvalidBytes]) (\<lambda>_.
     bindA (nft_New (me_nft E)) (\<lambda>_.
     bindA (per_protocols E ns pod egress [] protocols) (\<lambda>perProtocols.
     bindA (pr_WithLabelValues (me_prom E) NfConntrackCount [ns, pod, egress]) (\<lambda>cnt.
     bindA (pr_WithLabelValues (me_prom E) NfConntrackLimit [ns, pod, egress]) (\<lambda>lim.
     returnA \<lparr>col_nfConntrackCount = cnt, col_nfConntrackLimit = lim, col_perProtocol = perProtocols\<rparr>)))))"

definition readUintFromFile :: "('w, 'g) metrics_env \<Rightarrow> string \<Rightarrow> ('w, nat) act" where
  "readUintFromFile E path = bindA (me_ReadFile E path) (\<lambda>data. resA (ParseUint (TrimSpace data)))"

definition stringToTableFamily :: "string \<Rightarrow> table_family res" where
  "stringToTableFamily protocol = (if protocol = FamilyIPv4 then Ok TableFamilyIPv4 else if protocol = FamilyIPv6 then Ok TableFamilyIPv6
     else Err (ErrorMsg (''unsupported family type: '' @ protocol)))"

fun find_counter :: "nft_expr list \<Rightarrow> (nat \<times> nat) option" where
  "find_counter [] = None"
| "find_counter (e # es) = (case e of Counter packets bytes \<Rightarrow> Some (packets, bytes) | _ \<Rightarrow> find_counter es)"

fun first_counter :: "nft_rule list \<Rightarrow> (nat \<times> nat) option" where
  "first_counter [] = None"
| "first_counter (r # rs) = (case find_counter (nr_Exprs r) of Some c \<Rightarrow> Some c | None \<Rightarrow> first_counter rs)"

definition getNfTablesNATCounter :: "('w, 'g) metrics_env \<Rightarrow> string \<Rightarrow> ('w, nat \<times> nat) act" where
  "getNfTablesNATCounter E protocol =
     bindA (resA (stringToTableFamily protocol)) (\<lambda>family.
     let table = \<lparr>nt_Family = family, nt_Name = ''nat''\<rparr> in
     bindA (nft_GetRules (me_nft E) table \<lparr>nch_Name = ''POSTROUTING'', nch_Table = table, nch_Type = ChainTypeNAT, nch_Hook = HookPostrouting,
       nch_Priority = PriorityUnset, nch_Accept = False\<rparr>) (\<lambda>rules.
     case first_counter rules of Some c \<Rightarrow> returnA c | None \<Rightarrow> errA (ErrorMsg ''a masquerade rule is not found'')))"

definition getNfTablesInvalidCounter :: "('w, 'g) metrics_env \<Rightarrow> string \<Rightarrow> ('w, nat \<times> nat) act" where
  "getNfTablesInvalidCounter E protocol =
     bindA (resA (stringToTableFamily protocol)) (\<lambda>family.
     let table = \<lparr>nt_Family = family, nt_Name = ''filter''\<rparr> in
     bindA (nft_GetRules (me_nft E) table \<lparr>nch_Name = ''FORWARD'', nch_Table = table, nch_Type = ChainTypeFilter, nch_Hook = HookForward,
       nch_Priority = PriorityUnset, nch_Accept = False\<rparr>) (\<lambda>rules.
     case first_counter rules of Some c \<Rightarrow> returnA c | None \<Rightarrow> errA (ErrorMsg ''a rule for invalid packets is not found'')))"

definition update_protocol :: "('w, 'g) metrics_env \<Rightarrow> 'g egressCollector \<Rightarrow> string \<Rightarrow> ('w, unit) act" where
  "update_protocol E c protocol = (case glookup (col_perProtocol c) protocol of
       None \<Rightarrow> returnA ()
     | Some m \<Rightarrow>
         bindA (getNfTablesNATCounter E protocol) (\<lambda>(natPackets, natBytes).
         bindA (pr_Set (me_prom E) (NATPackets m) (float64 natPackets)) (\<lambda>_.
         bindA (pr_Set (me_prom E) (NATBytes m) (float64 natBytes)) (\<lambda>_.
         bindA (getNfTablesInvalidCounter E protocol) (\<lambda>(invalidPackets, invalidBytes).
         bindA (pr_Set (me_prom E) (InvalidPackets m) (float64 invalidPackets)) (\<lambda>_.
         pr_Set (me_prom E) (InvalidBytes m) (float64 invalidBytes)))))))"

definition Update :: "('w, 'g) metrics_env \<Rightarrow> 'g egressCollector \<Rightarrow> ('w, unit) act" where
  "Update E c =
     bindA (readUintFromFile E NF_CONNTRACK_COUNT_PATH) (\<lambda>val.
     bindA (pr_Set (me_prom E) (col_nfConntrackCount c) (float64 val)) (\<lambda>_.
     bindA (readUintFromFile E NF_CONNTRACK_LIMIT_PATH) (\<lambda>val.
     bindA (pr_Set (me_prom E) (col_nfConntrackLimit c) (float64 val)) (\<lambda>_.
     foreachA (update_protocol E c) (me_range E (gkeys (col_perProtocol c)))))))"

subsection \<open>The runner\<close>

record 'w Collector =
  co_Name :: string
  co_Update :: "('w, unit) act"

record 'w Runner =
  rn_collectors :: "'w Collector list"
  rn_interval :: int

definition NewRunner :: "'w Runner" where
  "NewRunner = \<lparr>rn_collectors = [], rn_interval = 30 * 10 ^ 9\<rparr>"

definition Runner_Register :: "'w Collector \<Rightarrow> 'w Runner \<Rightarrow> 'w Runner" where
  "Runner_Register c r = r\<lparr>rn_collectors := rn_collectors r @ [c]\<rparr>"

text \<open>\<open>collect\<close> runs the collectors in goroutines and waits for all; the argument is the order in which the scheduler lets them run, each as a whole.
  Failures are logged.\<close>

definition collect :: "('w Collector list \<Rightarrow> 'w Collector list) \<Rightarrow> 'w Runner \<Rightarrow> ('w, unit) act" where
  "collect sched r = foreachA (\<lambda>c. bindA (tryA (co_Update c)) (\<lambda>_. returnA ())) (sched (rn_collectors r))"

text \<open>\<open>Run\<close> never ends; this is its first \<open>n\<close> ticks.\<close>

definition Runner_Run :: "('w Collector list \<Rightarrow> 'w Collector list) \<Rightarrow> 'w Runner \<Rightarrow> nat \<Rightarrow> ('w, unit) act" where
  "Runner_Run sched r n = foreachA (\<lambda>_. collect sched r) [0..<n]"

definition egress_Collector :: "('w, 'g) metrics_env \<Rightarrow> 'g egressCollector \<Rightarrow> 'w Collector" where
  "egress_Collector E c = \<lparr>co_Name = ''egress-collector'', co_Update = Update E c\<rparr>"

section \<open>Numbers\<close>

lemma excess_bits_spec: "n div 2 ^ excess_bits n < 2 ^ 53 \<and> (excess_bits n > 0 \<longrightarrow> 2 ^ 52 \<le> n div 2 ^ excess_bits n)"
proof (induction n rule: excess_bits.induct)
  case (1 n)
  show ?case
  proof (cases "n < 2 ^ 53")
    case True
    then show ?thesis by (simp add: excess_bits.simps [of n])
  next
    case False
    let ?e = "excess_bits (n div 2)"
    have e: "excess_bits n = Suc ?e" using False by (simp add: excess_bits.simps [of n])
    have "n div 2 ^ Suc ?e = n div 2 div 2 ^ ?e" by (simp add: div_mult2_eq)
    moreover have "2 ^ 52 \<le> n div 2 div 2 ^ ?e" using 1 [OF False] False by (cases "?e = 0") auto
    ultimately show ?thesis using 1 [OF False] unfolding e by simp
  qed
qed

lemma float64_exact: "n \<le> 2 ^ 53 \<Longrightarrow> float64 n = n"
proof -
  assume "n \<le> 2 ^ 53"
  then consider "n < 2 ^ 53" | "n = 2 ^ 53" by linarith
  then show ?thesis
  proof cases
    case 1
    then show ?thesis by (simp add: float64_def excess_bits.simps [of n])
  next
    case 2
    then show ?thesis by (simp add: float64_def excess_bits.simps)
  qed
qed

text \<open>The rounding is off by at most one part in \<open>2 ^ 53\<close>.\<close>

lemma float64_error: "2 ^ 53 * \<bar>int (float64 n) - int n\<bar> \<le> int n"
proof (cases "excess_bits n = 0")
  case True
  then show ?thesis by (simp add: float64_def Let_def)
next
  case False
  define e q r where "e = excess_bits n" and "q = n div 2 ^ e" and "r = n mod 2 ^ e"
  have n: "n = q * 2 ^ e + r" unfolding q_def r_def by (rule div_mult_mod_eq [symmetric])
  have q: "2 ^ 52 \<le> q" using excess_bits_spec [of n] False by (simp add: q_def e_def)
  have r: "r < 2 ^ e" by (simp add: r_def)
  have f: "float64 n = (if 2 * r > 2 ^ e \<or> 2 * r = 2 ^ e \<and> odd q then (q + 1) * 2 ^ e else q * 2 ^ e)"
    by (simp add: float64_def Let_def e_def q_def r_def)
  have "2 * \<bar>int (float64 n) - int n\<bar> \<le> 2 ^ e"
  proof (cases "2 * r > 2 ^ e \<or> 2 * r = 2 ^ e \<and> odd q")
    case True
    then have fn: "float64 n = q * 2 ^ e + 2 ^ e" using f by (simp add: algebra_simps)
    have d: "int (float64 n) - int n = 2 ^ e - int r" using n fn by (simp add: algebra_simps)
    have lt: "int r < 2 ^ e" using r by (metis of_nat_less_iff of_nat_numeral of_nat_power)
    have "2 ^ e \<le> 2 * r" using True by linarith
    then have "2 ^ e \<le> 2 * int r" by (metis of_nat_le_iff of_nat_mult of_nat_numeral of_nat_power)
    then show ?thesis using lt unfolding d by simp
  next
    case False
    then have fn: "float64 n = q * 2 ^ e" using f by simp
    have "int (float64 n) - int n = - int r" using n fn by (simp add: algebra_simps)
    moreover have "2 * int r \<le> 2 ^ e" using False by (metis not_less of_nat_le_iff of_nat_mult of_nat_numeral of_nat_power)
    ultimately show ?thesis by simp
  qed
  then have "2 ^ 52 * (2 * \<bar>int (float64 n) - int n\<bar>) \<le> 2 ^ 52 * 2 ^ e" by (rule mult_left_mono) simp
  moreover have "2 ^ 52 * 2 ^ e \<le> n" unfolding n by (rule trans_le_add1 [OF mult_le_mono1 [OF q]])
  then have "int (2 ^ 52 * 2 ^ e) \<le> int n" by (simp only: of_nat_le_iff)
  then have "(2 ^ 52 :: int) * 2 ^ e \<le> int n" by simp
  ultimately have "2 ^ 52 * (2 * \<bar>int (float64 n) - int n\<bar>) \<le> int n" by (rule order_trans)
  then show ?thesis by simp
qed

lemma parse_uint_Ok: "parse_uint s n xs = Ok m \<Longrightarrow> n < 2 ^ 64 \<Longrightarrow> m < 2 ^ 64"
  by (induction s n xs rule: parse_uint.induct) (auto simp: Let_def split: if_splits)

lemma ParseUint_bound: "ParseUint s = Ok m \<Longrightarrow> m < 2 ^ 64"
  using parse_uint_Ok [of s 0 s m] by (auto simp: ParseUint_def split: if_splits)

lemma foldl_digits_ge: "n \<le> foldl (\<lambda>a c. a * 10 + digit_val c) n xs"
proof (induction xs arbitrary: n)
  case (Cons x xs)
  have "n \<le> n * 10 + digit_val x" by simp
  also have "\<dots> \<le> foldl (\<lambda>a c. a * 10 + digit_val c) (n * 10 + digit_val x) xs" by (rule Cons.IH)
  finally show ?case by simp
qed simp

lemma parse_uint_digits:
  "list_all isdigit xs \<Longrightarrow> foldl (\<lambda>a c. a * 10 + digit_val c) n xs < 2 ^ 64 \<Longrightarrow> parse_uint s n xs = Ok (foldl (\<lambda>a c. a * 10 + digit_val c) n xs)"
proof (induction xs arbitrary: n)
  case (Cons x xs)
  have "n * 10 + digit_val x < 2 ^ 64" using Cons.prems(2) foldl_digits_ge [of "n * 10 + digit_val x" xs] by simp
  then show ?case using Cons by (simp add: Let_def)
qed simp

lemma ParseUint_itoa: "n < 2 ^ 64 \<Longrightarrow> ParseUint (itoa n) = Ok n"
  using parse_uint_digits [of "itoa n" 0 "itoa n"] dval_itoa [of n] by (simp add: ParseUint_def dval_def list_all_iff itoa_digits)

lemma space_heads:
  "list_all (\<lambda>p. p \<noteq> [] \<and> \<not> isdigit (hd p)) (map (map char_of) unicode_spaces)"
  "list_all (\<lambda>p. p \<noteq> [] \<and> \<not> isdigit (hd p)) (map rev (map (map char_of) unicode_spaces))"
  by code_simp+

lemma trim_left_digit: "list_all (\<lambda>p. p \<noteq> [] \<and> \<not> isdigit (hd p)) sps \<Longrightarrow> isdigit c \<Longrightarrow> trim_left sps (c # s) = c # s"
proof -
  assume sps: "list_all (\<lambda>p. p \<noteq> [] \<and> \<not> isdigit (hd p)) sps" and c: "isdigit c"
  have "\<not> HasPrefix (c # s) p" if p: "p \<in> set sps" for p
  proof -
    obtain d q where "p = d # q" and "\<not> isdigit d" using p sps unfolding list_all_iff by (metis list.collapse)
    then show ?thesis using c by (auto simp: HasPrefix_def)
  qed
  then have "List.find (HasPrefix (c # s)) sps = None" by (simp add: find_None_iff)
  then show ?thesis by (simp add: space_prefix_def)
qed

lemma TrimSpace_number: "list_all isdigit xs \<Longrightarrow> xs \<noteq> [] \<Longrightarrow> TrimSpace (xs @ [CHR 0x0A]) = xs"
proof -
  assume xs: "list_all isdigit xs" "xs \<noteq> []"
  let ?sps = "map (map char_of) unicode_spaces" and ?rsps = "map rev (map (map char_of) unicode_spaces)"
  have "trim_left ?sps (xs @ [CHR 0x0A]) = xs @ [CHR 0x0A]"
    using xs trim_left_digit [OF space_heads(1)] by (cases xs) simp_all
  moreover have "space_prefix ?rsps (CHR 0x0A # s) = Suc 0" for s
  proof -
    have t: "?rsps = [CHR 0x09] # [CHR 0x0A] # drop 2 ?rsps" by code_simp
    show ?thesis unfolding space_prefix_def by (subst t) (simp add: HasPrefix_def)
  qed
  then have "trim_left ?rsps (CHR 0x0A # rev xs) = trim_left ?rsps (rev xs)" by simp
  moreover have "trim_left ?rsps (rev xs) = rev xs"
    using xs trim_left_digit [OF space_heads(2)] by (cases "rev xs") (auto simp: list_all_iff simp flip: set_rev [of xs])
  ultimately show ?thesis by (simp add: TrimSpace_def Let_def)
qed

text \<open>What the kernel prints is what is read.\<close>

lemma readUint_roundtrip: "n < 2 ^ 64 \<Longrightarrow> ParseUint (TrimSpace (itoa n @ [CHR 0x0A])) = Ok n"
  by (simp add: TrimSpace_number ParseUint_itoa list_all_iff itoa_digits)

text \<open>The rules of the NAT server have the counters the collector looks for.\<close>

lemma masq_rules_counted:
  "first_counter (\<lparr>nr_Table = t, nr_Chain = c, nr_UserData = u, nr_Exprs = masq_exprs T nf iface n\<rparr> # rs) = Some (0, 0)"
  "first_counter (\<lparr>nr_Table = t, nr_Chain = c, nr_UserData = u, nr_Exprs = drop_exprs T iface\<rparr> # rs) = Some (0, 0)"
  by (simp_all add: masq_exprs_def drop_exprs_def oif_is_def split: table_family.splits)

section \<open>Laws of Prometheus and of the readers\<close>

record 'g metric_view =
  mv_vals :: "gauge_vec \<times> string list \<Rightarrow> nat option"
  mv_kid :: "'g \<Rightarrow> (gauge_vec \<times> string list) option"
  mv_files :: "string \<Rightarrow> string option"
  mv_rules :: "table_family \<times> string \<times> string \<Rightarrow> nft_rule list"

text \<open>
  \<open>mv_vals\<close> is what the registry exports and \<open>mv_kid\<close> the place at which it exports a gauge: \<open>WithLabelValues\<close> gives a gauge for its labels,
  \<open>Set\<close> changes the value at the place of its gauge and \<open>Reset\<close> removes the places of a vector. The readers change nothing and return what is there.
\<close>

definition prom_laws :: "('w \<Rightarrow> 'g metric_view) \<Rightarrow> ('w, 'g) prom_ops \<Rightarrow> bool" where
  "prom_laws V P \<longleftrightarrow>
     (\<forall>g v w k. mv_kid (V w) g = Some k \<longrightarrow> post (pr_Set P g v) (\<lambda>_ w'. V w' = (V w)\<lparr>mv_vals := (mv_vals (V w))(k \<mapsto> v)\<rparr>) w) \<and>
     (\<forall>g v. leaves (\<lambda>w. mv_kid (V w)) (pr_Set P g v)) \<and>
     (\<forall>vec ls w. length ls = length (gv_Labels vec) \<longrightarrow>
       post (pr_WithLabelValues P vec ls) (\<lambda>g w'. mv_kid (V w') = (mv_kid (V w))(g \<mapsto> (vec, ls)) \<and> mv_kid (V w) g \<in> {None, Some (vec, ls)}) w)"

definition reader_laws :: "('w \<Rightarrow> 'g metric_view) \<Rightarrow> ('w, 'g) metrics_env \<Rightarrow> bool" where
  "reader_laws V E \<longleftrightarrow>
     (\<forall>p w. post (me_ReadFile E p) (\<lambda>d w'. mv_files (V w) p = Some d) w) \<and> (\<forall>p. leaves V (me_ReadFile E p)) \<and>
     (\<forall>t c w. post (nft_GetRules (me_nft E) t c) (\<lambda>rs w'. rs = mv_rules (V w) (nt_Family t, nt_Name t, nch_Name c)) w) \<and>
     (\<forall>t c. leaves V (nft_GetRules (me_nft E) t c)) \<and> leaves V (nft_New (me_nft E))"

lemma prom_laws_D:
  assumes "prom_laws V P"
  shows Set_law: "mv_kid (V w) g = Some k \<Longrightarrow> post (pr_Set P g v) (\<lambda>_ w'. V w' = (V w)\<lparr>mv_vals := (mv_vals (V w))(k \<mapsto> v)\<rparr>) w"
    and Set_kid: "leaves (\<lambda>w. mv_kid (V w)) (pr_Set P g v)"
    and WithLabelValues_law: "length ls = length (gv_Labels vec) \<Longrightarrow>
      post (pr_WithLabelValues P vec ls) (\<lambda>g w'. mv_kid (V w') = (mv_kid (V w))(g \<mapsto> (vec, ls)) \<and> mv_kid (V w) g \<in> {None, Some (vec, ls)}) w"
  using assms unfolding prom_laws_def by blast+

lemma reader_laws_D:
  assumes "reader_laws V E"
  shows ReadFile_law: "post (me_ReadFile E p) (\<lambda>d w'. mv_files (V w) p = Some d) w" and ReadFile_leaves: "leaves V (me_ReadFile E p)"
    and GetRules_law: "post (nft_GetRules (me_nft E) t c) (\<lambda>rs w'. rs = mv_rules (V w) (nt_Family t, nt_Name t, nch_Name c)) w"
    and GetRules_leaves: "leaves V (nft_GetRules (me_nft E) t c)" and New_leaves: "leaves V (nft_New (me_nft E))"
  using assms unfolding reader_laws_def by blast+

section \<open>Facts\<close>

lemma post_leaves: "post m Q w \<Longrightarrow> leaves v m \<Longrightarrow> post m (\<lambda>x w'. Q x w' \<and> v w' = v w) w"
  by (auto simp: outcome_def leaves_def split: res.splits prod.splits)

lemma readUint_post: "reader_laws V E \<Longrightarrow> post (readUintFromFile E p) (\<lambda>v w'. V w' = V w \<and> (\<exists>d. mv_files (V w) p = Some d \<and> ParseUint (TrimSpace d) = Ok v)) w"
  unfolding readUintFromFile_def
  by (rule post_bindA [OF post_leaves [OF ReadFile_law ReadFile_leaves]]) (auto simp: outcome_resA split: res.splits)

text \<open>What an update exports for the entries of the connection tracker, and for the rules of a protocol.\<close>

definition exports_file :: "'g metric_view \<Rightarrow> string \<Rightarrow> gauge_vec \<times> string list \<Rightarrow> 'g metric_view \<Rightarrow> bool" where
  "exports_file v path k v' \<longleftrightarrow> (\<exists>d n. mv_files v path = Some d \<and> ParseUint (TrimSpace d) = Ok n \<and> mv_vals v' k = Some (float64 n))"

definition exports_rules :: "'g metric_view \<Rightarrow> table_family \<times> string \<times> string \<Rightarrow> gauge_vec \<times> string list \<Rightarrow> gauge_vec \<times> string list \<Rightarrow> 'g metric_view \<Rightarrow> bool" where
  "exports_rules v ch kp kb v' \<longleftrightarrow> (\<exists>p b. first_counter (mv_rules v ch) = Some (p, b) \<and> mv_vals v' kp = Some (float64 p) \<and> mv_vals v' kb = Some (float64 b))"

definition exports_protocol :: "'g metric_view \<Rightarrow> string list \<Rightarrow> string \<Rightarrow> 'g metric_view \<Rightarrow> bool" where
  "exports_protocol v ls p v' \<longleftrightarrow> (\<exists>f. stringToTableFamily p = Ok f \<and>
     exports_rules v (f, natTable, natChain) (NfTableMasqueradePackets, ls @ [p]) (NfTableMasqueradeBytes, ls @ [p]) v' \<and>
     exports_rules v (f, filterTable, filterChain) (NfTableInvalidPackets, ls @ [p]) (NfTableInvalidBytes, ls @ [p]) v')"

text \<open>The gauges of the collector are exported under the labels of its pod.\<close>

definition protocol_live :: "('g \<Rightarrow> (gauge_vec \<times> string list) option) \<Rightarrow> string list \<Rightarrow> string \<Rightarrow> 'g nfTablesPerProtocolMetrics \<Rightarrow> bool" where
  "protocol_live K ls p m \<longleftrightarrow> K (NATPackets m) = Some (NfTableMasqueradePackets, ls @ [p]) \<and> K (NATBytes m) = Some (NfTableMasqueradeBytes, ls @ [p]) \<and>
     K (InvalidPackets m) = Some (NfTableInvalidPackets, ls @ [p]) \<and> K (InvalidBytes m) = Some (NfTableInvalidBytes, ls @ [p])"

definition protocols_live :: "('g \<Rightarrow> (gauge_vec \<times> string list) option) \<Rightarrow> string list \<Rightarrow> 'g nfTablesPerProtocolMetrics gomap \<Rightarrow> bool" where
  "protocols_live K ls ms \<longleftrightarrow> (\<forall>p m. glookup ms p = Some m \<longrightarrow> protocol_live K ls p m)"

definition collector_live :: "('g \<Rightarrow> (gauge_vec \<times> string list) option) \<Rightarrow> string list \<Rightarrow> 'g egressCollector \<Rightarrow> bool" where
  "collector_live K ls c \<longleftrightarrow> K (col_nfConntrackCount c) = Some (NfConntrackCount, ls) \<and> K (col_nfConntrackLimit c) = Some (NfConntrackLimit, ls) \<and>
     protocols_live K ls (col_perProtocol c)"

lemma getNAT_post:
  "reader_laws V E \<Longrightarrow> post (getNfTablesNATCounter E p)
     (\<lambda>c w'. V w' = V w \<and> (\<exists>f. stringToTableFamily p = Ok f \<and> first_counter (mv_rules (V w) (f, natTable, natChain)) = Some c)) w"
  unfolding getNfTablesNATCounter_def Let_def
  by (rule post_bindA [where P = "\<lambda>f w'. w' = w \<and> stringToTableFamily p = Ok f"], simp add: outcome_resA split: res.splits,
      rule post_bindA [OF post_leaves [OF GetRules_law GetRules_leaves]])
    (auto simp: outcome_returnA outcome_errA natTable_def natChain_def split: option.splits)

lemma getInvalid_post:
  "reader_laws V E \<Longrightarrow> post (getNfTablesInvalidCounter E p)
     (\<lambda>c w'. V w' = V w \<and> (\<exists>f. stringToTableFamily p = Ok f \<and> first_counter (mv_rules (V w) (f, filterTable, filterChain)) = Some c)) w"
  unfolding getNfTablesInvalidCounter_def Let_def
  by (rule post_bindA [where P = "\<lambda>f w'. w' = w \<and> stringToTableFamily p = Ok f"], simp add: outcome_resA split: res.splits,
      rule post_bindA [OF post_leaves [OF GetRules_law GetRules_leaves]])
    (auto simp: outcome_returnA outcome_errA filterTable_def filterChain_def split: option.splits)

definition changes :: "(gauge_vec \<times> string list) set \<Rightarrow> 'g metric_view \<Rightarrow> 'g metric_view \<Rightarrow> bool" where
  "changes A v v' \<longleftrightarrow> v' = v\<lparr>mv_vals := mv_vals v'\<rparr> \<and> (\<forall>k. k \<notin> A \<longrightarrow> mv_vals v' k = mv_vals v k)"

lemma changesD: "changes A v v' \<Longrightarrow> mv_kid v' = mv_kid v" "changes A v v' \<Longrightarrow> mv_rules v' = mv_rules v" "changes A v v' \<Longrightarrow> mv_files v' = mv_files v"
  unfolding changes_def by (cases v; cases v'; simp)+

lemma changes_trans: "changes A u v \<Longrightarrow> changes B v w \<Longrightarrow> changes (A \<union> B) u w"
  unfolding changes_def by (cases u; cases v; cases w) auto

lemma changes_refl [simp]: "changes A v v"
  by (simp add: changes_def)

lemma Set_changes: "prom_laws V P \<Longrightarrow> mv_kid (V w) g = Some k \<Longrightarrow> post (pr_Set P g v) (\<lambda>_ w'. changes {k} (V w) (V w') \<and> mv_vals (V w') k = Some v) w"
  by (rule post_mono [OF Set_law]) (auto simp: changes_def)

lemma gauge_vec_distinct [simp]:
  "NfTableMasqueradePackets \<noteq> NfTableMasqueradeBytes" "NfTableInvalidPackets \<noteq> NfTableInvalidBytes"
  "NfTableMasqueradePackets \<noteq> NfTableInvalidPackets" "NfTableMasqueradePackets \<noteq> NfTableInvalidBytes"
  "NfTableMasqueradeBytes \<noteq> NfTableInvalidPackets" "NfTableMasqueradeBytes \<noteq> NfTableInvalidBytes" "NfConntrackCount \<noteq> NfConntrackLimit"
  by (simp_all add: gauge_vec_defs)

lemma exports_rules_cong: "mv_rules v = mv_rules v2 \<Longrightarrow> mv_vals v' kp = mv_vals v2' kp \<Longrightarrow> mv_vals v' kb = mv_vals v2' kb \<Longrightarrow>
    exports_rules v ch kp kb v' \<Longrightarrow> exports_rules v2 ch kp kb v2'"
  by (simp add: exports_rules_def)

lemma exports_protocol_kept:
  "exports_protocol v ls p v' \<Longrightarrow> changes A v' v'' \<Longrightarrow> (\<And>vec. (vec, ls @ [p]) \<notin> A) \<Longrightarrow> exports_protocol v ls p v''"
  unfolding exports_protocol_def exports_rules_def changes_def by auto

lemma exports_protocol_from: "exports_protocol v ls p v' \<Longrightarrow> mv_rules u = mv_rules v \<Longrightarrow> exports_protocol u ls p v'"
  unfolding exports_protocol_def exports_rules_def by simp

abbreviation at_labels :: "string list \<Rightarrow> string set \<Rightarrow> (gauge_vec \<times> string list) set" where
  "at_labels ls ps \<equiv> {k. \<exists>p \<in> ps. snd k = ls @ [p]}"

lemma changes_mono: "changes A v v' \<Longrightarrow> A \<subseteq> B \<Longrightarrow> changes B v v'"
  unfolding changes_def by blast

lemma set_two_post:
  assumes "prom_laws V P" and "mv_kid (V w) g = Some (a, l)" and "mv_kid (V w) h = Some (b, l)" and "a \<noteq> b"
  shows "post (bindA (pr_Set P g x) (\<lambda>_. pr_Set P h y)) (\<lambda>_ w'. changes {(a, l), (b, l)} (V w) (V w') \<and>
    mv_vals (V w') (a, l) = Some x \<and> mv_vals (V w') (b, l) = Some y) w"
proof (rule post_bindA [OF Set_changes [OF assms(1,2)]])
  fix u w1 assume c: "changes {(a, l)} (V w) (V w1) \<and> mv_vals (V w1) (a, l) = Some x"
  then have "mv_kid (V w1) h = Some (b, l)" using assms(3) changesD(1) by metis
  then show "post (pr_Set P h y) (\<lambda>_ w'. changes {(a, l), (b, l)} (V w) (V w') \<and> mv_vals (V w') (a, l) = Some x \<and> mv_vals (V w') (b, l) = Some y) w1"
    using c assms(4) changes_trans [of "{(a, l)}" "V w" "V w1" "{(b, l)}"]
    by (intro post_mono [OF Set_changes [OF assms(1)]]) (auto simp: changes_def insert_commute)
qed

lemma update_protocol_post:
  assumes "prom_laws V (me_prom E)" and "reader_laws V E" and "glookup (col_perProtocol c) p = Some m" and "protocol_live (mv_kid (V w)) ls p m"
  shows "post (update_protocol E c p) (\<lambda>_ w'. changes (at_labels ls {p}) (V w) (V w') \<and> exports_protocol (V w) ls p (V w')) w"
proof -
  let ?S = "pr_Set (me_prom E)" and ?l = "ls @ [p]"
  have split: "update_protocol E c p =
    bindA (getNfTablesNATCounter E p) (\<lambda>(x, y). bindA (bindA (?S (NATPackets m) (float64 x)) (\<lambda>_. ?S (NATBytes m) (float64 y))) (\<lambda>_.
    bindA (getNfTablesInvalidCounter E p) (\<lambda>(x, y). bindA (?S (InvalidPackets m) (float64 x)) (\<lambda>_. ?S (InvalidBytes m) (float64 y)))))"
    using assms(3) by (auto simp: update_protocol_def fun_eq_iff bindA_def split: prod.splits res.splits)
  show ?thesis unfolding split
  proof (rule post_bindA [OF getNAT_post [OF assms(2)]], clarify)
    fix x y w1 f assume w1: "V w1 = V w" and f: "stringToTableFamily p = Ok f" "first_counter (mv_rules (V w) (f, natTable, natChain)) = Some (x, y)"
    show "post (bindA (bindA (?S (NATPackets m) (float64 x)) (\<lambda>_. ?S (NATBytes m) (float64 y))) (\<lambda>_.
      bindA (getNfTablesInvalidCounter E p) (\<lambda>(x, y). bindA (?S (InvalidPackets m) (float64 x)) (\<lambda>_. ?S (InvalidBytes m) (float64 y)))))
      (\<lambda>_ w'. changes (at_labels ls {p}) (V w) (V w') \<and> exports_protocol (V w) ls p (V w')) w1"
    proof (rule post_bindA [OF set_two_post [OF assms(1), where a = NfTableMasqueradePackets and b = NfTableMasqueradeBytes and l = ?l]])
      fix u w2 assume c2: "changes {(NfTableMasqueradePackets, ?l), (NfTableMasqueradeBytes, ?l)} (V w1) (V w2) \<and>
        mv_vals (V w2) (NfTableMasqueradePackets, ?l) = Some (float64 x) \<and> mv_vals (V w2) (NfTableMasqueradeBytes, ?l) = Some (float64 y)"
      show "post (bindA (getNfTablesInvalidCounter E p) (\<lambda>(x, y). bindA (?S (InvalidPackets m) (float64 x)) (\<lambda>_. ?S (InvalidBytes m) (float64 y))))
        (\<lambda>_ w'. changes (at_labels ls {p}) (V w) (V w') \<and> exports_protocol (V w) ls p (V w')) w2"
      proof (rule post_bindA [OF getInvalid_post [OF assms(2)]], clarify)
        fix x' y' w3 f' assume w3: "V w3 = V w2" and f': "stringToTableFamily p = Ok f'" "first_counter (mv_rules (V w2) (f', filterTable, filterChain)) = Some (x', y')"
        have kid: "mv_kid (V w3) = mv_kid (V w)" and rules: "mv_rules (V w2) = mv_rules (V w)" using c2 changesD w1 w3 by metis+
        show "post (bindA (?S (InvalidPackets m) (float64 x')) (\<lambda>_. ?S (InvalidBytes m) (float64 y')))
          (\<lambda>_ w'. changes (at_labels ls {p}) (V w) (V w') \<and> exports_protocol (V w) ls p (V w')) w3"
        proof (rule post_mono [OF set_two_post [OF assms(1), where a = NfTableInvalidPackets and b = NfTableInvalidBytes and l = ?l]])
          fix u' w' assume c3: "changes {(NfTableInvalidPackets, ?l), (NfTableInvalidBytes, ?l)} (V w3) (V w') \<and>
            mv_vals (V w') (NfTableInvalidPackets, ?l) = Some (float64 x') \<and> mv_vals (V w') (NfTableInvalidBytes, ?l) = Some (float64 y')"
          have "changes (at_labels ls {p}) (V w) (V w')"
            using changes_mono [OF changes_trans] c2 c3 w1 w3 by (smt (verit) Un_iff insert_iff mem_Collect_eq singletonD snd_conv subsetI)
          moreover have "mv_vals (V w') (NfTableMasqueradePackets, ?l) = Some (float64 x)" "mv_vals (V w') (NfTableMasqueradeBytes, ?l) = Some (float64 y)"
            using c2 c3 w3 unfolding changes_def by auto
          ultimately show "changes (at_labels ls {p}) (V w) (V w') \<and> exports_protocol (V w) ls p (V w')"
            using f f' c3 rules unfolding exports_protocol_def exports_rules_def by auto
        qed (use assms(4) kid in \<open>auto simp: protocol_live_def\<close>)
      qed
    qed (use assms(4) w1 in \<open>auto simp: protocol_live_def\<close>)
  qed
qed


lemma update_protocols_post:
  assumes "prom_laws V (me_prom E)" and "reader_laws V E"
  shows "distinct ps \<Longrightarrow> set ps \<subseteq> dom (map_of (col_perProtocol c)) \<Longrightarrow> protocols_live (mv_kid (V w)) ls (col_perProtocol c) \<Longrightarrow>
    post (foreachA (update_protocol E c) ps) (\<lambda>_ w'. changes (at_labels ls (set ps)) (V w) (V w') \<and> (\<forall>p \<in> set ps. exports_protocol (V w) ls p (V w'))) w"
proof (induction ps arbitrary: w)
  case Nil
  then show ?case by (simp add: outcome_returnA)
next
  case (Cons p ps)
  obtain m where m: "glookup (col_perProtocol c) p = Some m" using Cons.prems(2) by auto
  have live: "protocol_live (mv_kid (V w)) ls p m" using Cons.prems(3) m by (simp add: protocols_live_def)
  show ?case unfolding foreachA.simps
  proof (rule post_bindA [OF update_protocol_post [OF assms m live]])
    fix u w1 assume s1: "changes (at_labels ls {p}) (V w) (V w1) \<and> exports_protocol (V w) ls p (V w1)"
    then have kid: "mv_kid (V w1) = mv_kid (V w)" and rules: "mv_rules (V w1) = mv_rules (V w)" using changesD by blast+
    show "post (foreachA (update_protocol E c) ps) (\<lambda>_ w'. changes (at_labels ls (set (p # ps))) (V w) (V w') \<and>
      (\<forall>p \<in> set (p # ps). exports_protocol (V w) ls p (V w'))) w1"
    proof (rule post_mono [OF Cons.IH])
      fix u' w' assume s2: "changes (at_labels ls (set ps)) (V w1) (V w') \<and> (\<forall>q \<in> set ps. exports_protocol (V w1) ls q (V w'))"
      have "changes (at_labels ls (set (p # ps))) (V w) (V w')"
        by (rule changes_mono [OF changes_trans [OF conjunct1 [OF s1] conjunct1 [OF s2]]]) auto
      moreover have "exports_protocol (V w) ls p (V w')"
        using exports_protocol_kept [OF conjunct2 [OF s1] conjunct1 [OF s2]] Cons.prems(1) by auto
      ultimately show "changes (at_labels ls (set (p # ps))) (V w) (V w') \<and> (\<forall>p \<in> set (p # ps). exports_protocol (V w) ls p (V w'))"
        using s2 exports_protocol_from rules by (metis set_ConsD)
    qed (use Cons.prems kid in auto)
  qed
qed

lemma export_file_post:
  assumes "prom_laws V (me_prom E)" and "reader_laws V E" and "mv_kid (V w) g = Some k"
  shows "post (bindA (readUintFromFile E path) (\<lambda>v. pr_Set (me_prom E) g (float64 v)))
    (\<lambda>_ w'. changes {k} (V w) (V w') \<and> exports_file (V w) path k (V w')) w"
proof (rule post_bindA [OF readUint_post [OF assms(2)]], elim conjE exE)
  fix v w1 d assume "V w1 = V w" "mv_files (V w) path = Some d" "ParseUint (TrimSpace d) = Ok v"
  then show "post (pr_Set (me_prom E) g (float64 v)) (\<lambda>_ w'. changes {k} (V w) (V w') \<and> exports_file (V w) path k (V w')) w1"
    using Set_changes [OF assms(1), of w1 g k "float64 v"] assms(3) by (auto simp: exports_file_def elim!: post_mono)
qed

lemma Update_post:
  assumes "prom_laws V (me_prom E)" and "reader_laws V E" and "go_range (me_range E)" and "distinct (gkeys (col_perProtocol c))"
    and live: "collector_live (mv_kid (V w)) ls c"
  shows "post (Update E c) (\<lambda>_ w'. exports_file (V w) NF_CONNTRACK_COUNT_PATH (NfConntrackCount, ls) (V w') \<and>
    exports_file (V w) NF_CONNTRACK_LIMIT_PATH (NfConntrackLimit, ls) (V w') \<and>
    (\<forall>p \<in> dom (map_of (col_perProtocol c)). exports_protocol (V w) ls p (V w'))) w" (is "post _ ?Q w")
proof -
  let ?set = "\<lambda>path g. bindA (readUintFromFile E path) (\<lambda>v. pr_Set (me_prom E) g (float64 v))" and ?ps = "me_range E (gkeys (col_perProtocol c))"
  have split: "Update E c = bindA (?set NF_CONNTRACK_COUNT_PATH (col_nfConntrackCount c)) (\<lambda>_.
    bindA (?set NF_CONNTRACK_LIMIT_PATH (col_nfConntrackLimit c)) (\<lambda>_. foreachA (update_protocol E c) ?ps))"
    by (auto simp: Update_def fun_eq_iff bindA_def split: prod.splits res.splits)
  have count: "mv_kid (V w) (col_nfConntrackCount c) = Some (NfConntrackCount, ls)" using live by (simp add: collector_live_def)
  show ?thesis unfolding split
  proof (rule post_bindA [OF export_file_post [OF assms(1,2) count]])
    fix u w1 assume s1: "changes {(NfConntrackCount, ls)} (V w) (V w1) \<and> exports_file (V w) NF_CONNTRACK_COUNT_PATH (NfConntrackCount, ls) (V w1)"
    then have limit: "mv_kid (V w1) (col_nfConntrackLimit c) = Some (NfConntrackLimit, ls)" using live changesD(1) unfolding collector_live_def by metis
    show "post (bindA (?set NF_CONNTRACK_LIMIT_PATH (col_nfConntrackLimit c)) (\<lambda>_. foreachA (update_protocol E c) ?ps)) ?Q w1"
    proof (rule post_bindA [OF export_file_post [OF assms(1,2) limit]])
      fix u w2 assume s2: "changes {(NfConntrackLimit, ls)} (V w1) (V w2) \<and> exports_file (V w1) NF_CONNTRACK_LIMIT_PATH (NfConntrackLimit, ls) (V w2)"
      have same: "mv_kid (V w2) = mv_kid (V w)" "mv_rules (V w2) = mv_rules (V w)" "mv_files (V w1) = mv_files (V w)" using changesD s1 s2 by metis+
      show "post (foreachA (update_protocol E c) ?ps) ?Q w2"
      proof (rule post_mono [OF update_protocols_post [OF assms(1,2)]])
        fix u w' assume s3: "changes (at_labels ls (set ?ps)) (V w2) (V w') \<and> (\<forall>p \<in> set ?ps. exports_protocol (V w2) ls p (V w'))"
        then have "mv_vals (V w') (vec, ls) = mv_vals (V w2) (vec, ls)" for vec by (simp add: changes_def)
        moreover have "mv_vals (V w2) (NfConntrackCount, ls) = mv_vals (V w1) (NfConntrackCount, ls)" using s2 by (simp add: changes_def)
        ultimately show "?Q u w'" using s1 s2 s3 same exports_protocol_from [OF _ same(2) [symmetric]] assms(3) by (auto simp: exports_file_def)
      qed (use live same assms(3,4) in \<open>auto simp: collector_live_def\<close>)
    qed
  qed
qed


lemma post_any: "post m (\<lambda>_ _. True) w"
  by (simp add: outcome_def split: prod.splits res.splits)

lemma map_leD: "K \<subseteq>\<^sub>m M \<Longrightarrow> K g = Some x \<Longrightarrow> M g = Some x"
  unfolding map_le_def by (metis domI)

lemma post_gauge:
  assumes "prom_laws V P" and "length ls = length (gv_Labels vec)" and "K \<subseteq>\<^sub>m mv_kid (V w)"
    and "\<And>g w'. K(g \<mapsto> (vec, ls)) \<subseteq>\<^sub>m mv_kid (V w') \<Longrightarrow> K \<subseteq>\<^sub>m K(g \<mapsto> (vec, ls)) \<Longrightarrow> post (k g) Q w'"
  shows "post (bindA (pr_WithLabelValues P vec ls) k) Q w"
proof (rule post_bindA [OF WithLabelValues_law [OF assms(1,2)]], elim conjE)
  fix g w' assume kid: "mv_kid (V w') = (mv_kid (V w))(g \<mapsto> (vec, ls))" and old: "mv_kid (V w) g \<in> {None, Some (vec, ls)}"
  have "K g = None \<or> K g = Some (vec, ls)" using map_leD [OF assms(3), of g] old by (cases "K g") auto
  then have "K \<subseteq>\<^sub>m K(g \<mapsto> (vec, ls))" by (auto simp: map_le_def)
  then show "post (k g) Q w'" by (intro assms(4)) (simp_all add: kid assms(3))
qed

lemma protocol_live_mono: "protocol_live K ls p m \<Longrightarrow> K \<subseteq>\<^sub>m K' \<Longrightarrow> protocol_live K' ls p m"
  unfolding protocol_live_def by (simp add: map_leD)

lemma label_counts [simp]:
  "length (gv_Labels NfTableMasqueradePackets) = 4" "length (gv_Labels NfTableMasqueradeBytes) = 4" "length (gv_Labels NfTableInvalidPackets) = 4"
  "length (gv_Labels NfTableInvalidBytes) = 4" "length (gv_Labels NfConntrackCount) = 3" "length (gv_Labels NfConntrackLimit) = 3"
  by (simp_all add: gauge_vec_defs)

lemma newNfTables_post:
  assumes "prom_laws V (me_prom E)" and "K \<subseteq>\<^sub>m mv_kid (V w)"
  shows "post (newNfTablesPerProtocolMetrics E ns pod egress p) (\<lambda>m w'. K \<subseteq>\<^sub>m mv_kid (V w') \<and> protocol_live (mv_kid (V w')) [ns, pod, egress] p m) w"
  unfolding newNfTablesPerProtocolMetrics_def
proof (rule post_gauge [OF assms(1) _ assms(2)], simp)
  let ?l = "[ns, pod, egress, p]" and ?new = "pr_WithLabelValues (me_prom E)"
  let ?Q = "\<lambda>m w'. K \<subseteq>\<^sub>m mv_kid (V w') \<and> protocol_live (mv_kid (V w')) [ns, pod, egress] p m"
  fix np w1 assume 1: "K(np \<mapsto> (NfTableMasqueradePackets, ?l)) \<subseteq>\<^sub>m mv_kid (V w1)" and k1: "K \<subseteq>\<^sub>m K(np \<mapsto> (NfTableMasqueradePackets, ?l))"
  show "post (bindA (?new NfTableMasqueradeBytes ?l) (\<lambda>nb. bindA (?new NfTableInvalidPackets ?l) (\<lambda>ip. bindA (?new NfTableInvalidBytes ?l) (\<lambda>ib.
    returnA \<lparr>NATPackets = np, NATBytes = nb, InvalidPackets = ip, InvalidBytes = ib\<rparr>)))) ?Q w1"
  proof (rule post_gauge [OF assms(1) _ 1], simp, rule post_gauge [OF assms(1)], simp, assumption, rule post_gauge [OF assms(1)], simp, assumption)
    fix nb ip ib w4
    let ?K1 = "K(np \<mapsto> (NfTableMasqueradePackets, ?l))"
    let ?K2 = "?K1(nb \<mapsto> (NfTableMasqueradeBytes, ?l))"
    let ?K3 = "?K2(ip \<mapsto> (NfTableInvalidPackets, ?l))"
    assume "?K1 \<subseteq>\<^sub>m ?K2" "?K2 \<subseteq>\<^sub>m ?K3" and 4: "?K3(ib \<mapsto> (NfTableInvalidBytes, ?l)) \<subseteq>\<^sub>m mv_kid (V w4)" "?K3 \<subseteq>\<^sub>m ?K3(ib \<mapsto> (NfTableInvalidBytes, ?l))"
    then have le: "?K1 \<subseteq>\<^sub>m mv_kid (V w4)" "?K2 \<subseteq>\<^sub>m mv_kid (V w4)" "?K3 \<subseteq>\<^sub>m mv_kid (V w4)" using map_le_trans by blast+
    have "mv_kid (V w4) np = Some (NfTableMasqueradePackets, ?l)" "mv_kid (V w4) nb = Some (NfTableMasqueradeBytes, ?l)"
      "mv_kid (V w4) ip = Some (NfTableInvalidPackets, ?l)" "mv_kid (V w4) ib = Some (NfTableInvalidBytes, ?l)"
      using map_leD [OF le(1), of np] map_leD [OF le(2), of nb] map_leD [OF le(3), of ip] map_leD [OF 4(1), of ib] by simp_all
    then show "post (returnA \<lparr>NATPackets = np, NATBytes = nb, InvalidPackets = ip, InvalidBytes = ib\<rparr>) ?Q w4"
      using map_le_trans [OF k1 le(1)] by (simp add: outcome_returnA protocol_live_def)
  qed
qed


lemma per_protocols_post:
  assumes "prom_laws V (me_prom E)"
  shows "K \<subseteq>\<^sub>m mv_kid (V w) \<Longrightarrow> protocols_live (mv_kid (V w)) [ns, pod, egress] acc \<Longrightarrow> distinct (gkeys acc) \<Longrightarrow>
    post (per_protocols E ns pod egress acc ps) (\<lambda>ms w'. K \<subseteq>\<^sub>m mv_kid (V w') \<and> protocols_live (mv_kid (V w')) [ns, pod, egress] ms \<and>
      distinct (gkeys ms) \<and> dom (map_of ms) = dom (map_of acc) \<union> set ps) w"
proof (induction ps arbitrary: acc w)
  case Nil
  then show ?case by (simp add: outcome_returnA)
next
  case (Cons p ps)
  let ?K = "mv_kid (V w)"
  show ?case unfolding per_protocols.simps
  proof (rule post_bindA [OF newNfTables_post [OF assms map_le_refl]], elim conjE)
    fix m w1 assume kid: "?K \<subseteq>\<^sub>m mv_kid (V w1)" and live: "protocol_live (mv_kid (V w1)) [ns, pod, egress] p m"
    have "protocols_live (mv_kid (V w1)) [ns, pod, egress] (gupdate p m acc)"
      using Cons.prems(2) kid live unfolding protocols_live_def by (auto intro: protocol_live_mono)
    then show "post (per_protocols E ns pod egress (gupdate p m acc) ps) (\<lambda>ms w'. K \<subseteq>\<^sub>m mv_kid (V w') \<and> protocols_live (mv_kid (V w')) [ns, pod, egress] ms \<and>
      distinct (gkeys ms) \<and> dom (map_of ms) = dom (map_of acc) \<union> set (p # ps)) w1"
      using Cons.prems map_le_trans [OF Cons.prems(1) kid] by (intro post_mono [OF Cons.IH]) (auto simp: dom_def)
  qed
qed

lemma NewEgressCollector_post:
  assumes "prom_laws V (me_prom E)"
  shows "post (NewEgressCollector E ns pod egress protocols) (\<lambda>c w'. collector_live (mv_kid (V w')) [ns, pod, egress] c \<and>
    distinct (gkeys (col_perProtocol c)) \<and> dom (map_of (col_perProtocol c)) = set protocols) w"
  unfolding NewEgressCollector_def
proof (rule post_bindA [OF post_any], rule post_bindA [OF post_any], rule post_bindA [OF per_protocols_post [OF assms, where K = Map.empty]])
  let ?l = "[ns, pod, egress]"
  fix ms w1 assume ms: "Map.empty \<subseteq>\<^sub>m mv_kid (V w1) \<and> protocols_live (mv_kid (V w1)) ?l ms \<and> distinct (gkeys ms) \<and> dom (map_of ms) = dom (map_of []) \<union> set protocols"
  let ?K = "mv_kid (V w1)"
  show "post (bindA (pr_WithLabelValues (me_prom E) NfConntrackCount ?l) (\<lambda>cnt. bindA (pr_WithLabelValues (me_prom E) NfConntrackLimit ?l) (\<lambda>lim.
    returnA \<lparr>col_nfConntrackCount = cnt, col_nfConntrackLimit = lim, col_perProtocol = ms\<rparr>))) (\<lambda>c w'. collector_live (mv_kid (V w')) ?l c \<and>
    distinct (gkeys (col_perProtocol c)) \<and> dom (map_of (col_perProtocol c)) = set protocols) w1"
  proof (rule post_gauge [OF assms _ map_le_refl], simp, rule post_gauge [OF assms], simp, assumption)
    fix cnt lim w3
    let ?K1 = "?K(cnt \<mapsto> (NfConntrackCount, ?l))"
    assume "?K \<subseteq>\<^sub>m ?K1" and 3: "?K1(lim \<mapsto> (NfConntrackLimit, ?l)) \<subseteq>\<^sub>m mv_kid (V w3)" "?K1 \<subseteq>\<^sub>m ?K1(lim \<mapsto> (NfConntrackLimit, ?l))"
    then have le: "?K \<subseteq>\<^sub>m mv_kid (V w3)" "?K1 \<subseteq>\<^sub>m mv_kid (V w3)" using map_le_trans by blast+
    have "protocols_live (mv_kid (V w3)) ?l ms" using ms le(1) protocol_live_mono unfolding protocols_live_def by blast
    then show "post (returnA \<lparr>col_nfConntrackCount = cnt, col_nfConntrackLimit = lim, col_perProtocol = ms\<rparr>) (\<lambda>c w'. collector_live (mv_kid (V w')) ?l c \<and>
      distinct (gkeys (col_perProtocol c)) \<and> dom (map_of (col_perProtocol c)) = set protocols) w3"
      using ms map_leD [OF le(2), of cnt] map_leD [OF 3(1), of lim] by (simp add: outcome_returnA collector_live_def)
  qed
qed (simp_all add: protocols_live_def gkeys_def)

lemma Update_keeps_gauges:
  assumes "prom_laws V (me_prom E)" and "reader_laws V E"
  shows "keeps (\<lambda>w. mv_kid (V w) = K) (Update E c)"
proof -
  let ?I = "\<lambda>w. mv_kid (V w) = K"
  have leaf: "leaves V m \<Longrightarrow> keeps ?I m" for m :: "('a, 'x) act" using leaves_keeps [of V m "\<lambda>v. mv_kid v = K"] by simp
  have set: "keeps ?I (pr_Set (me_prom E) g v)" for g v by (rule leaves_keeps [OF Set_kid [OF assms(1)]])
  note rd = leaf [OF ReadFile_leaves [OF assms(2)]] leaf [OF GetRules_leaves [OF assms(2)]]
  show ?thesis
    unfolding Update_def update_protocol_def readUintFromFile_def getNfTablesNATCounter_def getNfTablesInvalidCounter_def Let_def
    by (intro keeps_intros set rd)
qed

lemma Runner_keeps: "keeps I (co_Update c) \<Longrightarrow> set (sched [c]) \<subseteq> {c} \<Longrightarrow> keeps I (Runner_Run sched (Runner_Register c NewRunner) n)"
  unfolding Runner_Run_def collect_def Runner_Register_def NewRunner_def by (intro keeps_intros) auto

text \<open>
  C37. The metrics of an egress pod are right: an update that succeeds, after any number of ticks of the runner, failed ones included, exports the entries and the limit of the connection tracker,
  and for each protocol the packets and bytes of the first counter in the masquerade chain and in the forward chain, under the labels of the pod; the numbers are
  rounded to \<open>float64\<close> only.
\<close>

theorem Update_exports:
  assumes "prom_laws V (me_prom E)" and "reader_laws V E" and "go_range (me_range E)" and "set (sched [egress_Collector E c]) \<subseteq> {egress_Collector E c}"
    and "NewEgressCollector E ns pod egress protocols w0 = (Ok c, w1)"
    and "Runner_Run sched (Runner_Register (egress_Collector E c) NewRunner) n w1 = (r, w)" and "Update E c w = (Ok (), w')"
  shows "exports_file (V w) NF_CONNTRACK_COUNT_PATH (NfConntrackCount, [ns, pod, egress]) (V w') \<and>
    exports_file (V w) NF_CONNTRACK_LIMIT_PATH (NfConntrackLimit, [ns, pod, egress]) (V w') \<and>
    (\<forall>p \<in> set protocols. exports_protocol (V w) [ns, pod, egress] p (V w'))"
proof -
  have c: "collector_live (mv_kid (V w1)) [ns, pod, egress] c" "distinct (gkeys (col_perProtocol c))" "dom (map_of (col_perProtocol c)) = set protocols"
    using post_OkD [OF NewEgressCollector_post [OF assms(1)] assms(5)] by auto
  have "keeps (\<lambda>w. mv_kid (V w) = mv_kid (V w1)) (Runner_Run sched (Runner_Register (egress_Collector E c) NewRunner) n)"
    using Update_keeps_gauges [OF assms(1,2)] assms(4) by (intro Runner_keeps) (simp_all add: egress_Collector_def)
  then have "mv_kid (V w) = mv_kid (V w1)" using assms(6) unfolding keeps_def by (metis snd_conv)
  then show ?thesis using post_OkD [OF Update_post [OF assms(1-3) c(2)] assms(7)] c by simp
qed


section \<open>A reference instance\<close>

text \<open>A registry whose gauges know the generation of their vector: a \<open>Reset\<close> starts a new one.\<close>

record ref_metrics =
  rm_gen :: "gauge_vec \<Rightarrow> nat"
  rm_vals :: "gauge_vec \<times> string list \<Rightarrow> nat option"
  rm_files :: "string \<Rightarrow> string option"
  rm_rules :: "table_family \<times> string \<times> string \<Rightarrow> nft_rule list"

definition ref_prom :: "(ref_metrics, gauge_vec \<times> string list \<times> nat) prom_ops" where
  "ref_prom = \<lparr>pr_Reset = (\<lambda>v w. (Ok (), w\<lparr>rm_gen := (rm_gen w)(v := Suc (rm_gen w v)), rm_vals := (\<lambda>k. if fst k = v then None else rm_vals w k)\<rparr>)),
     pr_WithLabelValues = (\<lambda>v l w. (Ok (v, l, rm_gen w v), w\<lparr>rm_vals := (rm_vals w)((v, l) \<mapsto> (case rm_vals w (v, l) of Some x \<Rightarrow> x | None \<Rightarrow> 0))\<rparr>)),
     pr_Set = (\<lambda>(v, l, n) x w. (Ok (), if n = rm_gen w v \<and> rm_vals w (v, l) \<noteq> None then w\<lparr>rm_vals := (rm_vals w)((v, l) \<mapsto> x)\<rparr> else w))\<rparr>"

definition metric_nft :: "ref_metrics nft_ops" where
  "metric_nft = \<lparr>nft_New = returnA (), nft_AddTable = returnA, nft_AddChain = returnA, nft_AddSet = (\<lambda>s _. returnA s),
     nft_GetRules = (\<lambda>t c w. (Ok (rm_rules w (nt_Family t, nt_Name t, nch_Name c)), w)), nft_AddRule = (\<lambda>_. returnA ()), nft_ListTables = returnA [],
     nft_DelTable = (\<lambda>_. returnA ()), nft_Flush = returnA (), nft_PutUint32 = (\<lambda>_. []), nft_CtStateBitINVALID = 1, nft_CtStateBits = 14\<rparr>"

definition ref_metrics_env :: "(ref_metrics, gauge_vec \<times> string list \<times> nat) metrics_env" where
  "ref_metrics_env = \<lparr>me_prom = ref_prom, me_nft = metric_nft,
     me_ReadFile = (\<lambda>p w. (case rm_files w p of Some d \<Rightarrow> Ok d | None \<Rightarrow> Err (ErrorMsg ''no such file or directory''), w)), me_range = rev\<rparr>"

definition ref_view :: "ref_metrics \<Rightarrow> (gauge_vec \<times> string list \<times> nat) metric_view" where
  "ref_view w = \<lparr>mv_vals = rm_vals w, mv_kid = (\<lambda>(v, l, n). if n = rm_gen w v \<and> rm_vals w (v, l) \<noteq> None then Some (v, l) else None),
     mv_files = rm_files w, mv_rules = rm_rules w\<rparr>"

lemma ref_prom_laws: "prom_laws ref_view (me_prom ref_metrics_env)"
  unfolding prom_laws_def by (auto simp: ref_metrics_env_def ref_prom_def ref_view_def outcome_def leaves_def fun_eq_iff split: if_splits)

lemma ref_reader_laws: "reader_laws ref_view ref_metrics_env"
  unfolding reader_laws_def
  by (auto simp: ref_metrics_env_def metric_nft_def ref_view_def outcome_def leaves_def returnA_def split: option.splits)

definition example_metrics :: ref_metrics where
  "example_metrics = \<lparr>rm_gen = (\<lambda>_. 0), rm_vals = (\<lambda>_. None),
     rm_files = [NF_CONNTRACK_COUNT_PATH \<mapsto> ''7'' @ [CHR 0x0A], NF_CONNTRACK_LIMIT_PATH \<mapsto> ''65536'' @ [CHR 0x0A]],
     rm_rules = (\<lambda>(f, t, c). if t = natTable
       then [\<lparr>nr_Table = \<lparr>nt_Family = f, nt_Name = t\<rparr>, nr_Chain = \<lparr>nch_Name = c, nch_Table = \<lparr>nt_Family = f, nt_Name = t\<rparr>, nch_Type = ChainTypeNAT, nch_Hook = HookPostrouting,
           nch_Priority = PriorityNATSource, nch_Accept = False\<rparr>, nr_UserData = [], nr_Exprs = oif_is ''eth0'' @ [Counter 3 9007199254740993, Masq]\<rparr>]
       else [\<lparr>nr_Table = \<lparr>nt_Family = f, nt_Name = t\<rparr>, nr_Chain = \<lparr>nch_Name = c, nch_Table = \<lparr>nt_Family = f, nt_Name = t\<rparr>, nch_Type = ChainTypeFilter, nch_Hook = HookForward,
           nch_Priority = PriorityFilter, nch_Accept = False\<rparr>, nr_UserData = [], nr_Exprs = oif_is ''eth0'' @ [Counter 0 0, VerdictDrop]\<rparr>])\<rparr>"

text \<open>In the example both functions succeed.\<close>

definition example_state :: "ref_metrics \<Rightarrow> bool" where
  "example_state w \<longleftrightarrow> rm_files w = rm_files example_metrics \<and> rm_rules w = rm_rules example_metrics"

lemma ref_env_simps [simp]: "me_prom ref_metrics_env = ref_prom" "me_nft ref_metrics_env = metric_nft" "me_range ref_metrics_env = rev"
  by (simp_all add: ref_metrics_env_def)

lemma ref_prom_wp [wp_simps]:
  "wp (pr_Reset ref_prom v) Q R w = Q () (snd (pr_Reset ref_prom v w))"
  "wp (pr_WithLabelValues ref_prom v l) Q' R w = Q' (v, l, rm_gen w v) (snd (pr_WithLabelValues ref_prom v l w))"
  "wp (pr_Set ref_prom g x) Q R w = Q () (snd (pr_Set ref_prom g x w))"
  by (simp_all add: wp_def ref_prom_def split: prod.splits)

lemma ref_reader_wp [wp_simps]:
  "wp (me_ReadFile ref_metrics_env p) Q R w = (case rm_files w p of Some d \<Rightarrow> Q d w | None \<Rightarrow> R (ErrorMsg ''no such file or directory'') w)"
  "wp (nft_GetRules metric_nft t ch) Q' R w = Q' (rm_rules w (nt_Family t, nt_Name t, nch_Name ch)) w"
  by (simp_all add: wp_def ref_metrics_env_def metric_nft_def split: option.splits)

lemma ref_prom_state [simp]:
  "example_state (snd (pr_Reset ref_prom v w)) = example_state w" "example_state (snd (pr_WithLabelValues ref_prom v l w)) = example_state w"
  "example_state (snd (pr_Set ref_prom g x w)) = example_state w"
  by (simp_all add: example_state_def ref_prom_def split: prod.splits)

lemma example_reads:
  assumes "example_state w"
  shows "wp (readUintFromFile ref_metrics_env NF_CONNTRACK_COUNT_PATH) Q R w = Q 7 w" "wp (readUintFromFile ref_metrics_env NF_CONNTRACK_LIMIT_PATH) Q R w = Q 65536 w"
    "stringToTableFamily p = Ok f \<Longrightarrow> wp (getNfTablesNATCounter ref_metrics_env p) Q' R w = Q' (3, 9007199254740993) w"
    "stringToTableFamily p = Ok f \<Longrightarrow> wp (getNfTablesInvalidCounter ref_metrics_env p) Q' R w = Q' (0, 0) w"
proof -
  have n: "ParseUint (TrimSpace (''7'' @ [CHR 0x0A])) = Ok 7" "ParseUint (TrimSpace (''65536'' @ [CHR 0x0A])) = Ok 65536" by code_simp+
  have p: "NF_CONNTRACK_COUNT_PATH \<noteq> NF_CONNTRACK_LIMIT_PATH" by (simp add: NF_CONNTRACK_COUNT_PATH_def NF_CONNTRACK_LIMIT_PATH_def)
  show "wp (readUintFromFile ref_metrics_env NF_CONNTRACK_COUNT_PATH) Q R w = Q 7 w" "wp (readUintFromFile ref_metrics_env NF_CONNTRACK_LIMIT_PATH) Q R w = Q 65536 w"
    using assms n p by (simp_all add: readUintFromFile_def wp_simps example_state_def example_metrics_def)
  show "stringToTableFamily p = Ok f \<Longrightarrow> wp (getNfTablesNATCounter ref_metrics_env p) Q' R w = Q' (3, 9007199254740993) w"
    "stringToTableFamily p = Ok f \<Longrightarrow> wp (getNfTablesInvalidCounter ref_metrics_env p) Q' R w = Q' (0, 0) w"
    using assms by (simp_all add: getNfTablesNATCounter_def getNfTablesInvalidCounter_def Let_def wp_simps example_state_def example_metrics_def natTable_def oif_is_def)
qed

lemma example_update_protocol: "example_state w \<Longrightarrow> stringToTableFamily p = Ok f \<Longrightarrow> wp (update_protocol ref_metrics_env c p) (\<lambda>_. example_state) (\<lambda>_ _. False) w"
  by (cases "map_of (col_perProtocol c) p") (simp_all add: update_protocol_def wp_simps example_reads case_prod_beta)

lemma example_Update: "example_state w \<Longrightarrow> \<forall>p \<in> dom (map_of (col_perProtocol c)). \<exists>f. stringToTableFamily p = Ok f \<Longrightarrow>
    wp (Update ref_metrics_env c) (\<lambda>_. example_state) (\<lambda>_ _. False) w"
  unfolding Update_def
  by (simp add: example_reads wp_simps, rule wp_foreachA) (use example_update_protocol in fastforce)+

lemma example_New: "wp (NewEgressCollector ref_metrics_env ns pod egress ps) (\<lambda>_. example_state) (\<lambda>_ _. False) example_metrics"
proof -
  have per: "example_state w \<Longrightarrow> wp (per_protocols ref_metrics_env ns pod egress acc ps) (\<lambda>_. example_state) (\<lambda>_ _. False) w" for w acc
    by (induction ps arbitrary: acc w) (simp_all add: wp_simps newNfTablesPerProtocolMetrics_def)
  show ?thesis unfolding NewEgressCollector_def
    by (simp add: wp_simps metric_nft_def, rule wp_mono [OF per]) (simp_all add: example_state_def [of example_metrics] wp_simps)
qed

theorem Update_exports_witness:
  "\<exists>c w1 w'. NewEgressCollector ref_metrics_env ''ns'' ''pod'' ''nat'' [FamilyIPv4, FamilyIPv6] example_metrics = (Ok c, w1) \<and> Update ref_metrics_env c w1 = (Ok (), w') \<and>
    exports_file (ref_view w1) NF_CONNTRACK_COUNT_PATH (NfConntrackCount, [''ns'', ''pod'', ''nat'']) (ref_view w') \<and>
    exports_protocol (ref_view w1) [''ns'', ''pod'', ''nat''] FamilyIPv4 (ref_view w')"
proof -
  let ?E = ref_metrics_env
  obtain c w1 where c: "NewEgressCollector ?E ''ns'' ''pod'' ''nat'' [FamilyIPv4, FamilyIPv6] example_metrics = (Ok c, w1)" and w1: "example_state w1"
    using example_New [of "''ns''" "''pod''" "''nat''" "[FamilyIPv4, FamilyIPv6]"] by (auto simp: wp_def split: prod.splits res.splits)
  have "\<exists>f. stringToTableFamily FamilyIPv4 = Ok f" "\<exists>f. stringToTableFamily FamilyIPv6 = Ok f" by (simp_all add: stringToTableFamily_def)
  then have "wp (Update ?E c) (\<lambda>_. example_state) (\<lambda>_ _. False) w1"
    using post_OkD [OF NewEgressCollector_post [OF ref_prom_laws] c] by (intro example_Update [OF w1]) simp
  then obtain w' where u: "Update ?E c w1 = (Ok (), w')" by (auto simp: wp_def split: prod.splits res.splits)
  show ?thesis
    using Update_exports [where sched = "\<lambda>cs. cs" and n = 0, OF ref_prom_laws ref_reader_laws _ _ c _ u] c u by (simp add: ref_metrics_env_def Runner_Run_def returnA_def)
qed

end
