(* ===== verification/Startup.thy ===== *)
theory Startup
  imports Egress_Watcher Pod_Watcher Manager Metrics
begin

text \<open>
  What \<open>coild\<close> and \<open>coil-egress\<close> do when they start, \<open>cmd/coild/sub/run.go\<close> and \<open>cmd/coil-egress/sub/run.go\<close>: \<open>coild\<close> finds the pods that
  already have addresses and registers them before it serves calls; \<open>coil-egress\<close> reads its addresses, prepares tunnels and NAT, and sets up the watcher of pods
  (\<open>SetupPodWatcher\<close> of \<open>controllers/pod_watcher.go\<close>) and the collector of metrics. The manager is that of the theory \<open>Manager\<close>; the listener is a parameter.
\<close>

section \<open>The program\<close>

definition init_network :: "('w, 'n) pod_env \<Rightarrow> podNetwork \<Rightarrow> ('b nodeIPAM \<times> 'w, podNetwork) act" where
  "init_network P pn = (\<lambda>(n, w). case pn_Init P (pn, w) of (r, (pn', w')) \<Rightarrow> (bindR r (\<lambda>_. Ok pn'), (n, w')))"

definition register_pods :: "('b, 'w) node_env \<Rightarrow> PodNetConf list \<Rightarrow> ('b nodeIPAM \<times> 'w, unit) act" where
  "register_pods E confs = foreachA (\<lambda>c. Register E (pc_PoolName c) (pc_ContainerId c) (pc_IFace c) (pc_IPv4 c) (pc_IPv6 c)) confs"

definition coild_checks :: "Config \<Rightarrow> string \<Rightarrow> unit res" where
  "coild_checks cfg nodeName =
     (if nodeName = '''' then Err (ErrorMsg (EnvNode @ '' environment variable should be set''))
      else if \<not> cf_EnableIPAM cfg \<and> \<not> cf_EnableEgress cfg then Err (ErrorMsg ''configuration error: both IPAM and egress are disabled'')
      else Ok ())"

text \<open>From the addresses of the node to the first collection: the pods that have an address are registered before \<open>coild\<close> serves calls.\<close>

definition coild_recover :: "('b, 'w) node_env \<Rightarrow> ('w, 'n) pod_env \<Rightarrow> Config \<Rightarrow> ('b nodeIPAM \<times> 'w, podNetwork) act" where
  "coild_recover E P cfg =
     bindA (NodeInternalIPs E) (\<lambda>(ipv4, ipv6).
     bindA (init_network P (NewPodNetwork (cf_PodTableId cfg) (cf_PodRulePrio cfg) (cf_ProtocolId cfg) ipv4 ipv6
         (cf_CompatCalico cfg) (cf_RegisterFromMain cfg) (cf_EnableIPAM cfg))) (\<lambda>podNet.
     if cf_EnableIPAM cfg
     then bindA (liftW (pn_list P podNet)) (\<lambda>podConfigs.
          bindA (register_pods E podConfigs) (\<lambda>_.
          bindA (GC E) (\<lambda>_. returnA podNet)))
     else returnA podNet))"

definition coild_gracefulTimeout :: int where "coild_gracefulTimeout = 20 * 10 ^ 9"

definition coild_manager_options :: "Config \<Rightarrow> manager_options" where
  "coild_manager_options cfg = \<lparr>mo_LeaderElection = False, mo_LeaderElectionID = [], mo_LeaderElectionNamespace = [], mo_MetricsAddr = cf_MetricsAddr cfg,
     mo_GracefulShutdownTimeout = coild_gracefulTimeout, mo_HealthProbeBindAddress = cf_HealthAddr cfg, mo_WebhookServer = None\<rparr>"

definition coild_subMain :: "'w manager_ops \<Rightarrow> ('b, 'w) node_env \<Rightarrow> ('w, 'n) pod_env \<Rightarrow> (string \<Rightarrow> ('w, unit) act) \<Rightarrow> (string \<Rightarrow> ('w, unit) act) \<Rightarrow>
    (string \<Rightarrow> string) \<Rightarrow> Config \<Rightarrow> ('b nodeIPAM \<times> 'w, unit) act" where
  "coild_subMain M E P osRemove netListen getenv cfg =
     (let nodeName = getenv EnvNode in
      bindA (resA (coild_checks cfg nodeName)) (\<lambda>_.
      bindA (liftW (mg_NewManager M (coild_manager_options cfg))) (\<lambda>_.
      bindA (liftW (mg_AddHealthzCheck M ''ping'' Ping)) (\<lambda>_.
      bindA (liftW (mg_AddReadyzCheck M ''ping'' Ping)) (\<lambda>_.
      bindA (modifyA (\<lambda>(_, w). (NewNodeIPAM nodeName, w))) (\<lambda>_.
      bindA (if cf_EnableIPAM cfg then liftW (BlockRequestWatcher_SetupWithManager M nodeName) else returnA ()) (\<lambda>_.
      bindA (coild_recover E P cfg) (\<lambda>podNet.
      bindA (tryA (liftW (osRemove (cf_SocketPath cfg)))) (\<lambda>_.
      bindA (liftW (netListen (cf_SocketPath cfg))) (\<lambda>_.
      bindA (liftW (mg_Add M CoildServer)) (\<lambda>_.
      bindA (if cf_EnableEgress cfg
             then liftW (EgressWatcher_SetupWithManager M nodeName (cf_EgressPort cfg) (cf_Backend cfg) (cf_OriginatingOnly cfg))
             else returnA ()) (\<lambda>_.
      bindA (liftW (SetupIndexForPodByNodeName M)) (\<lambda>_.
      liftW (mg_Start M))))))))))))))"

text \<open>The server that runs then.\<close>

definition coild_server :: "('b, 'w) node_env \<Rightarrow> ('w, 'w inside) pod_env \<Rightarrow> podNetwork \<Rightarrow> 'w coild_kube \<Rightarrow>
    (cni_result \<Rightarrow> string res) \<Rightarrow> (family list \<Rightarrow> family list) \<Rightarrow> Config \<Rightarrow> string \<Rightarrow> ('b nodeIPAM \<times> 'w, ('w, 'w inside) setup_hook) coildServer" where
  "coild_server E P podNet K marshal frng cfg nodeName = \<lparr>cs_kube = world_kube K, cs_nodeIPAM = coild_ipam E, cs_podNet = coild_podnet P podNet,
     cs_Hook = natSetup_Hook (ne_range E) frng (NewNATSetup (cf_EgressPort cfg)), cs_cfg = cfg,
     cs_aliasFunc = (\<lambda>conf ifName. liftW (ProcessLinkAlias (pe_netlink P) conf ifName)), cs_nodeName = nodeName, cs_Marshal = marshal,
     cs_range = ne_range E, cs_brange = ne_range E\<rparr>"

subsection \<open>coil-egress\<close>

record egress_config =
  ec_metricsAddr :: string
  ec_healthAddr :: string
  ec_port :: int
  ec_enableSportAuto :: bool
  ec_backend :: string

definition egress_PreRunE :: "egress_config \<Rightarrow> unit res" where
  "egress_PreRunE c =
     (if ec_backend c \<noteq> EgressBackendIPTables \<and> ec_backend c \<noteq> EgressBackendNFTables
      then Err (ErrorMsg (''invalid backend: '' @ ec_backend c @ '' (must be either '' @ EgressBackendIPTables @ '' or '' @ EgressBackendNFTables @ '')''))
      else Ok ())"

fun my_addresses :: "string list \<Rightarrow> ip \<Rightarrow> ip \<Rightarrow> unit gomap \<Rightarrow> (ip \<times> ip \<times> unit gomap) res" where
  "my_addresses [] ipv4 ipv6 protocolMap = Ok (ipv4, ipv6, protocolMap)"
| "my_addresses (addr # addrs) ipv4 ipv6 protocolMap =
     (let n = ParseIP addr in
      if n = nil_ip then Err (ErrorMsg (EnvAddresses @ ''contains invalid address: '' @ addr))
      else if To4 n \<noteq> nil_ip then my_addresses addrs (To4 n) ipv6 (gupdate FamilyIPv4 () protocolMap)
      else my_addresses addrs ipv4 n (gupdate FamilyIPv6 () protocolMap))"

text \<open>The environment of the process: its namespace, the name of its Egress, its addresses and their families.\<close>

definition egress_environment :: "(string \<Rightarrow> string) \<Rightarrow> (string \<times> string \<times> ip \<times> ip \<times> unit gomap) res" where
  "egress_environment getenv =
     (let myNS = getenv EnvPodNamespace; myName = getenv EnvEgressName; myAddresses = splitc (CHR '','') (getenv EnvAddresses) in
      if myNS = '''' then Err (ErrorMsg (EnvPodNamespace @ '' environment variable must be set''))
      else if myName = '''' then Err (ErrorMsg (EnvEgressName @ '' environment variable must be set''))
      else if length myAddresses = 0 then Err (ErrorMsg (EnvAddresses @ '' environment variable must be set''))
      else bindR (my_addresses myAddresses nil_ip nil_ip []) (\<lambda>(ipv4, ipv6, protocolMap). Ok (myNS, myName, ipv4, ipv6, protocolMap)))"

definition ClientPods :: gauge_vec where
  "ClientPods = \<lparr>gv_Namespace = MetricsNS, gv_Subsystem = ''egress'', gv_Name = ''client_pod_count'', gv_Labels = [''namespace'', ''egress'']\<rparr>"

definition ClientPodInfo :: gauge_vec where
  "ClientPodInfo = \<lparr>gv_Namespace = MetricsNS, gv_Subsystem = ''egress'', gv_Name = ''client_pod_info'',
     gv_Labels = [''namespace'', ''pod'', ''pod_ip'', ''interface'', ''egress'', ''egress_namespace'']\<rparr>"

definition SetupPodWatcher :: "'w manager_ops \<Rightarrow> ('w, 'g) prom_ops \<Rightarrow> string \<Rightarrow> string \<Rightarrow> bool \<Rightarrow> ('w, podWatcher \<times> 'g \<times> checker) act" where
  "SetupPodWatcher M P ns name encapSportAuto =
     bindA (pr_Reset P ClientPods) (\<lambda>_.
     bindA (pr_Reset P ClientPodInfo) (\<lambda>_.
     bindA (pr_WithLabelValues P ClientPods [ns, name]) (\<lambda>clientPods.
     bindA (mg_Add M InitialPodSync) (\<lambda>_.
     bindA (mg_Complete M \<lparr>ct_For = ''Pod'', ct_ForPredicate = every_event, ct_Owns = [], ct_Reconciler = PodWatcherR\<rparr>) (\<lambda>_.
     returnA (NewPodWatcher ns name encapSportAuto, clientPods, PodSyncChecker))))))"

definition egress_gracefulTimeout :: int where "egress_gracefulTimeout = 5 * 10 ^ 9"

definition egress_manager_options :: "egress_config \<Rightarrow> manager_options" where
  "egress_manager_options config = \<lparr>mo_LeaderElection = False, mo_LeaderElectionID = [], mo_LeaderElectionNamespace = [], mo_MetricsAddr = ec_metricsAddr config,
     mo_GracefulShutdownTimeout = egress_gracefulTimeout, mo_HealthProbeBindAddress = ec_healthAddr config, mo_WebhookServer = None\<rparr>"

text \<open>\<open>spawn\<close> starts the goroutine that runs the collectors.\<close>

definition egress_subMain :: "'w manager_ops \<Rightarrow> 'w fou_env \<Rightarrow> 'w nat_env \<Rightarrow> ('w, 'g) metrics_env \<Rightarrow> ('w Runner \<Rightarrow> ('w, unit) act) \<Rightarrow>
    (string \<Rightarrow> string) \<Rightarrow> egress_config \<Rightarrow> ('w, unit) act" where
  "egress_subMain M F N E spawn getenv config =
     bindA (resA (egress_environment getenv)) (\<lambda>(myNS, myName, ipv4, ipv6, protocolMap).
     bindA (mg_NewManager M (egress_manager_options config)) (\<lambda>_.
     bindA (resA (NewFoUTunnel (ec_port config) ipv4 ipv6)) (\<lambda>ft.
     bindA (fou_Init F ft) (\<lambda>_.
     bindA (NewNatServer N ''eth0'' ipv4 ipv6 (ec_backend config)) (\<lambda>nat.
     bindA (SetupPodWatcher M (me_prom E) myNS myName (ec_enableSportAuto config)) (\<lambda>(_, _, podSyncChecker).
     bindA (mg_AddHealthzCheck M ''ping'' Ping) (\<lambda>_.
     bindA (mg_AddReadyzCheck M ''pod-sync'' podSyncChecker) (\<lambda>_.
     bindA (NewEgressCollector E myNS (getenv ''HOSTNAME'') myName (me_range E (gkeys protocolMap))) (\<lambda>egressCollector.
     bindA (spawn (Runner_Register (egress_Collector E egressCollector) NewRunner)) (\<lambda>_.
     mg_Start M))))))))))"

definition egress_watcher_env :: "'w fou_env \<Rightarrow> 'w nat_env \<Rightarrow> fouTunnel \<Rightarrow> (NatServer \<times> 'w, Pod list) act \<Rightarrow>
    (string \<Rightarrow> string \<Rightarrow> (NatServer \<times> 'w, Pod) act) \<Rightarrow> range_order \<Rightarrow> error \<Rightarrow> (NatServer \<times> 'w) watcher_env" where
  "egress_watcher_env F N ft listPods getPod rng ctxErr = \<lparr>wt_ListPods = listPods, wt_GetPod = getPod, wt_ft = watcher_ft F ft,
     wt_AddClient = AddClient N, wt_range = rng, wt_ctxErr = ctxErr\<rparr>"

end
