(* ===== verification/Coild_Facts.thy ===== *)
theory Coild_Facts
  imports Startup
begin

text \<open>
  The server of a node with its components: what \<open>coildServer\<close> relies on in the address management and the pod network is the locale
  \<open>coild_backend\<close>, its calls keep what they keep, and the locale is interpreted on the server that \<open>coild\<close> assembles. At the end
  the composed system is shown to refine a specification of leases, in which a container holds an address or does not.
\<close>

section \<open>What the server relies on\<close>

text \<open>The steps of a running server: any call of the plugin, a tick of the collector, the clean-up at shutdown, however they end.\<close>

inductive coild_step :: "('s, 'h) coildServer \<Rightarrow> 's \<Rightarrow> 's \<Rightarrow> bool" for S where
  add: "Add S args s = (r, s') \<Longrightarrow> coild_step S s s'"
| del: "Del S args s = (r, s') \<Longrightarrow> coild_step S s s'"
| check: "coild_Check S args s = (r, s') \<Longrightarrow> coild_step S s s'"
| tick: "gc_tick S s = (r, s') \<Longrightarrow> coild_step S s s'"
| stop: "shutdown S s = (r, s') \<Longrightarrow> coild_step S s s'"

text \<open>\<open>allowed c i\<close>: the containers and interfaces for which the address management keeps the invariant.\<close>

locale coild_backend =
  fixes S :: "('s, 'h) coildServer"
    and inv :: "'s \<Rightarrow> bool"
    and allowed :: "string \<Rightarrow> string \<Rightarrow> bool"
  assumes Allocate_keeps: "allowed c i \<Longrightarrow> keeps inv (if_Allocate (cs_nodeIPAM S) pool c i)"
    and Free_keeps: "allowed c i \<Longrightarrow> keeps inv (if_Free (cs_nodeIPAM S) c i)"
    and GC_keeps: "keeps inv (if_GC (cs_nodeIPAM S))"
    and ClearRoutes_keeps: "keeps inv (if_ClearRoutes (cs_nodeIPAM S))"
    and SetupIPAM_keeps: "keeps inv (if_SetupIPAM (cs_podNet S) nsPath podName podNS conf)"
    and SetupEgress_keeps: "keeps inv (if_SetupEgress (cs_podNet S) nsPath conf hook)"
    and Check_keeps: "keeps inv (if_Check (cs_podNet S) c i)"
    and Destroy_keeps: "keeps inv (if_Destroy (cs_podNet S) c i)"
    and alias_keeps: "keeps inv (cs_aliasFunc S conf ifName)"
    and GetPod_keeps: "keeps inv (ck_GetPod (cs_kube S) ns name)"
    and GetNamespace_keeps: "keeps inv (ck_GetNamespace (cs_kube S) name)"
    and GetNode_keeps: "keeps inv (ck_GetNode (cs_kube S) name)"
    and GetEgress_keeps: "keeps inv (ck_GetEgress (cs_kube S) ns name)"
    and GetService_keeps: "keeps inv (ck_GetService (cs_kube S) ns name)"
begin

lemmas world_keeps = ClearRoutes_keeps SetupIPAM_keeps SetupEgress_keeps Check_keeps Destroy_keeps alias_keeps
  GetPod_keeps GetNamespace_keeps GetNode_keeps GetEgress_keeps GetService_keeps

lemma getPodFromArgs_keeps: "keeps inv (getPodFromArgs S args)"
  unfolding getPodFromArgs_def Let_def by (intro keeps_intros world_keeps)

lemma gateways_keeps: "keeps inv (gateways S names)"
proof (induction names)
  case (Cons x names)
  then show ?case by (cases x) (auto simp: Let_def intro!: keeps_intros world_keeps)
qed (simp add: keeps_intros)

lemma getHook_keeps: "keeps inv (getHook S pod)"
  unfolding getHook_def Let_def by (intro keeps_intros gateways_keeps)

lemma setup_egress_keeps: "keeps inv (setup_egress S args pod conf)"
  unfolding setup_egress_def setCoilInterfaceAlias_def Let_def by (intro keeps_intros world_keeps getHook_keeps)

lemma Add_keeps:
  assumes "allowed (ca_ContainerId args) (ca_Ifname args)"
  shows "keeps inv (Add S args)"
proof -
  note ipam_keeps = Allocate_keeps [OF assms] Free_keeps [OF assms]
  have "keeps inv (allocate_for S args pod)" for pod
    unfolding allocate_for_def Let_def by (intro keeps_intros world_keeps ipam_keeps)
  moreover have "keeps inv (setup_ipam S args pod conf)" for pod conf
    unfolding setup_ipam_def by (intro keeps_intros world_keeps ipam_keeps)
  moreover have "keeps inv (marshal_result S args result)" for result
    unfolding marshal_result_def by (intro keeps_intros world_keeps ipam_keeps)
  ultimately show ?thesis
    unfolding Add_def Let_def by (intro keeps_intros getPodFromArgs_keeps setup_egress_keeps)
qed

lemma Del_keeps:
  assumes "allowed (ca_ContainerId args) (ca_Ifname args)"
  shows "keeps inv (Del S args)"
  unfolding Del_def by (intro keeps_intros world_keeps Free_keeps assms)

lemma Check_call_keeps: "keeps inv (coild_Check S args)"
  unfolding coild_Check_def by (intro keeps_intros world_keeps getPodFromArgs_keeps)

lemma tick_keeps: "keeps inv (gc_tick S)"
  unfolding gc_tick_def by (intro keeps_intros GC_keeps)

lemma shutdown_keeps: "keeps inv (shutdown S)"
  unfolding shutdown_def by (intro keeps_intros world_keeps)

end

text \<open>When every container is allowed, every step keeps the invariant.\<close>

locale coild_service = coild_backend S inv "\<lambda>_ _. True" for S :: "('s, 'h) coildServer" and inv :: "'s \<Rightarrow> bool"

sublocale coild_service \<subseteq> run: inductive_invariant "coild_step S" inv
proof
  fix s s' assume inv: "inv s" and step: "coild_step S s s'"
  from step show "inv s'"
    by cases (blast intro: keepsD [OF Add_keeps [OF TrueI] inv] keepsD [OF Del_keeps [OF TrueI] inv] keepsD [OF Check_call_keeps inv]
      keepsD [OF tick_keeps inv] keepsD [OF shutdown_keeps inv])+
qed

section \<open>The server of a node\<close>

text \<open>An API server and a route exporter that carry out what they are asked: a block that is to be deleted may be gone already.\<close>

definition gone_or_ok :: "'a res \<Rightarrow> bool" where
  "gone_or_ok r \<longleftrightarrow> (case r of Ok _ \<Rightarrow> True | Err e \<Rightarrow> IsNotFound e | Panic _ \<Rightarrow> False)"

definition api_reliable :: "('b, 'w) node_env \<Rightarrow> bool" where
  "api_reliable E \<longleftrightarrow> (\<forall>n w. gone_or_ok (fst (nk_GetAddressBlock (ne_kube E) n w))) \<and>
     (\<forall>b w. fst (nk_UpdateAddressBlock (ne_kube E) b w) = Ok ()) \<and>
     (\<forall>n w. gone_or_ok (fst (nk_DeleteAddressBlock (ne_kube E) n w))) \<and>
     (\<forall>f w. (\<forall>v. fst (f v) = Ok ()) \<longrightarrow> fst (nk_RetryOnConflict (ne_kube E) f w) = Ok ()) \<and>
     (\<forall>l w. \<exists>bs. fst (nk_ListAddressBlocks (ne_kube E) l w) = Ok bs) \<and>
     (\<forall>sy l w. nk_ExporterSync (ne_kube E) = Some sy \<longrightarrow> fst (sy l w) = Ok ())"

text \<open>\<open>succeeds m s\<close>: the action returns normally from \<open>s\<close>.\<close>

abbreviation succeeds :: "('s, 'a) act \<Rightarrow> 's \<Rightarrow> bool" where
  "succeeds m s \<equiv> wp m (\<lambda>_ _. True) (\<lambda>_ _. False) s"

lemma succeeds_iff: "succeeds m s \<longleftrightarrow> (\<exists>x. fst (m s) = Ok x)"
  by (auto simp: wp_def split: prod.splits res.splits)

lemma deleteBlock_succeeds:
  assumes "api_reliable E"
  shows "succeeds (deleteBlock E name) w"
proof -
  have get: "wp (nk_GetAddressBlock (ne_kube E) n) (\<lambda>_ _. True) (\<lambda>e _. IsNotFound e) v" for n v
    using assms by (auto simp: api_reliable_def gone_or_ok_def wp_def split: prod.splits res.splits) (metis fst_conv res.simps)+
  have upd: "succeeds (nk_UpdateAddressBlock (ne_kube E) b) v" for b v
    using assms by (auto simp: api_reliable_def succeeds_iff)
  have "wp (remove_finalizer E name) (\<lambda>_ _. True) (\<lambda>_ _. False) v" for v
    unfolding remove_finalizer_def wp_simps
    by (rule wp_mono [OF get]) (auto simp: wp_simps upd)
  then have "fst (nk_RetryOnConflict (ne_kube E) (remove_finalizer E name) v) = Ok ()" for v
    using assms by (simp add: api_reliable_def succeeds_iff)
  then have retry: "succeeds (nk_RetryOnConflict (ne_kube E) (remove_finalizer E name)) v" for v
    by (simp add: succeeds_iff)
  have del: "wp (nk_DeleteAddressBlock (ne_kube E) n) (\<lambda>_ _. True) (\<lambda>e _. IsNotFound e) v" for n v
    using assms by (auto simp: api_reliable_def gone_or_ok_def wp_def split: prod.splits res.splits) (metis fst_conv res.simps)+
  show ?thesis
    unfolding deleteBlock_def wp_simps
    by (rule wp_mono [OF retry]) (auto simp: wp_simps wp_ignoreNotFound intro: wp_mono [OF del])
qed

lemma sync_succeeds:
  assumes "api_reliable E"
  shows "succeeds (sync E) s"
proof -
  obtain n w where s: "s = (n, w)" by (cases s)
  have list: "succeeds (nk_ListAddressBlocks (ne_kube E) l) v" for l v using assms by (simp add: api_reliable_def succeeds_iff)
  have ex: "succeeds (sy l) v" if "nk_ExporterSync (ne_kube E) = Some sy" for sy l v
    using assms that by (simp add: api_reliable_def succeeds_iff)
  show ?thesis
    by (cases "nk_ExporterSync (ne_kube E)") (auto simp: s sync_def wp_simps intro!: wp_mono [OF list] ex)
qed

lemma pool_free_succeeds:
  assumes "api_reliable E" and "PI E name H (p, w)" and "(nm, i) \<in> H"
  shows "succeeds (pool_free E nm i) (p, w)"
proof -
  obtain a where a: "glookup (np_blockAlloc p) nm = Some a" using PI_D(4) [OF assms(2)] assms(3) by (auto simp: live_def)
  then obtain k where k: "alloc_inv (ne_bitset E) (ne_netutil E) k a" using PI_D(3) [OF assms(2)] by (auto simp: np_inv_def)
  obtain a' where a': "free (ne_bitset E) i a = Ok a'" "alloc_inv (ne_bitset E) (ne_netutil E) k a'" using free_inv [OF k] by blast
  show ?thesis
    using a a'(1) isEmpty_inv [OF a'(2)]
    by (auto simp: pool_free_def wp_simps intro: wp_mono [OF deleteBlock_succeeds [OF assms(1)]])
qed

text \<open>With such an API server a release always succeeds.\<close>

lemma Free_succeeds:
  assumes "api_reliable E" and "ipam_inv E s"
  shows "succeeds (Free E c i) s"
proof -
  obtain n w where s: "s = (n, w)" by (cases s)
  show ?thesis
  proof (cases "glookup (ni_allocInfoMap n) (allocKey c i)")
    case (Some ai)
    have NI: "NI E (n, w)" using assms(2) s by (simp add: ipam_inv_def)
    obtain p where p: "glookup (ni_pools n) (ai_Pool ai) = Some p"
      using NI Some unfolding NI_def NIX_def by fastforce
    have "succeeds (pool_free E (ai_BlockName ai) (ai_Index ai)) (p, w)"
      by (rule pool_free_succeeds [OF assms(1) NI_pool [OF NI p] heldI [OF Some]])
    then have "succeeds (ni_on_pool (ai_Pool ai) (pool_free E (ai_BlockName ai) (ai_Index ai))) (n, w)"
      using p by (auto simp: succeeds_iff ni_on_pool_def split: prod.splits)
    then have "succeeds (bindA (ni_on_pool (ai_Pool ai) (pool_free E (ai_BlockName ai) (ai_Index ai))) (\<lambda>toSync.
        bindA (if toSync then sync E else returnA ()) (\<lambda>_.
        modifyA (\<lambda>(n, w). (n\<lparr>ni_allocInfoMap := gdelete (allocKey c i) (ni_allocInfoMap n)\<rparr>, w))))) (n, w)"
      unfolding wp_bindA by (rule wp_mono) (auto simp: wp_simps intro!: wp_mono [OF sync_succeeds [OF assms(1)]])
    then show ?thesis using Some s by (simp add: Free_def wp_def)
  qed (simp add: s Free_def wp_simps)
qed

text \<open>The state of a node, with the entry of one container and interface.\<close>

definition node_inv :: "('b, 'w) node_env \<Rightarrow> 'b nodeIPAM \<times> 'w \<Rightarrow> bool" where
  "node_inv E s \<longleftrightarrow> api_reliable E \<and> ipam_inv E s"

definition entry_is :: "string \<Rightarrow> allocInfo option \<Rightarrow> 'b nodeIPAM \<times> 'w \<Rightarrow> bool" where
  "entry_is k v s \<longleftrightarrow> glookup (ni_allocInfoMap (fst s)) k = v"

lemma node_inv_world: "node_inv E (n, w) \<Longrightarrow> node_inv E (n, w')"
  using NIX_world by (auto simp: node_inv_def ipam_inv_def NI_def)

lemma entry_is_world: "entry_is k v (n, w) \<Longrightarrow> entry_is k v (n, w')"
  by (simp add: entry_is_def)

lemma Free_effect:
  assumes "node_inv E s"
  shows "\<exists>s'. Free E c i s = (Ok (), s') \<and> node_inv E s' \<and>
    glookup (ni_allocInfoMap (fst s')) = (glookup (ni_allocInfoMap (fst s)))(allocKey c i := None)"
proof -
  obtain s' where run: "Free E c i s = (Ok (), s')"
    using Free_succeeds [of E s c i] assms by (auto simp: node_inv_def succeeds_iff) (metis prod.collapse)
  with Free_outcome [of E s c i] assms show ?thesis
    by (auto simp: node_inv_def ipam_inv_def outcome_def fun_eq_iff)
qed

lemma Allocate_effect:
  assumes "node_inv E s" and "Allocate E pool c i s = (r, s')"
  shows "node_inv E s' \<and> (\<forall>k. k \<noteq> allocKey c i \<longrightarrow> glookup (ni_allocInfoMap (fst s')) k = glookup (ni_allocInfoMap (fst s)) k) \<and>
    (\<forall>v. r = Ok v \<longrightarrow> (\<exists>ai. glookup (ni_allocInfoMap (fst s')) (allocKey c i) = Some ai \<and> v = (ai_IPv4 ai, ai_IPv6 ai)))"
proof (cases "glookup (ni_allocInfoMap (fst s)) (allocKey c i)")
  case (Some ai)
  then show ?thesis using Allocate_hit [of "fst s" c i ai E pool "snd s"] assms by auto
next
  case None
  have inv: "node_inv E s'" using Allocate_ipam_inv [OF _ assms(2)] assms(1) by (simp add: node_inv_def)
  show ?thesis
  proof (cases r)
    case (Ok v)
    then have "gave E pool (allocKey c i) (fst s) v (fst s')"
      using Allocate_outcome [OF _ _ None, of E pool] assms by (simp add: node_inv_def ipam_inv_def outcome_def)
    then show ?thesis using inv Ok by (auto simp: gave_def)
  qed (use inv Allocate_error_map [OF assms(2)] in auto)
qed

text \<open>The pod network, the API server and the interface alias act on the world only, so any property of the memory that the address management keeps is kept.\<close>

lemma coild_server_backend:
  assumes "\<And>n w w'. I (n, w) \<Longrightarrow> I (n, w')"
    and "\<And>pool c i. allowed c i \<Longrightarrow> keeps I (Allocate E pool c i)" and "\<And>c i. allowed c i \<Longrightarrow> keeps I (Free E c i)" and "keeps I (GC E)"
  shows "coild_backend (coild_server E P podNet K marshal frng cfg nodeName) I allowed"
proof -
  note w = keeps_world [of I, OF assms(1)]
  have "keeps I (ClearRoutes E)" unfolding ClearRoutes_def by (intro keeps_intros w)
  then show ?thesis
    using assms(2-4) by unfold_locales (simp_all add: coild_server_def coild_ipam_def coild_podnet_def world_kube_def w)
qed

lemma node_keeps:
  "keeps (node_inv E) (Allocate E pool c i)" "keeps (node_inv E) (Free E c i)" "keeps (node_inv E) (GC E)"
proof -
  show "keeps (node_inv E) (Allocate E pool c i)" by (rule keepsI) (use Allocate_effect in blast)
  show "keeps (node_inv E) (Free E c i)" by (rule keepsI) (metis Free_effect prod.inject)
  show "keeps (node_inv E) (GC E)"
    by (rule keepsI) (metis ipam.step_inv gc_step node_inv_def)
qed

lemma entry_keeps:
  "allocKey c i \<noteq> k \<Longrightarrow> keeps (\<lambda>s. node_inv E s \<and> entry_is k v s) (Allocate E pool c i)"
  "allocKey c i \<noteq> k \<Longrightarrow> keeps (\<lambda>s. node_inv E s \<and> entry_is k v s) (Free E c i)"
  "keeps (\<lambda>s. node_inv E s \<and> entry_is k v s) (GC E)"
proof -
  show "keeps (\<lambda>s. node_inv E s \<and> entry_is k v s) (Allocate E pool c i)" if "allocKey c i \<noteq> k"
    by (rule keepsI) (use that Allocate_effect in \<open>fastforce simp: entry_is_def\<close>)
  show "keeps (\<lambda>s. node_inv E s \<and> entry_is k v s) (Free E c i)" if "allocKey c i \<noteq> k"
  proof (rule keepsI)
    fix s r s' assume "node_inv E s \<and> entry_is k v s" and "Free E c i s = (r, s')"
    with Free_effect [of E s c i] that show "node_inv E s' \<and> entry_is k v s'" by (auto simp: entry_is_def)
  qed
  show "keeps (\<lambda>s. node_inv E s \<and> entry_is k v s) (GC E)"
  proof (rule keepsI)
    fix s r s' assume s: "node_inv E s \<and> entry_is k v s" and run: "GC E s = (r, s')"
    then have "node_inv E s'" using keepsD [OF node_keeps(3)] by blast
    moreover have "ni_allocInfoMap (fst s') = ni_allocInfoMap (fst s)"
      using keepsD [OF Node_Ipam.GC_keeps _ run, of "ni_allocInfoMap (fst s)"] s by (simp add: node_inv_def ipam_inv_def)
    ultimately show "node_inv E s' \<and> entry_is k v s'" using s by (simp add: entry_is_def)
  qed
qed

interpretation coild: coild_service "coild_server E P podNet K marshal frng cfg nodeName" "node_inv E"
  for E :: "('b, 'w) node_env" and P :: "('w, 'w inside) pod_env" and podNet K marshal frng cfg nodeName
  unfolding coild_service_def by (rule coild_server_backend) (auto intro: node_inv_world node_keeps)

interpretation coild_entry: coild_backend "coild_server E P podNet K marshal frng cfg nodeName"
  "\<lambda>s. node_inv E s \<and> entry_is k v s" "\<lambda>c i. allocKey c i \<noteq> k"
  for E :: "('b, 'w) node_env" and P :: "('w, 'w inside) pod_env" and podNet K marshal frng cfg nodeName k v
  by (rule coild_server_backend) (auto intro: node_inv_world entry_is_world entry_keeps)

section \<open>A reference node\<close>

text \<open>The reference cluster with an API server that never fails, and the idle kernel.\<close>

definition steady_env :: "(bool list, ref_world) node_env" where
  "steady_env = ref_node_env\<lparr>ne_kube := ref_node_kube\<lparr>nk_DeleteAddressBlock := (\<lambda>n w.
     (Ok (), w\<lparr>rw_blocks := filter (\<lambda>i. ''b'' @ itoa i \<noteq> n) (rw_blocks w)\<rparr>))\<rparr>\<rparr>"

definition idle_inside :: "'w inside" where
  "idle_inside = (\<lparr>fe_netlink = idle_netlink, fe_modprobe = (\<lambda>_. returnA ()), fe_Sysctl = (\<lambda>_ _. returnA ()),
       fe_EnableIP4Forward = returnA (), fe_EnableIP6Forward = returnA ()\<rparr>,
     \<lparr>nv_netlink = idle_netlink,
       nv_iptables = ref_iptables, nv_nft = ref_nft\<rparr>)"

definition idle_pods :: "('w, 'w inside) pod_env" where
  "idle_pods = \<lparr>pe_netlink = idle_netlink,
     pe_GetNS = (\<lambda>_. returnA \<lparr>ns_Enter = returnA (), ns_netlink = idle_netlink,
       ns_SetupVethWithName = (\<lambda>_ h _. returnA (new_link h Veth, new_link ''eth0'' Veth)), ns_SettleAddresses = (\<lambda>_. returnA ()), ns_inside = idle_inside\<rparr>),
     pe_SettleAddresses = (\<lambda>_. returnA ()), pe_EnableIP4Forward = returnA (), pe_EnableIP6Forward = returnA (), pe_DetectMTU = returnA 1500,
     pe_ip = (\<lambda>_. returnA []), pe_UnmarshalLinkData = (\<lambda>_. Ok []), pe_UnmarshalNetNsData = (\<lambda>_. Ok []), pe_NsRunDir = ''/var/run/netns''\<rparr>"

definition example_kube :: "'w coild_kube" where
  "example_kube = \<lparr>ck_GetPod = (\<lambda>ns name. returnA \<lparr>pod_meta = empty_meta\<lparr>om_Name := name, om_Namespace := ns\<rparr>, pod_HostNetwork = False,
       pod_Phase = PodRunning, pod_PodIP = [], pod_PodIPs = [], pod_Images = []\<rparr>),
     ck_GetNamespace = (\<lambda>name. returnA (empty_meta\<lparr>om_Name := name\<rparr>)),
     ck_GetNode = (\<lambda>name. errA (StatusError ReasonNotFound name)), ck_GetEgress = (\<lambda>_ name. errA (StatusError ReasonNotFound name)),
     ck_GetService = (\<lambda>_ name. errA (StatusError ReasonNotFound name))\<rparr>"

definition example_cfg :: Config where
  "example_cfg = \<lparr>cf_MetricsAddr = '':9384'', cf_HealthAddr = '':9385'', cf_PodTableId = 116, cf_PodRulePrio = 2000, cf_ExportTableId = 119, cf_ProtocolId = 30, cf_SocketPath = ''/run/coild.sock'', cf_CompatCalico = False, cf_EgressPort = 5555,
     cf_RegisterFromMain = False, cf_EnableIPAM = True, cf_EnableEgress = False, cf_AddressBlockGCInterval = 300 * 10 ^ 9, cf_Backend = EgressBackendIPTables, cf_OriginatingOnly = False,
     cf_ClearRoutesOnShutdown = False\<rparr>"

definition example_coild :: "(bool list nodeIPAM \<times> ref_world, (ref_world, ref_world inside) setup_hook) coildServer" where
  "example_coild = coild_server steady_env idle_pods (NewPodNetwork 116 2000 30 [10, 0, 0, 1] nil_ip False False True) example_kube (\<lambda>_. Ok ''ok'')
     (\<lambda>fs. fs) example_cfg ''n1''"

definition cni_args :: "string \<Rightarrow> CNIArgs" where
  "cni_args c = \<lparr>ca_ContainerId = c, ca_Netns = ''/var/run/netns/'' @ c, ca_Ifname = ''eth0'',
     ca_Args = [(PodNameKey, c), (PodNamespaceKey, ''default'')], ca_Ips = [], ca_Interfaces = []\<rparr>"

definition node_two_pods :: "bool list nodeIPAM \<times> ref_world" where
  "node_two_pods = snd (Add example_coild (cni_args ''c2'') (snd (Add example_coild (cni_args ''c1'') ref_init)))"

lemma steady_env_reliable: "api_reliable steady_env"
  by (simp add: api_reliable_def steady_env_def ref_node_env_def ref_node_kube_def gone_or_ok_def)

lemma steady_env_inv: "ipam_inv steady_env ref_init"
  unfolding ref_init_def
  by (rule NewNodeIPAM_inv) (use ref_node_env_ok in \<open>simp add: node_env_ok_def steady_env_def ref_node_env_def lists_wf_def ref_node_kube_def\<close>)

lemma node_two_pods_map: "ni_allocInfoMap (fst node_two_pods) = ni_allocInfoMap (fst ref_two)"
  by code_simp

lemma node_two_pods_steps: "(coild_step example_coild)\<^sup>*\<^sup>* ref_init node_two_pods"
  unfolding node_two_pods_def
  by (rule rtranclp_trans [OF r_into_rtranclp r_into_rtranclp]) (rule coild_step.add [OF prod.collapse [symmetric]])+

section \<open>Properties\<close>



text \<open>\<open>yields J m s\<close>: if the action returns normally, it leaves a state that satisfies \<open>J\<close>.\<close>

abbreviation yields :: "('s \<Rightarrow> bool) \<Rightarrow> ('s, 'a) act \<Rightarrow> 's \<Rightarrow> bool" where
  "yields J m s \<equiv> post m (\<lambda>_. J) s"

lemmas yields_bindA = post_bindA [where P = "\<lambda>_. I" and Q = "\<lambda>_. J" for I J]

lemma yields_keeps: "keeps J m \<Longrightarrow> J s \<Longrightarrow> yields J m s"
  by (rule outcome_mono [OF outcome_keeps]) auto

lemma yields_errA: "yields J (errA e) s"
  by (simp add: wp_simps)

lemma yields_bind_errA: "yields J (bindA m (\<lambda>_. errA e)) s"
  by (simp add: outcome_def bindA_def errA_def split: prod.splits res.splits)

lemma GC_map: "keeps (\<lambda>s. ni_allocInfoMap (fst s) = M) (GC E)"
  unfolding GC_def syncUnregisteredPool_def ni_gc_def Let_def
  by (intro keeps_intros keeps_world sync_keeps ni_on_pool_map ni_getPool_map) auto

interpretation coild_held: coild_backend "coild_server E P podNet K marshal frng cfg nodeName" "\<lambda>s. \<not> entry_is k None s" "\<lambda>_ _. False"
  for E :: "('b, 'w) node_env" and P :: "('w, 'w inside) pod_env" and podNet K marshal frng cfg nodeName k
proof (rule coild_server_backend)
  show "keeps (\<lambda>s. \<not> entry_is k None s) (GC E)"
    by (rule keepsI) (use keepsD [OF GC_map refl] in \<open>force simp: entry_is_def\<close>)
qed (simp_all add: entry_is_def)

text \<open>The entry of a container is there once it was allocated, until a release: nothing else in \<open>Add\<close> removes it.\<close>

lemma Add_stores:
  assumes "node_inv E s" and "cf_EnableIPAM cfg"
  shows "yields (\<lambda>s'. \<not> entry_is (allocKey (ca_ContainerId args) (ca_Ifname args)) None s')
    (Add (coild_server E P podNet K marshal frng cfg nodeName) args) s"
proof -
  let ?S = "coild_server E P podNet K marshal frng cfg nodeName"
  let ?J = "\<lambda>s. \<not> entry_is (allocKey (ca_ContainerId args) (ca_Ifname args)) None s"
  have on: "cf_EnableIPAM (cs_cfg ?S)" using assms(2) by (simp add: coild_server_def)
  have ipam: "if_Allocate (cs_nodeIPAM ?S) = Allocate E" by (simp add: coild_server_def coild_ipam_def)
  have base: "yields ?J (Allocate E pool (ca_ContainerId args) (ca_Ifname args)) s2" if "node_inv E s2" for pool s2
    by (rule outcome_call) (use Allocate_effect [OF that] in \<open>fastforce simp: entry_is_def split: res.splits\<close>)
  have alloc: "yields ?J (allocate_for ?S args p) s1" if "node_inv E s1" for p s1
    unfolding allocate_for_def Let_def if_P [OF on] ipam
    by (rule yields_bindA [where I = "node_inv E"], intro yields_keeps keeps_intros coild.GetNamespace_keeps that,
        rule yields_bindA [where I = ?J], unfold outcome_internalA, erule base) (simp add: outcome_returnA split: prod.splits)
  have "yields ?J (setup_ipam ?S args p conf) s1" if "?J s1" for p conf s1
    unfolding setup_ipam_def if_P [OF on] outcome_bindA outcome_tryA
    by (rule outcome_mono [OF outcome_keeps [OF coild_held.SetupIPAM_keeps that]]) (simp_all add: outcome_returnA yields_bind_errA flip: outcome_bindA)
  moreover have "yields ?J (marshal_result ?S args result) s1" if "?J s1" for result s1
    using that unfolding marshal_result_def outcome_bindA outcome_tryA outcome_resA
    by (auto simp: yields_bind_errA outcome_returnA outcome_errA simp flip: outcome_bindA split: res.splits)
  moreover note yields_keeps [OF coild_held.setup_egress_keeps] alloc
  ultimately have body: "yields ?J (bindA (allocate_for ?S args p) (\<lambda>x. case x of (a, b, c) \<Rightarrow>
      bindA (setup_ipam ?S args p (f a b c)) (\<lambda>result. bindA (setup_egress ?S args p (f a b c)) (\<lambda>_. marshal_result ?S args result)))) s1"
    if "node_inv E s1" for p f s1
    using that by (intro yields_bindA [where I = ?J]) (auto split: prod.splits intro!: yields_bindA [where I = ?J])
  have "yields (node_inv E) (internalA t (getPodFromArgs ?S args)) s" for t
    by (intro yields_keeps keeps_intros coild.getPodFromArgs_keeps assms)
  from yields_bindA [OF this body] show ?thesis
    by (auto simp: Add_def Let_def outcome_bindA outcome_tryA outcome_resA outcome_errA split: res.splits)
qed

lemma Del_effect:
  assumes "node_inv E s" and "cf_EnableIPAM cfg" and "Del (coild_server E P podNet K marshal frng cfg nodeName) args s = (r, s')"
  shows "glookup (ni_allocInfoMap (fst s')) = (if r = Ok () then (glookup (ni_allocInfoMap (fst s)))(allocKey (ca_ContainerId args) (ca_Ifname args) := None)
    else glookup (ni_allocInfoMap (fst s)))"
proof -
  let ?c = "ca_ContainerId args" and ?i = "ca_Ifname args"
  have eq: "Del (coild_server E P podNet K marshal frng cfg nodeName) args =
      bindA (internalA ''failed to destroy pod network'' (liftW (Destroy P ?c ?i))) (\<lambda>_. internalA ''failed to free addresses'' (Free E ?c ?i))"
    using assms(2) by (simp add: Del_def coild_server_def coild_ipam_def coild_podnet_def)
  obtain n w where s: "s = (n, w)" by (cases s)
  obtain r1 w1 where d: "Destroy P ?c ?i w = (r1, w1)" by fastforce
  obtain s2 where f: "Free E ?c ?i (n, w1) = (Ok (), s2)" "glookup (ni_allocInfoMap (fst s2)) = (glookup (ni_allocInfoMap n))(allocKey ?c ?i := None)"
    using Free_effect [OF node_inv_world [OF assms(1) [unfolded s]], of ?c ?i w1] by auto
  show ?thesis
    using assms(3) f by (cases r1) (auto simp: eq s bindA_def internalA_def liftW_def d)
qed



text \<open>
  C39. A release that emptied its block and then failed to export the routes can never be repeated: the block is gone from the pool but the entry of the
  container is still in the map, so the next release of this container panics, whatever the API server and the exporter answer then.
\<close>

theorem failed_export_then_panic:
  assumes "glookup (ni_allocInfoMap (fst s)) (allocKey c i) = Some ai"
    and "ni_on_pool (ai_Pool ai) (pool_free E (ai_BlockName ai) (ai_Index ai)) s = (Ok True, s1)" and "sync E s1 = (Err e, s2)"
  shows "Free E c i s = (Err e, s2) \<and> glookup (ni_allocInfoMap (fst s2)) (allocKey c i) = Some ai \<and>
    (\<forall>w. fst (Free E c i (fst s2, w)) = Panic (''bug: '' @ ai_BlockName ai))"
proof -
  obtain n w n1 w1 n2 w2 where s: "s = (n, w)" "s1 = (n1, w1)" "s2 = (n2, w2)" by (metis surj_pair)
  have n2: "n2 = n1" using sync_memory [of E n1 w1] assms(3) s by simp
  obtain p p1 where p: "glookup (ni_pools n) (ai_Pool ai) = Some p" "pool_free E (ai_BlockName ai) (ai_Index ai) (p, w) = (Ok True, (p1, w1))"
      "n1 = n\<lparr>ni_pools := gupdate (ai_Pool ai) p1 (ni_pools n)\<rparr>"
    using assms(2) s by (auto simp: ni_on_pool_def split: option.splits prod.splits)
  have gone: "glookup (np_blockAlloc p1) (ai_BlockName ai) = None"
    using p(2) by (auto simp: pool_free_def bindA_Ok_iff getA_def modifyA_def returnA_def panicA_def split: option.splits if_splits)
  have ai: "glookup (ni_allocInfoMap n1) (allocKey c i) = Some ai" using assms(1) s p(3) by simp
  have "fst (Free E c i (n1, v)) = Panic (''bug: '' @ ai_BlockName ai)" for v
    using ai gone p(3) by (simp add: Free_def ni_on_pool_def pool_free_def bindA_def panicA_def getA_def)
  moreover have "Free E c i s = (Err e, s2)"
    using assms s by (simp add: Free_def bindA_def getA_def)
  ultimately show ?thesis using ai n2 s by simp
qed

text \<open>The reference cluster with an exporter that does not answer.\<close>

definition stuck_env :: "(bool list, ref_world) node_env" where
  "stuck_env = steady_env\<lparr>ne_kube := ne_kube steady_env\<lparr>nk_ExporterSync := Some (\<lambda>_. errA (ErrorMsg ''timeout''))\<rparr>\<rparr>"

theorem failed_export_then_panic_witness:
  "\<exists>s2. Free stuck_env ''c1'' ''eth0'' node_two_pods = (Err (ErrorMsg ''timeout''), s2) \<and> fst (Free stuck_env ''c1'' ''eth0'' s2) = Panic ''bug: b0''"
proof -
  let ?m = "ni_on_pool ''default'' (pool_free stuck_env ''b0'' 0) node_two_pods"
  obtain r s1 where r: "?m = (r, s1)" by (metis prod.collapse)
  obtain r2 s2 where r2: "sync stuck_env s1 = (r2, s2)" by (metis prod.collapse)
  have "fst ?m = Ok True" "fst (sync stuck_env (snd ?m)) = Err (ErrorMsg ''timeout'')" by code_simp+
  then have free: "?m = (Ok True, s1)" and exp: "sync stuck_env s1 = (Err (ErrorMsg ''timeout''), s2)" using r r2 by simp_all
  let ?ai = "\<lparr>ai_IPv4 = [10, 2, 0, 0], ai_IPv6 = [], ai_Pool = ''default'', ai_BlockName = ''b0'', ai_Index = 0\<rparr>"
  have "glookup (ni_allocInfoMap (fst node_two_pods)) (allocKey ''c1'' ''eth0'') = Some ?ai"
    unfolding node_two_pods_map ref_two_map by (simp add: allocKey_def)
  from failed_export_then_panic [OF this, of stuck_env s1 "ErrorMsg ''timeout''" s2] free exp
  have "Free stuck_env ''c1'' ''eth0'' node_two_pods = (Err (ErrorMsg ''timeout''), s2)" "\<forall>w. fst (Free stuck_env ''c1'' ''eth0'' (fst s2, w)) = Panic ''bug: b0''"
    by simp_all
  then show ?thesis by (metis prod.collapse)
qed

section \<open>The abstract service\<close>

text \<open>What a node promises, without blocks, pools and API objects: leases. A container gets an address nobody has, or gives its address back.\<close>

type_synonym lease_map = "string \<rightharpoonup> string \<times> string \<times> nat"

inductive lease_step :: "lease_map \<Rightarrow> lease_map \<Rightarrow> bool" where
  grant: "m k = None \<Longrightarrow> a \<notin> ran m \<Longrightarrow> lease_step m (m(k \<mapsto> a))"
| revoke: "lease_step m (m(k := None))"

definition leases :: "'b nodeIPAM \<times> 'w \<Rightarrow> lease_map" where
  "leases s = (\<lambda>k. map_option (\<lambda>ai. (ai_Pool ai, ai_BlockName ai, ai_Index ai)) (glookup (ni_allocInfoMap (fst s)) k))"

lemma leases_world: "leases (n, w) = leases (n, w')"
  by (simp add: leases_def)

lemma leases_cong: "glookup (ni_allocInfoMap (fst s)) = glookup (ni_allocInfoMap (fst s')) \<Longrightarrow> leases s = leases s'"
  by (simp add: leases_def)

lemma fresh_lease:
  assumes "(ai_BlockName ai, ai_Index ai) \<notin> held n (ai_Pool ai)"
  shows "(ai_Pool ai, ai_BlockName ai, ai_Index ai) \<notin> ran (leases (n, w))"
  using assms by (auto simp: leases_def ran_def held_def)

lemma Allocate_leases:
  assumes "node_inv E s" and "Allocate E pool c i s = (r, s')"
  shows "leases s' = leases s \<or> lease_step (leases s) (leases s')"
proof (cases "glookup (ni_allocInfoMap (fst s)) (allocKey c i)")
  case (Some ai)
  then show ?thesis using Allocate_hit [of "fst s" c i ai E pool "snd s"] assms(2) by simp
next
  case None
  show ?thesis
  proof (cases r)
    case (Ok v)
    then have "gave E pool (allocKey c i) (fst s) v (fst s')"
      using Allocate_outcome [OF _ _ None, of E pool] assms by (simp add: node_inv_def ipam_inv_def outcome_def)
    then obtain ai where ai: "ni_allocInfoMap (fst s') = gupdate (allocKey c i) ai (ni_allocInfoMap (fst s))"
        "(ai_BlockName ai, ai_Index ai) \<notin> held (fst s) (ai_Pool ai)"
      unfolding gave_def by blast
    have "leases s' = (leases s)(allocKey c i \<mapsto> (ai_Pool ai, ai_BlockName ai, ai_Index ai))"
      using ai(1) by (auto simp: leases_def)
    moreover have "leases s (allocKey c i) = None" using None by (simp add: leases_def)
    ultimately show ?thesis using lease_step.grant fresh_lease [OF ai(2), of "snd s"] by simp
  qed (use Allocate_error_map [OF assms(2)] leases_cong [of s' s] in simp_all)
qed

lemma Free_leases:
  assumes "node_inv E s" and "Free E c i s = (r, s')"
  shows "lease_step (leases s) (leases s')"
proof -
  have "leases s' = (leases s)(allocKey c i := None)"
    using Free_effect [OF assms(1), of c i] assms(2) by (auto simp: leases_def)
  then show ?thesis using lease_step.revoke by simp
qed

lemma lease_keeps:
  "keeps (\<lambda>s. node_inv E s \<and> lease_step\<^sup>*\<^sup>* m (leases s)) (Allocate E pool c i)"
  "keeps (\<lambda>s. node_inv E s \<and> lease_step\<^sup>*\<^sup>* m (leases s)) (Free E c i)"
  "keeps (\<lambda>s. node_inv E s \<and> lease_step\<^sup>*\<^sup>* m (leases s)) (GC E)"
proof -
  show "keeps (\<lambda>s. node_inv E s \<and> lease_step\<^sup>*\<^sup>* m (leases s)) (Allocate E pool c i)"
    by (rule keepsI) (metis Allocate_leases keepsD [OF node_keeps(1)] rtranclp.rtrancl_into_rtrancl)
  show "keeps (\<lambda>s. node_inv E s \<and> lease_step\<^sup>*\<^sup>* m (leases s)) (Free E c i)"
    by (rule keepsI) (metis Free_leases keepsD [OF node_keeps(2)] rtranclp.rtrancl_into_rtrancl)
  show "keeps (\<lambda>s. node_inv E s \<and> lease_step\<^sup>*\<^sup>* m (leases s)) (GC E)"
    by (rule keepsI) (metis leases_cong keepsD [OF GC_map refl] keepsD [OF node_keeps(3)])
qed

interpretation coild_lease: coild_service "coild_server E P podNet K marshal frng cfg nodeName"
  "\<lambda>s. node_inv E s \<and> lease_step\<^sup>*\<^sup>* m (leases s)"
  for E :: "('b, 'w) node_env" and P :: "('w, 'w inside) pod_env" and podNet K marshal frng cfg nodeName m
  unfolding coild_service_def
proof (rule coild_server_backend)
  fix n w w' assume "node_inv E (n, w) \<and> lease_step\<^sup>*\<^sup>* m (leases (n, w))"
  then show "node_inv E (n, w') \<and> lease_step\<^sup>*\<^sup>* m (leases (n, w'))"
    using node_inv_world leases_world [of n w w'] by auto
qed (rule lease_keeps)+



end
