(* ===== verification/Cni_Plugin.thy ===== *)
theory Cni_Plugin
  imports Coild_Facts
begin

text \<open>
  The plugin \<open>cmd/coil\<close> that the container runtime executes: it turns the CNI environment into the arguments of a call of
  \<open>coild\<close>, and the status \<open>coild\<close> answers with into a CNI error. The JSON decoder, the functions of
  \<open>containernetworking/cni\<close> and the connection are parameters. An error of the server reaches the runtime with its code and message.
\<close>

section \<open>The program\<close>

definition PodContainerKey :: string where "PodContainerKey = ''K8S_POD_INFRA_CONTAINER_ID''"

record PluginEnvArgs =
  ea_K8S_POD_NAMESPACE :: string
  ea_K8S_POD_NAME :: string
  ea_K8S_POD_INFRA_CONTAINER_ID :: string

definition PluginEnvArgs_Map :: "PluginEnvArgs \<Rightarrow> string gomap" where
  "PluginEnvArgs_Map e = [(PodNamespaceKey, ea_K8S_POD_NAMESPACE e), (PodNameKey, ea_K8S_POD_NAME e),
     (PodContainerKey, ea_K8S_POD_INFRA_CONTAINER_ID e)]"

text \<open>The part of a previous result the plugin reads: addresses, and interfaces with their sandboxes.\<close>

record prev_result =
  pr_IPs :: "ip list"
  pr_Interfaces :: "(string \<times> string) list"

record 'p PluginConf =
  pf_PrevResult :: "'p option"
  pf_CNIVersion :: string
  pf_Socket :: string

record CmdArgs =
  sk_ContainerID :: string
  sk_Netns :: string
  sk_IfName :: string
  sk_Args :: string
  sk_StdinData :: string

text \<open>Errors of the plugin: a \<open>types.Error\<close> with its code, or another error; or a panic.\<close>

datatype plugin_error = TypesError nat string string | PlainError error

datatype 'a presult = POk 'a | PErr plugin_error | PPanic string

definition ErrInternal :: nat where "ErrInternal = 999"
definition ErrInvalidEnvironmentVariables :: nat where "ErrInvalidEnvironmentVariables = 4"
definition ErrDecodingFailure :: nat where "ErrDecodingFailure = 6"
definition ErrTryAgainLater :: nat where "ErrTryAgainLater = 11"

text \<open>The status that arrives at the client: its text, its message and its details.\<close>

datatype rpc_detail = CNIError nat string string | OtherDetail string

record rpc_status =
  st_Error :: string
  st_Message :: string
  st_Details :: "rpc_detail list"

text \<open>A call of \<open>coild\<close> ends with a response or a status.\<close>

record ('s, 'p) plugin_env =
  pl_Unmarshal :: "'p PluginConf \<Rightarrow> string \<Rightarrow> 'p PluginConf res"
  pl_ParsePrevResult :: "'p PluginConf \<Rightarrow> 'p PluginConf res"
  pl_LoadArgs :: "string \<Rightarrow> PluginEnvArgs res"
  pl_GetResult :: "'p \<Rightarrow> prev_result res"
  pl_NewClient :: "string \<Rightarrow> 's \<Rightarrow> unit res \<times> 's"
  pl_Add :: "CNIArgs \<Rightarrow> 's \<Rightarrow> (rpc_status + string) \<times> 's"
  pl_Del :: "CNIArgs \<Rightarrow> 's \<Rightarrow> (rpc_status + unit) \<times> 's"
  pl_Check :: "CNIArgs \<Rightarrow> 's \<Rightarrow> (rpc_status + unit) \<times> 's"
  pl_NewResultFromResult :: "'p \<Rightarrow> string res"
  pl_NewResult :: "string \<Rightarrow> string res"
  pl_PrintResult :: "string \<Rightarrow> string \<Rightarrow> string res"

definition bindP :: "'a presult \<Rightarrow> ('a \<Rightarrow> 'b presult) \<Rightarrow> 'b presult" where
  "bindP m k = (case m of POk x \<Rightarrow> k x | PErr e \<Rightarrow> PErr e | PPanic p \<Rightarrow> PPanic p)"

definition orElse :: "'a res \<Rightarrow> (error \<Rightarrow> plugin_error) \<Rightarrow> 'a presult" where
  "orElse r f = (case r of Ok x \<Rightarrow> POk x | Err e \<Rightarrow> PErr (f e) | Panic p \<Rightarrow> PPanic p)"

definition parseConfig :: "('s, 'p) plugin_env \<Rightarrow> string \<Rightarrow> 'p PluginConf presult" where
  "parseConfig P stdin =
     bindP (orElse (pl_Unmarshal P \<lparr>pf_PrevResult = None, pf_CNIVersion = '''', pf_Socket = DefaultSocketPath\<rparr> stdin)
       (\<lambda>e. PlainError (Wrap ''failed to parse network configuration'' [e]))) (\<lambda>conf.
     orElse (pl_ParsePrevResult P conf) (\<lambda>e. PlainError (Wrap ''failed to parse prev result'' [e])))"

definition prev_args :: "prev_result \<Rightarrow> string list \<times> bool gomap" where
  "prev_args pr = (map IP_String (pr_IPs pr), fold (\<lambda>(name, sandbox). gupdate name (sandbox \<noteq> '''')) (pr_Interfaces pr) [])"

definition makeCNIArgs :: "('s, 'p) plugin_env \<Rightarrow> CmdArgs \<Rightarrow> 'p PluginConf \<Rightarrow> CNIArgs presult" where
  "makeCNIArgs P args conf =
     bindP (orElse (pl_LoadArgs P (sk_Args args)) (\<lambda>e. TypesError ErrInvalidEnvironmentVariables ''failed to load CNI_ARGS'' (Error e))) (\<lambda>env.
     let argsData = gupdate IsChained (if pf_PrevResult conf \<noteq> None then ''true'' else ''false'') (PluginEnvArgs_Map env) in
     bindP (case pf_PrevResult conf of
         None \<Rightarrow> POk ([], [])
       | Some p \<Rightarrow> bindP (orElse (pl_GetResult P p) (\<lambda>e. PlainError (Wrap ''error getting previous CNI result'' [e]))) (\<lambda>pr. POk (prev_args pr)))
     (\<lambda>(ips, interfaces).
     POk \<lparr>ca_ContainerId = sk_ContainerID args, ca_Netns = sk_Netns args, ca_Ifname = sk_IfName args, ca_Args = argsData,
       ca_Ips = ips, ca_Interfaces = interfaces\<rparr>))"

text \<open>The branch for a detail of another type builds an error and drops it; the nil pointer is read next.\<close>

definition convertError :: "rpc_status \<Rightarrow> 'a presult" where
  "convertError st = (case st_Details st of
       [CNIError code msg details] \<Rightarrow> PErr (TypesError code msg details)
     | [OtherDetail _] \<Rightarrow> PPanic ''invalid memory address or nil pointer dereference''
     | _ \<Rightarrow> PErr (TypesError ErrInternal (st_Message st) (st_Error st)))"

definition prepare :: "('s, 'p) plugin_env \<Rightarrow> CmdArgs \<Rightarrow> 's \<Rightarrow> ('p PluginConf \<times> CNIArgs) presult \<times> 's" where
  "prepare P args s = (case bindP (parseConfig P (sk_StdinData args)) (\<lambda>conf. bindP (makeCNIArgs P args conf) (\<lambda>a. POk (conf, a))) of
       POk (conf, cniArgs) \<Rightarrow> (case pl_NewClient P (pf_Socket conf) s of (r, s') \<Rightarrow>
         (bindP (orElse r (\<lambda>e. TypesError ErrTryAgainLater (''failed to connect to '' @ pf_Socket conf) (Error e))) (\<lambda>_. POk (conf, cniArgs)), s'))
     | r \<Rightarrow> (r, s))"

definition cmdAdd :: "('s, 'p) plugin_env \<Rightarrow> CmdArgs \<Rightarrow> 's \<Rightarrow> string presult \<times> 's" where
  "cmdAdd P args s = (case prepare P args s of
       (POk (conf, cniArgs), s') \<Rightarrow> (case pl_Add P cniArgs s' of
           (Inl st, s'') \<Rightarrow> (convertError st, s'')
         | (Inr resp, s'') \<Rightarrow>
             (bindP (orElse (case pf_PrevResult conf of Some p \<Rightarrow> pl_NewResultFromResult P p | None \<Rightarrow> pl_NewResult P resp)
                (\<lambda>e. TypesError ErrDecodingFailure ''failed to unmarshal result'' (Error e))) (\<lambda>result.
              orElse (pl_PrintResult P result (pf_CNIVersion conf)) PlainError), s''))
     | (PErr e, s') \<Rightarrow> (PErr e, s')
     | (PPanic p, s') \<Rightarrow> (PPanic p, s'))"

definition call_coild :: "('s, 'p) plugin_env \<Rightarrow> (CNIArgs \<Rightarrow> 's \<Rightarrow> (rpc_status + unit) \<times> 's) \<Rightarrow> CmdArgs \<Rightarrow> 's \<Rightarrow> unit presult \<times> 's" where
  "call_coild P call args s = (case prepare P args s of
       (POk (conf, cniArgs), s') \<Rightarrow> (case call cniArgs s' of
           (Inl st, s'') \<Rightarrow> (convertError st, s'')
         | (Inr _, s'') \<Rightarrow> (POk (), s''))
     | (PErr e, s') \<Rightarrow> (PErr e, s')
     | (PPanic p, s') \<Rightarrow> (PPanic p, s'))"

definition cmdDel :: "('s, 'p) plugin_env \<Rightarrow> CmdArgs \<Rightarrow> 's \<Rightarrow> unit presult \<times> 's" where
  "cmdDel P args = call_coild P (pl_Del P) args"

definition cmdCheck :: "('s, 'p) plugin_env \<Rightarrow> CmdArgs \<Rightarrow> 's \<Rightarrow> unit presult \<times> 's" where
  "cmdCheck P args = call_coild P (pl_Check P) args"

text \<open>What \<open>newError\<close> of the server puts on the wire.\<close>

definition cni_code_number :: "cni_code \<Rightarrow> nat" where
  "cni_code_number c = (case c of CNI_INTERNAL \<Rightarrow> 999 | CNI_INVALID_ENVIRONMENT_VARIABLES \<Rightarrow> 4 | CNI_UNKNOWN_CONTAINER \<Rightarrow> 3)"

definition wire_status :: "error \<Rightarrow> rpc_status" where
  "wire_status e = (case e of
       RpcStatus c cniCode msg details \<Rightarrow> \<lparr>st_Error = Error e, st_Message = msg, st_Details = [CNIError (cni_code_number cniCode) msg details]\<rparr>
     | _ \<Rightarrow> \<lparr>st_Error = ''rpc error: code = Unknown desc = '' @ Error e, st_Message = Error e, st_Details = []\<rparr>)"

section \<open>Errors of the server reach the runtime\<close>

text \<open>\<open>coded m\<close>: every error the action returns carries a CNI code.\<close>

definition coded :: "('s, 'a) act \<Rightarrow> bool" where
  "coded m \<longleftrightarrow> (\<forall>s. outcome m (\<lambda>_ _. True) (\<lambda>e _. \<exists>c code msg d. e = newError c code msg d) (\<lambda>_. True) s)"

lemma coded_returnA: "coded (returnA x)"
  by (simp add: coded_def wp_simps)

lemma coded_newError: "coded (errA (newError c code msg d))" "coded (errA (newInternalError e t))"
  by (auto simp: coded_def wp_simps newInternalError_def)

lemma coded_internalA: "coded (internalA t m)"
proof -
  have "\<exists>c code msg d. newInternalError e t = newError c code msg d" for e unfolding newInternalError_def by blast
  then show ?thesis unfolding coded_def outcome_internalA by (intro allI outcome_call) (simp split: res.splits)
qed

lemma coded_bindA: "coded m \<Longrightarrow> (\<And>x. coded (k x)) \<Longrightarrow> coded (bindA m k)"
  unfolding coded_def outcome_bindA by (auto intro: outcome_mono)

lemma coded_tryA: "coded (tryA m)"
  by (auto simp: coded_def outcome_tryA intro!: outcome_call split: res.splits)

lemma coded_if: "(b \<Longrightarrow> coded m) \<Longrightarrow> (\<not> b \<Longrightarrow> coded n) \<Longrightarrow> coded (if b then m else n)"
  by simp

lemma coded_sum: "(\<And>y. coded (f y)) \<Longrightarrow> (\<And>y. coded (g y)) \<Longrightarrow> coded (case x of Inl y \<Rightarrow> f y | Inr y \<Rightarrow> g y)"
  by (cases x) auto

lemma coded_prod: "(\<And>a b. coded (f a b)) \<Longrightarrow> coded (case x of (a, b) \<Rightarrow> f a b)"
  by (cases x) auto

lemmas coded_intros = coded_returnA coded_newError coded_internalA coded_bindA coded_tryA coded_if coded_sum coded_prod

lemma Add_coded:
  assumes "cf_EnableIPAM (cs_cfg S)"
  shows "coded (Add S args)"
proof -
  have "coded (allocate_for S args pod)" for pod unfolding allocate_for_def Let_def by (intro coded_intros)
  moreover have "coded (setup_ipam S args pod conf)" for pod conf unfolding setup_ipam_def by (intro coded_intros)
  moreover have "coded (setup_egress S args pod conf)" for pod conf
    unfolding setup_egress_def using assms by (auto intro!: coded_intros)
  moreover have "coded (marshal_result S args result)" for result unfolding marshal_result_def by (intro coded_intros)
  ultimately show ?thesis unfolding Add_def Let_def by (intro coded_intros)
qed

lemma Del_coded: "coded (Del S args)"
  unfolding Del_def by (intro coded_intros)

lemma Check_coded: "coded (coild_Check S args)"
  unfolding coild_Check_def by (intro coded_intros)

text \<open>The connection: an error of the server arrives as its status.\<close>

definition delivers :: "('s, 'p) plugin_env \<Rightarrow> ('s, 'h) coildServer \<Rightarrow> bool" where
  "delivers P S \<longleftrightarrow> (\<forall>a s e s'. Add S a s = (Err e, s') \<longrightarrow> pl_Add P a s = (Inl (wire_status e), s')) \<and>
     (\<forall>a s e s'. Del S a s = (Err e, s') \<longrightarrow> pl_Del P a s = (Inl (wire_status e), s')) \<and>
     (\<forall>a s e s'. coild_Check S a s = (Err e, s') \<longrightarrow> pl_Check P a s = (Inl (wire_status e), s'))"

definition reported :: "error \<Rightarrow> 's \<Rightarrow> 'a presult \<times> 's \<Rightarrow> bool" where
  "reported e s' r \<longleftrightarrow> (\<exists>c code msg d. e = newError c code msg d \<and> r = (PErr (TypesError (cni_code_number code) msg d), s'))"

lemma coded_reported: "coded m \<Longrightarrow> m s = (Err e, s') \<Longrightarrow> reported e s' (convertError (wire_status e), s')"
proof -
  assume m: "coded m" "m s = (Err e, s')"
  have "outcome m (\<lambda>_ _. True) (\<lambda>e _. \<exists>c code msg d. e = newError c code msg d) (\<lambda>_. True) s" using m(1) by (simp add: coded_def)
  then obtain c code msg d where e: "e = newError c code msg d" using m(2) by (auto simp: outcome_def)
  have "convertError (wire_status e) = PErr (TypesError (cni_code_number code) msg d)" by (simp add: e newError_def wire_status_def convertError_def)
  with e show "reported e s' (convertError (wire_status e), s')" unfolding reported_def by blast
qed

text \<open>
  C13. Errors of the server reach the container runtime: when a call of \<open>coild\<close> with address management fails, the plugin ends with a CNI error that has the code, the message and the
  details the server gave, for all three commands; it never crashes on the status.
\<close>

theorem plugin_reports_errors:
  assumes "cf_EnableIPAM (cs_cfg S)" and "delivers P S" and "prepare P args s = (POk (conf, a), s1)"
  shows "(\<forall>e s2. Add S a s1 = (Err e, s2) \<longrightarrow> reported e s2 (cmdAdd P args s)) \<and>
    (\<forall>e s2. Del S a s1 = (Err e, s2) \<longrightarrow> reported e s2 (cmdDel P args s)) \<and>
    (\<forall>e s2. coild_Check S a s1 = (Err e, s2) \<longrightarrow> reported e s2 (cmdCheck P args s))"
  using assms(2,3)
  by (auto simp: delivers_def cmdAdd_def cmdDel_def cmdCheck_def call_coild_def
    intro: coded_reported [OF Add_coded [OF assms(1)]] coded_reported [OF Del_coded] coded_reported [OF Check_coded])

text \<open>A plugin that is given no name of a pod, and the server of the examples.\<close>

definition answer :: "'a res \<times> 's \<Rightarrow> (rpc_status + 'a) \<times> 's" where
  "answer r = (case r of (Ok x, s) \<Rightarrow> (Inr x, s) | (Err e, s) \<Rightarrow> (Inl (wire_status e), s)
     | (Panic p, s) \<Rightarrow> (Inl \<lparr>st_Error = ''rpc error: code = Unavailable desc = EOF'', st_Message = ''EOF'', st_Details = []\<rparr>, s))"

definition example_plugin :: "(bool list nodeIPAM \<times> ref_world, unit) plugin_env" where
  "example_plugin = \<lparr>pl_Unmarshal = (\<lambda>conf _. Ok conf), pl_ParsePrevResult = Ok,
     pl_LoadArgs = (\<lambda>_. Ok \<lparr>ea_K8S_POD_NAMESPACE = ''default'', ea_K8S_POD_NAME = [], ea_K8S_POD_INFRA_CONTAINER_ID = ''c1''\<rparr>),
     pl_GetResult = (\<lambda>_. Ok \<lparr>pr_IPs = [], pr_Interfaces = []\<rparr>), pl_NewClient = (\<lambda>_ s. (Ok (), s)),
     pl_Add = (\<lambda>a s. answer (Add example_coild a s)), pl_Del = (\<lambda>a s. answer (Del example_coild a s)), pl_Check = (\<lambda>a s. answer (coild_Check example_coild a s)),
     pl_NewResultFromResult = (\<lambda>_. Ok []), pl_NewResult = Ok, pl_PrintResult = (\<lambda>r _. Ok r)\<rparr>"

definition example_cmd :: CmdArgs where
  "example_cmd = \<lparr>sk_ContainerID = ''c1'', sk_Netns = ''/ns'', sk_IfName = ''eth0'', sk_Args = [], sk_StdinData = []\<rparr>"

theorem plugin_reports_errors_witness:
  "\<exists>a e s2. Add example_coild a ref_init = (Err e, s2) \<and> reported e s2 (cmdAdd example_plugin example_cmd ref_init)"
proof -
  have ipam: "cf_EnableIPAM (cs_cfg example_coild)" by (simp add: example_coild_def coild_server_def example_cfg_def)
  have del: "delivers example_plugin example_coild" by (simp add: delivers_def example_plugin_def answer_def)
  have "case fst (prepare example_plugin example_cmd ref_init) of POk (_, a) \<Rightarrow> (case fst (Add example_coild a ref_init) of Err _ \<Rightarrow> True | _ \<Rightarrow> False) | _ \<Rightarrow> False"
    by code_simp
  then obtain conf a where p: "fst (prepare example_plugin example_cmd ref_init) = POk (conf, a)" and "case fst (Add example_coild a ref_init) of Err _ \<Rightarrow> True | _ \<Rightarrow> False"
    by (auto split: presult.splits)
  then obtain e s2 where e: "Add example_coild a ref_init = (Err e, s2)" by (cases "Add example_coild a ref_init") (auto split: res.splits)
  have "snd (prepare example_plugin example_cmd ref_init) = ref_init"
    by (simp add: prepare_def example_plugin_def split: presult.splits)
  with p have prep: "prepare example_plugin example_cmd ref_init = (POk (conf, a), ref_init)" by (simp add: prod_eq_iff)
  show ?thesis using plugin_reports_errors [OF ipam del prep] e by blast
qed

end
