(* ===== verification/Restart.thy ===== *)
theory Restart
  imports Coild_Facts
begin

text \<open>
  The restart of \<open>coild\<close>: the addresses that pods of the node already have, as the pod network lists them, are registered with the IPAM before the first collection and
  before calls are served. The theory follows \<open>coild_recover\<close> through \<open>Register\<close> (\<open>pkg/ipam/node.go\<close>): what is registered is marked in its block and kept by the
  collection, and a pod is left out only when no block of its pool contains its addresses.
\<close>

section \<open>Registering one pod\<close>

text \<open>The subnets of the blocks of a pool; registering does not change them.\<close>

definition bases :: "'b nodePool \<Rightarrow> string \<Rightarrow> (ipnet option \<times> ipnet option) option" where
  "bases p nm = map_option (\<lambda>a. (al_ipv4 a, al_ipv6 a)) (glookup (np_blockAlloc p) nm)"

definition misses :: "ipnet option \<times> ipnet option \<Rightarrow> ip \<Rightarrow> ip \<Rightarrow> bool" where
  "misses b v4 v6 \<longleftrightarrow> (\<forall>n. fst b = Some n \<longrightarrow> \<not> Contains n v4) \<and> (\<forall>n. snd b = Some n \<longrightarrow> \<not> Contains n v6)"

definition outside :: "'b nodePool \<Rightarrow> ip \<Rightarrow> ip \<Rightarrow> bool" where
  "outside p v4 v6 \<longleftrightarrow> (\<forall>nm b. bases p nm = Some b \<longrightarrow> misses b v4 v6)"

lemma register_effect:
  assumes "alloc_inv B N k a" and "register B N v4 v6 a = Ok (a', r)"
  shows "al_ipv4 a' = al_ipv4 a \<and> al_ipv6 a' = al_ipv6 a \<and> (r = None \<longrightarrow> misses (al_ipv4 a, al_ipv6 a) v4 v6)"
proof -
  have "al_ipv4 a' = al_ipv4 a \<and> al_ipv6 a' = al_ipv6 a"
    using register_cases [OF assms(1), of v4 v6] assms(2) by (auto simp: after_alloc_def)
  moreover have "misses (al_ipv4 a, al_ipv6 a) v4 v6" if r: "r = None"
  proof -
    have six: "\<not> Contains n v6" if "al_ipv6 a = Some n" "\<forall>n4. al_ipv4 a = Some n4 \<longrightarrow> \<not> Contains n4 v4" for n
      using register_in6 [OF assms(1) that(1), of v6] that assms(2) r by (auto simp: register_def split: option.splits)
    have four: "\<not> Contains n v4" if "al_ipv4 a = Some n" for n
      using register_in4 [OF assms(1) that, of v4] that assms(2) r by (auto simp: register_def)
    show ?thesis using four six by (auto simp: misses_def)
  qed
  ultimately show ?thesis by blast
qed

lemma register_loop_effect:
  assumes "PI E name H (p, w)"
  shows "register_loop E v4 v6 nms p = Ok (p', r) \<Longrightarrow> bases p' = bases p \<and> (case r of
      None \<Rightarrow> \<forall>nm \<in> set nms. \<forall>b. bases p nm = Some b \<longrightarrow> misses b v4 v6
    | Some ai \<Rightarrow> ai_IPv4 ai = v4 \<and> ai_IPv6 ai = v6 \<and> ai_Pool ai = np_poolName p)"
proof (induction nms)
  case (Cons nm nms)
  show ?case
  proof (cases "glookup (np_blockAlloc p) nm")
    case None
    then show ?thesis using Cons by (auto simp: bases_def split: option.splits)
  next
    case (Some a)
    then obtain k where a: "alloc_inv (ne_bitset E) (ne_netutil E) k a" using PI_D(3) [OF assms] by (auto simp: np_inv_def)
    obtain a' q where reg: "register (ne_bitset E) (ne_netutil E) v4 v6 a = Ok (a', q)" using register_cases [OF a, of v4 v6] by auto
    note eff = register_effect [OF a reg]
    show ?thesis
    proof (cases q)
      case None
      then show ?thesis using Cons Some reg eff by (auto simp: bases_def split: option.splits)
    next
      case (Some i)
      then show ?thesis using Cons.prems \<open>glookup (np_blockAlloc p) nm = Some a\<close> reg eff by (auto simp: bases_def fun_eq_iff)
    qed
  qed
qed simp

lemma pool_register_effect:
  assumes "PI E name H (p, w)" and "go_range (ne_range E)" and "pool_register E v4 v6 (p, w) = (Ok r, (p', w'))"
  shows "bases p' = bases p \<and> (case r of None \<Rightarrow> outside p' v4 v6 | Some ai \<Rightarrow> ai_IPv4 ai = v4 \<and> ai_IPv6 ai = v6 \<and> ai_Pool ai = name)"
proof -
  let ?nms = "ne_range E (gkeys (np_blockAlloc p))"
  have loop: "register_loop E v4 v6 ?nms p = Ok (p', r)" using assms(3) by (auto simp: pool_register_def split: res.splits prod.splits)
  have "set ?nms = dom (map_of (np_blockAlloc p))" using assms(2) by simp
  then have known: "bases p nm = Some b \<Longrightarrow> nm \<in> set ?nms" for nm b by (auto simp: bases_def)
  note eff = register_loop_effect [OF assms(1) loop]
  show ?thesis
  proof (cases r)
    case None
    then have same: "bases p' = bases p" and miss: "\<forall>nm \<in> set ?nms. \<forall>b. bases p nm = Some b \<longrightarrow> misses b v4 v6" using eff by simp_all
    have "outside p' v4 v6" unfolding outside_def same using known miss by blast
    then show ?thesis using None same by simp
  next
    case (Some ai)
    then show ?thesis using eff PI_D(2) [OF assms(1)] by simp
  qed
qed

text \<open>Pools are loaded once; afterwards their subnets stay while pods are registered.\<close>

definition grown :: "'b nodeIPAM \<Rightarrow> 'b nodeIPAM \<Rightarrow> bool" where
  "grown n n' \<longleftrightarrow> (\<forall>name p. glookup (ni_pools n) name = Some p \<longrightarrow> (\<exists>p'. glookup (ni_pools n') name = Some p' \<and> bases p' = bases p))"

lemma grown_refl [simp]: "grown n n"
  by (simp add: grown_def)

lemma grown_trans: "grown n n' \<Longrightarrow> grown n' n'' \<Longrightarrow> grown n n''"
  unfolding grown_def by metis

lemma ni_getPool_grown: "ni_getPool E name (n, w) = (Ok (), (n', w')) \<Longrightarrow> grown n n'"
proof -
  assume run: "ni_getPool E name (n, w) = (Ok (), (n', w'))"
  obtain r n1 w1 where g: "getNode E (n, w) = (r, (n1, w1))" by (metis prod_cases3)
  have "keeps (\<lambda>s. ni_pools (fst s) = ni_pools n) (getNode E)" by (rule getNode_keeps) auto
  then have "ni_pools n1 = ni_pools n" using g unfolding keeps_def by (metis fst_conv snd_conv)
  then show ?thesis using run g by (auto simp: ni_getPool_def bindA_def grown_def split: res.splits option.splits prod.splits)
qed

section \<open>Registering the pods of the node\<close>

definition conf_key :: "PodNetConf \<Rightarrow> string" where
  "conf_key c = allocKey (pc_ContainerId c) (pc_IFace c)"

definition has_entry :: "'b nodeIPAM \<Rightarrow> PodNetConf \<Rightarrow> bool" where
  "has_entry n c \<longleftrightarrow> (\<exists>ai. glookup (ni_allocInfoMap n) (conf_key c) = Some ai \<and> ai_IPv4 ai = pc_IPv4 c \<and> ai_IPv6 ai = pc_IPv6 c \<and> ai_Pool ai = pc_PoolName c)"

definition left_out :: "'b nodeIPAM \<Rightarrow> PodNetConf \<Rightarrow> bool" where
  "left_out n c \<longleftrightarrow> (\<exists>p. glookup (ni_pools n) (pc_PoolName c) = Some p \<and> outside p (pc_IPv4 c) (pc_IPv6 c))"

lemma left_out_grown: "left_out n c \<Longrightarrow> grown n n' \<Longrightarrow> left_out n' c"
  unfolding left_out_def grown_def outside_def by metis

definition register_conf :: "('b, 'w) node_env \<Rightarrow> PodNetConf \<Rightarrow> ('b nodeIPAM \<times> 'w, unit) act" where
  "register_conf E c = Register E (pc_PoolName c) (pc_ContainerId c) (pc_IFace c) (pc_IPv4 c) (pc_IPv6 c)"

lemma register_conf_effect:
  assumes "NI E s" and "register_conf E c s = (Ok (), s')"
  shows "NI E s' \<and> grown (fst s) (fst s') \<and> (\<forall>k. k \<noteq> conf_key c \<longrightarrow> glookup (ni_allocInfoMap (fst s')) k = glookup (ni_allocInfoMap (fst s)) k) \<and>
    (has_entry (fst s') c \<or> left_out (fst s') c \<and> ni_allocInfoMap (fst s') = ni_allocInfoMap (fst s))"
proof -
  let ?pool = "pc_PoolName c"
  obtain n w where s: "s = (n, w)" by (cases s)
  have inv: "NI E s'" using Register_outcome [OF assms(1), of ?pool "pc_ContainerId c" "pc_IFace c" "pc_IPv4 c" "pc_IPv6 c"] assms(2) by (simp add: register_conf_def outcome_def)
  obtain n1 w1 where get: "ni_getPool E ?pool (n, w) = (Ok (), (n1, w1))"
    and rest: "bindA (ni_on_pool ?pool (pool_register E (pc_IPv4 c) (pc_IPv6 c))) (\<lambda>ai. case ai of None \<Rightarrow> returnA ()
      | Some ai \<Rightarrow> modifyA (\<lambda>(n, w). (n\<lparr>ni_allocInfoMap := gupdate (conf_key c) ai (ni_allocInfoMap n)\<rparr>, w))) (n1, w1) = (Ok (), s')"
    using assms(2) s unfolding register_conf_def Register_def conf_key_def by (auto simp: bindA_Ok_iff)
  have 1: "NI E (n1, w1)" "ni_allocInfoMap n1 = ni_allocInfoMap n" "glookup (ni_pools n1) ?pool \<noteq> None"
    using ni_getPool_outcome [OF assms(1), of ?pool] get s by (auto simp: outcome_def)
  then obtain p where p: "glookup (ni_pools n1) ?pool = Some p" by blast
  obtain r p' w2 where reg: "pool_register E (pc_IPv4 c) (pc_IPv6 c) (p, w1) = (r, (p', w2))" by (metis prod_cases3)
  have on: "ni_on_pool ?pool (pool_register E (pc_IPv4 c) (pc_IPv6 c)) (n1, w1) = (r, (n1\<lparr>ni_pools := gupdate ?pool p' (ni_pools n1)\<rparr>, w2))"
    using p reg by (simp add: ni_on_pool_def)
  then obtain x where x: "r = Ok x" using rest by (cases r) (auto simp: bindA_def)
  have "go_range (ne_range E)" using assms(1) by (simp add: NI_def NIX_def node_env_ok_def)
  note eff = pool_register_effect [OF NI_pool [OF 1(1) p] this reg [unfolded x]]
  have grown: "grown n (n1\<lparr>ni_pools := gupdate ?pool p' (ni_pools n1)\<rparr>)"
    by (rule grown_trans [OF ni_getPool_grown [OF get]]) (use eff p in \<open>auto simp: grown_def\<close>)
  show ?thesis
  proof (cases x)
    case None
    then have "s' = (n1\<lparr>ni_pools := gupdate ?pool p' (ni_pools n1)\<rparr>, w2)" using rest on x by (simp add: bindA_def returnA_def)
    then show ?thesis using inv grown eff None 1(2) s by (auto simp: left_out_def)
  next
    case (Some ai)
    then have "s' = (n1\<lparr>ni_pools := gupdate ?pool p' (ni_pools n1), ni_allocInfoMap := gupdate (conf_key c) ai (ni_allocInfoMap n1)\<rparr>, w2)"
      using rest on x by (simp add: bindA_def modifyA_def)
    then show ?thesis using inv grown eff Some 1(2) s by (auto simp: has_entry_def grown_def)
  qed
qed

lemma register_pods_effect:
  assumes "NI E s" and "distinct (map conf_key confs)" and "register_pods E confs s = (Ok (), s')"
  shows "NI E s' \<and> grown (fst s) (fst s') \<and> (\<forall>k. k \<notin> conf_key ` set confs \<longrightarrow> glookup (ni_allocInfoMap (fst s')) k = glookup (ni_allocInfoMap (fst s)) k) \<and>
    (\<forall>c \<in> set confs. has_entry (fst s') c \<or>
       left_out (fst s') c \<and> glookup (ni_allocInfoMap (fst s')) (conf_key c) = glookup (ni_allocInfoMap (fst s)) (conf_key c))"
  using assms
proof (induction confs arbitrary: s)
  case Nil
  then show ?case by (simp add: register_pods_def returnA_def)
next
  case (Cons c confs)
  obtain s1 where reg: "register_conf E c s = (Ok (), s1)" and rest: "register_pods E confs s1 = (Ok (), s')"
    using Cons.prems(3) unfolding register_pods_def by (auto simp: bindA_Ok_iff register_conf_def)
  note one = register_conf_effect [OF Cons.prems(1) reg]
  have IH: "NI E s' \<and> grown (fst s1) (fst s') \<and> (\<forall>k. k \<notin> conf_key ` set confs \<longrightarrow> glookup (ni_allocInfoMap (fst s')) k = glookup (ni_allocInfoMap (fst s1)) k) \<and>
    (\<forall>c \<in> set confs. has_entry (fst s') c \<or>
       left_out (fst s') c \<and> glookup (ni_allocInfoMap (fst s')) (conf_key c) = glookup (ni_allocInfoMap (fst s1)) (conf_key c))"
    using Cons.IH [OF _ _ rest] one Cons.prems(2) by simp
  have c: "conf_key c \<notin> conf_key ` set confs" using Cons.prems(2) by simp
  have "has_entry (fst s') c \<or> left_out (fst s') c \<and> glookup (ni_allocInfoMap (fst s')) (conf_key c) = glookup (ni_allocInfoMap (fst s)) (conf_key c)"
    using one IH c left_out_grown by (auto simp: has_entry_def)
  moreover have "conf_key d \<noteq> conf_key c" if "d \<in> set confs" for d using c that by (metis imageI)
  ultimately show ?case using one IH grown_trans by (auto simp: image_iff)
qed


section \<open>The restart\<close>

text \<open>The address of a pod is held: its entry names an index that is in use in its block, so no allocation gives it away.\<close>

definition recovered :: "('b, 'w) node_env \<Rightarrow> 'b nodeIPAM \<Rightarrow> PodNetConf \<Rightarrow> bool" where
  "recovered E n c \<longleftrightarrow> (\<exists>ai p a. glookup (ni_allocInfoMap n) (conf_key c) = Some ai \<and> ai_IPv4 ai = pc_IPv4 c \<and> ai_IPv6 ai = pc_IPv6 c \<and>
     glookup (ni_pools n) (pc_PoolName c) = Some p \<and> glookup (np_blockAlloc p) (ai_BlockName ai) = Some a \<and> ai_Index ai \<in> used (ne_bitset E) a)"

lemma has_entry_recovered:
  assumes "NI E (n, w)" and "has_entry n c"
  shows "recovered E n c"
proof -
  obtain ai where ai: "glookup (ni_allocInfoMap n) (conf_key c) = Some ai" "ai_IPv4 ai = pc_IPv4 c" "ai_IPv6 ai = pc_IPv6 c" "ai_Pool ai = pc_PoolName c"
    using assms(2) by (auto simp: has_entry_def)
  then obtain p where p: "glookup (ni_pools n) (pc_PoolName c) = Some p" using assms(1) unfolding NI_def NIX_def by (metis fst_conv not_None_eq)
  have "(ai_BlockName ai, ai_Index ai) \<in> live E p" using NI_pool [OF assms(1) p] heldI [OF ai(1)] ai(4) by (auto simp: PI_def)
  then show ?thesis using ai p by (auto simp: recovered_def live_def)
qed

lemma NodeInternalIPs_keeps: "keeps (\<lambda>s. NI E s \<and> ni_allocInfoMap (fst s) = M) (NodeInternalIPs E)"
  unfolding NodeInternalIPs_def
  by (intro keeps_intros, rule getNode_keeps) (auto simp: NI_def intro: NIX_world NIX_node)

lemma init_network_Ok: "init_network P pn (n, w) = (Ok podNet, s') \<Longrightarrow> fst s' = n"
  by (auto simp: init_network_def split: prod.splits)

text \<open>
  C14. A restart of \<open>coild\<close> loses no address: when the process has listed the pods of the node and got through its start, every listed pod is held by the IPAM at
  its old address, marked in its block, or was in no block of its pool; and the IPAM holds nothing else.
\<close>

theorem coild_recovers_pods:
  assumes "node_env_ok E" and "cf_EnableIPAM cfg" and "coild_recover E P cfg (NewNodeIPAM nodeName, w0) = (Ok podNet, (n, w))"
  shows "\<exists>confs w1 s2 s3. pn_list P podNet w1 = (Ok confs, snd s2) \<and> register_pods E confs s2 = (Ok (), s3) \<and> GC E s3 = (Ok (), (n, w)) \<and>
    (distinct (map conf_key confs) \<longrightarrow> (\<forall>c \<in> set confs. recovered E n c \<or> left_out (fst s3) c) \<and>
      (\<forall>k ai. glookup (ni_allocInfoMap n) k = Some ai \<longrightarrow> (\<exists>c \<in> set confs. k = conf_key c \<and> recovered E n c)))"
proof -
  obtain ips s1 where 1: "NodeInternalIPs E (NewNodeIPAM nodeName, w0) = (Ok ips, s1)"
    and "(case ips of (ipv4, ipv6) \<Rightarrow> bindA (init_network P (NewPodNetwork (cf_PodTableId cfg) (cf_PodRulePrio cfg) (cf_ProtocolId cfg) ipv4 ipv6
         (cf_CompatCalico cfg) (cf_RegisterFromMain cfg) (cf_EnableIPAM cfg))) (\<lambda>podNet.
         bindA (liftW (pn_list P podNet)) (\<lambda>podConfigs. bindA (register_pods E podConfigs) (\<lambda>_. bindA (GC E) (\<lambda>_. returnA podNet))))) s1 = (Ok podNet, (n, w))"
    using assms(3) unfolding coild_recover_def bindA_Ok_iff if_P [OF assms(2)] by blast
  then obtain pn s1' where init: "init_network P pn s1 = (Ok podNet, s1')"
    and rest: "bindA (liftW (pn_list P podNet)) (\<lambda>podConfigs. bindA (register_pods E podConfigs) (\<lambda>_. bindA (GC E) (\<lambda>_. returnA podNet))) s1' = (Ok podNet, (n, w))"
    by (auto simp: bindA_Ok_iff returnA_def split: prod.splits)
  obtain confs s2 s3 where list: "liftW (pn_list P podNet) s1' = (Ok confs, s2)" and reg: "register_pods E confs s2 = (Ok (), s3)" and gc: "GC E s3 = (Ok (), (n, w))"
    using rest by (auto simp: bindA_Ok_iff returnA_def)
  have inv0: "NI E (NewNodeIPAM nodeName, w0)" "ni_allocInfoMap (NewNodeIPAM nodeName :: 'a nodeIPAM) = []"
    using NewNodeIPAM_inv [OF assms(1)] by (simp_all add: ipam_inv_def NewNodeIPAM_def)
  then have s1: "NI E s1 \<and> ni_allocInfoMap (fst s1) = []" using NodeInternalIPs_keeps [of E "[]"] 1 unfolding keeps_def by (metis fst_conv snd_conv)
  have "fst s1' = fst s1" using init_network_Ok [of P pn "fst s1" "snd s1"] init by simp
  moreover have "fst s2 = fst s1'" and l: "pn_list P podNet (snd s1') = (Ok confs, snd s2)" using list by (auto simp: liftW_def split: prod.splits)
  ultimately have s2: "NI E s2" "ni_allocInfoMap (fst s2) = []" using s1 NIX_world unfolding NI_def by (metis prod.collapse)+
  have keep: "NI E (n, w) \<and> ni_allocInfoMap n = ni_allocInfoMap (fst s3)" if "NI E s3"
    using GC_keeps [of E "ni_allocInfoMap (fst s3)"] gc that unfolding keeps_def by (metis fst_conv snd_conv)
  have "(\<forall>c \<in> set confs. recovered E n c \<or> left_out (fst s3) c) \<and> (\<forall>k ai. glookup (ni_allocInfoMap n) k = Some ai \<longrightarrow> (\<exists>c \<in> set confs. k = conf_key c \<and> recovered E n c))"
    if d: "distinct (map conf_key confs)"
  proof -
    note eff = register_pods_effect [OF s2(1) d reg]
    have n: "NI E (n, w)" "ni_allocInfoMap n = ni_allocInfoMap (fst s3)" using keep eff by blast+
    have rec: "recovered E n c" if "has_entry (fst s3) c" for c
      using has_entry_recovered [OF n(1)] that n(2) by (simp add: has_entry_def)
    have none: "glookup (ni_allocInfoMap (fst s2)) k = None" for k using s2(2) by simp
    have "\<exists>c \<in> set confs. k = conf_key c \<and> recovered E n c" if k: "glookup (ni_allocInfoMap n) k = Some ai" for k ai
      using eff rec none k n(2) by (metis image_iff option.distinct(1))
    then show ?thesis using eff rec by blast
  qed
  then show ?thesis using l reg gc by blast
qed


text \<open>A node with one block and one pod that has the second address of it.\<close>

definition restart_link :: link where
  "restart_link = (new_link ''veth1'' Veth)\<lparr>lk_Index := 7, lk_Alias := ''COIL:default:c1:eth0''\<rparr>"

definition restart_pods :: "(ref_world, ref_world inside) pod_env" where
  "restart_pods = idle_pods\<lparr>pe_netlink := idle_netlink\<lparr>nl_LinkList := returnA [restart_link],
     nl_RouteListFiltered := (\<lambda>f _. returnA (if f = FAMILY_V4 then [new_route\<lparr>rt_Dst := Some (NewIPNet [10, 2, 0, 3]), rt_LinkIndex := 7\<rparr>] else []))\<rparr>\<rparr>"

definition restart_node :: "podNetwork res \<times> bool list nodeIPAM \<times> ref_world" where
  "restart_node = coild_recover ref_node_env restart_pods example_cfg (NewNodeIPAM ''n1'', \<lparr>rw_blocks = [1], rw_next = 2, rw_fail = False\<rparr>)"

lemma restart_list_distinct: "pn_list restart_pods podNet w = (Ok confs, w') \<Longrightarrow> distinct (map conf_key confs)"
proof -
  assume "pn_list restart_pods podNet w = (Ok confs, w')"
  moreover have "retry_dump k (returnA [restart_link] :: (ref_world, link list) act) = returnA [restart_link]" for k
    by (cases k) (simp_all add: fun_eq_iff act_defs)
  ultimately obtain v4Map v6Map where "confs = List.map_filter (conf_of v4Map v6Map) [restart_link]"
    unfolding pn_list_def by (auto simp: restart_pods_def retryDump_def bindA_Ok_iff wrapA_Ok_iff returnA_def)
  then show ?thesis by (simp add: List.map_filter_simps split: option.splits)
qed

theorem coild_recovers_pods_witness:
  "\<exists>podNet n w c. restart_node = (Ok podNet, (n, w)) \<and> conf_key c = ''c1:eth0'' \<and> recovered ref_node_env n c"
proof -
  have "case restart_node of (Ok _, (n, _)) \<Rightarrow> glookup (ni_allocInfoMap n) ''c1:eth0'' \<noteq> None | _ \<Rightarrow> False" by code_simp
  then obtain podNet n w ai where run: "restart_node = (Ok podNet, (n, w))" and ai: "glookup (ni_allocInfoMap n) ''c1:eth0'' = Some ai"
    by (auto split: prod.splits res.splits)
  have ipam: "cf_EnableIPAM example_cfg" by (simp add: example_cfg_def)
  obtain confs w1 and s2 s3 :: "bool list nodeIPAM \<times> ref_world" where list: "pn_list restart_pods podNet w1 = (Ok confs, snd s2)"
    and all: "distinct (map conf_key confs) \<longrightarrow> (\<forall>c \<in> set confs. recovered ref_node_env n c \<or> left_out (fst s3) c) \<and> (\<forall>k ai. glookup (ni_allocInfoMap n) k = Some ai \<longrightarrow> (\<exists>c \<in> set confs. k = conf_key c \<and> recovered ref_node_env n c))"
    using coild_recovers_pods [OF ref_node_env_ok ipam run [unfolded restart_node_def]] by blast
  then obtain c where "''c1:eth0'' = conf_key c" "recovered ref_node_env n c" using restart_list_distinct [OF list] ai by blast
  then show ?thesis using run by metis
qed

end
