(* ===== verification/Commands.thy ===== *)
theory Commands
  imports Startup
begin

text \<open>
  The processes that serve the cluster, \<open>cmd/coil-ipam-controller\<close>, \<open>cmd/coil-egress-controller\<close> and \<open>cmd/coil-router\<close>: their flags with the defaults, the check of
  the address of the webhook server, and the registration of their parts with the manager; and the defaults of the flags of \<open>coild\<close> (\<open>pkg/config/config.go\<close>) and \<open>coil-egress\<close>.
  Cobra, which parses the command line, logging and signals are left out. A process that starts has registered everything, in the order of the sources.
\<close>

section \<open>Go\<close>

text \<open>\<open>strings.IndexByte\<close> and \<open>strings.LastIndexByte\<close>.\<close>

fun IndexByte :: "string \<Rightarrow> char \<Rightarrow> nat option" where
  "IndexByte [] c = None"
| "IndexByte (x # xs) c = (if x = c then Some 0 else map_option Suc (IndexByte xs c))"

definition LastIndexByte :: "string \<Rightarrow> char \<Rightarrow> nat option" where
  "LastIndexByte s c = map_option (\<lambda>i. length s - 1 - i) (IndexByte (rev s) c)"

definition addr_error :: "string \<Rightarrow> string \<Rightarrow> error" where
  "addr_error addr why = ErrorMsg (''address '' @ addr @ '': '' @ why)"

text \<open>\<open>net.SplitHostPort\<close>.\<close>

definition SplitHostPort :: "string \<Rightarrow> (string \<times> string) res" where
  "SplitHostPort hostport =
     (case LastIndexByte hostport (CHR '':'') of
        None \<Rightarrow> Err (addr_error hostport ''missing port in address'')
      | Some i \<Rightarrow>
          let brackets = (\<lambda>host j k.
            if CHR ''['' \<in> set (drop j hostport) then Err (addr_error hostport (''unexpected '' @ [CHR 0x27] @ ''['' @ [CHR 0x27] @ '' in address''))
            else if CHR '']'' \<in> set (drop k hostport) then Err (addr_error hostport (''unexpected '' @ [CHR 0x27] @ '']'' @ [CHR 0x27] @ '' in address''))
            else Ok (host, drop (i + 1) hostport)) in
          if hostport ! 0 = CHR ''[''
          then (case IndexByte hostport (CHR '']'') of
               None \<Rightarrow> Err (addr_error hostport (''missing '' @ [CHR 0x27] @ '']'' @ [CHR 0x27] @ '' in address''))
             | Some close \<Rightarrow>
                 if close + 1 = length hostport then Err (addr_error hostport ''missing port in address'')
                 else if close + 1 = i then brackets (take (close - 1) (drop 1 hostport)) 1 (close + 1)
                 else if hostport ! (close + 1) = CHR '':'' then Err (addr_error hostport ''too many colons in address'')
                 else Err (addr_error hostport ''missing port in address''))
          else let host = take i hostport in
            if CHR '':'' \<in> set host then Err (addr_error hostport ''too many colons in address'')
            else brackets host 0 0)"

text \<open>\<open>strconv.Atoi\<close>, without the quoting of unprintable characters in its errors.\<close>

definition Atoi :: "string \<Rightarrow> int res" where
  "Atoi s =
     (let neg = (s \<noteq> [] \<and> hd s = CHR ''-''); body = (if s \<noteq> [] \<and> (hd s = CHR ''-'' \<or> hd s = CHR ''+'') then tl s else s);
          range = Err (ErrorMsg (''strconv.Atoi: parsing '' @ [CHR 0x22] @ s @ [CHR 0x22] @ '': value out of range'')) in
      if body = [] \<or> \<not> list_all isdigit body then Err (ErrorMsg (''strconv.Atoi: parsing '' @ [CHR 0x22] @ s @ [CHR 0x22] @ '': invalid syntax''))
      else if \<not> neg \<and> dval body \<ge> 2 ^ 63 then range
      else if neg \<and> dval body > 2 ^ 63 then range
      else Ok (if neg then - int (dval body) else int (dval body)))"

section \<open>The program\<close>

subsection \<open>Flags\<close>

definition DefautlMetricsAddr :: string where "DefautlMetricsAddr = '':9384''"
definition DefautlHealthAddr :: string where "DefautlHealthAddr = '':9385''"
definition DefautlPodTableId :: int where "DefautlPodTableId = 116"
definition DefautlPodRulePrio :: int where "DefautlPodRulePrio = 2000"
definition DefautlExportTableId :: int where "DefautlExportTableId = 119"
definition DefautlProtocolId :: int where "DefautlProtocolId = 30"
definition DefaultCompatCalico :: bool where "DefaultCompatCalico = False"
definition DefaultEgressPort :: int where "DefaultEgressPort = 5555"
definition DefaultRegisterFromMain :: bool where "DefaultRegisterFromMain = False"
definition DefaultEnableIPAM :: bool where "DefaultEnableIPAM = True"
definition DefaultEnableEgress :: bool where "DefaultEnableEgress = True"
definition DefaultAddressBlockGCInterval :: int where "DefaultAddressBlockGCInterval = 5 * 60 * 10 ^ 9"
definition DefaultEnableCertRotation :: bool where "DefaultEnableCertRotation = False"
definition DefaultEnableRestartOnCertRefresh :: bool where "DefaultEnableRestartOnCertRefresh = False"
definition DefaultEgressBackend :: string where "DefaultEgressBackend = EgressBackendIPTables"
definition DefaultOriginatingOnly :: bool where "DefaultOriginatingOnly = False"
definition DefaultClearRoutesOnShutdown :: bool where "DefaultClearRoutesOnShutdown = False"

definition config_Parse :: Config where
  "config_Parse = \<lparr>cf_MetricsAddr = DefautlMetricsAddr, cf_HealthAddr = DefautlHealthAddr, cf_PodTableId = DefautlPodTableId, cf_PodRulePrio = DefautlPodRulePrio,
     cf_ExportTableId = DefautlExportTableId, cf_ProtocolId = DefautlProtocolId, cf_SocketPath = DefaultSocketPath, cf_CompatCalico = DefaultCompatCalico,
     cf_EgressPort = DefaultEgressPort, cf_RegisterFromMain = DefaultRegisterFromMain, cf_EnableIPAM = DefaultEnableIPAM, cf_EnableEgress = DefaultEnableEgress,
     cf_AddressBlockGCInterval = DefaultAddressBlockGCInterval, cf_Backend = DefaultEgressBackend, cf_OriginatingOnly = DefaultOriginatingOnly,
     cf_ClearRoutesOnShutdown = DefaultClearRoutesOnShutdown\<rparr>"

definition egress_flags :: egress_config where
  "egress_flags = \<lparr>ec_metricsAddr = '':8080'', ec_healthAddr = '':8081'', ec_port = 5555, ec_enableSportAuto = False, ec_backend = DefaultEgressBackend\<rparr>"

record ipam_config =
  ic_metricsAddr :: string
  ic_healthAddr :: string
  ic_webhookAddr :: string
  ic_certDir :: string
  ic_gcInterval :: int
  ic_enableCertRotation :: bool
  ic_enableRestartOnCertRefresh :: bool

definition ipam_flags :: ipam_config where
  "ipam_flags = \<lparr>ic_metricsAddr = '':9386'', ic_healthAddr = '':9387'', ic_webhookAddr = '':9443'', ic_certDir = ''/certs'', ic_gcInterval = 3600 * 10 ^ 9,
     ic_enableCertRotation = DefaultEnableCertRotation, ic_enableRestartOnCertRefresh = DefaultEnableRestartOnCertRefresh\<rparr>"

record egressctl_config =
  xc_metricsAddr :: string
  xc_healthAddr :: string
  xc_webhookAddr :: string
  xc_certDir :: string
  xc_egressPort :: int
  xc_backend :: string
  xc_enableCertRotation :: bool
  xc_enableRestartOnCertRefresh :: bool

definition egressctl_flags :: egressctl_config where
  "egressctl_flags = \<lparr>xc_metricsAddr = '':9396'', xc_healthAddr = '':9397'', xc_webhookAddr = '':9444'', xc_certDir = ''/certs'', xc_egressPort = 5555,
     xc_backend = DefaultEgressBackend, xc_enableCertRotation = DefaultEnableCertRotation, xc_enableRestartOnCertRefresh = DefaultEnableRestartOnCertRefresh\<rparr>"

record router_config =
  rc_metricsAddr :: string
  rc_healthAddr :: string
  rc_protocolId :: int
  rc_updateInterval :: int

definition router_flags :: router_config where
  "router_flags = \<lparr>rc_metricsAddr = '':9388'', rc_healthAddr = '':9389'', rc_protocolId = 31, rc_updateInterval = 600 * 10 ^ 9\<rparr>"

definition gracefulTimeout :: int where "gracefulTimeout = 20 * 10 ^ 9"

definition webhook_server :: "string \<Rightarrow> int \<Rightarrow> string \<Rightarrow> webhook_options" where
  "webhook_server host port certDir = (let reloader = (NewReloader certDir :: unit Reloader) in
     \<lparr>wo_Host = host, wo_Port = port, wo_certPath = rl_certPath reloader, wo_keyPath = rl_keyPath reloader\<rparr>)"

subsection \<open>coil-ipam-controller\<close>

definition ipam_manager_options :: "ipam_config \<Rightarrow> string \<Rightarrow> int \<Rightarrow> manager_options" where
  "ipam_manager_options config host port = \<lparr>mo_LeaderElection = True, mo_LeaderElectionID = ''coil-ipam-leader'', mo_LeaderElectionNamespace = ''kube-system'',
     mo_MetricsAddr = ic_metricsAddr config, mo_GracefulShutdownTimeout = gracefulTimeout, mo_HealthProbeBindAddress = ic_healthAddr config,
     mo_WebhookServer = Some (webhook_server host port (ic_certDir config))\<rparr>"

definition ipam_setupManager :: "'w manager_ops \<Rightarrow> ipam_config \<Rightarrow> ('w, unit) act" where
  "ipam_setupManager M config =
     bindA (AddressPool_SetupWithManager M) (\<lambda>_.
     bindA (SetupIndexForAddressBlock M) (\<lambda>_.
     bindA (BlockRequest_SetupWithManager M) (\<lambda>_.
     bindA (AddressPool_SetupWebhookWithManager M) (\<lambda>_.
     mg_Add M (GarbageCollector (ic_gcInterval config))))))"

definition ipam_subMain :: "'w manager_ops \<Rightarrow> ipam_config \<Rightarrow> ('w, unit) act" where
  "ipam_subMain M config =
     bindA (wrapA ''invalid webhook address'' (resA (SplitHostPort (ic_webhookAddr config)))) (\<lambda>(host, portStr).
     bindA (wrapA ''invalid webhook address'' (resA (Atoi portStr))) (\<lambda>port.
     bindA (mg_NewManager M (ipam_manager_options config host port)) (\<lambda>_.
     bindA (mg_AddHealthzCheck M ''ping'' Ping) (\<lambda>_.
     bindA (mg_AddReadyzCheck M ''ping'' Ping) (\<lambda>_.
     bindA (if ic_enableCertRotation config
            then wrapA ''failed to setup Rotator'' (SetupRotator M ''ipam'' (ic_enableRestartOnCertRefresh config) (ic_certDir config))
            else returnA ()) (\<lambda>_.
     bindA (mg_AddReadyzCheck M ''webhook'' WebhookStarted) (\<lambda>_.
     bindA (ipam_setupManager M config) (\<lambda>_.
     mg_Start M))))))))"

subsection \<open>coil-egress-controller\<close>

definition egressctl_PreRunE :: "egressctl_config \<Rightarrow> unit res" where
  "egressctl_PreRunE config =
     (if xc_backend config \<noteq> EgressBackendIPTables \<and> xc_backend config \<noteq> EgressBackendNFTables
      then Err (ErrorMsg (''invalid backend: '' @ xc_backend config @ '' (must be either '' @ EgressBackendIPTables @ '' or '' @ EgressBackendNFTables @ '')''))
      else Ok ())"

definition egressctl_manager_options :: "egressctl_config \<Rightarrow> string \<Rightarrow> int \<Rightarrow> manager_options" where
  "egressctl_manager_options config host port = \<lparr>mo_LeaderElection = True, mo_LeaderElectionID = ''coil-egress-leader'', mo_LeaderElectionNamespace = ''kube-system'',
     mo_MetricsAddr = xc_metricsAddr config, mo_GracefulShutdownTimeout = gracefulTimeout, mo_HealthProbeBindAddress = xc_healthAddr config,
     mo_WebhookServer = Some (webhook_server host port (xc_certDir config))\<rparr>"

definition egressctl_setupManager :: "'w manager_ops \<Rightarrow> 'w egress_kube \<Rightarrow> (string \<Rightarrow> string) \<Rightarrow> egressctl_config \<Rightarrow> ('w, unit) act" where
  "egressctl_setupManager M K getenv config =
     bindA (GetImage K (getenv EnvPodNamespace) (getenv EnvPodName)) (\<lambda>img.
     bindA (Egress_SetupWithManager M \<lparr>er_Image = img, er_Port = xc_egressPort config, er_Backend = xc_backend config\<rparr>) (\<lambda>_.
     bindA (SetupCRBReconciler M) (\<lambda>_.
     Egress_SetupWebhookWithManager M)))"

definition egressctl_subMain :: "'w manager_ops \<Rightarrow> 'w egress_kube \<Rightarrow> (string \<Rightarrow> string) \<Rightarrow> egressctl_config \<Rightarrow> ('w, unit) act" where
  "egressctl_subMain M K getenv config =
     bindA (wrapA ''invalid webhook address'' (resA (SplitHostPort (xc_webhookAddr config)))) (\<lambda>(host, portStr).
     bindA (wrapA ''invalid webhook address'' (resA (Atoi portStr))) (\<lambda>port.
     bindA (mg_NewManager M (egressctl_manager_options config host port)) (\<lambda>_.
     bindA (mg_AddHealthzCheck M ''ping'' Ping) (\<lambda>_.
     bindA (mg_AddReadyzCheck M ''ping'' Ping) (\<lambda>_.
     bindA (if xc_enableCertRotation config
            then wrapA ''failed to setup Rotator'' (SetupRotator M ''egress'' (xc_enableRestartOnCertRefresh config) (xc_certDir config))
            else returnA ()) (\<lambda>_.
     bindA (mg_AddReadyzCheck M ''webhook'' WebhookStarted) (\<lambda>_.
     bindA (egressctl_setupManager M K getenv config) (\<lambda>_.
     mg_Start M))))))))"

subsection \<open>coil-router\<close>

definition router_gracefulTimeout :: int where "router_gracefulTimeout = 5 * 10 ^ 9"

definition router_manager_options :: "router_config \<Rightarrow> manager_options" where
  "router_manager_options config = \<lparr>mo_LeaderElection = False, mo_LeaderElectionID = [], mo_LeaderElectionNamespace = [], mo_MetricsAddr = rc_metricsAddr config,
     mo_GracefulShutdownTimeout = router_gracefulTimeout, mo_HealthProbeBindAddress = rc_healthAddr config, mo_WebhookServer = None\<rparr>"

definition router_subMain :: "'w manager_ops \<Rightarrow> (string \<Rightarrow> string) \<Rightarrow> router_config \<Rightarrow> ('w, unit) act" where
  "router_subMain M getenv config =
     (let nodeName = getenv EnvNode in
      if nodeName = [] then errA (ErrorMsg (EnvNode @ '' environment variable must be set''))
      else
        bindA (mg_NewManager M (router_manager_options config)) (\<lambda>_.
        bindA (mg_AddHealthzCheck M ''ping'' Ping) (\<lambda>_.
        bindA (mg_AddReadyzCheck M ''ping'' Ping) (\<lambda>_.
        bindA (AddressBlock_SetupWithManager M) (\<lambda>_.
        bindA (mg_Add M (RouterR nodeName (rc_protocolId config) (rc_updateInterval config))) (\<lambda>_.
        mg_Start M))))))"

text \<open>Which runners wait for the leader.\<close>

definition garbageCollector_NeedLeaderElection :: bool where "garbageCollector_NeedLeaderElection = True"
definition router_NeedLeaderElection :: bool where "router_NeedLeaderElection = False"
definition coildServer_NeedLeaderElection :: bool where "coildServer_NeedLeaderElection = False"

text \<open>The directory of the network namespaces, which the pod network gets as its parameter \<open>pe_NsRunDir\<close>: \<open>owner\<close> is the owner of \<open>/var/run\<close> when it can be read.\<close>

definition getNsRunDir :: "(string \<Rightarrow> string) \<Rightarrow> int option \<Rightarrow> int \<Rightarrow> string" where
  "getNsRunDir getenv owner euid =
     (let xdgRuntimeDir = getenv ''XDG_RUNTIME_DIR'' in
      if xdgRuntimeDir \<noteq> [] then (case owner of Some uid \<Rightarrow> if uid \<noteq> euid then path_join xdgRuntimeDir ''netns'' else ''/var/run/netns'' | None \<Rightarrow> ''/var/run/netns'')
      else ''/var/run/netns'')"

section \<open>Addresses\<close>

lemma IndexByte_None: "IndexByte s c = None \<longleftrightarrow> c \<notin> set s"
  by (induction s) auto

lemma IndexByte_first: "c \<notin> set s \<Longrightarrow> IndexByte (s @ c # t) c = Some (length s)"
  by (induction s) auto

text \<open>An address without brackets splits at its colon.\<close>

lemma SplitHostPort_plain:
  assumes "CHR '':'' \<notin> set host" "CHR '':'' \<notin> set port" "{CHR ''['', CHR '']''} \<inter> (set host \<union> set port) = {}"
  shows "SplitHostPort (host @ CHR '':'' # port) = Ok (host, port)"
proof -
  have "IndexByte (rev port @ CHR '':'' # rev host) (CHR '':'') = Some (length (rev port))" using assms(2) by (intro IndexByte_first) simp
  then have "LastIndexByte (host @ CHR '':'' # port) (CHR '':'') = Some (length host)" by (simp add: LastIndexByte_def)
  moreover have "(host @ CHR '':'' # port) ! 0 \<noteq> CHR ''[''" using assms(3) by (cases host) auto
  ultimately show ?thesis using assms by (simp add: SplitHostPort_def Let_def)
qed

lemma Atoi_itoa: "n < 2 ^ 63 \<Longrightarrow> Atoi (itoa n) = Ok (int n)"
proof -
  assume n: "n < 2 ^ 63"
  have "isdigit (hd (itoa n))" using itoa_digits [of "hd (itoa n)" n] by simp
  then have "hd (itoa n) \<noteq> CHR ''-''" "hd (itoa n) \<noteq> CHR ''+''" by (auto simp: isdigit_def)
  then show ?thesis using n by (simp add: Atoi_def Let_def list_all_iff itoa_digits)
qed

section \<open>A process that starts is complete\<close>

definition ipam_script :: "ipam_config \<Rightarrow> string \<Rightarrow> int \<Rightarrow> registration list" where
  "ipam_script config host port = [RegManager (ipam_manager_options config host port), RegHealthz ''ping'' Ping, RegReadyz ''ping'' Ping] @
     (if ic_enableCertRotation config then [RegRotator (cert_rotator ''ipam'' (ic_enableRestartOnCertRefresh config) (ic_certDir config))] else []) @
     [RegReadyz ''webhook'' WebhookStarted,
      RegController \<lparr>ct_For = ''AddressPool'', ct_ForPredicate = every_event, ct_Owns = [(''AddressBlock'', only_deletes)], ct_Reconciler = AddressPoolReconciler\<rparr>,
      RegIndex ''AddressBlock'' AddressBlockRequestKey request_index,
      RegController \<lparr>ct_For = ''BlockRequest'', ct_ForPredicate = BlockRequest_predicate, ct_Owns = [], ct_Reconciler = BlockRequestReconciler\<rparr>,
      RegWebhook ''AddressPool'', RegRunnable (GarbageCollector (ic_gcInterval config))]"

lemma wrapA_Ok: "wrapA t (resA (Ok x)) = returnA x"
  by (simp add: wrapA_def resA_def returnA_def fun_eq_iff)

lemmas setup_defs = ipam_setupManager_def egressctl_setupManager_def AddressPool_SetupWithManager_def SetupIndexForAddressBlock_def BlockRequest_SetupWithManager_def
  AddressPool_SetupWebhookWithManager_def SetupRotator_def Egress_SetupWithManager_def SetupCRBReconciler_def Egress_SetupWebhookWithManager_def AddressBlock_SetupWithManager_def

lemma scripted_eq: "scripted reg xs m \<Longrightarrow> xs = ys \<Longrightarrow> scripted reg ys m"
  by simp

lemma ipam_scripted:
  assumes "manager_laws reg M" and "SplitHostPort (ic_webhookAddr config) = Ok (host, portStr)" and "Atoi portStr = Ok port"
  shows "scripted reg (ipam_script config host port @ [RegStart]) (ipam_subMain M config)"
  unfolding ipam_subMain_def setup_defs assms(2) wrapA_Ok bindA_returnA case_prod_conv assms(3)
  by (rule scripted_eq) (rule script_intros scripted_laws [OF assms(1)] | simp add: ipam_script_def)+

definition egressctl_script :: "egressctl_config \<Rightarrow> string \<Rightarrow> int \<Rightarrow> string \<Rightarrow> registration list" where
  "egressctl_script config host port img = [RegManager (egressctl_manager_options config host port), RegHealthz ''ping'' Ping, RegReadyz ''ping'' Ping] @
     (if xc_enableCertRotation config then [RegRotator (cert_rotator ''egress'' (xc_enableRestartOnCertRefresh config) (xc_certDir config))] else []) @
     [RegReadyz ''webhook'' WebhookStarted,
      RegController \<lparr>ct_For = ''Egress'', ct_ForPredicate = every_event, ct_Owns = [(''Deployment'', every_event), (''Service'', every_event), (''PodDisruptionBudget'', every_event)],
        ct_Reconciler = EgressReconcilerR \<lparr>er_Image = img, er_Port = xc_egressPort config, er_Backend = xc_backend config\<rparr>\<rparr>,
      RegController \<lparr>ct_For = ''ClusterRoleBinding'', ct_ForPredicate = NewPredicateFuncs crb_filter, ct_Owns = [], ct_Reconciler = CRBReconciler\<rparr>, RegWebhook ''Egress'']"

lemma scripted_value:
  assumes "leaves reg m" and "\<And>w x w'. m w = (Ok x, w') \<Longrightarrow> x = v" and "scripted reg ys (k v)"
  shows "scripted reg ys (bindA m k)"
proof -
  have "bindA m k = bindA m (\<lambda>_. k v)" using assms(2) by (auto simp: fun_eq_iff bindA_def split: prod.splits res.splits)
  then show ?thesis using scripted_bindA [OF scripted_leaves [OF assms(1)] assms(3)] by simp
qed

text \<open>The image of the pod does not change while it runs.\<close>

lemma egressctl_scripted:
  assumes "manager_laws reg M" and "SplitHostPort (xc_webhookAddr config) = Ok (host, portStr)" and "Atoi portStr = Ok port"
    and "leaves reg (GetImage K (getenv EnvPodNamespace) (getenv EnvPodName))"
    and "\<And>w x w'. GetImage K (getenv EnvPodNamespace) (getenv EnvPodName) w = (Ok x, w') \<Longrightarrow> x = img"
  shows "scripted reg (egressctl_script config host port img @ [RegStart]) (egressctl_subMain M K getenv config)"
  unfolding egressctl_subMain_def setup_defs assms(2) wrapA_Ok bindA_returnA case_prod_conv assms(3)
  by (rule scripted_eq) (rule scripted_value [OF assms(4,5)] script_intros scripted_laws [OF assms(1)] | simp add: egressctl_script_def)+

definition router_script :: "router_config \<Rightarrow> string \<Rightarrow> registration list" where
  "router_script config nodeName = [RegManager (router_manager_options config), RegHealthz ''ping'' Ping, RegReadyz ''ping'' Ping,
     RegController \<lparr>ct_For = ''AddressBlock'', ct_ForPredicate = every_event, ct_Owns = [], ct_Reconciler = AddressBlockReconciler\<rparr>,
     RegRunnable (RouterR nodeName (rc_protocolId config) (rc_updateInterval config))]"

lemma router_scripted:
  assumes "manager_laws reg M" and "getenv EnvNode \<noteq> []"
  shows "scripted reg (router_script config (getenv EnvNode) @ [RegStart]) (router_subMain M getenv config)"
  unfolding router_subMain_def Let_def setup_defs if_not_P [OF assms(2)]
  by (rule scripted_eq) (rule script_intros scripted_laws [OF assms(1)] | simp add: router_script_def)+


lemma script_no_start: "RegStart \<notin> set (ipam_script c h p)" "RegStart \<notin> set (egressctl_script c' h p img)" "RegStart \<notin> set (router_script c'' n)"
  by (simp_all add: ipam_script_def egressctl_script_def router_script_def)

lemma egressctl_complete:
  assumes "manager_laws reg M" and "SplitHostPort (xc_webhookAddr config) = Ok (host, portStr)" and "Atoi portStr = Ok port"
    and "leaves reg (GetImage K (getenv EnvPodNamespace) (getenv EnvPodName))"
    and "\<And>w x w'. GetImage K (getenv EnvPodNamespace) (getenv EnvPodName) w = (Ok x, w') \<Longrightarrow> x = img"
    and "egressctl_subMain M K getenv config w = (r, w')"
  shows "\<exists>ys. reg w' = reg w @ ys \<and> (RegStart \<in> set ys \<or> (\<exists>x. r = Ok x) \<longrightarrow> ys = egressctl_script config host port img @ [RegStart])"
  by (rule scripted_complete [OF egressctl_scripted [OF assms(1-5)] script_no_start(2) assms(6)])

lemma router_complete:
  assumes "manager_laws reg M" and "getenv EnvNode \<noteq> []" and "router_subMain M getenv config w = (r, w')"
  shows "\<exists>ys. reg w' = reg w @ ys \<and> (RegStart \<in> set ys \<or> (\<exists>x. r = Ok x) \<longrightarrow> ys = router_script config (getenv EnvNode) @ [RegStart])"
  by (rule scripted_complete [OF router_scripted [where getenv = getenv, OF assms(1,2)] script_no_start(3) assms(3)])

text \<open>
  A controller process never runs half-registered: when \<open>coil-ipam-controller\<close> gets as far as starting its manager, it has registered its health checks, the rotator of
  certificates when it is enabled, the check that the webhook server answers, the two reconcilers, the index between them, the webhook and the garbage collector,
  in this order and nothing else; when a registration fails, the process ends without starting.
\<close>

lemma ipam_controller_complete:
  assumes "manager_laws reg M" and "SplitHostPort (ic_webhookAddr config) = Ok (host, portStr)" and "Atoi portStr = Ok port" and "ipam_subMain M config w = (r, w')"
  shows "\<exists>ys. reg w' = reg w @ ys \<and> (RegStart \<in> set ys \<or> (\<exists>x. r = Ok x) \<longrightarrow> ys = ipam_script config host port @ [RegStart])"
  by (rule scripted_complete [OF ipam_scripted [OF assms(1-3)] script_no_start(1) assms(4)])

text \<open>A manager that only keeps what is registered.\<close>

definition ref_manager :: "registration list manager_ops" where
  "ref_manager = (let put = (\<lambda>x. modifyA (\<lambda>xs. xs @ [x])) in
     \<lparr>mg_NewManager = (\<lambda>x. put (RegManager x)), mg_AddHealthzCheck = (\<lambda>n c. put (RegHealthz n c)), mg_AddReadyzCheck = (\<lambda>n c. put (RegReadyz n c)),
      mg_Complete = (\<lambda>x. put (RegController x)), mg_CompleteWebhook = (\<lambda>x. put (RegWebhook x)), mg_IndexField = (\<lambda>k n f. put (RegIndex k n f)),
      mg_AddRotator = (\<lambda>x. put (RegRotator x)), mg_Add = (\<lambda>x. put (RegRunnable x)), mg_Start = put RegStart\<rparr>)"

lemma ref_manager_laws: "manager_laws (\<lambda>w. w) ref_manager"
  by (simp add: manager_laws_def logs_def ref_manager_def modifyA_def Let_def)

lemma ipam_controller_complete_witness:
  "snd (ipam_subMain ref_manager ipam_flags []) = ipam_script ipam_flags [] 9443 @ [RegStart]"
proof -
  obtain r w' where run: "ipam_subMain ref_manager ipam_flags [] = (r, w')" by (cases "ipam_subMain ref_manager ipam_flags []")
  have addr: "SplitHostPort (ic_webhookAddr ipam_flags) = Ok ([], ''9443'')" "Atoi ''9443'' = Ok 9443" by code_simp+
  have "\<not> ic_enableCertRotation ipam_flags" by (simp add: ipam_flags_def DefaultEnableCertRotation_def)
  then have "wp (ipam_subMain ref_manager ipam_flags) (\<lambda>_ _. True) (\<lambda>_ _. False) []"
    by (simp add: ipam_subMain_def setup_defs addr wp_simps ref_manager_def Let_def)
  then have "\<exists>x. r = Ok x" using run by (cases r) (simp_all add: wp_def)
  then show ?thesis using ipam_controller_complete [OF ref_manager_laws addr run] run by auto
qed

end
