(* ===== verification/Logging.thy ===== *)
theory Logging
  imports Coild_Server
begin

text \<open>
  The logging of the calls of \<open>coild\<close>, at the end of \<open>runners/coild_server.go\<close>: the fields of a request, their conversion for the logger zap, and the choice of the level.
  A list of fields alternates keys and values; the conversion panics on an odd list and on a key that is no string, and the fields the server makes are never so.
\<close>

section \<open>The program\<close>

datatype any = AString string | AInt int | ABool bool | AOther nat

datatype zap_field = ZapString string string | ZapInt string int | ZapBool string bool | ZapAny string nat

fun zap_field_of :: "string \<Rightarrow> any \<Rightarrow> zap_field" where
  "zap_field_of key (AString v) = ZapString key v"
| "zap_field_of key (AInt v) = ZapInt key v"
| "zap_field_of key (ABool v) = ZapBool key v"
| "zap_field_of key (AOther v) = ZapAny key v"

fun toZapFields :: "any list \<Rightarrow> zap_field list res" where
  "toZapFields [] = Ok []"
| "toZapFields [_] = Panic ''index out of range''"
| "toZapFields (k # v # fs) = (case k of
       AString key \<Rightarrow> bindR (toZapFields fs) (\<lambda>zfs. Ok (zap_field_of key v # zfs))
     | _ \<Rightarrow> Panic ''interface conversion'')"

text \<open>The request of a call: arguments of the plugin or a message of another type.\<close>

datatype grpc_request = ReqCNIArgs CNIArgs | ReqOther

definition loggingFields :: "grpc_request option \<Rightarrow> any list" where
  "loggingFields req = (case req of
       Some (ReqCNIArgs args) \<Rightarrow>
         (case glookup (ca_Args args) PodNameKey of Some name \<Rightarrow> [AString ''grpc.request.pod.name'', AString name] | None \<Rightarrow> []) @
         (case glookup (ca_Args args) PodNamespaceKey of Some namespace \<Rightarrow> [AString ''grpc.request.pod.namespace'', AString namespace] | None \<Rightarrow> []) @
         [AString ''grpc.request.netns'', AString (ca_Netns args)] @
         [AString ''grpc.request.ifname'', AString (ca_Ifname args)] @
         [AString ''grpc.request.container_id'', AString (ca_ContainerId args)]
     | _ \<Rightarrow> [])"

text \<open>A level of the middleware, another one with its text, and the method of zap that is called.\<close>

datatype log_level = LevelDebug | LevelInfo | LevelWarn | LevelError | LevelOther string

datatype zap_call = ZapDebug string "zap_field list" | ZapInfo string "zap_field list" | ZapWarn string "zap_field list" | ZapError string "zap_field list"

definition InterceptorLogger :: "log_level \<Rightarrow> string \<Rightarrow> any list \<Rightarrow> zap_call res" where
  "InterceptorLogger lvl msg fs = bindR (toZapFields fs) (\<lambda>zfs. Ok (case lvl of
       LevelDebug \<Rightarrow> ZapDebug msg zfs
     | LevelInfo \<Rightarrow> ZapInfo msg zfs
     | LevelWarn \<Rightarrow> ZapWarn msg zfs
     | LevelError \<Rightarrow> ZapError msg zfs
     | LevelOther l \<Rightarrow> ZapWarn (''unknown level '' @ l @ '', msg: '' @ msg) zfs))"

section \<open>Facts\<close>

fun well_paired :: "any list \<Rightarrow> bool" where
  "well_paired [] = True"
| "well_paired [_] = False"
| "well_paired (k # v # fs) = ((\<exists>key. k = AString key) \<and> well_paired fs)"

lemma toZapFields_total: "well_paired fs \<longleftrightarrow> (\<exists>zfs. toZapFields fs = Ok zfs)"
proof (induction fs rule: well_paired.induct)
  case (3 k v fs)
  then show ?case by (cases k; cases "toZapFields fs") auto
qed auto

text \<open>Logging a call never brings the server down.\<close>

lemma logging_never_panics: "\<exists>call. InterceptorLogger lvl msg (loggingFields req) = Ok call"
proof -
  have "well_paired (loggingFields req)" by (simp add: loggingFields_def split: option.splits grpc_request.splits)
  then show ?thesis using toZapFields_total [of "loggingFields req"] by (auto simp: InterceptorLogger_def)
qed

end
