(* ===== verification/Gencert.thy ===== *)
theory Gencert
  imports Go_Std Cert_Installer
begin

text \<open>
  The generator of certificates for development, \<open>cmd/gencert/main.go\<close>. The packages \<open>crypto/rsa\<close>, \<open>crypto/x509\<close> and \<open>encoding/pem\<close> and the calls of the operating
  system are parameters, over certificates \<open>'c\<close> and keys \<open>'k\<close>; \<open>log.Fatal\<close> ends the process and is an error. The names of the certificate are the host and its
  shorter forms; nothing is written before the certificate and the key exist, and a key that is not PEM makes the process panic.
\<close>

section \<open>The program\<close>

record gencert_flags =
  gf_host :: string
  gf_validFor :: int
  gf_outDir :: string
  gf_commonName :: string
  gf_outCert :: string
  gf_outKey :: string
  gf_authority :: string
  gf_authorityKey :: string

definition gencert_defaults :: gencert_flags where
  "gencert_defaults = \<lparr>gf_host = ''coilv2-webhook-service.kube-system.svc'', gf_validFor = 36500 * 24 * 3600 * 10 ^ 9, gf_outDir = ''.'',
     gf_commonName = ''coilv2-webhook-service'', gf_outCert = ''cert.pem'', gf_outKey = ''key.pem'', gf_authority = [], gf_authorityKey = []\<rparr>"

datatype key_usage = KeyUsageDigitalSignature | KeyUsageKeyEncipherment | KeyUsageCertSign

datatype ext_key_usage = ExtKeyUsageServerAuth | ExtKeyUsageClientAuth

record cert_template =
  tp_SerialNumber :: int
  tp_CommonName :: string
  tp_NotBefore :: int
  tp_NotAfter :: int
  tp_KeyUsage :: "key_usage list"
  tp_ExtKeyUsage :: "ext_key_usage list"
  tp_IsCA :: bool
  tp_DNSNames :: "string list"

text \<open>The parent of a certificate: an authority that was read, or the template itself.\<close>

datatype 'c parent = Authority 'c | SelfSigned

datatype 'k any_key = RSAKey 'k | OtherKey

record ('w, 'c, 'k) gencert_ops =
  gc_ReadFile :: "string \<Rightarrow> ('w, string) act"
  gc_pemDecode :: "string \<Rightarrow> string option"
  gc_ParseCertificate :: "string \<Rightarrow> 'c res"
  gc_ParsePKCS8PrivateKey :: "string \<Rightarrow> 'k any_key res"
  gc_GenerateKey :: "nat \<Rightarrow> ('w, 'k) act"
  gc_Now :: "('w, int) act"
  gc_CreateCertificate :: "cert_template \<Rightarrow> 'c parent \<Rightarrow> 'k \<Rightarrow> ('w, string) act"
  gc_MarshalPKCS8PrivateKey :: "'k \<Rightarrow> string res"
  gc_Stat :: "string \<Rightarrow> ('w, unit) act"
  gc_IsNotExist :: "error \<Rightarrow> bool"
  gc_MkdirAll :: "string \<Rightarrow> ('w, unit) act"
  gc_OpenFile :: "string \<Rightarrow> nat \<Rightarrow> ('w, unit) act"
  gc_pemEncode :: "string \<Rightarrow> string \<Rightarrow> string \<Rightarrow> ('w, unit) act"
  gc_Sync :: "string \<Rightarrow> ('w, unit) act"

definition dnsAliases :: "string \<Rightarrow> string list" where
  "dnsAliases host = (let parts = splitc (CHR ''.'') host in map (\<lambda>i. joinc (CHR ''.'') (take (length parts - i) parts)) [0..<length parts])"

text \<open>A block that is not PEM is a nil pointer.\<close>

definition pem_bytes :: "('w, 'c, 'k) gencert_ops \<Rightarrow> string \<Rightarrow> ('w, string) act" where
  "pem_bytes G data = (case gc_pemDecode G data of Some b \<Rightarrow> returnA b | None \<Rightarrow> panicA ''nil pointer dereference'')"

definition readCA :: "('w, 'c, 'k) gencert_ops \<Rightarrow> string \<Rightarrow> string \<Rightarrow> ('w, 'c \<times> 'k) act" where
  "readCA G certPath keyPath =
     bindA (wrapA (''error reading file '' @ certPath) (gc_ReadFile G certPath)) (\<lambda>certFile.
     bindA (pem_bytes G certFile) (\<lambda>caData.
     bindA (resA (gc_ParseCertificate G caData)) (\<lambda>ca.
     bindA (gc_ReadFile G keyPath) (\<lambda>keyFile.
     bindA (pem_bytes G keyFile) (\<lambda>cakData.
     bindA (resA (gc_ParsePKCS8PrivateKey G cakData)) (\<lambda>key.
     case key of
       RSAKey privateKey \<Rightarrow> returnA (ca, privateKey)
     | OtherKey \<Rightarrow> errA (ErrorMsg ''type assertion error - object is not of type *rsa.PrivateKey'')))))))"

definition outputPEM :: "('w, 'c, 'k) gencert_ops \<Rightarrow> string \<Rightarrow> string \<Rightarrow> string \<Rightarrow> ('w, unit) act" where
  "outputPEM G fname pemType data =
     bindA (wrapA (''failed to open '' @ fname) (gc_OpenFile G fname 384)) (\<lambda>_.
     bindA (wrapA ''failed to encode'' (gc_pemEncode G fname pemType data)) (\<lambda>_.
     wrapA ''failed to fsync'' (gc_Sync G fname)))"

definition new_template :: "gencert_flags \<Rightarrow> bool \<Rightarrow> int \<Rightarrow> cert_template" where
  "new_template f isCA notBefore = \<lparr>tp_SerialNumber = 1, tp_CommonName = gf_commonName f, tp_NotBefore = notBefore, tp_NotAfter = notBefore + gf_validFor f,
     tp_KeyUsage = (if isCA then [KeyUsageDigitalSignature, KeyUsageCertSign] else [KeyUsageDigitalSignature, KeyUsageKeyEncipherment]),
     tp_ExtKeyUsage = (if isCA then [ExtKeyUsageServerAuth, ExtKeyUsageClientAuth] else [ExtKeyUsageServerAuth]), tp_IsCA = isCA, tp_DNSNames = dnsAliases (gf_host f)\<rparr>"

definition prepare_outDir :: "('w, 'c, 'k) gencert_ops \<Rightarrow> string \<Rightarrow> ('w, unit) act" where
  "prepare_outDir G dir =
     bindA (tryA (gc_Stat G dir)) (\<lambda>r. case r of
       Inr _ \<Rightarrow> returnA ()
     | Inl e \<Rightarrow> if gc_IsNotExist G e then wrapA ''failed to create output directory'' (gc_MkdirAll G dir)
         else errA (Wrap (''stat '' @ dir @ '' failed'') [e]))"

text \<open>\<open>filepath.Join\<close> for a clean directory and a name in it.\<close>

definition join_clean :: "string \<Rightarrow> string \<Rightarrow> string" where
  "join_clean dir name = (if dir = [] \<or> dir = ''.'' then name else path_join dir name)"

text \<open>The certificate and the key, before anything is written.\<close>

definition gencert_material :: "('w, 'c, 'k) gencert_ops \<Rightarrow> gencert_flags \<Rightarrow> ('w, string \<times> string) act" where
  "gencert_material G f =
     bindA (if gf_authority f \<noteq> []
            then bindA (readCA G (join_clean (gf_outDir f) (gf_authority f)) (join_clean (gf_outDir f) (gf_authorityKey f))) (\<lambda>(ca, priv). returnA (Some ca, priv))
            else bindA (gc_GenerateKey G 4096) (\<lambda>priv. returnA (None, priv))) (\<lambda>(ca, priv).
     bindA (gc_Now G) (\<lambda>notBefore.
     bindA (wrapA ''failed to create certificate'' (gc_CreateCertificate G (new_template f (ca = None) notBefore)
         (case ca of None \<Rightarrow> SelfSigned | Some c \<Rightarrow> Authority c) priv)) (\<lambda>certBytes.
     bindA (prepare_outDir G (gf_outDir f)) (\<lambda>_.
     bindA (wrapA ''failed to marshal private key'' (resA (gc_MarshalPKCS8PrivateKey G priv))) (\<lambda>privBytes.
     returnA (certBytes, privBytes))))))"

definition gencert_main :: "('w, 'c, 'k) gencert_ops \<Rightarrow> gencert_flags \<Rightarrow> ('w, unit) act" where
  "gencert_main G f =
     bindA (gencert_material G f) (\<lambda>(certBytes, privBytes).
     bindA (outputPEM G (join_clean (gf_outDir f) (gf_outCert f)) ''CERTIFICATE'' certBytes) (\<lambda>_.
     outputPEM G (join_clean (gf_outDir f) (gf_outKey f)) ''PRIVATE KEY'' privBytes))"

section \<open>Facts\<close>

lemma dnsAliases_length: "length (dnsAliases host) = length (splitc (CHR ''.'') host)"
  by (simp add: dnsAliases_def Let_def)

text \<open>The first name is the host itself, the last one its first label.\<close>

lemma dnsAliases_ends: "hd (dnsAliases host) = host \<and> last (dnsAliases host) = hd (splitc (CHR ''.'') host)"
proof -
  let ?parts = "splitc (CHR ''.'') host"
  have ne: "0 < length ?parts" by simp
  then have "hd (dnsAliases host) = joinc (CHR ''.'') ?parts" by (simp add: dnsAliases_def Let_def hd_map upt_rec)
  moreover have "last (dnsAliases host) = joinc (CHR ''.'') (take 1 ?parts)" using ne by (simp add: dnsAliases_def Let_def last_map Suc_leI)
  moreover have "take 1 ?parts = [hd ?parts]" by (cases ?parts) simp_all
  ultimately show ?thesis by (simp add: joinc_splitc)
qed

text \<open>The calls before the output change no file.\<close>

definition makes_no_files :: "('w \<Rightarrow> 'v) \<Rightarrow> ('w, 'c, 'k) gencert_ops \<Rightarrow> bool" where
  "makes_no_files files G \<longleftrightarrow> (\<forall>p. leaves files (gc_ReadFile G p)) \<and> (\<forall>n. leaves files (gc_GenerateKey G n)) \<and> leaves files (gc_Now G) \<and>
     (\<forall>t p k. leaves files (gc_CreateCertificate G t p k)) \<and> (\<forall>d. leaves files (gc_Stat G d)) \<and> (\<forall>d. leaves files (gc_MkdirAll G d))"

lemma gencert_material_keeps:
  assumes "makes_no_files files G"
  shows "keeps (\<lambda>v. files v = X) (gencert_material G f)"
proof -
  let ?I = "\<lambda>v. files v = X"
  have leaf: "keeps ?I m" if "leaves files m" for m :: "('a, 'x) act" using leaves_keeps [OF that, of "\<lambda>v. v = X"] by simp
  have calls: "keeps ?I (gc_ReadFile G p)" "keeps ?I (gc_GenerateKey G n)" "keeps ?I (gc_Now G)" "keeps ?I (gc_CreateCertificate G t pa k)"
    "keeps ?I (gc_Stat G p)" "keeps ?I (gc_MkdirAll G p)" for p n t pa k
    using assms by (auto simp: makes_no_files_def intro: leaf)
  have key: "keeps ?I (case key of RSAKey k \<Rightarrow> returnA (ca, k) | OtherKey \<Rightarrow> errA e)" for key e and ca :: 'c
    by (cases key) (simp_all add: keeps_returnA keeps_errA)
  show ?thesis unfolding gencert_material_def readCA_def pem_bytes_def prepare_outDir_def by (intro keeps_intros calls key)
qed

text \<open>A generator that fails to make the certificate or to encode the key leaves all files as they were.\<close>

lemma gencert_failure_writes_nothing:
  assumes "makes_no_files files G" and "gencert_material G f w = (r, w1)" and "\<nexists>x. r = Ok x"
  shows "\<exists>r'. gencert_main G f w = (r', w1) \<and> files w1 = files w \<and> (\<nexists>x. r' = Ok x)"
proof -
  have "files w1 = files w" using gencert_material_keeps [OF assms(1), of "files w" f] assms(2) unfolding keeps_def by (metis snd_conv)
  then show ?thesis using assms(2,3) by (cases r) (auto simp: gencert_main_def bindA_def)
qed

end
